(* ===== verification/Bosun_Prelude.thy ===== *)
theory Bosun_Prelude
  imports
    Main
    "HOL-Library.Char_ord"
    "HOL-Library.List_Lexorder"
    "HOL-Library.AList"
    "HOL-Library.Multiset"
    "HOL-Library.Sublist"
    "HOL-Library.Word"
begin

text \<open>
  Shared vocabulary of the bosun development.

  \<^item> Fallible stateful code is a function from a state to a result (\<open>Inl\<close> the error,
    \<open>Inr\<close> the value) and the state it leaves behind, also on an error: Rust's \<open>?\<close> operator
    does not roll back what the code did before it.  \<open>ret\<close>, \<open>throw\<close>, \<open>bindE\<close>,
    \<open>map_err\<close> and \<open>attempt\<close> are its building blocks, and \<open>valid\<close> is the Hoare triple
    with one postcondition for the normal and one for the error result.
  \<^item> Strings are the byte strings of Rust's \<open>str\<close>; \<open>\<le>\<close> on them is the bytewise
    lexicographic order of \<open>Ord for str\<close>.
  \<^item> \<open>u16\<close>, \<open>u32\<close> and \<open>u64\<close> are words; \<open>saturating_add\<close> is the one of the
    standard library.
  \<^item> A \<open>HashMap\<close> or a directory is an association list with distinct keys, whose order
    is the iteration order.
\<close>

named_theorems prog_simps "unfolding of the program combinators"
named_theorems valid_rules "introduction rules for Hoare triples"

type_synonym u16 = "16 word"
type_synonym u32 = "32 word"
type_synonym u64 = "64 word"

section \<open>Programs with state and errors\<close>

type_synonym ('s, 'e, 'a) prog = "'s \<Rightarrow> ('e + 'a) \<times> 's"

definition ret :: "'a \<Rightarrow> ('s, 'e, 'a) prog" where
  "ret x = (\<lambda>s. (Inr x, s))"

definition throw :: "'e \<Rightarrow> ('s, 'e, 'a) prog" where
  "throw e = (\<lambda>s. (Inl e, s))"

definition bindE :: "('s, 'e, 'a) prog \<Rightarrow> ('a \<Rightarrow> ('s, 'e, 'b) prog) \<Rightarrow> ('s, 'e, 'b) prog" where
  "bindE m f = (\<lambda>s. case m s of (Inl e, s') \<Rightarrow> (Inl e, s') | (Inr x, s') \<Rightarrow> f x s')"

text \<open>The same for a plain \<open>Result\<close>, and \<open>map_err\<close>.\<close>

definition bindR :: "'e + 'a \<Rightarrow> ('a \<Rightarrow> 'e + 'b) \<Rightarrow> 'e + 'b" where
  "bindR r f = (case r of Inl e \<Rightarrow> Inl e | Inr x \<Rightarrow> f x)"

lemma bindR_simps [simp]: "bindR (Inl e) f = Inl e" "bindR (Inr x) f = f x"
  by (simp_all add: bindR_def)

definition map_err :: "('e \<Rightarrow> 'f) \<Rightarrow> ('s, 'e, 'a) prog \<Rightarrow> ('s, 'f, 'a) prog" where
  "map_err g m = (\<lambda>s. case m s of (Inl e, s') \<Rightarrow> (Inl (g e), s') | (Inr x, s') \<Rightarrow> (Inr x, s'))"

text \<open>Hand the result of a call to a \<open>match\<close>, instead of returning early on an error.\<close>

definition attempt :: "('s, 'e, 'a) prog \<Rightarrow> ('e + 'a \<Rightarrow> ('s, 'f, 'b) prog) \<Rightarrow> ('s, 'f, 'b) prog" where
  "attempt m f = (\<lambda>s. case m s of (r, s') \<Rightarrow> f r s')"

text \<open>Run a program from the state at hand and look at its result only.\<close>

definition result_of :: "('s, 'e, 'a) prog \<Rightarrow> 's \<Rightarrow> 'e + 'a" where
  "result_of m s = fst (m s)"

definition state_after :: "('s, 'e, 'a) prog \<Rightarrow> 's \<Rightarrow> 's" where
  "state_after m s = snd (m s)"

lemmas prog_defs = ret_def throw_def bindE_def map_err_def attempt_def

lemma ret_app [simp]: "ret x s = (Inr x, s)"
  by (simp add: ret_def)

lemma throw_app [simp]: "throw e s = (Inl e, s)"
  by (simp add: throw_def)

lemma bindE_Inr: "m s = (Inr x, s') \<Longrightarrow> bindE m f s = f x s'"
  by (simp add: bindE_def)

lemma bindE_Inl: "m s = (Inl e, s') \<Longrightarrow> bindE m f s = (Inl e, s')"
  by (simp add: bindE_def)

lemma bindE_ret [simp]: "bindE (ret x) f = f x"
  by (simp add: bindE_def fun_eq_iff)

lemma bindE_throw [simp]: "bindE (throw e) f = throw e"
  by (simp add: bindE_def fun_eq_iff)

lemma bindE_assoc: "bindE (bindE m f) g = bindE m (\<lambda>x. bindE (f x) g)"
  by (auto simp: bindE_def fun_eq_iff split: sum.splits prod.splits)

lemma bindE_eq_Inr:
  "bindE m f s = (Inr y, t) \<longleftrightarrow> (\<exists>x s'. m s = (Inr x, s') \<and> f x s' = (Inr y, t))"
  by (auto simp: bindE_def split: sum.splits prod.splits)

subsection \<open>Hoare triples\<close>

definition valid ::
  "('s \<Rightarrow> bool) \<Rightarrow> ('s, 'e, 'a) prog \<Rightarrow> ('a \<Rightarrow> 's \<Rightarrow> bool) \<Rightarrow> ('e \<Rightarrow> 's \<Rightarrow> bool) \<Rightarrow> bool"
  where
  "valid P m Q E \<longleftrightarrow>
     (\<forall>s. P s \<longrightarrow> (case m s of (Inr x, s') \<Rightarrow> Q x s' | (Inl e, s') \<Rightarrow> E e s'))"

text \<open>A program that keeps a property of the state, whatever it returns.\<close>

abbreviation keeps :: "('s \<Rightarrow> bool) \<Rightarrow> ('s, 'e, 'a) prog \<Rightarrow> bool" where
  "keeps P m \<equiv> valid P m (\<lambda>_. P) (\<lambda>_. P)"

lemma validI:
  assumes "\<And>s x s'. P s \<Longrightarrow> m s = (Inr x, s') \<Longrightarrow> Q x s'"
    and "\<And>s e s'. P s \<Longrightarrow> m s = (Inl e, s') \<Longrightarrow> E e s'"
  shows "valid P m Q E"
  using assms by (auto simp: valid_def split: sum.splits prod.splits)

lemma validD_Inr: "valid P m Q E \<Longrightarrow> P s \<Longrightarrow> m s = (Inr x, s') \<Longrightarrow> Q x s'"
  by (auto simp: valid_def dest: spec [of _ s])

lemma validD_Inl: "valid P m Q E \<Longrightarrow> P s \<Longrightarrow> m s = (Inl e, s') \<Longrightarrow> E e s'"
  by (auto simp: valid_def dest: spec [of _ s])

lemma keepsD: "keeps P m \<Longrightarrow> P s \<Longrightarrow> P (snd (m s))"
  by (cases "m s"; cases "fst (m s)") (auto dest: validD_Inr validD_Inl)

lemma keeps_run: "keeps P m \<Longrightarrow> P s \<Longrightarrow> m s = (r, s') \<Longrightarrow> P s'"
  using keepsD by fastforce

lemma valid_weaken:
  assumes "valid P m Q E"
    and "\<And>s. P' s \<Longrightarrow> P s" "\<And>x s. Q x s \<Longrightarrow> Q' x s" "\<And>e s. E e s \<Longrightarrow> E' e s"
  shows "valid P' m Q' E'"
  using assms by (intro validI) (blast dest: validD_Inr validD_Inl)+

lemma valid_conj:
  assumes "valid P m Q E" "valid P' m Q' E'"
  shows "valid (\<lambda>s. P s \<and> P' s) m (\<lambda>x s. Q x s \<and> Q' x s) (\<lambda>e s. E e s \<and> E' e s)"
  using assms by (intro validI) (auto dest: validD_Inr validD_Inl)

lemma valid_ret [valid_rules]: "(\<And>s. P s \<Longrightarrow> Q x s) \<Longrightarrow> valid P (ret x) Q E"
  by (simp add: valid_def)

lemma valid_throw [valid_rules]: "(\<And>s. P s \<Longrightarrow> E e s) \<Longrightarrow> valid P (throw e) Q E"
  by (simp add: valid_def)

lemma valid_bindE:
  assumes "valid P m R E" and "\<And>x. valid (R x) (f x) Q E"
  shows "valid P (bindE m f) Q E"
proof (rule validI)
  fix s y s' assume "P s" "bindE m f s = (Inr y, s')"
  then show "Q y s'"
    using assms by (auto simp: bindE_eq_Inr dest: validD_Inr)
next
  fix s e s' assume P: "P s" and eq: "bindE m f s = (Inl e, s')"
  show "E e s'"
  proof (cases "m s")
    case (Pair r t)
    show ?thesis
    proof (cases r)
      case (Inl a)
      then show ?thesis using Pair P eq assms(1) by (auto simp: bindE_def dest: validD_Inl)
    next
      case (Inr x)
      then have "R x t" using Pair P assms(1) by (auto dest: validD_Inr)
      then show ?thesis using Pair Inr eq assms(2) [of x] by (auto simp: bindE_def dest: validD_Inl)
    qed
  qed
qed

lemma keeps_bindE [valid_rules]:
  assumes "keeps P m" and "\<And>x. keeps P (f x)"
  shows "keeps P (bindE m f)"
  by (rule valid_bindE [where R = "\<lambda>_. P"]) (use assms in auto)

lemma keeps_map_err [valid_rules]: "keeps P m \<Longrightarrow> keeps P (map_err g m)"
proof (rule validI)
  fix s x s' assume "P s" "map_err g m s = (Inr x, s')"
  then show "P s'" if "keeps P m"
    using that keeps_run [of P m s "Inr x" s'] by (auto simp: map_err_def split: sum.splits prod.splits)
next
  fix s e s' assume *: "P s" "map_err g m s = (Inl e, s')"
  then obtain e' where "m s = (Inl e', s')"
    by (auto simp: map_err_def split: sum.splits prod.splits)
  then show "P s'" if "keeps P m"
    using that * keeps_run by metis
qed

lemma valid_attempt:
  assumes "valid P m (\<lambda>x. R (Inr x)) (\<lambda>e. R (Inl e))" and "\<And>r. valid (R r) (f r) Q E"
  shows "valid P (attempt m f) Q E"
proof -
  have R: "R r t" if "P s" "m s = (r, t)" for s r t
    using that assms(1) by (cases r) (auto dest: validD_Inr validD_Inl)
  show ?thesis
  proof (rule validI)
    fix s x s' assume "P s" and eq: "attempt m f s = (Inr x, s')"
    with R have "R (fst (m s)) (snd (m s))" by (metis prod.collapse)
    with assms(2) eq show "Q x s'"
      by (auto simp: attempt_def split: prod.splits dest: validD_Inr)
  next
    fix s e s' assume "P s" and eq: "attempt m f s = (Inl e, s')"
    with R have "R (fst (m s)) (snd (m s))" by (metis prod.collapse)
    with assms(2) eq show "E e s'"
      by (auto simp: attempt_def split: prod.splits dest: validD_Inl)
  qed
qed

lemma keeps_attempt [valid_rules]:
  assumes "keeps P m" and "\<And>r. keeps P (f r)"
  shows "keeps P (attempt m f)"
  by (rule valid_attempt [where R = "\<lambda>_. P"]) (use assms in auto)

lemma keeps_if [valid_rules]:
  "(b \<Longrightarrow> keeps P m) \<Longrightarrow> (\<not> b \<Longrightarrow> keeps P m') \<Longrightarrow> keeps P (if b then m else m')"
  by simp

lemma keeps_case_option [valid_rules]:
  "(x = None \<Longrightarrow> keeps P m) \<Longrightarrow> (\<And>y. x = Some y \<Longrightarrow> keeps P (f y)) \<Longrightarrow>
   keeps P (case x of None \<Rightarrow> m | Some y \<Rightarrow> f y)"
  by (cases x) simp_all

lemma keeps_case_sum [valid_rules]:
  "(\<And>e. x = Inl e \<Longrightarrow> keeps P (f e)) \<Longrightarrow> (\<And>y. x = Inr y \<Longrightarrow> keeps P (g y)) \<Longrightarrow>
   keeps P (case x of Inl e \<Rightarrow> f e | Inr y \<Rightarrow> g y)"
  by (cases x) simp_all

section \<open>Machine integers\<close>

definition saturating_add :: "'a::len word \<Rightarrow> 'a word \<Rightarrow> 'a word" where
  "saturating_add a b = (if unat a + unat b < 2 ^ LENGTH('a) then a + b else - 1)"

lemma unat_saturating_add:
  "unat (saturating_add a (b :: 'a::len word)) = min (unat a + unat b) (2 ^ LENGTH('a) - 1)"
proof -
  have "unat (- 1 :: 'a word) = 2 ^ LENGTH('a) - 1"
    by (simp add: unsigned_minus_1_eq_mask mask_eq_exp_minus_1)
  then show ?thesis
    by (auto simp: saturating_add_def unat_word_ariths min_def)
qed

text \<open>\<open>try_from\<close> into an unsigned type of the given width.\<close>

definition int_to_word :: "int \<Rightarrow> 'a::len word option" where
  "int_to_word i = (if 0 \<le> i \<and> i < 2 ^ LENGTH('a) then Some (word_of_int i) else None)"

lemma int_to_word_uint [simp]: "int_to_word (uint (w :: 'a::len word)) = Some w"
  by (simp add: int_to_word_def)

section \<open>Association lists and sorting\<close>

lemma map_of_update [simp]: "map_of (AList.update k v xs) = (map_of xs)(k \<mapsto> v)"
  by (simp add: AList.update_conv')

lemma map_of_delete [simp]: "map_of (AList.delete k xs) = (map_of xs)(k := None)"
  by (simp add: AList.delete_conv')

lemma distinct_keys_delete [simp]: "distinct (map fst xs) \<Longrightarrow> distinct (map fst (AList.delete k xs))"
  by (simp add: AList.distinct_delete)

lemma distinct_keys_update [simp]: "distinct (map fst xs) \<Longrightarrow> distinct (map fst (AList.update k v xs))"
  by (simp add: AList.distinct_update)

text \<open>Sorting pairs with distinct first components is determined by the map they stand for.\<close>

lemma sort_key_fst_unique:
  fixes xs ys :: "('a::linorder \<times> 'b) list"
  assumes "distinct (map fst xs)" "distinct (map fst ys)" "map_of xs = map_of ys"
  shows "sort_key fst xs = sort_key fst ys"
proof -
  have "p \<in> set xs \<longleftrightarrow> p \<in> set ys" for p
    using assms by (cases p) (metis map_of_eq_Some_iff)
  then have sets: "set xs = set ys" by blast
  have "inj_on fst (set xs)"
    using assms(1) by (simp add: distinct_map)
  moreover have "distinct (map fst (sort_key fst zs))" if "distinct (map fst zs)" for zs :: "('a \<times> 'b) list"
    using that by (simp add: distinct_map)
  ultimately show ?thesis
    using assms(1,2) sets by (intro map_sorted_distinct_set_unique [where f = fst]) auto
qed

section \<open>Strings\<close>

abbreviation (input) newline :: string where
  "newline \<equiv> [CHR 0x0A]"

text \<open>The decimal digits of \<open>to_string\<close> on an unsigned integer.\<close>

fun show_nat :: "nat \<Rightarrow> string" where
  "show_nat n =
     (if n < 10 then [''0123456789'' ! n] else show_nat (n div 10) @ [''0123456789'' ! (n mod 10)])"

declare show_nat.simps [simp del]

text \<open>\<open>strip_prefix\<close> of \<open>str\<close>.\<close>

definition strip_prefix_str :: "string \<Rightarrow> string \<Rightarrow> string option" where
  "strip_prefix_str p s = (if prefix p s then Some (drop (length p) s) else None)"

text \<open>\<open>split(c)\<close> of \<open>str\<close>: never empty, empty pieces kept.\<close>

fun split_on :: "char \<Rightarrow> string \<Rightarrow> string list" where
  "split_on c [] = [[]]"
| "split_on c (x # xs) =
     (if x = c then [] # split_on c xs
      else (case split_on c xs of [] \<Rightarrow> [[x]] | y # ys \<Rightarrow> (x # y) # ys))"

fun join_with :: "string \<Rightarrow> string list \<Rightarrow> string" where
  "join_with sep [] = []"
| "join_with sep [x] = x"
| "join_with sep (x # y # zs) = x @ sep @ join_with sep (y # zs)"

end
