(* ===== verification/Bosun_Json.thy ===== *)
theory Bosun_Json
  imports Bosun_Prelude
begin

text \<open>
  The JSON value of \<open>serde_json\<close>, with its default \<open>BTreeMap\<close> objects (the workspace does
  not enable \<open>preserve_order\<close>): an object is an association list whose keys are strictly
  increasing, which \<open>wf_json\<close> states for every object inside a value.  Numbers are the three
  representations of \<open>serde_json::Number\<close>, each as its 64 bits (a float with its two zeros
  identified, as its equality does).  The module also holds the small
  part of serde's data model that the derived implementations of the sources use: reading
  a field of a struct, strings, unsigned integers and lists.
\<close>

datatype number = PosInt u64 | NegInt u64 | Float u64

datatype json =
    JNull
  | JBool bool
  | JNumber number
  | JString string
  | JArray "json list"
  | JObject "(string \<times> json) list"

type_synonym json_map = "(string \<times> json) list"

section \<open>Objects as sorted maps\<close>

fun obj_insert :: "string \<Rightarrow> 'v \<Rightarrow> (string \<times> 'v) list \<Rightarrow> (string \<times> 'v) list" where
  "obj_insert k v [] = [(k, v)]"
| "obj_insert k v ((k', v') # m) =
     (if k < k' then (k, v) # (k', v') # m
      else if k = k' then (k, v) # m
      else (k', v') # obj_insert k v m)"

abbreviation (input) obj_get :: "(string \<times> 'v) list \<Rightarrow> string \<Rightarrow> 'v option" where
  "obj_get \<equiv> map_of"

abbreviation (input) obj_remove :: "string \<Rightarrow> (string \<times> 'v) list \<Rightarrow> (string \<times> 'v) list" where
  "obj_remove \<equiv> AList.delete"

definition obj_sorted :: "(string \<times> 'v) list \<Rightarrow> bool" where
  "obj_sorted m \<longleftrightarrow> sorted_wrt (<) (map fst m)"

definition obj_of_list :: "(string \<times> 'v) list \<Rightarrow> (string \<times> 'v) list" where
  "obj_of_list kvs = fold (\<lambda>(k, v). obj_insert k v) kvs []"

lemma obj_get_insert [simp]: "obj_get (obj_insert k v m) = (obj_get m)(k \<mapsto> v)"
  by (induction m) (auto simp: fun_eq_iff)

lemma fst_set_obj_insert [simp]: "fst ` set (obj_insert k v m) = insert k (fst ` set m)"
  using dom_map_of_conv_image_fst [of "obj_insert k v m"]
  by (simp add: dom_map_of_conv_image_fst)

lemma set_obj_insert_subset: "set (obj_insert k v m) \<subseteq> insert (k, v) (set m)"
  by (induction m) (auto split: if_splits)

lemma obj_sorted_Nil [simp]: "obj_sorted []"
  by (simp add: obj_sorted_def)

lemma obj_sorted_Cons:
  "obj_sorted ((k, v) # m) \<longleftrightarrow> (\<forall>k' \<in> fst ` set m. k < k') \<and> obj_sorted m"
  by (auto simp: obj_sorted_def)

lemma obj_sorted_insert [simp]: "obj_sorted m \<Longrightarrow> obj_sorted (obj_insert k v m)"
proof (induction m)
  case (Cons kv m)
  obtain k' v' where kv: "kv = (k', v')" by (cases kv)
  consider "k < k'" | "k = k'" | "k' < k" by fastforce
  then show ?case
    using Cons by cases (auto simp: kv obj_sorted_Cons)
qed (simp add: obj_sorted_def)

lemma obj_sorted_remove [simp]: "obj_sorted m \<Longrightarrow> obj_sorted (obj_remove k m)"
  by (simp add: obj_sorted_def AList.delete_eq sorted_wrt_filter filter_map comp_def
      sorted_wrt_map flip: filter_map)

lemma obj_sorted_distinct: "obj_sorted m \<Longrightarrow> distinct (map fst m)"
  by (auto simp: obj_sorted_def strict_sorted_iff)

text \<open>A sorted object is determined by its lookups.\<close>

lemma obj_eqI:
  assumes "obj_sorted m" "obj_sorted m'" "obj_get m = obj_get m'"
  shows "m = m'"
proof -
  have "sort_key fst m = sort_key fst m'"
    using assms by (intro sort_key_fst_unique obj_sorted_distinct)
  moreover have "sort_key fst n = n" if "obj_sorted n" for n :: "(string \<times> 'a) list"
    using that by (simp add: obj_sorted_def strict_sorted_iff sorted_sort_id sort_key_id_if_sorted)
  ultimately show ?thesis using assms by simp
qed

lemma obj_get_fold_insert:
  "obj_get (fold (\<lambda>(k, v). obj_insert k v) kvs m) = obj_get m ++ obj_get (rev kvs)"
  by (induction kvs arbitrary: m) (auto simp: map_add_def fun_eq_iff split: option.splits)

lemma obj_get_of_list [simp]: "obj_get (obj_of_list kvs) = obj_get (rev kvs)"
  by (simp add: obj_of_list_def obj_get_fold_insert)

lemma obj_sorted_of_list [simp]: "obj_sorted (obj_of_list kvs)"
proof -
  have "obj_sorted m \<Longrightarrow> obj_sorted (fold (\<lambda>(k, v). obj_insert k v) kvs m)" for m :: "(string \<times> 'a) list"
    by (induction kvs arbitrary: m) auto
  then show ?thesis by (simp add: obj_of_list_def)
qed

section \<open>Well-formed values\<close>

lemma size_snd_member [termination_simp]:
  "kv \<in> set m \<Longrightarrow> size (snd kv) < Suc (size_list (size_prod (\<lambda>_. 0) size) m)"
  by (induction m) auto

fun wf_json :: "json \<Rightarrow> bool" where
  "wf_json (JObject m) \<longleftrightarrow> obj_sorted m \<and> list_all (\<lambda>kv. wf_json (snd kv)) m"
| "wf_json (JArray xs) \<longleftrightarrow> list_all wf_json xs"
| "wf_json _ \<longleftrightarrow> True"

lemma wf_json_obj_getD: "wf_json (JObject m) \<Longrightarrow> obj_get m k = Some v \<Longrightarrow> wf_json v"
  by (auto simp: list_all_iff dest!: map_of_SomeD)

lemma wf_json_insert [simp]:
  "wf_json (JObject m) \<Longrightarrow> wf_json v \<Longrightarrow> wf_json (JObject (obj_insert k v m))"
  using set_obj_insert_subset [of k v m] by (auto simp: list_all_iff)

lemma wf_json_remove [simp]: "wf_json (JObject m) \<Longrightarrow> wf_json (JObject (obj_remove k m))"
proof -
  have "set (obj_remove k m) \<subseteq> set m" by (auto simp: AList.delete_eq)
  then show "wf_json (JObject (obj_remove k m))" if "wf_json (JObject m)"
    using that by (auto simp: list_all_iff)
qed

text \<open>
  A value that was written field by field, in the order of a struct, reads back as the value with
  sorted objects.  \<open>plain_json\<close>: what the derived implementations write, that is objects without
  duplicate keys and unsigned integers.
\<close>

fun json_norm :: "json \<Rightarrow> json" where
  "json_norm (JObject m) = JObject (obj_of_list (map (\<lambda>kv. (fst kv, json_norm (snd kv))) m))"
| "json_norm (JArray xs) = JArray (map json_norm xs)"
| "json_norm v = v"

fun plain_json :: "json \<Rightarrow> bool" where
  "plain_json (JObject m) \<longleftrightarrow> distinct (map fst m) \<and> list_all (\<lambda>kv. plain_json (snd kv)) m"
| "plain_json (JArray xs) \<longleftrightarrow> list_all plain_json xs"
| "plain_json (JNumber n) \<longleftrightarrow> (case n of PosInt _ \<Rightarrow> True | _ \<Rightarrow> False)"
| "plain_json _ \<longleftrightarrow> True"

lemma obj_get_norm:
  "obj_get (obj_of_list (map (\<lambda>kv. (fst kv, json_norm (snd kv))) m)) k =
   map_option json_norm (obj_get (rev m) k)"
proof -
  have "map_of (map (\<lambda>kv. (fst kv, json_norm (snd kv))) xs) k = map_option json_norm (map_of xs k)" for xs
    by (induction xs) auto
  from this [of "rev m"] show ?thesis by (simp add: rev_map)
qed

section \<open>The serde data model\<close>

text \<open>
  Deserialising one value: \<open>None\<close> is a deserialisation error.  An unsigned integer field
  accepts a non-negative integer that fits; a missing or \<open>null\<close> optional field is \<open>None\<close>.
\<close>

fun de_string :: "json \<Rightarrow> string option" where
  "de_string (JString s) = Some s"
| "de_string _ = None"

fun de_bool :: "json \<Rightarrow> bool option" where
  "de_bool (JBool b) = Some b"
| "de_bool _ = None"

text \<open>An enum whose variants carry no data: the name, or a map from the name to \<open>null\<close>.\<close>

definition de_unit_variant :: "(string \<Rightarrow> 'a option) \<Rightarrow> json \<Rightarrow> 'a option" where
  "de_unit_variant pick v =
     (case v of JString s \<Rightarrow> pick s | JObject [(s, JNull)] \<Rightarrow> pick s | _ \<Rightarrow> None)"

lemma de_unit_variant_JString [simp]: "de_unit_variant pick (JString s) = pick s"
  by (simp add: de_unit_variant_def)

fun de_unsigned :: "json \<Rightarrow> 'a::len word option" where
  "de_unsigned (JNumber (PosInt n)) = int_to_word (uint n)"
| "de_unsigned _ = None"

fun de_vec :: "(json \<Rightarrow> 'a option) \<Rightarrow> json \<Rightarrow> 'a list option" where
  "de_vec f (JArray xs) = those (map f xs)"
| "de_vec f _ = None"

definition de_field :: "(json \<Rightarrow> 'a option) \<Rightarrow> json_map \<Rightarrow> string \<Rightarrow> 'a option" where
  "de_field f m k = Option.bind (obj_get m k) f"

definition de_opt_field :: "(json \<Rightarrow> 'a option) \<Rightarrow> json_map \<Rightarrow> string \<Rightarrow> 'a option option" where
  "de_opt_field f m k =
     (case obj_get m k of
        None \<Rightarrow> Some None
      | Some JNull \<Rightarrow> Some None
      | Some v \<Rightarrow> map_option Some (f v))"

text \<open>An optional value on its own, as in a sequence.\<close>

definition de_option :: "(json \<Rightarrow> 'a option) \<Rightarrow> json \<Rightarrow> 'a option option" where
  "de_option f v = (if v = JNull then Some None else map_option Some (f v))"

text \<open>A field with \<open>serde(default)\<close>: the default stands in for a missing field, not for \<open>null\<close>.\<close>

definition de_default_field :: "(json \<Rightarrow> 'a option) \<Rightarrow> 'a \<Rightarrow> json_map \<Rightarrow> string \<Rightarrow> 'a option" where
  "de_default_field f d m k = (case obj_get m k of None \<Rightarrow> Some d | Some v \<Rightarrow> f v)"

definition ser_unsigned :: "'a::len word \<Rightarrow> json" where
  "ser_unsigned w = JNumber (PosInt (word_of_int (uint w)))"

definition ser_strings :: "string list \<Rightarrow> json" where
  "ser_strings xs = JArray (map JString xs)"

definition ser_opt :: "('a \<Rightarrow> json) \<Rightarrow> 'a option \<Rightarrow> json" where
  "ser_opt f x = (case x of None \<Rightarrow> JNull | Some y \<Rightarrow> f y)"

lemma de_ser_unsigned [simp]:
  assumes "LENGTH('a) \<le> 64"
  shows "de_unsigned (ser_unsigned (w :: 'a::len word)) = Some w"
proof -
  have "uint w < 2 ^ LENGTH('a)" by simp
  also have "(2::int) ^ LENGTH('a) \<le> 2 ^ 64" using assms by (intro power_increasing) simp_all
  finally have "uint (word_of_int (uint w) :: u64) = uint w"
    by (simp only: uint_word_of_int) (simp add: take_bit_int_eq_self_iff mod_pos_pos_trivial)
  then show ?thesis by (simp add: ser_unsigned_def)
qed

lemma those_map_Some [simp]: "those (map (\<lambda>x. Some (f x)) xs) = Some (map f xs)"
  by (induction xs) auto

lemma de_ser_strings [simp]: "de_vec de_string (ser_strings xs) = Some xs"
  by (simp add: ser_strings_def comp_def)

lemma json_norm_ser [simp]:
  "json_norm (ser_unsigned w) = ser_unsigned w" "json_norm (ser_strings xs) = ser_strings xs"
  "json_norm (ser_opt ser_unsigned x) = ser_opt ser_unsigned x"
  by (simp_all add: ser_unsigned_def ser_strings_def ser_opt_def comp_def split: option.splits)

lemma plain_json_ser [simp]:
  "plain_json (ser_unsigned w)" "plain_json (ser_strings xs)" "plain_json (ser_opt ser_unsigned x)"
  by (simp_all add: ser_unsigned_def ser_strings_def ser_opt_def list_all_iff split: option.splits)

lemma ser_not_null [simp]: "ser_unsigned w \<noteq> JNull" "ser_strings xs \<noteq> JNull"
  by (simp_all add: ser_unsigned_def ser_strings_def)

text \<open>Reading back a field whose value is \<open>v\<close>.\<close>

lemma de_field_Some [simp]: "obj_get m k = Some v \<Longrightarrow> de_field f m k = f v"
  by (simp add: de_field_def)

lemma de_field_None [simp]: "obj_get m k = None \<Longrightarrow> de_field f m k = None"
  by (simp add: de_field_def)

lemma de_opt_field_None [simp]: "obj_get m k = None \<Longrightarrow> de_opt_field f m k = Some None"
  by (simp add: de_opt_field_def)

lemma de_opt_field_Some:
  "obj_get m k = Some v \<Longrightarrow> v \<noteq> JNull \<Longrightarrow> de_opt_field f m k = map_option Some (f v)"
  by (cases v) (simp_all add: de_opt_field_def)

lemma de_opt_field_ser_opt:
  assumes "obj_get m k = Some (ser_opt g x)" "\<And>y. f (g y) = Some y" "\<And>y. g y \<noteq> JNull"
  shows "de_opt_field f m k = Some x"
proof (cases x)
  case None
  then show ?thesis using assms(1) by (simp add: ser_opt_def de_opt_field_def)
next
  case (Some y)
  then show ?thesis using assms by (simp add: ser_opt_def de_opt_field_Some)
qed

end
