(* ===== verification/Inventory.thy ===== *)
theory Inventory
  imports Bosun_Json
begin

text \<open>
  \<open>bosun-core/src/inventory.rs\<close>: dotted lookup into the inventory and the merge strategies
  behind \<open>inventory.merge\<close> and \<open>inventory.merge_keyed\<close>.  The loops over the entries of the
  overriding object are the recursive functions \<open>merge_deep_map\<close>, \<open>merge_keyed_map\<close> and
  \<open>merge_keyed_over\<close>, which follow the iteration order of the source.  The only code outside the
  repository is the \<open>Debug\<close> rendering of a JSON value in an error path, the parameter \<open>dbg\<close>.
\<close>

datatype InventoryError =
    KeyNotFound string
  | TypeMismatch string string string
  | KeyedListMissingKey string string
  | KeyedListNonMapElement string
  | UnknownMergeStrategy string

section \<open>Lookup\<close>

fun variant_name :: "json \<Rightarrow> string" where
  "variant_name JNull = ''null''"
| "variant_name (JBool _) = ''bool''"
| "variant_name (JNumber _) = ''number''"
| "variant_name (JString _) = ''string''"
| "variant_name (JArray _) = ''array''"
| "variant_name (JObject _) = ''object''"

text \<open>The loop of \<open>JsonInventory::get\<close> over the segments; \<open>path\<close> is the whole dotted path.\<close>

fun inventory_walk :: "string \<Rightarrow> json \<Rightarrow> string list \<Rightarrow> InventoryError + json" where
  "inventory_walk path node [] = Inr node"
| "inventory_walk path node (segment # rest) =
     (case node of
        JObject m \<Rightarrow>
          (case obj_get m segment of
             Some child \<Rightarrow> inventory_walk path child rest
           | None \<Rightarrow> Inl (KeyNotFound path))
      | _ \<Rightarrow> Inl (TypeMismatch path ''object'' (variant_name node)))"

definition inventory_get :: "json \<Rightarrow> string \<Rightarrow> InventoryError + json" where
  "inventory_get root dotted_path = inventory_walk dotted_path root (split_on (CHR ''.'') dotted_path)"

section \<open>Merge strategies\<close>

datatype MergeStrategy = DeepMapReplaceList | DeepMapAppendList | Replace

definition parse_strategy :: "string \<Rightarrow> InventoryError + MergeStrategy" where
  "parse_strategy s =
     (if s = ''deep_map_replace_list'' then Inr DeepMapReplaceList
      else if s = ''deep_map_append_list'' then Inr DeepMapAppendList
      else if s = ''replace'' then Inr Replace
      else Inl (UnknownMergeStrategy s))"

definition merge_replace :: "json \<Rightarrow> json \<Rightarrow> json" where
  "merge_replace base over = over"

text \<open>Appending the elements of the right list that are not there yet.\<close>

fun append_missing :: "'a list \<Rightarrow> 'a list \<Rightarrow> 'a list" where
  "append_missing base [] = base"
| "append_missing base (x # xs) =
     append_missing (if x \<in> set base then base else base @ [x]) xs"

fun merge_deep :: "bool \<Rightarrow> json \<Rightarrow> json \<Rightarrow> json"
  and merge_deep_map :: "bool \<Rightarrow> json_map \<Rightarrow> json_map \<Rightarrow> json_map" where
  "merge_deep append_lists base over =
     (case over of
        JNull \<Rightarrow> base
      | JObject over_map \<Rightarrow>
          (case base of
             JObject base_map \<Rightarrow> JObject (merge_deep_map append_lists base_map over_map)
           | _ \<Rightarrow> over)
      | JArray over_arr \<Rightarrow>
          (case base of
             JArray base_arr \<Rightarrow> (if append_lists then JArray (append_missing base_arr over_arr) else over)
           | _ \<Rightarrow> over)
      | _ \<Rightarrow> over)"
| "merge_deep_map append_lists base_map [] = base_map"
| "merge_deep_map append_lists base_map ((k, v) # over_map) =
     merge_deep_map append_lists
       (if v = JNull then obj_remove k base_map
        else (case obj_get base_map k of
                Some base_v \<Rightarrow> obj_insert k (merge_deep append_lists base_v v) (obj_remove k base_map)
              | None \<Rightarrow> obj_insert k v base_map))
       over_map"

declare merge_deep.simps [simp del]

definition merge_inventory :: "json \<Rightarrow> json \<Rightarrow> MergeStrategy \<Rightarrow> json" where
  "merge_inventory base over strategy =
     (case strategy of
        Replace \<Rightarrow> merge_replace base over
      | DeepMapReplaceList \<Rightarrow> merge_deep False base over
      | DeepMapAppendList \<Rightarrow> merge_deep True base over)"

section \<open>Keyed merge\<close>

definition ensure_map_with_key :: "json \<Rightarrow> string \<Rightarrow> string \<Rightarrow> InventoryError + unit" where
  "ensure_map_with_key item key path =
     (case item of
        JObject m \<Rightarrow>
          (if obj_get m key = None then Inl (KeyedListMissingKey path key) else Inr ())
      | _ \<Rightarrow> Inl (KeyedListNonMapElement path))"

definition key_value_of :: "json \<Rightarrow> string \<Rightarrow> json option" where
  "key_value_of item key = (case item of JObject m \<Rightarrow> obj_get m key | _ \<Rightarrow> None)"

text \<open>\<open>position\<close>: the index of the first element that satisfies the predicate.\<close>

fun position :: "('a \<Rightarrow> bool) \<Rightarrow> 'a list \<Rightarrow> nat option" where
  "position P [] = None"
| "position P (x # xs) = (if P x then Some 0 else map_option Suc (position P xs))"

text \<open>The first loop of \<open>merge_keyed_lists\<close>: every element of the base list must be a keyed map.\<close>

fun check_keyed_base :: "json list \<Rightarrow> string \<Rightarrow> string \<Rightarrow> InventoryError + unit" where
  "check_keyed_base [] key path = Inr ()"
| "check_keyed_base (item # items) key path =
     (case ensure_map_with_key item key path of
        Inl e \<Rightarrow> Inl e
      | Inr _ \<Rightarrow> check_keyed_base items key path)"

definition keyed_child_path :: "(json option \<Rightarrow> string) \<Rightarrow> string \<Rightarrow> string \<Rightarrow> json option \<Rightarrow> string" where
  "keyed_child_path dbg path key item_key = path @ ''['' @ key @ ''='' @ dbg item_key @ '']''"

fun merge_keyed_at ::
    "(json option \<Rightarrow> string) \<Rightarrow> string \<Rightarrow> json \<Rightarrow> json \<Rightarrow> string \<Rightarrow> InventoryError + json"
  and merge_keyed_map ::
    "(json option \<Rightarrow> string) \<Rightarrow> string \<Rightarrow> json_map \<Rightarrow> json_map \<Rightarrow> string \<Rightarrow> InventoryError + json_map"
  and merge_keyed_over ::
    "(json option \<Rightarrow> string) \<Rightarrow> string \<Rightarrow> json list \<Rightarrow> json list \<Rightarrow> string \<Rightarrow> InventoryError + json list"
  where
  "merge_keyed_at dbg key base over path =
     (case over of
        JNull \<Rightarrow> Inr base
      | JObject over_map \<Rightarrow>
          (case base of
             JObject base_map \<Rightarrow> map_sum id JObject (merge_keyed_map dbg key base_map over_map path)
           | _ \<Rightarrow> Inr over)
      | JArray over_arr \<Rightarrow>
          (case base of
             JArray base_arr \<Rightarrow>
               (case check_keyed_base base_arr key path of
                  Inl e \<Rightarrow> Inl e
                | Inr _ \<Rightarrow> map_sum id JArray (merge_keyed_over dbg key base_arr over_arr path))
           | _ \<Rightarrow> Inr over)
      | _ \<Rightarrow> Inr over)"
| "merge_keyed_map dbg key base_map [] path = Inr base_map"
| "merge_keyed_map dbg key base_map ((k, v) # over_map) path =
     (if v = JNull then merge_keyed_map dbg key (obj_remove k base_map) over_map path
      else (case obj_get base_map k of
              Some base_v \<Rightarrow>
                (case merge_keyed_at dbg key base_v v (path @ ''.'' @ k) of
                   Inl e \<Rightarrow> Inl e
                 | Inr merged \<Rightarrow>
                     merge_keyed_map dbg key (obj_insert k merged (obj_remove k base_map)) over_map path)
            | None \<Rightarrow> merge_keyed_map dbg key (obj_insert k v base_map) over_map path))"
| "merge_keyed_over dbg key merged [] path = Inr merged"
| "merge_keyed_over dbg key merged (item # items) path =
     (case ensure_map_with_key item key path of
        Inl e \<Rightarrow> Inl e
      | Inr _ \<Rightarrow>
          (case position (\<lambda>existing. key_value_of existing key = key_value_of item key) merged of
             Some idx \<Rightarrow>
               (case merge_keyed_at dbg key (merged ! idx) item
                       (keyed_child_path dbg path key (key_value_of item key)) of
                  Inl e \<Rightarrow> Inl e
                | Inr m \<Rightarrow> merge_keyed_over dbg key (merged[idx := m]) items path)
           | None \<Rightarrow> merge_keyed_over dbg key (merged @ [item]) items path))"

declare merge_keyed_at.simps [simp del]

definition merge_inventory_keyed ::
  "(json option \<Rightarrow> string) \<Rightarrow> json \<Rightarrow> json \<Rightarrow> string \<Rightarrow> InventoryError + json" where
  "merge_inventory_keyed dbg base over key = merge_keyed_at dbg key base over ''$''"

section \<open>Lookup laws\<close>

lemma merge_deep_JNull [simp]: "merge_deep ap base JNull = base"
  by (simp add: merge_deep.simps)

lemma merge_deep_objects [simp]:
  "merge_deep ap (JObject b) (JObject ov) = JObject (merge_deep_map ap b ov)"
  by (simp add: merge_deep.simps)

text \<open>The values that a merge takes over as they are.\<close>

fun is_scalar :: "json \<Rightarrow> bool" where
  "is_scalar (JBool _) = True"
| "is_scalar (JNumber _) = True"
| "is_scalar (JString _) = True"
| "is_scalar _ = False"

lemma merge_deep_scalar [simp]: "is_scalar v \<Longrightarrow> merge_deep ap base v = v"
  by (cases v) (simp_all add: merge_deep.simps)

text \<open>What one key of the merged object holds.\<close>

definition merged_entry :: "bool \<Rightarrow> json option \<Rightarrow> json option \<Rightarrow> json option" where
  "merged_entry ap b ov =
     (case ov of
        None \<Rightarrow> b
      | Some JNull \<Rightarrow> None
      | Some v \<Rightarrow> (case b of None \<Rightarrow> Some v | Some bv \<Rightarrow> Some (merge_deep ap bv v)))"

lemma merged_entry_simps [simp]:
  "merged_entry ap b None = b"
  "merged_entry ap b (Some JNull) = None"
  "v \<noteq> JNull \<Longrightarrow> merged_entry ap None (Some v) = Some v"
  "v \<noteq> JNull \<Longrightarrow> merged_entry ap (Some bv) (Some v) = Some (merge_deep ap bv v)"
  by (simp_all add: merged_entry_def split: json.splits)

lemma obj_get_merge_deep_map:
  "distinct (map fst ov) \<Longrightarrow>
   obj_get (merge_deep_map ap b ov) k = merged_entry ap (obj_get b k) (obj_get ov k)"
proof (induction ov arbitrary: b)
  case (Cons kv ov)
  obtain k' v where kv: "kv = (k', v)" by (cases kv)
  have "obj_get ov k' = None" and "distinct (map fst ov)"
    using Cons.prems kv by (auto simp: map_of_eq_None_iff)
  then show ?case
    using Cons.IH by (cases "v = JNull"; cases "k = k'") (auto simp: kv split: option.splits)
qed simp

lemma wf_append_missing:
  "list_all wf_json xs \<Longrightarrow> list_all wf_json ys \<Longrightarrow> list_all wf_json (append_missing xs ys)"
  by (induction xs ys rule: append_missing.induct) auto

lemma wf_merge_deep:
  "wf_json base \<Longrightarrow> wf_json over \<Longrightarrow> wf_json (merge_deep ap base over)"
  "wf_json (JObject bm) \<Longrightarrow> list_all (\<lambda>kv. wf_json (snd kv)) om \<Longrightarrow>
   wf_json (JObject (merge_deep_map ap bm om))"
proof (induction ap base over and ap bm om rule: merge_deep_merge_deep_map.induct)
  case (1 append_lists base over)
  then show ?case
    by (subst merge_deep.simps) (auto simp: wf_append_missing split: json.splits)
next
  case (3 append_lists base_map k v over_map)
  show ?case
  proof (cases "v = JNull \<or> obj_get base_map k = None")
    case True
    with 3 show ?thesis by (auto simp del: wf_json.simps(1))
  next
    case False
    then obtain bv where bv: "obj_get base_map k = Some bv" by auto
    have "wf_json (merge_deep append_lists bv v)"
      using 3 False bv by (auto intro: wf_json_obj_getD simp del: wf_json.simps(1))
    then show ?thesis using 3 False bv by (auto simp del: wf_json.simps(1))
  qed
qed simp

section \<open>Idempotence of an overlay\<close>

text \<open>
  An overlay in which no object entry is \<open>null\<close>.  Lists are not descended into, because
  the merge takes their elements as they are.
\<close>

fun null_free :: "json \<Rightarrow> bool" where
  "null_free (JObject m) \<longleftrightarrow> list_all (\<lambda>kv. snd kv \<noteq> JNull \<and> null_free (snd kv)) m"
| "null_free _ \<longleftrightarrow> True"

lemma null_free_get: "null_free (JObject m) \<Longrightarrow> obj_get m k = Some v \<Longrightarrow> v \<noteq> JNull \<and> null_free v"
  by (fastforce simp: list_all_iff dest: map_of_SomeD)

lemma append_missing_subset [simp]: "set ys \<subseteq> set xs \<Longrightarrow> append_missing xs ys = xs"
  by (induction ys) auto

lemma set_append_missing [simp]: "set (append_missing xs ys) = set xs \<union> set ys"
  by (induction xs ys rule: append_missing.induct) auto

lemma merge_deep_arrays:
  "merge_deep ap (JArray xs) (JArray ys) = JArray (if ap then append_missing xs ys else ys)"
  by (simp add: merge_deep.simps)

lemma merge_deep_mismatch:
  "(\<And>b. base \<noteq> JObject b) \<Longrightarrow> merge_deep ap base (JObject ov) = JObject ov"
  "(\<And>b. base \<noteq> JArray b) \<Longrightarrow> merge_deep ap base (JArray arr) = JArray arr"
  by (subst merge_deep.simps, auto split: json.split)+

text \<open>Objects are equal when their lookups agree; the merged object is again sorted.\<close>

lemma merge_deep_map_eqI:
  assumes "wf_json (JObject b)" "wf_json (JObject ov)" "obj_sorted r"
    and "\<And>k. merged_entry ap (obj_get b k) (obj_get ov k) = obj_get r k"
  shows "merge_deep_map ap b ov = r"
proof (rule obj_eqI)
  show "obj_sorted (merge_deep_map ap b ov)"
    using wf_merge_deep(2) [of b ov ap] assms(1,2) by simp
  show "obj_get (merge_deep_map ap b ov) = obj_get r"
    using assms by (intro ext) (simp add: obj_get_merge_deep_map obj_sorted_distinct)
qed (rule assms(3))

lemma merge_deep_self: "wf_json v \<Longrightarrow> null_free v \<Longrightarrow> merge_deep ap v v = v"
proof (induction v)
  case (JObject m)
  have "merged_entry ap (obj_get m k) (obj_get m k) = obj_get m k" for k
  proof (cases "obj_get m k")
    case (Some v)
    then have v: "v \<noteq> JNull" "null_free v" "wf_json v"
      using JObject.prems null_free_get wf_json_obj_getD by blast+
    have "merge_deep ap v v = v"
      using JObject.IH [of "(k, v)" v] Some v by (simp add: map_of_SomeD)
    with Some v(1) show ?thesis by simp
  qed simp
  then have "merge_deep_map ap m m = m"
    using JObject.prems by (intro merge_deep_map_eqI) (auto simp: fun_eq_iff)
  then show ?case by simp
qed (simp_all add: merge_deep.simps)

lemma merge_deep_twice:
  "wf_json base \<Longrightarrow> wf_json over \<Longrightarrow> null_free over \<Longrightarrow>
   merge_deep ap (merge_deep ap base over) over = merge_deep ap base over"
proof (induction over arbitrary: base)
  case (JArray arr)
  then show ?case by (cases base) (auto simp: merge_deep_arrays merge_deep_mismatch)
next
  case (JObject ov)
  show ?case
  proof (cases base)
    case base: (JObject b)
    let ?m = "merge_deep_map ap b ov"
    have m: "wf_json (JObject ?m)"
      using JObject.prems base wf_merge_deep(2) by simp
    have get: "obj_get ?m k = merged_entry ap (obj_get b k) (obj_get ov k)" for k
      using JObject.prems by (simp add: obj_get_merge_deep_map obj_sorted_distinct)
    have "merged_entry ap (obj_get ?m k) (obj_get ov k) = obj_get ?m k" for k
    proof (cases "obj_get ov k")
      case (Some v)
      then have v: "v \<noteq> JNull" "null_free v" "wf_json v"
        using JObject.prems null_free_get wf_json_obj_getD by blast+
      have IH: "merge_deep ap (merge_deep ap bv v) v = merge_deep ap bv v" if "wf_json bv" for bv
        using JObject.IH [of "(k, v)" v bv] Some v that by (simp add: map_of_SomeD)
      show ?thesis
        using Some v IH wf_json_obj_getD [of b k] JObject.prems(1) base
        by (cases "obj_get b k") (auto simp: get merge_deep_self simp del: wf_json.simps(1))
    qed simp
    then have "merge_deep_map ap ?m ov = ?m"
      using m JObject.prems by (intro merge_deep_map_eqI) auto
    then show ?thesis by (simp add: base)
  qed (use JObject.prems in \<open>simp_all add: merge_deep_mismatch merge_deep_self del: merge_deep_objects\<close>)
qed (simp_all add: merge_deep.simps)

section \<open>Keyed merge\<close>

lemma merge_keyed_scalar [simp]: "is_scalar v \<Longrightarrow> merge_keyed_at dbg key base v path = Inr v"
  by (cases v) (simp_all add: merge_keyed_at.simps)

lemma merge_keyed_objects [simp]:
  "merge_keyed_at dbg key (JObject b) (JObject ov) path =
   map_sum id JObject (merge_keyed_map dbg key b ov path)"
  by (simp add: merge_keyed_at.simps)

lemma merge_keyed_arrays:
  "merge_keyed_at dbg key (JArray b) (JArray ov) path =
     (case check_keyed_base b key path of
        Inl e \<Rightarrow> Inl e
      | Inr _ \<Rightarrow> map_sum id JArray (merge_keyed_over dbg key b ov path))"
  by (simp add: merge_keyed_at.simps)

text \<open>A scalar of the overriding object ends up in the merged one.\<close>

lemma obj_get_merge_keyed_map_other:
  "k \<notin> fst ` set ov \<Longrightarrow> merge_keyed_map dbg key b ov path = Inr r \<Longrightarrow> obj_get r k = obj_get b k"
  by (induction ov arbitrary: b) (auto split: if_splits option.splits sum.splits)

lemma obj_get_merge_keyed_map_scalar:
  "distinct (map fst ov) \<Longrightarrow> obj_get ov k = Some v \<Longrightarrow> is_scalar v \<Longrightarrow>
   merge_keyed_map dbg key b ov path = Inr r \<Longrightarrow> obj_get r k = Some v"
proof (induction ov arbitrary: b)
  case (Cons kv ov)
  obtain k' v' where kv: "kv = (k', v')" by (cases kv)
  show ?case
  proof (cases "k = k'")
    case True
    then have "v' = v" "k \<notin> fst ` set ov" "v \<noteq> JNull" using Cons.prems kv by auto
    then show ?thesis
      using Cons.prems True kv obj_get_merge_keyed_map_other [of k ov]
      by (auto split: option.splits sum.splits)
  next
    case False
    then show ?thesis
      using Cons kv by (auto split: if_splits option.splits sum.splits)
  qed
qed simp

text \<open>An element that a keyed list may hold here: an object with a scalar under the key.\<close>

definition keyed_by :: "string \<Rightarrow> json \<Rightarrow> bool" where
  "keyed_by key item \<longleftrightarrow>
     (\<exists>m v. item = JObject m \<and> obj_sorted m \<and> obj_get m key = Some v \<and> is_scalar v)"

lemma keyed_by_ensure [simp]: "keyed_by key item \<Longrightarrow> ensure_map_with_key item key path = Inr ()"
  by (auto simp: keyed_by_def ensure_map_with_key_def)

lemma merge_keyed_at_key:
  assumes "keyed_by key item" "key_value_of prev key = key_value_of item key"
    and "merge_keyed_at dbg key prev item path = Inr m"
  shows "key_value_of m key = key_value_of item key"
proof -
  obtain im v where item: "item = JObject im" "obj_sorted im" "obj_get im key = Some v" "is_scalar v"
    using assms(1) by (auto simp: keyed_by_def)
  then obtain pm where "prev = JObject pm"
    using assms(2) by (auto simp: key_value_of_def split: json.splits)
  then obtain rm where "merge_keyed_map dbg key pm im path = Inr rm" "m = JObject rm"
    using assms(3) item by (auto simp: map_sum_def split: sum.splits)
  then show ?thesis
    using item obj_get_merge_keyed_map_scalar [of im key v dbg key pm path rm]
    by (simp add: key_value_of_def obj_sorted_distinct)
qed

lemma position_Some:
  "position P xs = Some i \<Longrightarrow> i < length xs \<and> P (xs ! i) \<and> (\<forall>j < i. \<not> P (xs ! j))"
proof (induction xs arbitrary: i)
  case (Cons x xs)
  then show ?case by (cases "P x") (fastforce simp: nth_Cons less_Suc_eq_0_disj split: nat.splits)+
qed simp

lemma position_None: "position P xs = None \<longleftrightarrow> (\<forall>x \<in> set xs. \<not> P x)"
  by (induction xs) auto

text \<open>
  The keys of the merged list: those of the base list, in their order, followed by the new
  keys of the overriding list.
\<close>

lemma merge_keyed_over_keys:
  "list_all (keyed_by key) over \<Longrightarrow> merge_keyed_over dbg key merged over path = Inr r \<Longrightarrow>
   map (\<lambda>x. key_value_of x key) r =
     append_missing (map (\<lambda>x. key_value_of x key) merged) (map (\<lambda>x. key_value_of x key) over)"
proof (induction over arbitrary: merged)
  case (Cons item over)
  let ?key = "\<lambda>x. key_value_of x key"
  show ?case
  proof (cases "position (\<lambda>x. ?key x = ?key item) merged")
    case None
    then have "?key item \<notin> ?key ` set merged" by (auto simp: position_None)
    with None Cons show ?thesis by simp
  next
    case (Some idx)
    then have idx: "idx < length merged" "?key (merged ! idx) = ?key item"
      by (auto dest: position_Some)
    then have "?key item \<in> ?key ` set merged" by (metis image_eqI nth_mem)
    moreover from Some Cons.prems obtain m where
        m: "merge_keyed_at dbg key (merged ! idx) item
              (keyed_child_path dbg path key (?key item)) = Inr m"
      and rest: "merge_keyed_over dbg key (merged[idx := m]) over path = Inr r"
      by (auto split: sum.splits)
    moreover have "map ?key (merged[idx := m]) = map ?key merged"
      using merge_keyed_at_key [OF _ idx(2) m] Cons.prems idx by (simp add: map_update list_update_same_conv)
    ultimately show ?thesis
      using Cons.IH [OF _ rest] Cons.prems by simp
  qed
qed simp

section \<open>Properties\<close>

text \<open>
  The overriding source wins at every leaf: a path at which it holds a scalar
  reads that scalar in the deep merge, with either list strategy and whatever the base holds.
\<close>

theorem merge_inventory_right_wins:
  assumes "wf_json over" "strategy = DeepMapReplaceList \<or> strategy = DeepMapAppendList"
    and "inventory_get over path = Inr v" "is_scalar v"
  shows "inventory_get (merge_inventory base over strategy) path = Inr v"
proof -
  have "inventory_walk p (merge_deep ap base over) segs = Inr v"
    if "inventory_walk p over segs = Inr v" "wf_json over" for p ap segs base over
    using that
  proof (induction segs arbitrary: base over)
    case (Cons seg segs)
    then obtain om child where om: "over = JObject om" "obj_get om seg = Some child"
        and walk: "inventory_walk p child segs = Inr v"
      by (auto split: json.splits option.splits)
    have "child \<noteq> JNull" "wf_json child"
      using walk assms(4) Cons.prems om wf_json_obj_getD by (cases segs; auto)+
    then show ?case
      using Cons om walk
      by (cases base; cases "obj_get (case base of JObject b \<Rightarrow> b | _ \<Rightarrow> []) seg")
        (auto simp: merge_deep_mismatch obj_get_merge_deep_map obj_sorted_distinct)
  qed (use assms(4) in simp)
  then show ?thesis
    using assms by (auto simp: inventory_get_def merge_inventory_def)
qed

theorem merge_inventory_right_wins_witness:
  "inventory_get (merge_inventory
     (JObject [(''pg'', JObject [(''port'', JString ''5432''), (''role'', JString ''replica'')])])
     (JObject [(''pg'', JObject [(''role'', JString ''master'')])]) DeepMapReplaceList) ''pg.role''
   = Inr (JString ''master'')"
  by (rule merge_inventory_right_wins)
    (simp_all add: obj_sorted_def inventory_get_def)

text \<open>
  What the overriding source does not mention is kept: when its lookup of a path falls
  off an object (the key is not there), the deep merge reads at that path what the base holds.
\<close>

theorem merge_inventory_keeps_base:
  assumes "wf_json over" "strategy = DeepMapReplaceList \<or> strategy = DeepMapAppendList"
    and "inventory_get over path = Inl (KeyNotFound path)" "inventory_get base path = Inr v"
  shows "inventory_get (merge_inventory base over strategy) path = Inr v"
proof -
  have "inventory_walk p (merge_deep ap base over) segs = Inr v"
    if "inventory_walk p over segs = Inl (KeyNotFound p)" "inventory_walk p base segs = Inr v"
      "wf_json over" for p ap segs base over
    using that
  proof (induction segs arbitrary: base over)
    case (Cons seg segs)
    obtain om where om: "over = JObject om"
      using Cons.prems(1) by (auto split: json.splits)
    obtain bm bv where bm: "base = JObject bm" "obj_get bm seg = Some bv"
        and walk: "inventory_walk p bv segs = Inr v"
      using Cons.prems(2) by (auto split: json.splits option.splits)
    show ?case
    proof (cases "obj_get om seg")
      case None
      then show ?thesis
        using om bm walk Cons.prems(3) by (simp add: obj_get_merge_deep_map obj_sorted_distinct)
    next
      case (Some child)
      then have "inventory_walk p child segs = Inl (KeyNotFound p)" "wf_json child"
        using Cons.prems om wf_json_obj_getD by auto
      moreover from this(1) have "child \<noteq> JNull" by (cases segs) auto
      ultimately show ?thesis
        using om bm walk Some Cons.prems(3) Cons.IH [of child bv]
        by (simp add: obj_get_merge_deep_map obj_sorted_distinct)
    qed
  qed simp
  then show ?thesis
    using assms by (auto simp: inventory_get_def merge_inventory_def)
qed

theorem merge_inventory_keeps_base_witness:
  "inventory_get (merge_inventory
     (JObject [(''pg'', JObject [(''port'', JString ''5432''), (''role'', JString ''replica'')])])
     (JObject [(''pg'', JObject [(''role'', JString ''master'')])]) DeepMapAppendList) ''pg.port''
   = Inr (JString ''5432'')"
  by (rule merge_inventory_keeps_base)
    (simp_all add: obj_sorted_def inventory_get_def)

text \<open>
  Applying the same overlay twice is the same as applying it once, for every strategy, as
  long as no object entry of the overlay is \<open>null\<close>.  (An entry \<open>null\<close> below a key that the base
  does not have is copied into the result by the first application and deleted by the second.)
\<close>

theorem merge_inventory_idempotent:
  assumes "wf_json base" "wf_json over" "null_free over"
  shows "merge_inventory (merge_inventory base over strategy) over strategy =
    merge_inventory base over strategy"
  using assms
  by (cases strategy) (simp_all add: merge_inventory_def merge_replace_def merge_deep_twice)

theorem merge_inventory_idempotent_witness:
  "merge_inventory
     (merge_inventory (JObject [(''a'', JArray [JString ''x''])])
        (JObject [(''a'', JArray [JString ''y'', JString ''x'']), (''b'', JBool True)]) DeepMapAppendList)
     (JObject [(''a'', JArray [JString ''y'', JString ''x'']), (''b'', JBool True)]) DeepMapAppendList =
   JObject [(''a'', JArray [JString ''x'', JString ''y'']), (''b'', JBool True)]"
  by (subst merge_inventory_idempotent)
    (simp_all add: obj_sorted_def merge_inventory_def merge_deep_arrays)

text \<open>
  A keyed merge of two lists of records keeps the records of the base in their order and
  appends the records with new keys in the order of the overriding list: the keys of the result
  are those of the base followed by the missing ones.  It succeeds only when every
  element of the base list is an object that has the key.
\<close>

theorem merge_keyed_lists_keys:
  assumes "list_all (keyed_by key) over"
    and "merge_inventory_keyed dbg (JArray base) (JArray over) key = Inr merged"
  shows "\<exists>r. merged = JArray r \<and>
    map (\<lambda>x. key_value_of x key) r =
      append_missing (map (\<lambda>x. key_value_of x key) base) (map (\<lambda>x. key_value_of x key) over) \<and>
    list_all (\<lambda>x. key_value_of x key \<noteq> None) base"
proof -
  have base: "list_all (\<lambda>x. key_value_of x key \<noteq> None) b" if "check_keyed_base b key path = Inr ()" for b path
    using that by (induction b)
      (auto simp: ensure_map_with_key_def key_value_of_def split: sum.splits json.splits if_splits)
  obtain r where "merge_keyed_over dbg key base over ''$'' = Inr r" "merged = JArray r"
      "check_keyed_base base key ''$'' = Inr ()"
    using assms(2) by (auto simp: merge_inventory_keyed_def merge_keyed_arrays map_sum_def split: sum.splits)
  then show ?thesis
    using merge_keyed_over_keys [OF assms(1)] base by blast
qed

theorem merge_keyed_lists_keys_witness:
  "\<exists>r. JArray [JObject [(''n'', JString ''a''), (''p'', JString ''1'')], JObject [(''n'', JString ''b'')],
        JObject [(''n'', JString ''c'')]] = JArray r \<and>
    map (\<lambda>x. key_value_of x ''n'') r =
      append_missing (map (\<lambda>x. key_value_of x ''n'') [JObject [(''n'', JString ''a'')], JObject [(''n'', JString ''b'')]])
        (map (\<lambda>x. key_value_of x ''n'')
           [JObject [(''n'', JString ''c'')], JObject [(''n'', JString ''a''), (''p'', JString ''1'')]]) \<and>
    list_all (\<lambda>x. key_value_of x ''n'' \<noteq> None) [JObject [(''n'', JString ''a'')], JObject [(''n'', JString ''b'')]]"
  by (rule merge_keyed_lists_keys [where dbg = "\<lambda>_. []"])
    (simp_all add: keyed_by_def obj_sorted_def merge_inventory_keyed_def merge_keyed_arrays
      ensure_map_with_key_def key_value_of_def)

text \<open>
  What a \<open>null\<close> of the overriding source does: the deep strategies delete the key of an object
  that both sides have, but keep the \<open>null\<close> below a key that the base lacks, and the \<open>replace\<close>
  strategy keeps every \<open>null\<close> as a value.
\<close>

theorem merge_null_survives:
  assumes "wf_json (JObject ov)" "obj_get ov k = Some JNull" "obj_get b j = None" "obj_get ov j = Some v" "v \<noteq> JNull"
  shows "(\<exists>m. merge_inventory (JObject b) (JObject ov) DeepMapReplaceList = JObject m \<and>
      obj_get m k = None \<and> obj_get m j = Some v) \<and>
    merge_inventory (JObject b) (JObject ov) Replace = JObject ov"
  using assms obj_sorted_distinct [of ov] by (simp add: merge_inventory_def merge_replace_def obj_get_merge_deep_map)

theorem merge_null_survives_witness:
  "\<exists>m. merge_inventory (JObject [(''k'', JBool True)])
       (JObject [(''j'', JObject [(''b'', JNull)]), (''k'', JNull)]) DeepMapReplaceList = JObject m \<and>
     obj_get m ''k'' = None \<and> obj_get m ''j'' = Some (JObject [(''b'', JNull)])"
  using merge_null_survives [of "[(''j'', JObject [(''b'', JNull)]), (''k'', JNull)]" "''k''"
      "[(''k'', JBool True)]" "''j''" "JObject [(''b'', JNull)]"]
  by (simp add: obj_sorted_def less_char_def)

end
