(* ===== verification/Resource_Registry.thy ===== *)
theory Resource_Registry
  imports Bosun_Json
begin

text \<open>
  \<open>bosun-core/src/resource.rs\<close> and \<open>registry.rs\<close>: resource kinds and identifiers, the registry
  of declared resources and its topological order (Kahn's algorithm).

  The registry keeps the resources in declaration order and an index from identifier to position.
  In \<open>topological_order\<close> the in-degree \<open>HashMap\<close> is an association list whose order is the
  iteration order of the map; the standard library promises only that iteration visits every entry
  once, so the order is the parameter \<open>ord\<close>, of which the properties assume \<open>map_order\<close> (it permutes
  its argument).  The loop over the queue is \<open>kahn_loop\<close>; the decrement of an in-degree that is
  already zero, which would underflow a \<open>usize\<close>, is the result \<open>Panic\<close>.
\<close>

type_synonym ResourceKind = string
type_synonym ResourceId = string

text \<open>A result of the code that is either one of its errors or a panic.\<close>

datatype 'e fail = Err 'e | Panic

section \<open>Kinds and identifiers\<close>

datatype ResourceKindError = EmptyKind | InvalidKindChar string

definition is_ascii_lowercase :: "char \<Rightarrow> bool" where
  "is_ascii_lowercase c \<longleftrightarrow> CHR ''a'' \<le> c \<and> c \<le> CHR ''z''"

definition is_ascii_uppercase :: "char \<Rightarrow> bool" where
  "is_ascii_uppercase c \<longleftrightarrow> CHR ''A'' \<le> c \<and> c \<le> CHR ''Z''"

definition is_ascii_digit :: "char \<Rightarrow> bool" where
  "is_ascii_digit c \<longleftrightarrow> CHR ''0'' \<le> c \<and> c \<le> CHR ''9''"

definition kind_char_allowed :: "char \<Rightarrow> bool" where
  "kind_char_allowed ch \<longleftrightarrow>
     is_ascii_lowercase ch \<or> is_ascii_digit ch \<or> ch = CHR ''.'' \<or> ch = CHR ''_'' \<or> ch = CHR ''-''"

definition resource_kind_try_new :: "string \<Rightarrow> ResourceKindError + ResourceKind" where
  "resource_kind_try_new s =
     (if s = [] then Inl EmptyKind
      else if \<exists>ch \<in> set s. \<not> kind_char_allowed ch then Inl (InvalidKindChar s)
      else Inr s)"

definition resource_id_new :: "ResourceKind \<Rightarrow> string \<Rightarrow> ResourceId" where
  "resource_id_new kind identity = kind @ '':'' @ identity"

record Resource =
  res_id :: ResourceId
  res_kind :: ResourceKind
  res_spec_version :: u16
  res_payload :: json
  res_reload_on :: "ResourceId list"
  res_restart_on :: "ResourceId list"
  res_depends_on :: "ResourceId list"

section \<open>The registry\<close>

datatype RegistryError = DuplicateId ResourceId | UnknownHandle ResourceId | Cycle string

record Registry =
  reg_resources :: "Resource list"
  reg_by_id :: "ResourceId \<rightharpoonup> nat"

definition registry_new :: Registry where
  "registry_new = \<lparr>reg_resources = [], reg_by_id = Map.empty\<rparr>"

definition registry_add :: "Registry \<Rightarrow> Resource \<Rightarrow> RegistryError + (ResourceId \<times> Registry)" where
  "registry_add reg r =
     (if reg_by_id reg (res_id r) \<noteq> None then Inl (DuplicateId (res_id r))
      else Inr (res_id r,
        reg\<lparr>reg_by_id := (reg_by_id reg)(res_id r \<mapsto> length (reg_resources reg)),
            reg_resources := reg_resources reg @ [r]\<rparr>))"

text \<open>
  \<open>by_id.get(id).map(|i| &resources[i])\<close>.  An index outside the vector would panic in Rust;
  \<open>registry_inv\<close> below excludes it for every registry that \<open>registry_add\<close> builds.
\<close>

definition registry_get :: "Registry \<Rightarrow> ResourceId \<Rightarrow> Resource option" where
  "registry_get reg i =
     (case reg_by_id reg i of
        None \<Rightarrow> None
      | Some n \<Rightarrow> (if n < length (reg_resources reg) then Some (reg_resources reg ! n) else None))"

section \<open>Topological order\<close>

text \<open>All three kinds of links order the application.\<close>

definition resource_deps :: "Resource \<Rightarrow> ResourceId list" where
  "resource_deps r = res_depends_on r @ res_reload_on r @ res_restart_on r"

type_synonym adjacency = "ResourceId \<Rightarrow> ResourceId list"
type_synonym degrees = "(ResourceId \<times> nat) list"

text \<open>The inner loop over the links of one resource.\<close>

fun add_deps ::
  "(ResourceId \<rightharpoonup> nat) \<Rightarrow> ResourceId \<Rightarrow> ResourceId list \<Rightarrow> adjacency \<times> degrees \<Rightarrow>
   RegistryError + (adjacency \<times> degrees)" where
  "add_deps by_id rid [] (adj, deg) = Inr (adj, deg)"
| "add_deps by_id rid (dep # deps) (adj, deg) =
     (if by_id dep = None then Inl (UnknownHandle dep)
      else add_deps by_id rid deps
        (adj(dep := adj dep @ [rid]),
         AList.update rid (case map_of deg rid of None \<Rightarrow> 1 | Some d \<Rightarrow> Suc d) deg))"

fun build_graph ::
  "(ResourceId \<rightharpoonup> nat) \<Rightarrow> Resource list \<Rightarrow> adjacency \<times> degrees \<Rightarrow>
   RegistryError + (adjacency \<times> degrees)" where
  "build_graph by_id [] g = Inr g"
| "build_graph by_id (r # rs) g =
     (case add_deps by_id (res_id r) (resource_deps r) g of
        Inl e \<Rightarrow> Inl e
      | Inr g' \<Rightarrow> build_graph by_id rs g')"

text \<open>The loop over the successors of a popped node; \<open>None\<close> is the underflow of \<open>*d -= 1\<close>.\<close>

fun relax :: "degrees \<Rightarrow> ResourceId list \<Rightarrow> ResourceId list \<Rightarrow> (degrees \<times> ResourceId list) option" where
  "relax deg queue [] = Some (deg, queue)"
| "relax deg queue (s # ss) =
     (case map_of deg s of
        None \<Rightarrow> relax deg queue ss
      | Some 0 \<Rightarrow> None
      | Some (Suc d) \<Rightarrow>
          relax (AList.update s d deg) (if d = 0 then queue @ [s] else queue) ss)"

definition degree_sum :: "degrees \<Rightarrow> nat" where
  "degree_sum deg = sum_list (map snd deg)"

lemma degree_sum_update:
  "map_of deg k = Some d \<Longrightarrow> degree_sum (AList.update k d' deg) + d = degree_sum deg + d'"
  by (induction deg) (auto simp: degree_sum_def split: if_splits)

lemma relax_measure:
  "relax deg queue ss = Some (deg', queue') \<Longrightarrow>
   2 * degree_sum deg' + length queue' \<le> 2 * degree_sum deg + length queue"
proof (induction deg queue ss rule: relax.induct)
  case (2 deg queue s ss)
  show ?case
  proof (cases "map_of deg s")
    case (Some d)
    with 2 obtain d' where "d = Suc d'" by (cases d) auto
    with 2 Some degree_sum_update [OF Some, of d'] show ?thesis
      by (auto split: if_splits)
  qed (use 2 in simp)
qed simp

function kahn_loop ::
  "adjacency \<Rightarrow> degrees \<Rightarrow> ResourceId list \<Rightarrow> ResourceId list \<Rightarrow> (degrees \<times> ResourceId list) option" where
  "kahn_loop adj deg [] order = Some (deg, order)"
| "kahn_loop adj deg (i # queue) order =
     (case relax deg queue (adj i) of
        None \<Rightarrow> None
      | Some (deg', queue') \<Rightarrow> kahn_loop adj deg' queue' (order @ [i]))"
  by pat_completeness auto
termination
  by (relation "measure (\<lambda>(adj, deg, queue, order). 2 * degree_sum deg + length queue)")
    (auto dest: relax_measure)

definition topological_order ::
  "(degrees \<Rightarrow> degrees) \<Rightarrow> Registry \<Rightarrow> RegistryError fail + ResourceId list" where
  "topological_order ord reg =
     (let n = length (reg_resources reg);
          deg0 = ord (map (\<lambda>r. (res_id r, 0)) (reg_resources reg))
      in case build_graph (reg_by_id reg) (reg_resources reg) (\<lambda>_. [], deg0) of
           Inl e \<Rightarrow> Inl (Err e)
         | Inr (adj, deg) \<Rightarrow>
             (case kahn_loop adj deg (map fst (filter (\<lambda>(k, d). d = 0) deg)) [] of
                None \<Rightarrow> Inl Panic
              | Some (deg', order) \<Rightarrow>
                  (if length order \<noteq> n
                   then Inl (Err (Cycle (join_with '', '' (sort (map fst (filter (\<lambda>(k, d). d > 0) deg'))))))
                   else Inr order)))"

text \<open>What the standard library promises of \<open>HashMap\<close> iteration.\<close>

definition map_order :: "(degrees \<Rightarrow> degrees) \<Rightarrow> bool" where
  "map_order ord \<longleftrightarrow> (\<forall>xs. mset (ord xs) = mset xs)"

section \<open>The registry invariant\<close>

definition registry_inv :: "Registry \<Rightarrow> bool" where
  "registry_inv reg \<longleftrightarrow>
     distinct (map res_id (reg_resources reg)) \<and>
     (\<forall>i n. reg_by_id reg i = Some n \<longleftrightarrow>
        n < length (reg_resources reg) \<and> res_id (reg_resources reg ! n) = i)"

lemma registry_inv_new: "registry_inv registry_new"
  by (simp add: registry_inv_def registry_new_def)

lemma registry_inv_dom:
  assumes "registry_inv reg"
  shows "reg_by_id reg i = None \<longleftrightarrow> i \<notin> res_id ` set (reg_resources reg)"
proof -
  have "reg_by_id reg i \<noteq> None \<longleftrightarrow> (\<exists>n < length (reg_resources reg). res_id (reg_resources reg ! n) = i)"
    using assms by (auto simp: registry_inv_def)
  moreover have "(\<exists>n < length xs. res_id (xs ! n) = i) \<longleftrightarrow> i \<in> res_id ` set xs" for xs :: "Resource list"
    by (metis (no_types, lifting) image_iff in_set_conv_nth)
  ultimately show ?thesis by auto
qed

lemma registry_inv_add:
  assumes "registry_inv reg" "registry_add reg r = Inr (i, reg')"
  shows "registry_inv reg'"
proof -
  have new: "res_id r \<notin> res_id ` set (reg_resources reg)"
    and reg': "reg' = reg\<lparr>reg_by_id := (reg_by_id reg)(res_id r \<mapsto> length (reg_resources reg)),
            reg_resources := reg_resources reg @ [r]\<rparr>"
    using assms registry_inv_dom [OF assms(1)] by (auto simp: registry_add_def split: if_splits)
  have "res_id (reg_resources reg ! n) \<noteq> res_id r" if "n < length (reg_resources reg)" for n
    using new that by (metis image_eqI nth_mem)
  with new show ?thesis
    using assms(1) by (auto simp: registry_inv_def reg' nth_append less_Suc_eq)
qed

lemma registry_get_find:
  assumes "registry_inv reg"
  shows "registry_get reg i = find (\<lambda>r. res_id r = i) (reg_resources reg)"
proof (cases "reg_by_id reg i")
  case None
  then have "find (\<lambda>r. res_id r = i) (reg_resources reg) = None"
    using registry_inv_dom [OF assms] by (auto simp: find_None_iff)
  with None show ?thesis by (simp add: registry_get_def)
next
  case (Some n)
  then have n: "n < length (reg_resources reg)" "res_id (reg_resources reg ! n) = i"
    using assms by (auto simp: registry_inv_def)
  have "find (\<lambda>r. res_id r = i) (reg_resources reg) = Some (reg_resources reg ! n)"
    using n assms by (auto simp: find_Some_iff registry_inv_def distinct_conv_nth)
  with Some n show ?thesis by (simp add: registry_get_def)
qed

section \<open>The dependency graph\<close>

text \<open>\<open>(d, i)\<close> when the resource \<open>i\<close> links to \<open>d\<close>, so \<open>d\<close> has to come first.\<close>

definition dep_rel :: "Registry \<Rightarrow> (ResourceId \<times> ResourceId) set" where
  "dep_rel reg = {(d, res_id r) | d r. r \<in> set (reg_resources reg) \<and> d \<in> set (resource_deps r)}"

text \<open>The links of the resource with a given identifier, none for an unknown one.\<close>

definition links :: "Resource list \<Rightarrow> ResourceId \<Rightarrow> ResourceId list" where
  "links rs i = (case find (\<lambda>r. res_id r = i) rs of None \<Rightarrow> [] | Some r \<Rightarrow> resource_deps r)"

lemma find_distinct:
  "distinct (map f xs) \<Longrightarrow> x \<in> set xs \<Longrightarrow> find (\<lambda>y. f y = f x) xs = Some x"
proof (induction xs)
  case (Cons y xs)
  then show ?case by (cases "f y = f x") (auto simp: image_iff)
qed simp

lemma links_res_id: "distinct (map res_id rs) \<Longrightarrow> r \<in> set rs \<Longrightarrow> links rs (res_id r) = resource_deps r"
  by (simp add: links_def find_distinct)

lemma links_unknown: "i \<notin> res_id ` set rs \<Longrightarrow> links rs i = []"
proof -
  assume "i \<notin> res_id ` set rs"
  then have "find (\<lambda>r. res_id r = i) rs = None" by (auto simp: find_None_iff)
  then show ?thesis by (simp add: links_def)
qed

lemma links_known: "d \<in> set (links rs i) \<Longrightarrow> i \<in> res_id ` set rs"
  using links_unknown [of i rs] by (cases "i \<in> res_id ` set rs") auto

lemma in_dep_rel:
  assumes "distinct (map res_id (reg_resources reg))"
  shows "(d, i) \<in> dep_rel reg \<longleftrightarrow> d \<in> set (links (reg_resources reg) i)"
proof
  assume "(d, i) \<in> dep_rel reg"
  then show "d \<in> set (links (reg_resources reg) i)"
    using assms by (auto simp: dep_rel_def links_res_id)
next
  assume d: "d \<in> set (links (reg_resources reg) i)"
  then have "i \<in> res_id ` set (reg_resources reg)"
    using links_unknown by fastforce
  with d show "(d, i) \<in> dep_rel reg"
    using assms by (auto simp: dep_rel_def links_res_id)
qed

lemma finite_dep_rel: "finite (dep_rel reg)"
proof -
  have "dep_rel reg \<subseteq> (\<Union>r \<in> set (reg_resources reg). set (resource_deps r) \<times> {res_id r})"
    by (auto simp: dep_rel_def)
  then show ?thesis by (rule finite_subset) auto
qed

subsection \<open>The edges that the first loop collects\<close>

lemma count_list_append: "count_list (xs @ ys) x = count_list xs x + count_list ys x"
  by (induction xs) auto

lemma add_deps_known:
  "map_of deg rid = Some n \<Longrightarrow> \<forall>d \<in> set deps. by_id d \<noteq> None \<Longrightarrow>
   add_deps by_id rid deps (adj, deg) =
     Inr (\<lambda>d. adj d @ replicate (count_list deps d) rid, AList.update rid (n + length deps) deg)"
proof (induction deps arbitrary: adj deg n)
  case (Cons d deps)
  have "add_deps by_id rid deps (adj(d := adj d @ [rid]), AList.update rid (Suc n) deg) =
    Inr (\<lambda>d'. (adj(d := adj d @ [rid])) d' @ replicate (count_list deps d') rid,
      AList.update rid (Suc n + length deps) (AList.update rid (Suc n) deg))"
    using Cons by (intro Cons.IH) auto
  then show ?case
    using Cons.prems by (auto simp: fun_eq_iff replicate_app_Cons_same AList.update_last)
qed (simp add: AList.update_triv)

lemma add_deps_unknown:
  "d \<in> set deps \<Longrightarrow> by_id d = None \<Longrightarrow>
   \<exists>u \<in> set deps. by_id u = None \<and> add_deps by_id rid deps g = Inl (UnknownHandle u)"
  by (induction deps arbitrary: g) (case_tac [!] g, auto)

lemma count_list_replicate: "count_list (replicate n x) y = (if x = y then n else 0)"
  by (induction n) auto

lemma links_Cons:
  "links (r # rs) i = (if res_id r = i then resource_deps r else links rs i)"
  by (simp add: links_def)

lemma build_graph_known:
  assumes "distinct (map res_id rs)" "res_id ` set rs \<subseteq> fst ` set deg"
    and "\<forall>r \<in> set rs. \<forall>d \<in> set (resource_deps r). by_id d \<noteq> None"
  shows "\<exists>adj' deg'. build_graph by_id rs (adj, deg) = Inr (adj', deg') \<and>
    (\<forall>d s. count_list (adj' d) s = count_list (adj d) s + count_list (links rs s) d) \<and>
    (\<forall>s. map_of deg' s = map_option (\<lambda>n. n + length (links rs s)) (map_of deg s)) \<and>
    map fst deg' = map fst deg"
  using assms
proof (induction rs arbitrary: adj deg)
  case Nil
  then show ?case by (simp add: links_def option.map_ident)
next
  case (Cons r rs)
  obtain n where n: "map_of deg (res_id r) = Some n"
    using Cons.prems(2) by (metis image_insert insert_subset list.simps(15) map_of_eq_None_iff not_None_eq)
  let ?deg = "AList.update (res_id r) (n + length (resource_deps r)) deg"
  let ?adj = "\<lambda>d. adj d @ replicate (count_list (resource_deps r) d) (res_id r)"
  have keys: "map fst ?deg = map fst deg"
    using n by (simp add: AList.update_keys map_of_SomeD weak_map_of_SomeI)
      (metis image_eqI map_of_SomeD fst_conv)
  then have "res_id ` set rs \<subseteq> fst ` set ?deg"
    using Cons.prems(2) by (metis image_set insert_subset list.simps(15) image_insert)
  then obtain adj' deg' where g: "build_graph by_id rs (?adj, ?deg) = Inr (adj', deg')"
      "\<And>d s. count_list (adj' d) s = count_list (?adj d) s + count_list (links rs s) d"
      "\<And>s. map_of deg' s = map_option (\<lambda>n. n + length (links rs s)) (map_of ?deg s)"
      "map fst deg' = map fst ?deg"
    using Cons.IH [of ?deg ?adj] Cons.prems by auto
  have fresh: "links rs (res_id r) = []"
    using Cons.prems(1) by (simp add: links_unknown)
  have "build_graph by_id (r # rs) (adj, deg) = Inr (adj', deg')"
    using Cons.prems(3) g(1) add_deps_known [OF n] by simp
  moreover have "count_list (adj' d) s = count_list (adj d) s + count_list (links (r # rs) s) d" for d s
    using g(2) fresh by (auto simp: links_Cons count_list_append count_list_replicate)
  moreover have "map_of deg' s = map_option (\<lambda>n. n + length (links (r # rs) s)) (map_of deg s)" for s
    using g(3) fresh n by (auto simp: links_Cons)
  ultimately show ?case using g(4) keys by auto
qed

lemma build_graph_unknown:
  assumes "r \<in> set rs" "d \<in> set (resource_deps r)" "by_id d = None"
  shows "\<exists>u. by_id u = None \<and> build_graph by_id rs g = Inl (UnknownHandle u)"
  using assms(1)
proof (induction rs arbitrary: g)
  case (Cons r' rs)
  show ?case
  proof (cases "\<exists>u \<in> set (resource_deps r'). by_id u = None")
    case True
    then obtain u where "u \<in> set (resource_deps r')" "by_id u = None" by blast
    with add_deps_unknown [of u "resource_deps r'" by_id "res_id r'" g] show ?thesis by auto
  next
    case False
    then have "r \<in> set rs" using Cons.prems assms(2,3) by auto
    then have IH: "\<exists>u. by_id u = None \<and> build_graph by_id rs g' = Inl (UnknownHandle u)" for g'
      using Cons.IH by blast
    show ?thesis
    proof (cases "add_deps by_id (res_id r') (resource_deps r') g")
      case (Inl e)
      have "add_deps by_id rid ds g' \<noteq> Inl e" if "\<forall>u \<in> set ds. by_id u \<noteq> None" for rid ds g'
        using that by (induction ds arbitrary: g') (case_tac [!] g', auto)
      from this [of "resource_deps r'" "res_id r'" g] show ?thesis using Inl False by auto
    qed (use IH in simp)
  qed
qed simp

subsection \<open>The loop over the queue\<close>

text \<open>The successors of one popped node: each in-degree drops by the number of edges.\<close>

lemma relax_spec:
  assumes "\<And>s. count_list ss s \<le> (case map_of deg s of None \<Rightarrow> 0 | Some d \<Rightarrow> d)"
  shows "\<exists>deg' new. relax deg queue ss = Some (deg', queue @ new) \<and>
    (\<forall>s. map_of deg' s = map_option (\<lambda>d. d - count_list ss s) (map_of deg s)) \<and>
    distinct new \<and> set new = {s. \<exists>d. map_of deg s = Some d \<and> 0 < d \<and> d = count_list ss s}"
  using assms
proof (induction ss arbitrary: deg queue)
  case Nil
  then show ?case by (simp add: option.map_ident)
next
  case (Cons s ss)
  obtain d where d: "map_of deg s = Some (Suc d)"
    using Cons.prems [of s] by (cases "map_of deg s") (auto dest: Suc_le_D)
  let ?deg = "AList.update s d deg" and ?queue = "if d = 0 then queue @ [s] else queue"
  have "count_list ss x \<le> (case map_of ?deg x of None \<Rightarrow> 0 | Some d \<Rightarrow> d)" for x
    using Cons.prems [of x] d by (cases "x = s") auto
  then obtain deg' new where r: "relax ?deg ?queue ss = Some (deg', ?queue @ new)"
      "\<And>x. map_of deg' x = map_option (\<lambda>d. d - count_list ss x) (map_of ?deg x)"
      "distinct new" "set new = {x. \<exists>d. map_of ?deg x = Some d \<and> 0 < d \<and> d = count_list ss x}"
    using Cons.IH [of ?deg ?queue] by blast
  let ?new = "(if d = 0 then [s] else []) @ new"
  have "relax deg queue (s # ss) = Some (deg', queue @ ?new)"
    using d r(1) by simp
  moreover have "map_of deg' x = map_option (\<lambda>d. d - count_list (s # ss) x) (map_of deg x)" for x
    using r(2) d by (cases "x = s") auto
  moreover have "distinct ?new"
    using r(3,4) by auto
  moreover have "set ?new = {x. \<exists>d. map_of deg x = Some d \<and> 0 < d \<and> d = count_list (s # ss) x}"
  proof -
    have "x \<in> set ?new \<longleftrightarrow> (\<exists>d. map_of deg x = Some d \<and> 0 < d \<and> d = count_list (s # ss) x)" for x
    proof (cases "x = s")
      case True
      have "count_list ss s \<le> d" using Cons.prems [of s] d by simp
      then show ?thesis using True d r(4) by auto
    next
      case False
      then show ?thesis using r(4) by auto
    qed
    then show ?thesis by blast
  qed
  ultimately show ?case by blast
qed

text \<open>Every node comes after all of its links.\<close>

definition topo_sorted :: "(ResourceId \<Rightarrow> ResourceId list) \<Rightarrow> ResourceId list \<Rightarrow> bool" where
  "topo_sorted deps xs \<longleftrightarrow> (\<forall>i < length xs. set (deps (xs ! i)) \<subseteq> set (take i xs))"

lemma topo_sorted_Nil [simp]: "topo_sorted deps []"
  by (simp add: topo_sorted_def)

lemma topo_sorted_snoc [simp]:
  "topo_sorted deps (xs @ [x]) \<longleftrightarrow> topo_sorted deps xs \<and> set (deps x) \<subseteq> set xs"
  by (auto simp: topo_sorted_def nth_append less_Suc_eq)

text \<open>The links of a node that are not yet in the order.\<close>

abbreviation pending :: "(ResourceId \<Rightarrow> ResourceId list) \<Rightarrow> ResourceId list \<Rightarrow> ResourceId \<Rightarrow> ResourceId list" where
  "pending deps order s \<equiv> filter (\<lambda>d. d \<notin> set order) (deps s)"

definition kahn_inv ::
  "ResourceId set \<Rightarrow> (ResourceId \<Rightarrow> ResourceId list) \<Rightarrow> degrees \<Rightarrow> ResourceId list \<Rightarrow> ResourceId list \<Rightarrow> bool"
  where
  "kahn_inv nodes deps deg queue order \<longleftrightarrow>
     (\<forall>s. map_of deg s = (if s \<in> nodes then Some (length (pending deps order s)) else None)) \<and>
     distinct (order @ queue) \<and>
     set (order @ queue) = {s \<in> nodes. pending deps order s = []} \<and>
     topo_sorted deps order"

lemma pending_snoc:
  assumes "i \<notin> set order"
  shows "length (pending deps order s) = length (pending deps (order @ [i]) s) + count_list (deps s) i"
proof -
  have "length (filter (\<lambda>d. d \<notin> set order) xs) =
      length (filter (\<lambda>d. d \<notin> set (order @ [i])) xs) + count_list xs i" for xs
    using assms by (induction xs) auto
  then show ?thesis .
qed

lemma kahn_step:
  assumes inv: "kahn_inv nodes deps deg (i # queue) order"
    and adj: "\<And>s. count_list (adj i) s = (if s \<in> nodes then count_list (deps s) i else 0)"
  shows "\<exists>deg' queue'. relax deg queue (adj i) = Some (deg', queue') \<and>
    kahn_inv nodes deps deg' queue' (order @ [i])"
proof -
  have i: "i \<notin> set order" "i \<in> nodes" "set (deps i) \<subseteq> set order"
    using inv by (auto simp: kahn_inv_def filter_empty_conv)
  have deg: "map_of deg s = (if s \<in> nodes then Some (length (pending deps order s)) else None)" for s
    using inv by (simp add: kahn_inv_def)
  note snoc = pending_snoc [OF i(1), of deps]
  have "count_list (adj i) s \<le> (case map_of deg s of None \<Rightarrow> 0 | Some d \<Rightarrow> d)" for s
    using snoc [of s] by (simp add: adj deg)
  from relax_spec [OF this, of queue] obtain deg' new where
    r: "relax deg queue (adj i) = Some (deg', queue @ new)"
      "\<And>s. map_of deg' s = map_option (\<lambda>d. d - count_list (adj i) s) (map_of deg s)"
      "distinct new" "set new = {s. \<exists>d. map_of deg s = Some d \<and> 0 < d \<and> d = count_list (adj i) s}"
    by blast
  have new: "s \<in> set new \<longleftrightarrow>
      s \<in> nodes \<and> pending deps order s \<noteq> [] \<and> pending deps (order @ [i]) s = []" for s
    using snoc [of s] by (auto simp: r(4) deg adj simp flip: length_greater_0_conv)
  have old: "pending deps (order @ [i]) s = []" if "pending deps order s = []" for s
    using that by (auto simp: filter_empty_conv)
  have "set ((order @ [i]) @ queue @ new) = {s \<in> nodes. pending deps (order @ [i]) s = []}"
  proof -
    have "set ((order @ [i]) @ queue @ new) = set (order @ i # queue) \<union> set new" by auto
    also have "\<dots> = {s \<in> nodes. pending deps order s = []} \<union> set new"
      using inv by (simp add: kahn_inv_def)
    also have "\<dots> = {s \<in> nodes. pending deps (order @ [i]) s = []}"
      using old by (auto simp: new)
    finally show ?thesis .
  qed
  moreover have "distinct ((order @ [i]) @ queue @ new)"
  proof -
    have "set new \<inter> set (order @ i # queue) = {}"
      using inv by (auto simp: kahn_inv_def new)
    then show ?thesis using inv r(3) by (auto simp: kahn_inv_def)
  qed
  ultimately have "kahn_inv nodes deps deg' (queue @ new) (order @ [i])"
    using inv i snoc r(2) by (auto simp: kahn_inv_def adj)
  then show ?thesis using r(1) by blast
qed

lemma kahn_loop_inv:
  assumes "kahn_inv nodes deps deg queue order"
    and "\<And>i s. count_list (adj i) s = (if s \<in> nodes then count_list (deps s) i else 0)"
  shows "\<exists>deg' order'. kahn_loop adj deg queue order = Some (deg', order') \<and>
    kahn_inv nodes deps deg' [] order'"
  using assms
proof (induction adj deg queue order rule: kahn_loop.induct)
  case (2 adj deg i queue order)
  obtain deg' queue' where "relax deg queue (adj i) = Some (deg', queue')"
      "kahn_inv nodes deps deg' queue' (order @ [i])"
    using kahn_step [OF "2.prems"(1), of adj] "2.prems"(2) by blast
  then show ?case using "2.IH" "2.prems"(2) by simp
qed simp

subsection \<open>Acyclicity\<close>

lemma topo_sorted_acyclic:
  assumes "topo_sorted deps order" "distinct order"
    and "\<And>d i. (d, i) \<in> R \<Longrightarrow> i \<in> set order \<and> d \<in> set (deps i)"
  shows "acyclic R"
proof -
  let ?pos = "\<lambda>x. length (takeWhile (\<lambda>y. y \<noteq> x) order)"
  have pos: "?pos (order ! k) = k" if "k < length order" for k
  proof -
    have "takeWhile (\<lambda>y. y \<noteq> order ! k) order = take k order"
      using that assms(2) by (intro takeWhile_eq_take_P_nth) (auto simp: nth_eq_iff_index_eq)
    then show ?thesis using that by simp
  qed
  have "R \<subseteq> measure ?pos"
  proof
    fix e assume "e \<in> R"
    then obtain d i where e: "e = (d, i)" "i \<in> set order" "d \<in> set (deps i)"
      using assms(3) by (cases e) auto
    then obtain k where k: "k < length order" "order ! k = i" by (auto simp: in_set_conv_nth)
    with e assms(1) have "d \<in> set (take k order)" by (auto simp: topo_sorted_def)
    then obtain j where "j < k" "order ! j = d" using k by (auto simp: in_set_conv_nth)
    with k pos [of j] pos [of k] show "e \<in> measure ?pos" by (simp add: e)
  qed
  then show ?thesis using wf_acyclic wf_measure wf_subset by blast
qed

lemma stuck_cyclic:
  assumes "finite R" "S \<noteq> {}" "\<And>s. s \<in> S \<Longrightarrow> \<exists>d \<in> S. (d, s) \<in> R"
  shows "\<not> acyclic R"
proof
  assume "acyclic R"
  then have "wf R" using assms(1) by (rule finite_acyclic_wf [rotated])
  with assms(2) obtain z where "z \<in> S" "\<And>y. (y, z) \<in> R \<Longrightarrow> y \<notin> S" by (metis wf_eq_minimal ex_in_conv)
  with assms(3) show False by blast
qed

text \<open>All links of all resources are registered.\<close>

definition handles_known :: "Registry \<Rightarrow> bool" where
  "handles_known reg \<longleftrightarrow>
     (\<forall>r \<in> set (reg_resources reg). \<forall>d \<in> set (resource_deps r). reg_by_id reg d \<noteq> None)"

lemma topological_order_known:
  assumes inv: "registry_inv reg" and ord: "map_order ord" and known: "handles_known reg"
  shows "\<exists>deg order. kahn_inv (res_id ` set (reg_resources reg)) (links (reg_resources reg)) deg [] order \<and>
    topological_order ord reg =
      (if length order \<noteq> length (reg_resources reg)
       then Inl (Err (Cycle (join_with '', '' (sort (map fst (filter (\<lambda>(k, d). d > 0) deg))))))
       else Inr order)"
proof -
  let ?rs = "reg_resources reg"
  let ?ids = "res_id ` set ?rs"
  let ?deg0 = "ord (map (\<lambda>r. (res_id r, 0)) ?rs)"
  have dist: "distinct (map res_id ?rs)" using inv by (simp add: registry_inv_def)
  have set0: "set ?deg0 = (\<lambda>r. (res_id r, 0)) ` set ?rs"
    using ord by (metis map_order_def set_map set_mset_mset)
  have "mset (map fst ?deg0) = mset (map res_id ?rs)"
    using ord by (simp add: map_order_def multiset.map_comp comp_def)
  then have dist0: "distinct (map fst ?deg0)" using dist by (metis mset_eq_imp_distinct_iff)
  have deg0: "map_of ?deg0 s = (if s \<in> ?ids then Some 0 else None)" for s
    using set0 dist0 by (auto simp: map_of_eq_None_iff image_iff)
  have sub: "?ids \<subseteq> fst ` set ?deg0" by (auto simp: set0 image_image)
  obtain adj deg where g: "build_graph (reg_by_id reg) ?rs (\<lambda>_. [], ?deg0) = Inr (adj, deg)"
      "\<And>d s. count_list (adj d) s = count_list (links ?rs s) d"
      "\<And>s. map_of deg s = map_option (\<lambda>n. n + length (links ?rs s)) (map_of ?deg0 s)"
      "map fst deg = map fst ?deg0"
    using build_graph_known [OF dist sub, of "reg_by_id reg" "\<lambda>_. []"] known
    by (auto simp: handles_known_def)
  let ?queue = "map fst (filter (\<lambda>(k, d). d = 0) deg)"
  have distdeg: "distinct (map fst deg)" using g(4) dist0 by simp
  have zero: "s \<in> set ?queue \<longleftrightarrow> map_of deg s = Some 0" for s
    using distdeg by (force simp: map_of_eq_Some_iff)
  have "set ?queue = {s \<in> ?ids. links ?rs s = []}"
    by (rule set_eqI) (simp only: zero g(3) deg0, auto)
  moreover have "distinct ?queue"
    using distdeg by (metis distinct_map_filter)
  ultimately have start: "kahn_inv ?ids (links ?rs) deg ?queue []"
    by (auto simp: kahn_inv_def g(3) deg0)
  have "count_list (adj i) s = (if s \<in> ?ids then count_list (links ?rs s) i else 0)" for i s
    using g(2) links_unknown [of s ?rs] by auto
  from kahn_loop_inv [OF start this] obtain deg' order where
      "kahn_loop adj deg ?queue [] = Some (deg', order)" "kahn_inv ?ids (links ?rs) deg' [] order"
    by blast
  then show ?thesis
    using g(1) by (auto simp: topological_order_def Let_def)
qed

lemma topological_order_unknown:
  assumes "\<not> handles_known reg"
  shows "\<exists>u. reg_by_id reg u = None \<and> topological_order ord reg = Inl (Err (UnknownHandle u))"
proof -
  obtain r d where "r \<in> set (reg_resources reg)" "d \<in> set (resource_deps r)" "reg_by_id reg d = None"
    using assms by (auto simp: handles_known_def)
  from build_graph_unknown [of r "reg_resources reg" d "reg_by_id reg", OF this,
      of "(\<lambda>_. [], ord (map (\<lambda>r. (res_id r, 0)) (reg_resources reg)))"]
  show ?thesis by (auto simp: topological_order_def Let_def)
qed

text \<open>Without a cycle the loop orders every resource; with one it cannot.\<close>

lemma kahn_complete:
  assumes inv: "registry_inv reg" and known: "handles_known reg"
    and kahn: "kahn_inv (res_id ` set (reg_resources reg)) (links (reg_resources reg)) deg [] order"
  shows "length order = length (reg_resources reg) \<longleftrightarrow> acyclic (dep_rel reg)"
    and "length order = length (reg_resources reg) \<Longrightarrow> mset order = mset (map res_id (reg_resources reg))"
proof -
  let ?rs = "reg_resources reg" and ?ids = "res_id ` set (reg_resources reg)"
  have dist: "distinct (map res_id ?rs)" using inv by (simp add: registry_inv_def)
  have order: "distinct order" "set order = {s \<in> ?ids. pending (links ?rs) order s = []}"
      "topo_sorted (links ?rs) order"
    using kahn by (auto simp: kahn_inv_def)
  have len: "length order = length ?rs \<longleftrightarrow> set order = ?ids"
  proof -
    have "card (set order) = length order" "card ?ids = length ?rs"
      using order(1) dist by (auto simp: distinct_card dest: distinct_card)
    moreover have "set order \<subseteq> ?ids" using order(2) by auto
    ultimately show ?thesis by (metis card_subset_eq finite_imageI finite_set)
  qed
  then show "mset order = mset (map res_id ?rs)" if "length order = length ?rs"
    using that order(1) dist set_eq_iff_mset_eq_distinct [of order "map res_id ?rs"] by simp
  show "length order = length ?rs \<longleftrightarrow> acyclic (dep_rel reg)"
  proof
    assume "length order = length ?rs"
    then have "set order = ?ids" using len by simp
    then show "acyclic (dep_rel reg)"
      using order dist by (intro topo_sorted_acyclic [of "links ?rs" order])
        (auto simp: in_dep_rel dest: links_known)
  next
    assume acyc: "acyclic (dep_rel reg)"
    show "length order = length ?rs"
    proof (rule ccontr)
      assume "length order \<noteq> length ?rs"
      with len order(2) have ne: "?ids - set order \<noteq> {}" by blast
      have "\<exists>d \<in> ?ids - set order. (d, s) \<in> dep_rel reg" if s: "s \<in> ?ids - set order" for s
      proof -
        from s order(2) obtain d where "d \<in> set (links ?rs s)" "d \<notin> set order"
          by (auto simp: filter_empty_conv)
        moreover from this s have "reg_by_id reg d \<noteq> None"
          using known dist by (auto simp: handles_known_def links_res_id)
        ultimately show ?thesis
          using registry_inv_dom [OF inv] dist by (auto simp: in_dep_rel)
      qed
      from stuck_cyclic [OF finite_dep_rel ne this] acyc show False by blast
    qed
  qed
qed

lemma topological_order_run:
  assumes "registry_inv reg" "map_order ord" "topological_order ord reg = Inr order"
  obtains deg where "kahn_inv (res_id ` set (reg_resources reg)) (links (reg_resources reg)) deg [] order"
    "mset order = mset (map res_id (reg_resources reg))"
proof -
  have known: "handles_known reg"
    using topological_order_unknown [of reg ord] assms(3) by auto
  from topological_order_known [OF assms(1,2) this] assms(3) obtain deg where
      kahn: "kahn_inv (res_id ` set (reg_resources reg)) (links (reg_resources reg)) deg [] order"
    and "length order = length (reg_resources reg)"
    by (auto split: if_splits)
  then have "mset order = mset (map res_id (reg_resources reg))"
    using kahn_complete(2) [OF assms(1) known kahn] by simp
  with kahn show ?thesis by (rule that)
qed

lemma topological_order_perm:
  assumes "registry_inv reg" "map_order ord" "topological_order ord reg = Inr order"
  shows "mset order = mset (map res_id (reg_resources reg))"
  using topological_order_run [OF assms] by blast

section \<open>Properties\<close>

text \<open>
  C7.  Whatever order the hash map iterates in, a successful topological order of a registry is
  a permutation of the registered identifiers in which every resource comes after everything
  it links to by \<open>depends_on\<close>, \<open>reload_on\<close> or \<open>restart_on\<close>.
\<close>

theorem topological_order_sound:
  assumes "registry_inv reg" "map_order ord" "topological_order ord reg = Inr order"
  shows "mset order = mset (map res_id (reg_resources reg)) \<and>
    (\<forall>i < length order. \<forall>r \<in> set (reg_resources reg). res_id r = order ! i \<longrightarrow>
      set (res_depends_on r) \<union> set (res_reload_on r) \<union> set (res_restart_on r) \<subseteq> set (take i order))"
proof -
  obtain deg where
      kahn: "kahn_inv (res_id ` set (reg_resources reg)) (links (reg_resources reg)) deg [] order"
    and "mset order = mset (map res_id (reg_resources reg))"
    using assms by (rule topological_order_run)
  note this(2)
  moreover have "set (resource_deps r) \<subseteq> set (take i order)"
    if "i < length order" "r \<in> set (reg_resources reg)" "res_id r = order ! i" for i r
  proof -
    have "links (reg_resources reg) (order ! i) = resource_deps r"
      using that links_res_id [of "reg_resources reg" r] assms(1) by (simp add: registry_inv_def)
    with that kahn show ?thesis by (metis kahn_inv_def topo_sorted_def)
  qed
  ultimately show ?thesis by (auto simp: resource_deps_def)
qed

text \<open>
  C8.  The order exists exactly when every link names a registered resource and
  the links have no cycle; otherwise the code reports an unknown handle, or a cycle.  It never
  panics: no in-degree is decremented below zero.
\<close>

theorem topological_order_decides:
  assumes "registry_inv reg" "map_order ord"
  shows "case topological_order ord reg of
      Inr order \<Rightarrow> handles_known reg \<and> acyclic (dep_rel reg)
    | Inl (Err (UnknownHandle u)) \<Rightarrow> \<not> handles_known reg \<and> reg_by_id reg u = None
    | Inl (Err (Cycle nodes)) \<Rightarrow> handles_known reg \<and> \<not> acyclic (dep_rel reg)
    | Inl (Err (DuplicateId i)) \<Rightarrow> False
    | Inl Panic \<Rightarrow> False"
proof (cases "handles_known reg")
  case True
  from topological_order_known [OF assms this] kahn_complete(1) [OF assms(1) this] True
  show ?thesis by fastforce
next
  case False
  with topological_order_unknown [OF this, of ord] show ?thesis by auto
qed

text \<open>
  Registering a resource keeps the registry invariant (distinct identifiers, index and vector
  in step) and is what later lookups see; registering a known identifier is refused.
\<close>

theorem registry_add_get:
  assumes "registry_inv reg"
  shows "case registry_add reg r of
      Inl e \<Rightarrow> e = DuplicateId (res_id r) \<and> registry_get reg (res_id r) \<noteq> None
    | Inr (i, reg') \<Rightarrow> i = res_id r \<and> registry_inv reg' \<and>
        (\<forall>j. registry_get reg' j = (if j = res_id r then Some r else registry_get reg j))"
proof (cases "registry_add reg r")
  case (Inl e)
  then obtain n where "reg_by_id reg (res_id r) = Some n" "e = DuplicateId (res_id r)"
    by (auto simp: registry_add_def split: if_splits)
  moreover from this have "n < length (reg_resources reg)"
    using assms by (simp add: registry_inv_def)
  ultimately show ?thesis using Inl by (simp add: registry_get_def)
next
  case (Inr x)
  then obtain i reg' where x: "x = (i, reg')" by (cases x)
  have "registry_inv reg'" using registry_inv_add [OF assms, of r i reg'] Inr x by simp
  moreover have new: "res_id r \<notin> res_id ` set (reg_resources reg)"
      "reg_resources reg' = reg_resources reg @ [r]" "i = res_id r"
    using Inr x registry_inv_dom [OF assms] by (auto simp: registry_add_def split: if_splits)
  moreover have "find P (xs @ [r]) = (case find P xs of None \<Rightarrow> if P r then Some r else None | Some y \<Rightarrow> Some y)" for P xs
    by (induction xs) auto
  moreover have "find (\<lambda>r'. res_id r' = res_id r) (reg_resources reg) = None"
    using new(1) by (auto simp: find_None_iff) (metis image_eqI)
  ultimately show ?thesis
    using Inr x assms by (auto simp: registry_get_find split: option.splits)
qed

text \<open>
  Resource identifiers are unambiguous: two pairs of a valid kind and an identity (which may
  itself contain colons) with the same identifier are equal.
\<close>

theorem resource_id_injective:
  assumes "resource_kind_try_new k = Inr kind" "resource_kind_try_new k' = Inr kind'"
    and "resource_id_new kind identity = resource_id_new kind' identity'"
  shows "kind = kind' \<and> identity = identity'"
proof -
  have no_colon: "CHR '':'' \<notin> set kind" if "resource_kind_try_new k = Inr kind" for k kind
    using that by (auto simp: resource_kind_try_new_def kind_char_allowed_def is_ascii_lowercase_def
        is_ascii_digit_def split: if_splits)
  have split: "takeWhile (\<lambda>c. c \<noteq> CHR '':'') (xs @ CHR '':'' # ys) = xs"
    if "CHR '':'' \<notin> set xs" for xs ys
    using that by (auto simp: takeWhile_append)
  have "kind @ CHR '':'' # identity = kind' @ CHR '':'' # identity'"
    using assms(3) by (simp add: resource_id_new_def)
  moreover from this have "kind = kind'"
    using split no_colon assms(1,2) by metis
  ultimately show ?thesis by simp
qed

section \<open>Witnesses\<close>

definition sample_resource :: "string \<Rightarrow> string \<Rightarrow> ResourceId list \<Rightarrow> ResourceId list \<Rightarrow> Resource" where
  "sample_resource kind identity deps restart =
     \<lparr>res_id = resource_id_new kind identity, res_kind = kind, res_spec_version = 1,
      res_payload = JNull, res_reload_on = [], res_restart_on = restart, res_depends_on = deps\<rparr>"

definition sample_registry :: Registry where
  "sample_registry =
     (case registry_add registry_new
         (sample_resource ''svc'' ''b'' [''pkg:a''] []) of
        Inl _ \<Rightarrow> registry_new
      | Inr (_, reg) \<Rightarrow>
          (case registry_add reg (sample_resource ''pkg'' ''a'' [] []) of
             Inl _ \<Rightarrow> registry_new
           | Inr (_, reg') \<Rightarrow> reg'))"

lemma sample_registry_inv: "registry_inv sample_registry"
proof -
  obtain i reg where r: "registry_add registry_new (sample_resource ''svc'' ''b'' [''pkg:a''] []) = Inr (i, reg)"
    by (simp add: registry_add_def registry_new_def)
  then have reg: "registry_inv reg" by (rule registry_inv_add [OF registry_inv_new])
  show ?thesis
    using r reg registry_inv_new registry_inv_add [OF reg]
    by (auto simp: sample_registry_def split: sum.splits)
qed

lemma sample_registry_simps:
  "reg_resources sample_registry =
     [sample_resource ''svc'' ''b'' [''pkg:a''] [], sample_resource ''pkg'' ''a'' [] []]"
  "reg_by_id sample_registry = [''svc:b'' \<mapsto> 0, ''pkg:a'' \<mapsto> 1]"
  by (auto simp: sample_registry_def registry_add_def registry_new_def sample_resource_def
      resource_id_new_def)

lemma map_order_id: "map_order id" and map_order_rev: "map_order rev"
  by (simp_all add: map_order_def)

theorem topological_order_sound_witness:
  "topological_order rev sample_registry = Inr [''pkg:a'', ''svc:b''] \<and>
   mset [''pkg:a'', ''svc:b''] = mset (map res_id (reg_resources sample_registry)) \<and>
   set (res_depends_on (sample_resource ''svc'' ''b'' [''pkg:a''] [])) \<subseteq> set (take 1 [''pkg:a'', ''svc:b''])"
proof -
  have run: "topological_order rev sample_registry = Inr [''pkg:a'', ''svc:b'']"
    by (simp add: topological_order_def sample_registry_simps sample_resource_def resource_id_new_def
      resource_deps_def)
  show ?thesis
    using topological_order_sound [OF sample_registry_inv map_order_rev run] run
    by (simp add: sample_registry_simps sample_resource_def resource_id_new_def)
qed

theorem topological_order_decides_witness:
  "handles_known sample_registry \<and> acyclic (dep_rel sample_registry)"
  using topological_order_decides [OF sample_registry_inv map_order_id]
  by (simp add: topological_order_def sample_registry_simps sample_resource_def resource_id_new_def
      resource_deps_def)

theorem registry_add_get_witness:
  "registry_get sample_registry ''pkg:a'' = Some (sample_resource ''pkg'' ''a'' [] []) \<and>
   (case registry_add sample_registry (sample_resource ''pkg'' ''a'' [] []) of
      Inl e \<Rightarrow> e = DuplicateId ''pkg:a'' | Inr _ \<Rightarrow> False)"
  using registry_add_get [OF sample_registry_inv, of "sample_resource ''pkg'' ''a'' [] []"]
  by (simp add: registry_add_def registry_get_def sample_registry_simps sample_resource_def
      resource_id_new_def)

theorem resource_id_injective_witness:
  "resource_id_new ''file.content'' ''/a:b'' = resource_id_new ''file.content'' ''/a:b'' \<and>
   ''file.content'' = ''file.content'' \<and> ''/a:b'' = ''/a:b''"
  using resource_id_injective [of "''file.content''" "''file.content''" "''file.content''"
      "''file.content''" "''/a:b''" "''/a:b''"]
  by (simp add: resource_kind_try_new_def kind_char_allowed_def is_ascii_lowercase_def is_ascii_digit_def)

end
