(* ===== verification/Defer_Format.thy ===== *)
theory Defer_Format
  imports Bosun_Json "HOL-Library.Monad_Syntax" "HOL-Library.Countable"
begin

text \<open>
  \<open>bosun-core/src/defers/format.rs\<close> and \<open>priority.rs\<close>: the entries of the defer journal, their
  identifiers and file names, and their JSON format.

  The derived serde implementations are written out from the attributes of the source: the
  internally tagged enums (\<open>tag = "action"\<close>, flattened into the entry, and \<open>tag = "kind"\<close>), the
  renamed variants, the optional fields that are skipped when absent.  Code outside the repository is
  the record \<open>serde_codec\<close>: the JSON text of \<open>serde_json\<close> and the RFC 3339 text of \<open>chrono\<close>;
  the properties assume of it only \<open>codec_ok\<close>, that a value that was written reads back (with the
  keys of its objects sorted).
\<close>

section \<open>Priorities\<close>

datatype DeferPriority = PRestart | PReloadOrRestart | PReload | PCommand | PDaemonReload

fun sortkey :: "DeferPriority \<Rightarrow> string" where
  "sortkey PRestart = ''0r''"
| "sortkey PReloadOrRestart = ''1r''"
| "sortkey PReload = ''2r''"
| "sortkey PCommand = ''3c''"
| "sortkey PDaemonReload = ''4d''"

section \<open>Actions and health checks\<close>

datatype DeferAction =
    Start
  | Stop
  | Restart
  | Reload
  | ReloadOrRestart
  | Command "string list"
  | DaemonReload

fun filename_slug :: "DeferAction \<Rightarrow> string" where
  "filename_slug Start = ''start''"
| "filename_slug Stop = ''stop''"
| "filename_slug Restart = ''restart''"
| "filename_slug Reload = ''reload''"
| "filename_slug ReloadOrRestart = ''reload_or_restart''"
| "filename_slug (Command argv) = ''command.run''"
| "filename_slug DaemonReload = ''daemon_reload''"

fun default_priority :: "DeferAction \<Rightarrow> DeferPriority" where
  "default_priority Restart = PRestart"
| "default_priority Start = PRestart"
| "default_priority Stop = PRestart"
| "default_priority ReloadOrRestart = PReloadOrRestart"
| "default_priority Reload = PReload"
| "default_priority (Command argv) = PCommand"
| "default_priority DaemonReload = PDaemonReload"

datatype HealthCheck =
    HcCmd (hc_cmd: "string list") (hc_timeout: "u32 option") (hc_retries: "u32 option")
      (hc_interval: "u32 option")
  | HcUrl (hc_url: string) (hc_expected: "u16 option") (hc_timeout: "u32 option")
      (hc_retries: "u32 option") (hc_interval: "u32 option")

section \<open>Entries\<close>

text \<open>A \<open>DateTime<Utc>\<close> of the years 1970 to 2554, as nanoseconds since the epoch.\<close>

type_synonym timestamp = u64

record DeferEntry =
  entry_spec_version :: u16
  entry_id :: string
  entry_action :: DeferAction
  entry_init_system :: string
  entry_target :: string
  entry_validate_cmd :: "string list option"
  entry_health_check :: "HealthCheck option"
  entry_priority :: DeferPriority
  entry_enqueued_at :: timestamp
  entry_enqueued_by :: "string list"
  entry_attempt_count :: u32
  entry_max_attempts :: u32

definition CURRENT_SPEC_VERSION :: u16 where
  "CURRENT_SPEC_VERSION = 1"

definition entry_filename :: "DeferEntry \<Rightarrow> string" where
  "entry_filename e = sortkey (entry_priority e) @ ''-'' @ entry_id e @ ''.deferred''"

definition manual_clear_filename :: "DeferEntry \<Rightarrow> string" where
  "manual_clear_filename e = sortkey (entry_priority e) @ ''-'' @ entry_id e @ ''.manual_clear''"

definition make_id :: "string \<Rightarrow> DeferAction \<Rightarrow> string \<Rightarrow> string" where
  "make_id init_system act target =
     (case act of
        Command argv \<Rightarrow> ''command.run:'' @ target
      | DaemonReload \<Rightarrow>
          (if init_system = [] then ''daemon_reload'' else init_system @ ''.daemon_reload'')
      | _ \<Rightarrow> init_system @ ''.'' @ filename_slug act @ '':'' @ target)"

section \<open>The JSON format\<close>

record serde_codec =
  json_to_text :: "json \<Rightarrow> string"
  json_of_text :: "string \<Rightarrow> json option"
  ts_to_text :: "timestamp \<Rightarrow> string"
  ts_of_text :: "string \<Rightarrow> timestamp option"

text \<open>What the code relies on: text that was written (and the newline after it) reads back.\<close>

definition codec_ok :: "serde_codec \<Rightarrow> bool" where
  "codec_ok C \<longleftrightarrow>
     (\<forall>v. plain_json v \<longrightarrow> json_of_text C (json_to_text C v @ newline) = Some (json_norm v)) \<and>
     (\<forall>t. ts_of_text C (ts_to_text C t) = Some t)"

fun priority_to_str :: "DeferPriority \<Rightarrow> string" where
  "priority_to_str PRestart = ''restart''"
| "priority_to_str PReloadOrRestart = ''reload_or_restart''"
| "priority_to_str PReload = ''reload''"
| "priority_to_str PCommand = ''command''"
| "priority_to_str PDaemonReload = ''daemon_reload''"

definition priority_of_str :: "string \<Rightarrow> DeferPriority option" where
  "priority_of_str s =
     (if s = ''restart'' then Some PRestart
      else if s = ''reload_or_restart'' then Some PReloadOrRestart
      else if s = ''reload'' then Some PReload
      else if s = ''command'' then Some PCommand
      else if s = ''daemon_reload'' then Some PDaemonReload
      else None)"

text \<open>The fields an action contributes to the flattened entry.\<close>

fun action_fields :: "DeferAction \<Rightarrow> json_map" where
  "action_fields (Command argv) = [(''action'', JString ''command.run''), (''argv'', ser_strings argv)]"
| "action_fields act = [(''action'', JString (filename_slug act))]"

definition action_of_fields :: "json_map \<Rightarrow> DeferAction option" where
  "action_of_fields m = do {
     tag \<leftarrow> de_field de_string m ''action'';
     if tag = ''start'' then Some Start
     else if tag = ''stop'' then Some Stop
     else if tag = ''restart'' then Some Restart
     else if tag = ''reload'' then Some Reload
     else if tag = ''reload_or_restart'' then Some ReloadOrRestart
     else if tag = ''command.run'' then map_option Command (de_field (de_vec de_string) m ''argv'')
     else if tag = ''daemon_reload'' then Some DaemonReload
     else None }"

definition health_check_to_json :: "HealthCheck \<Rightarrow> json" where
  "health_check_to_json hc =
     (case hc of
        HcCmd cmd t r i \<Rightarrow> JObject
          [(''kind'', JString ''cmd''), (''cmd'', ser_strings cmd), (''timeout_sec'', ser_opt ser_unsigned t),
           (''retry_count'', ser_opt ser_unsigned r), (''retry_interval_sec'', ser_opt ser_unsigned i)]
      | HcUrl url st t r i \<Rightarrow> JObject
          [(''kind'', JString ''url''), (''url'', JString url), (''expected_status'', ser_opt ser_unsigned st),
           (''timeout_sec'', ser_opt ser_unsigned t), (''retry_count'', ser_opt ser_unsigned r),
           (''retry_interval_sec'', ser_opt ser_unsigned i)])"

definition health_check_of_json :: "json \<Rightarrow> HealthCheck option" where
  "health_check_of_json v =
     (case v of
        JObject m \<Rightarrow> do {
          kind \<leftarrow> de_field de_string m ''kind'';
          if kind = ''cmd'' then do {
            cmd \<leftarrow> de_field (de_vec de_string) m ''cmd'';
            t \<leftarrow> de_opt_field de_unsigned m ''timeout_sec'';
            r \<leftarrow> de_opt_field de_unsigned m ''retry_count'';
            i \<leftarrow> de_opt_field de_unsigned m ''retry_interval_sec'';
            Some (HcCmd cmd t r i) }
          else if kind = ''url'' then do {
            url \<leftarrow> de_field de_string m ''url'';
            st \<leftarrow> de_opt_field de_unsigned m ''expected_status'';
            t \<leftarrow> de_opt_field de_unsigned m ''timeout_sec'';
            r \<leftarrow> de_opt_field de_unsigned m ''retry_count'';
            i \<leftarrow> de_opt_field de_unsigned m ''retry_interval_sec'';
            Some (HcUrl url st t r i) }
          else None }
      | _ \<Rightarrow> None)"

text \<open>\<open>skip_serializing_if = "Option::is_none"\<close>.\<close>

definition skip_none :: "string \<Rightarrow> ('a \<Rightarrow> json) \<Rightarrow> 'a option \<Rightarrow> json_map" where
  "skip_none k f x = (case x of None \<Rightarrow> [] | Some y \<Rightarrow> [(k, f y)])"

definition entry_to_json :: "serde_codec \<Rightarrow> DeferEntry \<Rightarrow> json" where
  "entry_to_json C e = JObject (
     [(''spec_version'', ser_unsigned (entry_spec_version e)), (''id'', JString (entry_id e))] @
     action_fields (entry_action e) @
     [(''init_system'', JString (entry_init_system e)), (''target'', JString (entry_target e))] @
     skip_none ''validate_cmd'' ser_strings (entry_validate_cmd e) @
     skip_none ''health_check'' health_check_to_json (entry_health_check e) @
     [(''priority'', JString (priority_to_str (entry_priority e))),
      (''enqueued_at'', JString (ts_to_text C (entry_enqueued_at e))),
      (''enqueued_by'', ser_strings (entry_enqueued_by e)),
      (''attempt_count'', ser_unsigned (entry_attempt_count e)),
      (''max_attempts'', ser_unsigned (entry_max_attempts e))])"

definition entry_of_json :: "serde_codec \<Rightarrow> json \<Rightarrow> DeferEntry option" where
  "entry_of_json C v =
     (case v of
        JObject m \<Rightarrow> do {
          sv \<leftarrow> de_field de_unsigned m ''spec_version'';
          i \<leftarrow> de_field de_string m ''id'';
          a \<leftarrow> action_of_fields m;
          isys \<leftarrow> de_field de_string m ''init_system'';
          tgt \<leftarrow> de_field de_string m ''target'';
          vc \<leftarrow> de_opt_field (de_vec de_string) m ''validate_cmd'';
          hc \<leftarrow> de_opt_field health_check_of_json m ''health_check'';
          p \<leftarrow> de_field (de_unit_variant priority_of_str) m ''priority'';
          ts \<leftarrow> de_field de_string m ''enqueued_at'';
          at \<leftarrow> ts_of_text C ts;
          by \<leftarrow> de_field (de_vec de_string) m ''enqueued_by'';
          ac \<leftarrow> de_field de_unsigned m ''attempt_count'';
          mx \<leftarrow> de_field de_unsigned m ''max_attempts'';
          Some \<lparr>entry_spec_version = sv, entry_id = i, entry_action = a, entry_init_system = isys,
            entry_target = tgt, entry_validate_cmd = vc, entry_health_check = hc, entry_priority = p,
            entry_enqueued_at = at, entry_enqueued_by = by, entry_attempt_count = ac,
            entry_max_attempts = mx\<rparr> }
      | _ \<Rightarrow> None)"

text \<open>\<open>serde_json::to_writer\<close> plus the newline, and \<open>serde_json::from_slice\<close>.\<close>

definition entry_to_bytes :: "serde_codec \<Rightarrow> DeferEntry \<Rightarrow> string" where
  "entry_to_bytes C e = json_to_text C (entry_to_json C e) @ newline"

definition entry_of_bytes :: "serde_codec \<Rightarrow> string \<Rightarrow> DeferEntry option" where
  "entry_of_bytes C bytes = Option.bind (json_of_text C bytes) (entry_of_json C)"

section \<open>Round trips\<close>

lemma priority_roundtrip [simp]: "priority_of_str (priority_to_str p) = Some p"
  by (cases p) (simp_all add: priority_of_str_def)

lemma action_roundtrip:
  assumes "obj_get m ''action'' = obj_get (action_fields act) ''action''"
    and "obj_get m ''argv'' = obj_get (action_fields act) ''argv''"
  shows "action_of_fields m = Some act"
  using assms by (cases act) (simp_all add: action_of_fields_def)

lemma de_opt_ser_u32:
  "obj_get m k = Some (ser_opt ser_unsigned x) \<Longrightarrow> de_opt_field de_unsigned m k = Some (x :: u32 option)"
  by (rule de_opt_field_ser_opt) auto

lemma de_opt_ser_u16:
  "obj_get m k = Some (ser_opt ser_unsigned x) \<Longrightarrow> de_opt_field de_unsigned m k = Some (x :: u16 option)"
  by (rule de_opt_field_ser_opt) auto

lemma health_check_roundtrip [simp]:
  "health_check_of_json (json_norm (health_check_to_json hc)) = Some hc"
  by (cases hc)
    (simp_all add: health_check_to_json_def health_check_of_json_def de_opt_ser_u32 de_opt_ser_u16)

lemma health_check_not_null [simp]: "json_norm (health_check_to_json hc) \<noteq> JNull"
  by (cases hc) (simp_all add: health_check_to_json_def)

lemma plain_health_check [simp]: "plain_json (health_check_to_json hc)"
  by (cases hc) (simp_all add: health_check_to_json_def)

lemma de_opt_field_skip_none:
  assumes "obj_get m k = map_option json_norm (map_option g x)" "\<And>y. f (json_norm (g y)) = Some y"
    and "\<And>y. json_norm (g y) \<noteq> JNull"
  shows "de_opt_field f m k = Some x"
  using assms by (cases x) (simp_all add: de_opt_field_Some)

lemma map_of_rev_skip_none:
  "obj_get (rev (skip_none k f x)) k' = (if k' = k then map_option f x else None)"
  by (cases x) (simp_all add: skip_none_def)

lemma map_of_rev_action_fields:
  "k \<noteq> ''action'' \<Longrightarrow> k \<noteq> ''argv'' \<Longrightarrow> obj_get (rev (action_fields act)) k = None"
  "obj_get (rev (action_fields act)) ''action'' = obj_get (action_fields act) ''action''"
  "obj_get (rev (action_fields act)) ''argv'' = obj_get (action_fields act) ''argv''"
  by (cases act; simp)+

lemma plain_entry: "plain_json (entry_to_json C e)"
proof -
  have "distinct (map fst (action_fields act))" "set (map fst (action_fields act)) \<subseteq> {''action'', ''argv''}"
    "list_all (\<lambda>kv. plain_json (snd kv)) (action_fields act)" for act
    by (cases act; simp)+
  then show ?thesis
    by (auto simp: entry_to_json_def skip_none_def split: option.splits)
qed

lemma entry_json_roundtrip:
  assumes "codec_ok C"
  shows "entry_of_json C (json_norm (entry_to_json C e)) = Some e"
proof -
  define fields where "fields =
     [(''spec_version'', ser_unsigned (entry_spec_version e)), (''id'', JString (entry_id e))] @
     action_fields (entry_action e) @
     [(''init_system'', JString (entry_init_system e)), (''target'', JString (entry_target e))] @
     skip_none ''validate_cmd'' ser_strings (entry_validate_cmd e) @
     skip_none ''health_check'' health_check_to_json (entry_health_check e) @
     [(''priority'', JString (priority_to_str (entry_priority e))),
      (''enqueued_at'', JString (ts_to_text C (entry_enqueued_at e))),
      (''enqueued_by'', ser_strings (entry_enqueued_by e)),
      (''attempt_count'', ser_unsigned (entry_attempt_count e)),
      (''max_attempts'', ser_unsigned (entry_max_attempts e))]"
  obtain m where m: "json_norm (entry_to_json C e) = JObject m" by (simp add: entry_to_json_def)
  then have get: "obj_get m k = map_option json_norm (obj_get (rev fields) k)" for k
    by (simp only: entry_to_json_def fields_def [symmetric] json_norm.simps json.inject)
      (metis obj_get_norm)
  note lookups = get fields_def map_add_def map_of_rev_skip_none map_of_rev_action_fields
  have "action_of_fields m = Some (entry_action e)"
    by (rule action_roundtrip; cases "entry_action e"; simp add: lookups)
  moreover have "de_opt_field (de_vec de_string) m ''validate_cmd'' = Some (entry_validate_cmd e)"
    by (rule de_opt_field_skip_none [where g = ser_strings])
      (cases "entry_validate_cmd e"; simp add: lookups)+
  moreover have "de_opt_field health_check_of_json m ''health_check'' = Some (entry_health_check e)"
    by (rule de_opt_field_skip_none [where g = health_check_to_json])
      (cases "entry_health_check e"; simp add: lookups)+
  ultimately show ?thesis
    using assms by (simp add: m entry_of_json_def codec_ok_def lookups)
qed

lemma entry_bytes_roundtrip [simp]:
  "codec_ok C \<Longrightarrow> entry_of_bytes C (entry_to_bytes C e) = Some e"
  using entry_json_roundtrip [of C e] plain_entry [of C e]
  by (simp add: entry_of_bytes_def entry_to_bytes_def codec_ok_def)

subsection \<open>A codec that keeps its promise\<close>

instance word :: (len) countable
  by (rule countable_classI [of unat]) (rule unsigned_word_eqI)

instance number :: countable
  by countable_datatype

instance json :: countable
  by countable_datatype

definition sample_codec :: serde_codec where
  "sample_codec = \<lparr>
     json_to_text = (\<lambda>v. replicate (to_nat v) CHR ''j''),
     json_of_text = (\<lambda>t. Some (json_norm (from_nat (length t - 1)))),
     ts_to_text = (\<lambda>t. replicate (unat t) CHR ''t''),
     ts_of_text = (\<lambda>t. Some (of_nat (length t)))\<rparr>"

lemma sample_codec_ok [simp]: "codec_ok sample_codec"
  by (simp add: codec_ok_def sample_codec_def)

section \<open>File names\<close>

text \<open>\<open>Path::extension\<close> of a file name: what follows the last dot, if something precedes it.\<close>

definition path_extension :: "string \<Rightarrow> string option" where
  "path_extension name =
     (let after = rev (takeWhile (\<lambda>c. c \<noteq> CHR ''.'') (rev name));
          before = rev (tl (dropWhile (\<lambda>c. c \<noteq> CHR ''.'') (rev name)))
      in if name = ''..'' \<or> length after = length name \<or> before = [] then None else Some after)"

lemma path_extension_dot:
  assumes "CHR ''.'' \<notin> set ext" "p \<noteq> []" "ext \<noteq> []"
  shows "path_extension (p @ CHR ''.'' # ext) = Some ext"
proof -
  have "takeWhile (\<lambda>c. c \<noteq> CHR ''.'') (rev ext @ CHR ''.'' # rev p) = rev ext"
    and "dropWhile (\<lambda>c. c \<noteq> CHR ''.'') (rev ext @ CHR ''.'' # rev p) = CHR ''.'' # rev p"
    using assms(1) by (auto simp: takeWhile_append dropWhile_append)
  moreover have "p @ CHR ''.'' # ext \<noteq> ''..''"
    using assms by (cases p; cases "tl p") (auto simp: Cons_eq_append_conv)
  ultimately show ?thesis using assms by (simp add: path_extension_def)
qed

lemma path_extension_filename [simp]: "path_extension (entry_filename e) = Some ''deferred''"
  using path_extension_dot [of "''deferred''" "sortkey (entry_priority e) @ ''-'' @ entry_id e"]
  by (simp add: entry_filename_def)

lemma path_extension_manual_clear [simp]:
  "path_extension (manual_clear_filename e) = Some ''manual_clear''"
  using path_extension_dot [of "''manual_clear''" "sortkey (entry_priority e) @ ''-'' @ entry_id e"]
  by (simp add: manual_clear_filename_def)

lemma show_nat_digits: "show_nat n \<noteq> [] \<and> set (show_nat n) \<subseteq> set ''0123456789''"
proof (induction n rule: show_nat.induct)
  case (1 n)
  have digit: "set [''0123456789'' ! k] \<subseteq> set ''0123456789''" if "k < 10" for k
    using that nth_mem [of k "''0123456789''"] by simp
  show ?case
  proof (cases "n < 10")
    case True
    then show ?thesis using digit [OF True] by (simp add: show_nat.simps [of n])
  next
    case False
    have "set (show_nat (n div 10) @ [''0123456789'' ! (n mod 10)]) \<subseteq> set ''0123456789''"
      using 1 [OF False] digit [of "n mod 10"] unfolding set_append by simp
    then show ?thesis using False by (simp only: show_nat.simps [of n] if_False) simp
  qed
qed

lemma show_nat_chars:
  "CHR ''.'' \<notin> set (show_nat n)" "show_nat n \<noteq> []"
  "show_nat n \<noteq> ''deferred''" "show_nat n \<noteq> ''manual_clear''"
  using show_nat_digits [of n] by auto

lemma tmp_name_extension:
  "path_extension (name @ ''.tmp.'' @ show_nat n) = Some (show_nat n)"
  using path_extension_dot [of "show_nat n" "name @ ''.tmp''"] show_nat_chars by simp

lemma sortkey_length [simp]: "length (sortkey p) = 2"
  by (cases p) simp_all

lemma sortkey_inject [simp]: "sortkey p = sortkey q \<longleftrightarrow> p = q"
  by (cases p; cases q) simp_all

lemma entry_filename_inject:
  "entry_filename e = entry_filename e' \<longleftrightarrow>
   entry_priority e = entry_priority e' \<and> entry_id e = entry_id e'"
  by (auto simp: entry_filename_def append_eq_append_conv)

lemma manual_clear_filename_neq [simp]: "manual_clear_filename e \<noteq> entry_filename e'"
  using path_extension_filename [of e'] path_extension_manual_clear [of e] by fastforce

end
