(* ===== verification/Journal_Fs.thy ===== *)
theory Journal_Fs
  imports Bosun_Prelude
begin

text \<open>
  The file system calls of the defer journal (\<open>std::fs\<close> on one directory), with faults.

  The directory is an association list from names to inodes; its order is the order in which
  \<open>read_dir\<close> returns the names.  An inode has the bytes a reader sees and whether \<open>fsync\<close> has
  fixed them.  \<open>fs_disk\<close> is what the last successful \<open>fsync\<close> of the directory made durable: the
  names, each with its bytes if those were synced and with \<open>None\<close> (anything) otherwise.

  Every call is numbered by \<open>fs_tick\<close>.  The environment decides for each number whether the call
  fails, and for a failing write how many bytes reached the file; so a claim for all environments
  covers an I/O error at any call, and a crash at any call (all later calls fail).
\<close>

section \<open>The directory\<close>

record inode =
  ino_data :: string
  ino_synced :: bool

type_synonym directory = "(string \<times> inode) list"

record fs_state =
  fs_files :: directory
  fs_disk :: "(string \<times> string option) list"
  fs_tick :: nat

text \<open>
  \<open>os_fault\<close>: faults of the calls that change the directory or fix it on disk.  \<open>os_read_fault\<close>:
  faults of the calls that only read it.  \<open>os_flushed\<close>: how much of a buffered text has reached the
  file so far.  \<open>os_nanos\<close>: the clock, \<open>None\<close> before the epoch.
\<close>

record os_env =
  os_fault :: "nat \<Rightarrow> string option"
  os_read_fault :: "nat \<Rightarrow> string option"
  os_flushed :: "nat \<Rightarrow> nat"
  os_nanos :: "nat \<Rightarrow> nat option"

datatype io_error = NotFound | OtherIo string

section \<open>The calls\<close>

definition syscall ::
  "(nat \<Rightarrow> string option) \<Rightarrow> (fs_state \<Rightarrow> fs_state) \<Rightarrow> (fs_state \<Rightarrow> (io_error + 'a) \<times> fs_state) \<Rightarrow>
   (fs_state, io_error, 'a) prog" where
  "syscall fault dmg f = (\<lambda>s.
     let s' = s\<lparr>fs_tick := Suc (fs_tick s)\<rparr>
     in case fault (fs_tick s) of
          Some msg \<Rightarrow> (Inl (OtherIo msg), dmg s')
        | None \<Rightarrow> f s')"

text \<open>
  \<open>OpenOptions\<close> with \<open>write\<close>, \<open>create\<close> and \<open>truncate\<close>.  A name with a slash leads into a
  directory that is not there.
\<close>

definition sys_create :: "os_env \<Rightarrow> string \<Rightarrow> (fs_state, io_error, unit) prog" where
  "sys_create env name = syscall (os_fault env) (\<lambda>s. s) (\<lambda>s.
     if CHR ''/'' \<in> set name then (Inl NotFound, s)
     else (Inr (), s\<lparr>fs_files :=
             AList.update name \<lparr>ino_data = [], ino_synced = False\<rparr> (fs_files s)\<rparr>))"

text \<open>The bytes of an open file, by its name.\<close>

definition set_data :: "string \<Rightarrow> string \<Rightarrow> bool \<Rightarrow> fs_state \<Rightarrow> fs_state" where
  "set_data name bytes synced s = s\<lparr>fs_files :=
     AList.update name \<lparr>ino_data = bytes, ino_synced = synced\<rparr> (fs_files s)\<rparr>"

text \<open>
  A write through \<open>BufWriter\<close>: some prefix of the text so far has reached the file, also when the
  call fails (its drop flushes what it can).
\<close>

definition sys_write_buffered :: "os_env \<Rightarrow> string \<Rightarrow> string \<Rightarrow> (fs_state, io_error, unit) prog" where
  "sys_write_buffered env name text =
     syscall (os_fault env)
       (\<lambda>s. set_data name (take (os_flushed env (fs_tick s)) text) False s)
       (\<lambda>s. (Inr (), set_data name (take (os_flushed env (fs_tick s)) text) False s))"

text \<open>\<open>into_inner\<close>: the rest of the buffer is flushed.\<close>

definition sys_flush :: "os_env \<Rightarrow> string \<Rightarrow> string \<Rightarrow> (fs_state, io_error, unit) prog" where
  "sys_flush env name text =
     syscall (os_fault env)
       (\<lambda>s. set_data name (take (os_flushed env (fs_tick s)) text) False s)
       (\<lambda>s. (Inr (), set_data name text False s))"

text \<open>\<open>sync_all\<close> on a file.\<close>

definition sys_sync_file :: "os_env \<Rightarrow> string \<Rightarrow> (fs_state, io_error, unit) prog" where
  "sys_sync_file env name = syscall (os_fault env) (\<lambda>s. s) (\<lambda>s.
     (Inr (), case map_of (fs_files s) name of
        None \<Rightarrow> s
      | Some ino \<Rightarrow> set_data name (ino_data ino) True s))"

definition sys_rename :: "os_env \<Rightarrow> string \<Rightarrow> string \<Rightarrow> (fs_state, io_error, unit) prog" where
  "sys_rename env old new = syscall (os_fault env) (\<lambda>s. s) (\<lambda>s.
     case map_of (fs_files s) old of
       None \<Rightarrow> (Inl NotFound, s)
     | Some ino \<Rightarrow> (Inr (), s\<lparr>fs_files := AList.update new ino (AList.delete old (fs_files s))\<rparr>))"

definition sys_remove_file :: "os_env \<Rightarrow> string \<Rightarrow> (fs_state, io_error, unit) prog" where
  "sys_remove_file env name = syscall (os_fault env) (\<lambda>s. s) (\<lambda>s.
     case map_of (fs_files s) name of
       None \<Rightarrow> (Inl NotFound, s)
     | Some ino \<Rightarrow> (Inr (), s\<lparr>fs_files := AList.delete name (fs_files s)\<rparr>))"

text \<open>\<open>File::open\<close> on the directory itself, and \<open>sync_all\<close> on it.\<close>

definition sys_open_dir :: "os_env \<Rightarrow> (fs_state, io_error, unit) prog" where
  "sys_open_dir env = syscall (os_fault env) (\<lambda>s. s) (\<lambda>s. (Inr (), s))"

definition sys_sync_dir :: "os_env \<Rightarrow> (fs_state, io_error, unit) prog" where
  "sys_sync_dir env = syscall (os_fault env) (\<lambda>s. s) (\<lambda>s.
     (Inr (), s\<lparr>fs_disk := map (\<lambda>(name, ino).
        (name, if ino_synced ino then Some (ino_data ino) else None)) (fs_files s)\<rparr>))"

text \<open>
  \<open>read_dir\<close> opens the stream of the names; \<open>sys_next_entry\<close> is a step of that stream, which can
  fail as well.
\<close>

definition sys_read_dir :: "os_env \<Rightarrow> (fs_state, io_error, string list) prog" where
  "sys_read_dir env = syscall (os_read_fault env) (\<lambda>s. s) (\<lambda>s. (Inr (map fst (fs_files s)), s))"

definition sys_next_entry :: "os_env \<Rightarrow> string \<Rightarrow> (fs_state, io_error, string) prog" where
  "sys_next_entry env name = syscall (os_read_fault env) (\<lambda>s. s) (\<lambda>s. (Inr name, s))"

definition sys_read :: "os_env \<Rightarrow> string \<Rightarrow> (fs_state, io_error, string) prog" where
  "sys_read env name = syscall (os_read_fault env) (\<lambda>s. s) (\<lambda>s.
     case map_of (fs_files s) name of
       None \<Rightarrow> (Inl NotFound, s)
     | Some ino \<Rightarrow> (Inr (ino_data ino), s))"

lemmas sys_defs =
  sys_create_def sys_write_buffered_def sys_flush_def sys_sync_file_def sys_rename_def
  sys_remove_file_def sys_open_dir_def sys_sync_dir_def sys_read_dir_def sys_next_entry_def sys_read_def

section \<open>What a reader of the directory sees\<close>

definition content :: "fs_state \<Rightarrow> string \<Rightarrow> string option" where
  "content s name = map_option ino_data (map_of (fs_files s) name)"

text \<open>The bytes a name is sure to have after a crash.\<close>

definition durable :: "fs_state \<Rightarrow> string \<Rightarrow> string option" where
  "durable s name = (case map_of (fs_disk s) name of None \<Rightarrow> None | Some b \<Rightarrow> b)"

definition fs_wf :: "fs_state \<Rightarrow> bool" where
  "fs_wf s \<longleftrightarrow> distinct (map fst (fs_files s))"

lemma content_tick [simp]: "content (s\<lparr>fs_tick := t\<rparr>) = content s"
  by (simp add: content_def fun_eq_iff)

lemma content_set_data [simp]: "content (set_data name b y s) = (content s)(name \<mapsto> b)"
  by (auto simp: content_def set_data_def fun_eq_iff)

lemma fs_wf_tick [simp]: "fs_wf (s\<lparr>fs_tick := t\<rparr>) = fs_wf s"
  by (simp add: fs_wf_def)

lemma fs_wf_set_data [simp]: "fs_wf s \<Longrightarrow> fs_wf (set_data name b y s)"
  by (simp add: fs_wf_def set_data_def)

lemma syscall_cases:
  obtains msg where "fault (fs_tick s) = Some msg"
      "syscall fault dmg f s = (Inl (OtherIo msg), dmg (s\<lparr>fs_tick := Suc (fs_tick s)\<rparr>))"
  | "fault (fs_tick s) = None" "syscall fault dmg f s = f (s\<lparr>fs_tick := Suc (fs_tick s)\<rparr>)"
  by (cases "fault (fs_tick s)") (simp_all add: syscall_def)

text \<open>A triple for a call: it holds after the fault and after the effect.\<close>

lemma valid_syscall:
  assumes "\<And>s msg. P s \<Longrightarrow> E (OtherIo msg) (dmg (s\<lparr>fs_tick := Suc (fs_tick s)\<rparr>))"
    and "\<And>s e s'. P s \<Longrightarrow> f (s\<lparr>fs_tick := Suc (fs_tick s)\<rparr>) = (Inl e, s') \<Longrightarrow> E e s'"
    and "\<And>s x s'. P s \<Longrightarrow> f (s\<lparr>fs_tick := Suc (fs_tick s)\<rparr>) = (Inr x, s') \<Longrightarrow> Q x s'"
  shows "valid P (syscall fault dmg f) Q E"
proof (rule validI)
  fix s x s' assume "P s" "syscall fault dmg f s = (Inr x, s')"
  with assms(3) show "Q x s'" by (cases rule: syscall_cases [of fault s dmg f]) auto
next
  fix s e s' assume "P s" "syscall fault dmg f s = (Inl e, s')"
  with assms(1,2) show "E e s'" by (cases rule: syscall_cases [of fault s dmg f]) auto
qed

text \<open>Without faults a call is its effect.\<close>

lemma syscall_ok [simp]:
  "syscall (\<lambda>_. None) dmg f s = f (s\<lparr>fs_tick := Suc (fs_tick s)\<rparr>)"
  by (simp add: syscall_def)

subsection \<open>Names that no write touches\<close>

text \<open>A program that changes at most the names of a set, whatever fails on the way.\<close>

abbreviation touches_only :: "(string \<Rightarrow> bool) \<Rightarrow> (fs_state, 'e, 'a) prog \<Rightarrow> bool" where
  "touches_only N m \<equiv> (\<forall>f. keeps (\<lambda>s. \<forall>n. \<not> N n \<longrightarrow> content s n = f n) m)"

lemma touches_only_calls:
  "N name \<Longrightarrow> touches_only N (sys_create env name)"
  "N name \<Longrightarrow> touches_only N (sys_write_buffered env name text)"
  "N name \<Longrightarrow> touches_only N (sys_flush env name text)"
  "N name \<Longrightarrow> touches_only N (sys_remove_file env name)"
  "N name \<Longrightarrow> N name' \<Longrightarrow> touches_only N (sys_rename env name name')"
  "touches_only N (sys_open_dir env)"
  "touches_only N (sys_sync_dir env)"
  "touches_only N (sys_read_dir env)"
  "touches_only N (sys_next_entry env name)"
  "touches_only N (sys_read env name)"
  by (auto simp: sys_defs content_def set_data_def intro!: valid_syscall split: if_splits option.splits)

lemma touches_only_sync_file: "N name \<Longrightarrow> touches_only N (sys_sync_file env name)"
  by (auto simp: sys_sync_file_def intro!: valid_syscall split: option.splits)

lemma fs_wf_calls [valid_rules]:
  "keeps fs_wf (sys_create env name)"
  "keeps fs_wf (sys_write_buffered env name text)"
  "keeps fs_wf (sys_flush env name text)"
  "keeps fs_wf (sys_sync_file env name)"
  "keeps fs_wf (sys_remove_file env name)"
  "keeps fs_wf (sys_rename env name name')"
  "keeps fs_wf (sys_open_dir env)"
  "keeps fs_wf (sys_sync_dir env)"
  "keeps fs_wf (sys_read_dir env)"
  "keeps fs_wf (sys_next_entry env name)"
  "keeps fs_wf (sys_read env name)"
  by (auto simp: sys_defs fs_wf_def set_data_def intro!: valid_syscall split: if_splits option.splits)

end
