(* ===== verification/Defer_Journal.thy ===== *)
theory Defer_Journal
  imports Defer_Format Journal_Fs
begin

text \<open>
  \<open>bosun-core/src/defers/journal.rs\<close> after the journal is open: one file per deferred action,
  written through a temporary file, \<open>rename\<close> and \<open>fsync\<close> of the directory, with the dedup rules of
  \<open>enqueue\<close>.

  The lemmas come in three groups: what a call does under any faults (\<open>atomic_write_atomic\<close>,
  the frame lemmas), what it computes when nothing fails (\<open>list_sorted_ok\<close>, \<open>enqueue_ok\<close> and
  the others, as functions on the map from file names to entries), and the properties.
\<close>

section \<open>Errors and results\<close>

datatype DeferError =
    Io string io_error
  | Serde string string
  | Clock
  | UnsafeRoot string string

datatype EnqueueResult = Created | AlreadyExists | Subsumed | ReplacedLowerPriority

record Journal =
  journal_root :: string

abbreviation (input) DEFERRED_EXT :: string where
  "DEFERRED_EXT \<equiv> ''deferred''"

section \<open>Operations\<close>

definition in_root :: "Journal \<Rightarrow> string \<Rightarrow> string" where
  "in_root J name = journal_root J @ ''/'' @ name"

definition fsync_dir :: "os_env \<Rightarrow> Journal \<Rightarrow> (fs_state, DeferError, unit) prog" where
  "fsync_dir env J =
     bindE (map_err (Io (journal_root J)) (sys_open_dir env)) (\<lambda>_.
     map_err (Io (journal_root J)) (sys_sync_dir env))"

definition read_entry :: "os_env \<Rightarrow> serde_codec \<Rightarrow> Journal \<Rightarrow> string \<Rightarrow> (fs_state, DeferError, DeferEntry) prog" where
  "read_entry env C J name =
     bindE (map_err (Io (in_root J name)) (sys_read env name)) (\<lambda>bytes.
     case entry_of_bytes C bytes of
       None \<Rightarrow> throw (Serde (in_root J name) ''invalid entry'')
     | Some e \<Rightarrow> ret e)"

definition read_clock :: "os_env \<Rightarrow> (fs_state, DeferError, nat) prog" where
  "read_clock env = (\<lambda>s. case os_nanos env (fs_tick s) of
     None \<Rightarrow> (Inl Clock, s)
   | Some nanos \<Rightarrow> (Inr nanos, s))"

definition tmp_name :: "DeferEntry \<Rightarrow> nat \<Rightarrow> string" where
  "tmp_name e nanos = entry_filename e @ ''.tmp.'' @ show_nat nanos"

text \<open>Steps 1 to 4: open, write, flush and sync the temporary file.\<close>

definition write_tmp ::
  "os_env \<Rightarrow> serde_codec \<Rightarrow> Journal \<Rightarrow> DeferEntry \<Rightarrow> string \<Rightarrow> (fs_state, DeferError, unit) prog" where
  "write_tmp env C J e tmp =
     bindE (map_err (Io (in_root J tmp)) (sys_create env tmp)) (\<lambda>_.
     bindE (map_err (\<lambda>_. Serde (in_root J tmp) ''write failed'')
              (sys_write_buffered env tmp (json_to_text C (entry_to_json C e)))) (\<lambda>_.
     bindE (map_err (Io (in_root J tmp)) (sys_write_buffered env tmp (entry_to_bytes C e))) (\<lambda>_.
     bindE (map_err (Io (in_root J tmp)) (sys_flush env tmp (entry_to_bytes C e))) (\<lambda>_.
     map_err (Io (in_root J tmp)) (sys_sync_file env tmp)))))"

text \<open>Step 5: rename, with the temporary file removed when that fails.\<close>

definition rename_tmp ::
  "os_env \<Rightarrow> Journal \<Rightarrow> string \<Rightarrow> string \<Rightarrow> (fs_state, DeferError, unit) prog" where
  "rename_tmp env J tmp final =
     attempt (sys_rename env tmp final) (\<lambda>r. case r of
       Inr _ \<Rightarrow> ret ()
     | Inl e \<Rightarrow> attempt (sys_remove_file env tmp) (\<lambda>_. throw (Io (in_root J final) e)))"

definition atomic_write ::
  "os_env \<Rightarrow> serde_codec \<Rightarrow> Journal \<Rightarrow> DeferEntry \<Rightarrow> (fs_state, DeferError, unit) prog" where
  "atomic_write env C J e =
     bindE (read_clock env) (\<lambda>nanos.
     bindE (write_tmp env C J e (tmp_name e nanos)) (\<lambda>_.
     bindE (rename_tmp env J (tmp_name e nanos) (entry_filename e)) (\<lambda>_.
     fsync_dir env J)))"

definition journal_remove :: "os_env \<Rightarrow> Journal \<Rightarrow> DeferEntry \<Rightarrow> (fs_state, DeferError, unit) prog" where
  "journal_remove env J e =
     attempt (sys_remove_file env (entry_filename e)) (\<lambda>r. case r of
       Inr _ \<Rightarrow> fsync_dir env J
     | Inl NotFound \<Rightarrow> ret ()
     | Inl err \<Rightarrow> throw (Io (in_root J (entry_filename e)) err))"

definition bump_attempt ::
  "os_env \<Rightarrow> serde_codec \<Rightarrow> Journal \<Rightarrow> DeferEntry \<Rightarrow> (fs_state, DeferError, DeferEntry) prog" where
  "bump_attempt env C J e =
     (let next = e\<lparr>entry_attempt_count := saturating_add (entry_attempt_count e) 1\<rparr>
      in bindE (atomic_write env C J next) (\<lambda>_. ret next))"

definition move_to_manual_clear :: "os_env \<Rightarrow> Journal \<Rightarrow> DeferEntry \<Rightarrow> (fs_state, DeferError, unit) prog" where
  "move_to_manual_clear env J e =
     bindE (map_err (Io (in_root J (entry_filename e)))
              (sys_rename env (entry_filename e) (manual_clear_filename e))) (\<lambda>_.
     fsync_dir env J)"

text \<open>The loop over \<open>read_dir\<close>, then the loop over the sorted names.\<close>

definition is_deferred_name :: "string \<Rightarrow> bool" where
  "is_deferred_name name \<longleftrightarrow> path_extension name = Some DEFERRED_EXT"

fun collect_names :: "os_env \<Rightarrow> Journal \<Rightarrow> string list \<Rightarrow> (fs_state, DeferError, string list) prog" where
  "collect_names env J [] = ret []"
| "collect_names env J (n # ns) =
     bindE (map_err (Io (journal_root J)) (sys_next_entry env n)) (\<lambda>name.
     bindE (collect_names env J ns) (\<lambda>names.
     ret (if is_deferred_name name then name # names else names)))"

fun read_entries ::
  "os_env \<Rightarrow> serde_codec \<Rightarrow> Journal \<Rightarrow> string list \<Rightarrow> (fs_state, DeferError, DeferEntry list) prog" where
  "read_entries env C J [] = ret []"
| "read_entries env C J (n # ns) =
     attempt (read_entry env C J n) (\<lambda>r.
     bindE (read_entries env C J ns) (\<lambda>es.
     ret (case r of Inr e \<Rightarrow> e # es | Inl (_ :: DeferError) \<Rightarrow> es)))"

definition list_sorted :: "os_env \<Rightarrow> serde_codec \<Rightarrow> Journal \<Rightarrow> (fs_state, DeferError, DeferEntry list) prog" where
  "list_sorted env C J =
     bindE (map_err (Io (journal_root J)) (sys_read_dir env)) (\<lambda>dir.
     bindE (collect_names env J dir) (\<lambda>names.
     read_entries env C J (sort names)))"

fun subsumes :: "DeferAction \<Rightarrow> DeferAction \<Rightarrow> bool" where
  "subsumes Restart Reload \<longleftrightarrow> True"
| "subsumes Restart ReloadOrRestart \<longleftrightarrow> True"
| "subsumes ReloadOrRestart Reload \<longleftrightarrow> True"
| "subsumes _ _ \<longleftrightarrow> False"

definition same_target :: "DeferEntry \<Rightarrow> DeferEntry \<Rightarrow> bool" where
  "same_target e e' \<longleftrightarrow> entry_init_system e' = entry_init_system e \<and> entry_target e' = entry_target e"

text \<open>Step 3 of \<open>enqueue\<close>: remove what the new entry dominates.\<close>

fun remove_dominated ::
  "os_env \<Rightarrow> Journal \<Rightarrow> DeferEntry \<Rightarrow> DeferEntry list \<Rightarrow> bool \<Rightarrow> (fs_state, DeferError, bool) prog" where
  "remove_dominated env J e [] replaced = ret replaced"
| "remove_dominated env J e (old # olds) replaced =
     (if subsumes (entry_action e) (entry_action old)
      then attempt (sys_remove_file env (entry_filename old)) (\<lambda>r. case r of
             Inr _ \<Rightarrow> remove_dominated env J e olds True
           | Inl NotFound \<Rightarrow> remove_dominated env J e olds replaced
           | Inl err \<Rightarrow> throw (Io (in_root J (entry_filename old)) err))
      else remove_dominated env J e olds replaced)"

definition enqueue ::
  "os_env \<Rightarrow> serde_codec \<Rightarrow> Journal \<Rightarrow> DeferEntry \<Rightarrow> (fs_state, DeferError, EnqueueResult) prog" where
  "enqueue env C J e =
     bindE (list_sorted env C J) (\<lambda>existing.
     let same = filter (same_target e) existing
     in if list_ex (\<lambda>x. entry_id x = entry_id e) same then ret AlreadyExists
        else if list_ex (\<lambda>x. subsumes (entry_action x) (entry_action e)) same then ret Subsumed
        else bindE (remove_dominated env J e same False) (\<lambda>replaced.
             bindE (if replaced then fsync_dir env J else ret ()) (\<lambda>_.
             bindE (atomic_write env C J e) (\<lambda>_.
             ret (if replaced then ReplacedLowerPriority else Created)))))"

section \<open>The journal as a map from file names to entries\<close>

definition jmap :: "serde_codec \<Rightarrow> fs_state \<Rightarrow> string \<Rightarrow> DeferEntry option" where
  "jmap C s name =
     (if is_deferred_name name then Option.bind (content s name) (entry_of_bytes C) else None)"

text \<open>Every entry lies under the name that its priority and id give.\<close>

definition well_named :: "serde_codec \<Rightarrow> fs_state \<Rightarrow> bool" where
  "well_named C s \<longleftrightarrow> (\<forall>n e. jmap C s n = Some e \<longrightarrow> n = entry_filename e)"

definition listed :: "serde_codec \<Rightarrow> fs_state \<Rightarrow> DeferEntry list" where
  "listed C s = List.map_filter (jmap C s) (sort (filter is_deferred_name (map fst (fs_files s))))"

lemma is_deferred_filename [simp]: "is_deferred_name (entry_filename e)"
  by (simp add: is_deferred_name_def)

lemma not_deferred_manual_clear [simp]: "\<not> is_deferred_name (manual_clear_filename e)"
  by (simp add: is_deferred_name_def)

lemma not_deferred_tmp [simp]: "\<not> is_deferred_name (tmp_name e nanos)"
  using show_nat_chars(3) by (simp only: is_deferred_name_def tmp_name_def tmp_name_extension) simp

lemma tmp_name_neq [simp]: "tmp_name e n \<noteq> entry_filename e'" "entry_filename e' \<noteq> tmp_name e n"
  by (metis is_deferred_filename not_deferred_tmp)+

lemma content_in_files: "content s n \<noteq> None \<longleftrightarrow> n \<in> set (map fst (fs_files s))"
  by (auto simp: content_def map_of_eq_None_iff)

lemma set_listed: "set (listed C s) = ran (jmap C s)"
proof -
  have "n \<in> set (map fst (fs_files s))" if "jmap C s n = Some e" for n e
    using that content_in_files [of s n] by (auto simp: jmap_def split: if_splits)
  moreover have "is_deferred_name n" if "jmap C s n = Some e" for n e
    using that by (auto simp: jmap_def split: if_splits)
  ultimately show ?thesis
    by (force simp: listed_def map_filter_def ran_def image_iff)
qed

section \<open>Reading under faults\<close>

abbreviation (input) same_files :: "fs_state \<Rightarrow> fs_state \<Rightarrow> bool" where
  "same_files s s' \<equiv> fs_files s' = fs_files s \<and> fs_disk s' = fs_disk s"

lemma same_files_views:
  "same_files s s' \<Longrightarrow> content s' = content s"
  "same_files s s' \<Longrightarrow> jmap C s' = jmap C s"
  "same_files s s' \<Longrightarrow> listed C s' = listed C s"
proof -
  assume *: "same_files s s'"
  then show c: "content s' = content s" by (simp add: content_def fun_eq_iff)
  then show j: "jmap C s' = jmap C s" by (simp add: jmap_def fun_eq_iff)
  then show "listed C s' = listed C s" using * by (simp add: listed_def)
qed

lemma read_entry_sound:
  assumes "read_entry env C J n s = (r, s')"
  shows "same_files s s' \<and>
    (\<forall>e. r = Inr e \<longrightarrow> Option.bind (content s n) (entry_of_bytes C) = Some e)"
  using assms
  by (auto simp: read_entry_def sys_read_def syscall_def Let_def bindE_def map_err_def content_def
      split: option.splits prod.splits sum.splits)

lemma collect_names_sound:
  "collect_names env J ns s = (r, s') \<Longrightarrow>
   same_files s s' \<and> (\<forall>names. r = Inr names \<longrightarrow> names = filter is_deferred_name ns)"
proof (induction ns arbitrary: s r s')
  case Nil
  then show ?case by auto
next
  case (Cons n ns)
  show ?case
  proof (cases "os_read_fault env (fs_tick s)")
    case None
    obtain r1 s1 where r1: "collect_names env J ns (s\<lparr>fs_tick := Suc (fs_tick s)\<rparr>) = (r1, s1)"
      by fastforce
    have "(r, s') = (case r1 of Inl e \<Rightarrow> (Inl e, s1)
       | Inr names \<Rightarrow> (Inr (if is_deferred_name n then n # names else names), s1))"
      using Cons.prems None r1
      by (auto simp: sys_next_entry_def syscall_def Let_def bindE_def map_err_def split: sum.splits)
    then show ?thesis using Cons.IH [OF r1] by (auto split: sum.splits)
  next
    case (Some msg)
    then show ?thesis
      using Cons.prems by (auto simp: sys_next_entry_def syscall_def Let_def bindE_def map_err_def)
  qed
qed

lemma read_entries_sound:
  "read_entries env C J ns s = (r, s') \<Longrightarrow>
   same_files s s' \<and> (\<exists>es. r = Inr es \<and>
     subseq es (List.map_filter (\<lambda>n. Option.bind (content s n) (entry_of_bytes C)) ns))"
proof (induction ns arbitrary: s r s')
  case Nil
  then show ?case by (auto simp: map_filter_def)
next
  case (Cons n ns)
  obtain r1 s1 where r1: "read_entry env C J n s = (r1, s1)" by fastforce
  obtain r2 s2 where r2: "read_entries env C J ns s1 = (r2, s2)" by fastforce
  have s1: "same_files s s1" and
    e: "\<And>e. r1 = Inr e \<Longrightarrow> Option.bind (content s n) (entry_of_bytes C) = Some e"
    using read_entry_sound [OF r1] by auto
  obtain es where es: "r2 = Inr es" "same_files s1 s2"
    "subseq es (List.map_filter (\<lambda>n. Option.bind (content s n) (entry_of_bytes C)) ns)"
    using Cons.IH [OF r2] same_files_views(1) [OF s1] by auto
  have "r = Inr (case r1 of Inr e \<Rightarrow> e # es | Inl _ \<Rightarrow> es)" "s' = s2"
    using Cons.prems r1 r2 es by (auto simp: attempt_def bindE_def)
  then show ?case
    using s1 es e by (auto simp: map_filter_simps split: sum.splits option.splits)
qed

lemma map_filter_cong:
  "(\<And>x. x \<in> set xs \<Longrightarrow> f x = g x) \<Longrightarrow> List.map_filter f xs = List.map_filter g xs"
  by (induction xs) (auto simp: map_filter_simps split: option.splits)

text \<open>
  Whatever fails, a listing that is returned holds entries of the directory only, in the order of
  their names, and the directory is as it was.
\<close>

lemma list_sorted_sound:
  assumes "list_sorted env C J s = (r, s')"
  shows "same_files s s' \<and> (\<forall>es. r = Inr es \<longrightarrow> subseq es (listed C s))"
proof (cases "sys_read_dir env s")
  case (Pair r0 s0)
  have same0: "same_files s s0" and dir: "\<And>d. r0 = Inr d \<Longrightarrow> d = map fst (fs_files s)"
    using Pair by (auto simp: sys_read_dir_def syscall_def Let_def split: option.splits)
  show ?thesis
  proof (cases r0)
    case (Inl e)
    then show ?thesis using assms Pair same0 by (auto simp: list_sorted_def bindE_def map_err_def)
  next
    case (Inr d)
    obtain r1 s1 where r1: "collect_names env J d s0 = (r1, s1)" by fastforce
    note names = collect_names_sound [OF r1]
    show ?thesis
    proof (cases r1)
      case (Inl e)
      then show ?thesis
        using assms Pair Inr r1 names same0 by (auto simp: list_sorted_def bindE_def map_err_def)
    next
      case r1_ok: (Inr ns)
      have run: "read_entries env C J (sort ns) s1 = (r, s')"
        using assms Pair Inr r1 r1_ok by (simp add: list_sorted_def bindE_def map_err_def)
      have "List.map_filter (\<lambda>n. Option.bind (content s1 n) (entry_of_bytes C)) (sort ns) = listed C s"
        unfolding listed_def
        using names r1_ok dir [OF Inr] same_files_views(1) [of s s1] same0
        by (auto simp: jmap_def intro!: map_filter_cong)
      then show ?thesis using read_entries_sound [OF run] names same0 by auto
    qed
  qed
qed

section \<open>Writing under faults\<close>

text \<open>The deferred files are those of a given directory view.\<close>

definition deferred_are :: "(string \<Rightarrow> string option) \<Rightarrow> fs_state \<Rightarrow> bool" where
  "deferred_are f s \<longleftrightarrow> (\<forall>n. is_deferred_name n \<longrightarrow> content s n = f n)"

lemma deferred_are_self: "deferred_are (content s) s"
  by (simp add: deferred_are_def)

lemma deferred_are_calls [valid_rules]:
  "keeps (deferred_are f) (sys_create env (tmp_name e n))"
  "keeps (deferred_are f) (sys_write_buffered env (tmp_name e n) text)"
  "keeps (deferred_are f) (sys_flush env (tmp_name e n) text)"
  "keeps (deferred_are f) (sys_sync_file env (tmp_name e n))"
  "keeps (deferred_are f) (sys_remove_file env (tmp_name e n))"
  "keeps (deferred_are f) (sys_open_dir env)"
  "keeps (deferred_are f) (sys_sync_dir env)"
  using touches_only_calls [of "\<lambda>n. \<not> is_deferred_name n"]
    touches_only_sync_file [of "\<lambda>n. \<not> is_deferred_name n"]
  by (simp_all add: deferred_are_def [abs_def])

lemma keeps_fsync_dir [valid_rules]:
  "keeps (deferred_are f) (fsync_dir env J)"
  "keeps fs_wf (fsync_dir env J)"
  unfolding fsync_dir_def by (intro valid_rules)+

text \<open>The temporary file is complete and synced when the writing ends well.\<close>

lemma flush_spec:
  "valid P (sys_flush env tmp text)
     (\<lambda>_ s. content s tmp = Some text) (\<lambda>_ _. True)"
  unfolding sys_flush_def by (rule valid_syscall) auto

lemma sync_file_spec:
  "valid (\<lambda>s. content s tmp = Some text) (sys_sync_file env tmp)
     (\<lambda>_ s. map_of (fs_files s) tmp = Some \<lparr>ino_data = text, ino_synced = True\<rparr>) (\<lambda>_ _. True)"
  unfolding sys_sync_file_def
  by (rule valid_syscall) (auto simp: content_def set_data_def split: option.splits)

lemma valid_map_err: "valid P m Q (\<lambda>_. E) \<Longrightarrow> valid P (map_err g m) Q (\<lambda>_. E)"
  by (intro validI; auto simp: map_err_def split: sum.splits prod.splits dest: validD_Inr validD_Inl)

lemma valid_true: "valid P m (\<lambda>_ _. True) (\<lambda>_ _. True)"
  by (rule validI) auto

lemma write_tmp_complete:
  "valid P (write_tmp env C J e tmp)
     (\<lambda>_ s. map_of (fs_files s) tmp = Some \<lparr>ino_data = entry_to_bytes C e, ino_synced = True\<rparr>)
     (\<lambda>_ _. True)"
  unfolding write_tmp_def
  by (rule valid_bindE [OF valid_true], rule valid_bindE [OF valid_true], rule valid_bindE [OF valid_true],
      rule valid_bindE [OF valid_map_err [OF flush_spec]], rule valid_map_err [OF sync_file_spec])

lemma write_tmp_spec:
  "valid (deferred_are f) (write_tmp env C J e (tmp_name e n))
     (\<lambda>_ s. deferred_are f s \<and>
        map_of (fs_files s) (tmp_name e n) = Some \<lparr>ino_data = entry_to_bytes C e, ino_synced = True\<rparr>)
     (\<lambda>_. deferred_are f)"
proof -
  have "keeps (deferred_are f) (write_tmp env C J e (tmp_name e n))"
    unfolding write_tmp_def by (intro valid_rules)
  from valid_conj [OF this write_tmp_complete [of "\<lambda>_. True"]]
  show ?thesis by (rule valid_weaken) auto
qed

lemma rename_tmp_spec:
  "valid (\<lambda>s. deferred_are f s \<and> map_of (fs_files s) (tmp_name e n) = Some ino)
     (rename_tmp env J (tmp_name e n) (entry_filename e))
     (\<lambda>_ s. deferred_are (f(entry_filename e \<mapsto> ino_data ino)) s \<and>
        map_of (fs_files s) (entry_filename e) = Some ino)
     (\<lambda>_. deferred_are f)"
proof -
  let ?R = "\<lambda>r s. case r of
      Inr _ \<Rightarrow> deferred_are (f(entry_filename e \<mapsto> ino_data ino)) s \<and>
        map_of (fs_files s) (entry_filename e) = Some ino
    | Inl _ \<Rightarrow> deferred_are f s"
  have 1: "valid (\<lambda>s. deferred_are f s \<and> map_of (fs_files s) (tmp_name e n) = Some ino)
     (sys_rename env (tmp_name e n) (entry_filename e)) (\<lambda>x. ?R (Inr x)) (\<lambda>e. ?R (Inl e))"
    unfolding sys_rename_def
    by (rule valid_syscall) (auto simp: deferred_are_def content_def)
  have 2: "valid (deferred_are f) (attempt (sys_remove_file env (tmp_name e n)) (\<lambda>_. throw err))
     Q (\<lambda>_. deferred_are f)" for err :: DeferError and Q :: "unit \<Rightarrow> fs_state \<Rightarrow> bool"
    by (rule valid_attempt [where R = "\<lambda>_. deferred_are f"]) (auto intro: valid_rules)
  show ?thesis
    unfolding rename_tmp_def
    by (rule valid_attempt [OF 1]) (auto split: sum.splits intro: 2 valid_ret)
qed

lemma fsync_dir_durable:
  "valid (\<lambda>s. map_of (fs_files s) n = Some \<lparr>ino_data = b, ino_synced = True\<rparr>) (fsync_dir env J)
     (\<lambda>_ s. content s n = Some b \<and> durable s n = Some b) (\<lambda>_ _. True)"
proof -
  have assoc: "map_of (map (\<lambda>(k, ino). (k, g ino)) xs) n = map_option g (map_of xs n)"
    for g :: "inode \<Rightarrow> string option" and xs
    by (induction xs) auto
  have 1: "valid (\<lambda>s. map_of (fs_files s) n = Some \<lparr>ino_data = b, ino_synced = True\<rparr>) (sys_open_dir env)
     (\<lambda>_ s. map_of (fs_files s) n = Some \<lparr>ino_data = b, ino_synced = True\<rparr>) (\<lambda>_ _. True)"
    unfolding sys_open_dir_def by (rule valid_syscall) auto
  have 2: "valid (\<lambda>s. map_of (fs_files s) n = Some \<lparr>ino_data = b, ino_synced = True\<rparr>) (sys_sync_dir env)
     (\<lambda>_ s. content s n = Some b \<and> durable s n = Some b) (\<lambda>_ _. True)"
    unfolding sys_sync_dir_def by (rule valid_syscall) (auto simp: content_def durable_def assoc)
  show ?thesis
    unfolding fsync_dir_def
    by (rule valid_bindE [OF valid_map_err [OF 1]], rule valid_map_err [OF 2])
qed

text \<open>A deferred file is the old one or the new one, never a part of either.\<close>

definition written :: "(string \<Rightarrow> string option) \<Rightarrow> string \<Rightarrow> string \<Rightarrow> fs_state \<Rightarrow> bool" where
  "written f name bytes s \<longleftrightarrow> deferred_are f s \<or> deferred_are (f(name \<mapsto> bytes)) s"

lemma atomic_write_spec:
  "valid (deferred_are f) (atomic_write env C J e)
     (\<lambda>_ s. deferred_are (f(entry_filename e \<mapsto> entry_to_bytes C e)) s \<and>
        durable s (entry_filename e) = Some (entry_to_bytes C e))
     (\<lambda>_. written f (entry_filename e) (entry_to_bytes C e))"
proof -
  let ?ino = "\<lparr>ino_data = entry_to_bytes C e, ino_synced = True\<rparr>"
  let ?E = "\<lambda>_ :: DeferError. written f (entry_filename e) (entry_to_bytes C e)"
  have 1: "valid (deferred_are f) (read_clock env) (\<lambda>_. deferred_are f) ?E"
    by (rule validI) (auto simp: read_clock_def written_def split: option.splits)
  have 2: "valid (deferred_are f) (write_tmp env C J e (tmp_name e n))
     (\<lambda>_ s. deferred_are f s \<and> map_of (fs_files s) (tmp_name e n) = Some ?ino) ?E" for n
    by (rule valid_weaken [OF write_tmp_spec]) (auto simp: written_def)
  have 3: "valid (\<lambda>s. deferred_are f s \<and> map_of (fs_files s) (tmp_name e n) = Some ?ino)
     (rename_tmp env J (tmp_name e n) (entry_filename e))
     (\<lambda>_ s. deferred_are (f(entry_filename e \<mapsto> entry_to_bytes C e)) s \<and>
        map_of (fs_files s) (entry_filename e) = Some ?ino) ?E" for n
    by (rule valid_weaken [OF rename_tmp_spec]) (auto simp: written_def)
  have 4: "valid (\<lambda>s. deferred_are (f(entry_filename e \<mapsto> entry_to_bytes C e)) s \<and>
        map_of (fs_files s) (entry_filename e) = Some ?ino) (fsync_dir env J)
     (\<lambda>_ s. deferred_are (f(entry_filename e \<mapsto> entry_to_bytes C e)) s \<and>
        durable s (entry_filename e) = Some (entry_to_bytes C e)) ?E"
    by (rule valid_weaken [OF valid_conj [OF keeps_fsync_dir(1) fsync_dir_durable]])
      (auto simp: written_def)
  show ?thesis
    unfolding atomic_write_def
    by (rule valid_bindE [OF 1], rule valid_bindE [OF 2], rule valid_bindE [OF 3], rule 4)
qed

section \<open>Removing dominated entries\<close>

definition dominated :: "DeferEntry \<Rightarrow> DeferEntry list \<Rightarrow> string set" where
  "dominated e olds = entry_filename ` {x \<in> set olds. subsumes (entry_action e) (entry_action x)}"

definition without :: "string set \<Rightarrow> (string \<Rightarrow> 'v option) \<Rightarrow> string \<Rightarrow> 'v option" where
  "without N f n = (if n \<in> N then None else f n)"

text \<open>Some of the names of a set are gone, the other deferred files are those of the view.\<close>

definition pruned :: "string set \<Rightarrow> (string \<Rightarrow> string option) \<Rightarrow> fs_state \<Rightarrow> bool" where
  "pruned N f s \<longleftrightarrow> (\<exists>D \<subseteq> N. deferred_are (without D f) s)"

lemma without_empty [simp]: "without {} f = f"
  by (simp add: without_def fun_eq_iff)

lemma without_insert: "without (insert n N) f = without N (f(n := None))"
  by (auto simp: without_def fun_eq_iff)

lemma pruned_insert: "pruned N (f(n := None)) s \<Longrightarrow> pruned (insert n N) f s"
  unfolding pruned_def without_insert [symmetric] by blast

lemma pruned_mono: "pruned N f s \<Longrightarrow> N \<subseteq> N' \<Longrightarrow> pruned N' f s"
  unfolding pruned_def by blast

lemma pruned_self: "deferred_are f s \<Longrightarrow> pruned N f s"
  unfolding pruned_def by (metis empty_subsetI without_empty)

lemma remove_file_spec:
  "valid (deferred_are f) (sys_remove_file env (entry_filename x))
     (\<lambda>_ s. deferred_are (f(entry_filename x := None)) s \<and> f (entry_filename x) \<noteq> None)
     (\<lambda>err s. deferred_are f s \<and> (err = NotFound \<longrightarrow> f (entry_filename x) = None))"
  unfolding sys_remove_file_def
proof (rule valid_syscall, goal_cases)
  case (2 s err s')
  then show ?case
    by (auto simp: deferred_are_def content_def split: option.splits dest: spec [of _ "entry_filename x"])
next
  case (3 s y s')
  then have "content s (entry_filename x) \<noteq> None"
    by (auto simp: content_def split: option.splits)
  with 3 have "f (entry_filename x) \<noteq> None" by (simp add: deferred_are_def)
  with 3 show ?case by (auto simp: deferred_are_def content_def split: option.splits)
qed (simp add: deferred_are_def)

lemma remove_dominated_spec:
  "valid (deferred_are f) (remove_dominated env J e olds b)
     (\<lambda>r s. deferred_are (without (dominated e olds) f) s \<and>
        (r \<longleftrightarrow> b \<or> (\<exists>n \<in> dominated e olds. f n \<noteq> None)))
     (\<lambda>_. pruned (dominated e olds) f)"
proof (induction olds arbitrary: f b)
  case Nil
  then show ?case by (simp add: dominated_def valid_def)
next
  case (Cons x olds)
  show ?case
  proof (cases "subsumes (entry_action e) (entry_action x)")
    case False
    then have "dominated e (x # olds) = dominated e olds" by (auto simp: dominated_def)
    then show ?thesis using Cons False by simp
  next
    case True
    let ?n = "entry_filename x"
    have dom: "dominated e (x # olds) = insert ?n (dominated e olds)"
      using True by (auto simp: dominated_def)
    let ?R = "\<lambda>r s. case r of
        Inr _ \<Rightarrow> deferred_are (f(?n := None)) s \<and> f ?n \<noteq> None
      | Inl err \<Rightarrow> deferred_are f s \<and> (err = NotFound \<longrightarrow> f ?n = None)"
    have call: "valid (deferred_are f) (sys_remove_file env ?n) (\<lambda>y. ?R (Inr y)) (\<lambda>err. ?R (Inl err))"
      by (rule valid_weaken [OF remove_file_spec]) simp_all
    have gone: "valid (\<lambda>s. deferred_are (f(?n := None)) s \<and> f ?n \<noteq> None)
       (remove_dominated env J e olds True)
       (\<lambda>r s. deferred_are (without (dominated e (x # olds)) f) s \<and>
          (r \<longleftrightarrow> b \<or> (\<exists>n \<in> dominated e (x # olds). f n \<noteq> None)))
       (\<lambda>_. pruned (dominated e (x # olds)) f)"
    proof (cases "f ?n = None")
      case False
      show ?thesis
        by (rule valid_weaken [OF Cons [of "f(?n := None)" True]])
          (use False in \<open>auto simp: dom without_insert pruned_insert simp del: fun_upd_apply\<close>)
    qed (simp add: valid_def)
    have absent: "valid (\<lambda>s. deferred_are f s \<and> f ?n = None)
       (remove_dominated env J e olds b)
       (\<lambda>r s. deferred_are (without (dominated e (x # olds)) f) s \<and>
          (r \<longleftrightarrow> b \<or> (\<exists>n \<in> dominated e (x # olds). f n \<noteq> None)))
       (\<lambda>_. pruned (dominated e (x # olds)) f)"
    proof (cases "f ?n = None")
      case True
      then have "f(?n := None) = f" by auto
      with Cons [of f b] True show ?thesis
        by (elim valid_weaken) (auto simp: dom without_insert intro: pruned_mono)
    qed (auto simp: valid_def)
    show ?thesis
      unfolding remove_dominated.simps using True
      by (simp del: not_None_eq, intro valid_attempt [OF call])
        (auto split: sum.splits io_error.splits intro!: gone absent valid_throw
          intro: pruned_self simp del: fun_upd_apply not_None_eq)
  qed
qed

section \<open>Enqueue under faults\<close>

text \<open>What \<open>enqueue\<close> does after the listing.\<close>

definition enqueue_write ::
  "os_env \<Rightarrow> serde_codec \<Rightarrow> Journal \<Rightarrow> DeferEntry \<Rightarrow> DeferEntry list \<Rightarrow> (fs_state, DeferError, EnqueueResult) prog" where
  "enqueue_write env C J e same =
     bindE (remove_dominated env J e same False) (\<lambda>replaced.
     bindE (if replaced then fsync_dir env J else ret ()) (\<lambda>_.
     bindE (atomic_write env C J e) (\<lambda>_.
     ret (if replaced then ReplacedLowerPriority else Created))))"

abbreviation (input) after_write ::
  "serde_codec \<Rightarrow> DeferEntry \<Rightarrow> DeferEntry list \<Rightarrow> (string \<Rightarrow> string option) \<Rightarrow> string \<Rightarrow> string option" where
  "after_write C e same f \<equiv> (without (dominated e same) f)(entry_filename e \<mapsto> entry_to_bytes C e)"

lemma enqueue_write_spec:
  "valid (deferred_are f) (enqueue_write env C J e same)
     (\<lambda>r s. deferred_are (after_write C e same f) s \<and>
        durable s (entry_filename e) = Some (entry_to_bytes C e) \<and>
        r = (if \<exists>n \<in> dominated e same. f n \<noteq> None then ReplacedLowerPriority else Created))
     (\<lambda>_ s. pruned (dominated e same) f s \<or> deferred_are (after_write C e same f) s)"
proof -
  let ?g = "without (dominated e same) f"
  let ?b = "\<exists>n \<in> dominated e same. f n \<noteq> None"
  let ?E = "\<lambda>_ :: DeferError. \<lambda>s. pruned (dominated e same) f s \<or> deferred_are (after_write C e same f) s"
  have g: "pruned (dominated e same) f s" if "deferred_are ?g s" for s
    using that unfolding pruned_def by blast
  have 1: "valid (deferred_are f) (remove_dominated env J e same False)
     (\<lambda>r s. deferred_are ?g s \<and> (r \<longleftrightarrow> ?b)) ?E"
    by (rule valid_weaken [OF remove_dominated_spec]) auto
  have 2: "valid (\<lambda>s. deferred_are ?g s \<and> (r \<longleftrightarrow> ?b)) (if r then fsync_dir env J else ret ())
     (\<lambda>_ s. deferred_are ?g s \<and> (r \<longleftrightarrow> ?b)) ?E" for r
  proof (cases "r \<longleftrightarrow> ?b")
    case True
    have "keeps (deferred_are ?g) (if r then fsync_dir env J else ret ())"
      by (intro valid_rules)
    then show ?thesis by (rule valid_weaken) (use True g in auto)
  qed (auto simp: valid_def)
  have 3: "valid (\<lambda>s. deferred_are ?g s \<and> (r \<longleftrightarrow> ?b)) (atomic_write env C J e)
     (\<lambda>_ s. deferred_are (after_write C e same f) s \<and>
        durable s (entry_filename e) = Some (entry_to_bytes C e) \<and> (r \<longleftrightarrow> ?b)) ?E" for r
  proof (cases "r \<longleftrightarrow> ?b")
    case True
    show ?thesis
      by (rule valid_weaken [OF atomic_write_spec [of ?g]]) (use True g in \<open>auto simp: written_def\<close>)
  qed (auto simp: valid_def)
  show ?thesis
    unfolding enqueue_write_def
    by (rule valid_bindE [OF 1], rule valid_bindE [OF 2], rule valid_bindE [OF 3], rule valid_ret) auto
qed

text \<open>The three outcomes of \<open>enqueue\<close>, from a listing that holds entries of the directory.\<close>

lemma enqueue_cases:
  assumes "enqueue env C J e s = (r, s')"
  obtains (listing) err where "r = Inl err" "same_files s s'"
  | (exists) x where "r = Inr AlreadyExists" "same_files s s'" "x \<in> ran (jmap C s)"
      "same_target e x" "entry_id x = entry_id e"
  | (subsumed) x where "r = Inr Subsumed" "same_files s s'" "x \<in> ran (jmap C s)"
      "same_target e x" "subsumes (entry_action x) (entry_action e)"
  | (writing) es t where "list_sorted env C J s = (Inr es, t)" "same_files s t"
      "subseq es (listed C s)" "enqueue_write env C J e (filter (same_target e) es) t = (r, s')"
      "\<forall>x \<in> set es. same_target e x \<longrightarrow>
         entry_id x \<noteq> entry_id e \<and> \<not> subsumes (entry_action x) (entry_action e)"
proof -
  obtain r0 t where l: "list_sorted env C J s = (r0, t)" by fastforce
  note sound = list_sorted_sound [OF l]
  show ?thesis
  proof (cases r0)
    case (Inl err)
    then show ?thesis using assms l sound by (intro listing) (auto simp: enqueue_def bindE_def)
  next
    case (Inr es)
    then have sub: "subseq es (listed C s)" using sound by blast
    then have ran: "set es \<subseteq> ran (jmap C s)"
      using set_listed [of C s] by (auto simp: subseq_singleton_left [symmetric] dest: subseq_order.trans)
    let ?same = "filter (same_target e) es"
    have eq: "(r, s') = (if list_ex (\<lambda>x. entry_id x = entry_id e) ?same then (Inr AlreadyExists, t)
        else if list_ex (\<lambda>x. subsumes (entry_action x) (entry_action e)) ?same then (Inr Subsumed, t)
        else enqueue_write env C J e ?same t)"
      using assms l Inr unfolding enqueue_def enqueue_write_def
      by (subst (asm) bindE_Inr) (auto simp: Let_def)
    consider (a) "list_ex (\<lambda>x. entry_id x = entry_id e) ?same"
      | (b) "\<not> list_ex (\<lambda>x. entry_id x = entry_id e) ?same"
          "list_ex (\<lambda>x. subsumes (entry_action x) (entry_action e)) ?same"
      | (c) "\<not> list_ex (\<lambda>x. entry_id x = entry_id e) ?same"
          "\<not> list_ex (\<lambda>x. subsumes (entry_action x) (entry_action e)) ?same"
      by blast
    then show ?thesis
    proof cases
      case a
      then show ?thesis using eq ran sound by (auto simp: list_ex_iff intro!: exists)
    next
      case b
      then show ?thesis using eq ran sound by (auto simp: list_ex_iff intro!: subsumed)
    next
      case c
      then show ?thesis using eq sub sound l Inr by (intro writing [of es t]) (auto simp: list_ex_iff)
    qed
  qed
qed

section \<open>Views of the deferred files as entries\<close>

definition jview :: "serde_codec \<Rightarrow> (string \<Rightarrow> string option) \<Rightarrow> string \<Rightarrow> DeferEntry option" where
  "jview C f name = (if is_deferred_name name then Option.bind (f name) (entry_of_bytes C) else None)"

lemma jmap_jview: "deferred_are f s \<Longrightarrow> jmap C s = jview C f"
  by (auto simp: jmap_def jview_def deferred_are_def fun_eq_iff)

lemma jview_content [simp]: "jview C (content s) = jmap C s"
  by (simp add: jview_def jmap_def fun_eq_iff)

lemma jview_without [simp]: "jview C (without N f) = without N (jview C f)"
  by (simp add: jview_def without_def fun_eq_iff)

lemma jview_upd [simp]:
  "codec_ok C \<Longrightarrow>
   jview C (f(entry_filename e \<mapsto> entry_to_bytes C e)) = (jview C f)(entry_filename e \<mapsto> e)"
  by (simp add: jview_def fun_eq_iff)

lemma jview_delete [simp]: "jview C (f(n := None)) = (jview C f)(n := None)"
  by (simp add: jview_def fun_eq_iff)

text \<open>A journal that lies between two views under any faults.\<close>

lemma enqueue_jmap:
  assumes run: "enqueue env C J e s = (r, s')" and C: "codec_ok C"
  obtains (same) "jmap C s' = jmap C s"
      "\<forall>res. r = Inr res \<longrightarrow> (res = AlreadyExists \<or> res = Subsumed) \<and>
         (\<exists>x \<in> ran (jmap C s). same_target e x \<and>
            (entry_id x = entry_id e \<or> subsumes (entry_action x) (entry_action e)))"
  | (pruned) es D err where "r = Inl err" "subseq es (listed C s)"
      "D \<subseteq> dominated e (filter (same_target e) es)" "jmap C s' = without D (jmap C s)"
  | (written) es t where "list_sorted env C J s = (Inr es, t)" "subseq es (listed C s)"
      "jmap C s' = (without (dominated e (filter (same_target e) es)) (jmap C s))(entry_filename e \<mapsto> e)"
      "\<forall>x \<in> set es. same_target e x \<longrightarrow>
         entry_id x \<noteq> entry_id e \<and> \<not> subsumes (entry_action x) (entry_action e)"
      "\<forall>res. r = Inr res \<longrightarrow> durable s' (entry_filename e) = Some (entry_to_bytes C e) \<and>
         res = (if \<exists>n \<in> dominated e (filter (same_target e) es). content s n \<noteq> None
                then ReplacedLowerPriority else Created)"
  using run
proof (cases rule: enqueue_cases)
  case (listing err)
  then show ?thesis using same_files_views(2) [of s s' C] by (intro same) auto
next
  case (exists x)
  then show ?thesis using same_files_views(2) [of s s' C] by (intro same) auto
next
  case (subsumed x)
  then show ?thesis using same_files_views(2) [of s s' C] by (intro same) auto
next
  case (writing es t)
  let ?same = "filter (same_target e) es"
  have t: "deferred_are (content s) t"
    using writing(2) same_files_views(1) [of s t] by (simp add: deferred_are_def)
  note spec = enqueue_write_spec [of "content s" env C J e ?same]
  show ?thesis
  proof (cases r)
    case (Inr res)
    then have "deferred_are (after_write C e ?same (content s)) s' \<and>
        durable s' (entry_filename e) = Some (entry_to_bytes C e) \<and>
        res = (if \<exists>n \<in> dominated e ?same. content s n \<noteq> None then ReplacedLowerPriority else Created)"
      using validD_Inr [OF spec t] writing(4) by blast
    with Inr writing show ?thesis
      using C by (intro written [of es t]) (auto simp: jmap_jview simp del: fun_upd_apply)
  next
    case (Inl err)
    then have "pruned (dominated e ?same) (content s) s' \<or>
        deferred_are (after_write C e ?same (content s)) s'"
      using validD_Inl [OF spec t] writing(4) by blast
    then show ?thesis
    proof
      assume "pruned (dominated e ?same) (content s) s'"
      then obtain D where "D \<subseteq> dominated e ?same" "deferred_are (without D (content s)) s'"
        by (auto simp: pruned_def)
      with Inl writing show ?thesis by (intro pruned [of err es D]) (auto simp: jmap_jview)
    next
      assume "deferred_are (after_write C e ?same (content s)) s'"
      with Inl writing show ?thesis
        using C by (intro written [of es t]) (auto simp: jmap_jview simp del: fun_upd_apply)
    qed
  qed
qed

lemma listed_subseq_ran: "subseq es (listed C s) \<Longrightarrow> x \<in> set es \<Longrightarrow> x \<in> ran (jmap C s)"
  unfolding set_listed [symmetric] subseq_singleton_left [symmetric] by (rule subseq_order.trans)

text \<open>A dominated name holds an entry of the same target that the new action subsumes.\<close>

lemma dominated_entry:
  assumes "well_named C s" "subseq es (listed C s)"
    and "n \<in> dominated e (filter (same_target e) es)"
  shows "\<exists>x. jmap C s n = Some x \<and> same_target e x \<and> subsumes (entry_action e) (entry_action x)"
proof -
  from assms(3) obtain x where x: "x \<in> set es" "same_target e x"
    "subsumes (entry_action e) (entry_action x)" "n = entry_filename x"
    by (auto simp: dominated_def)
  then obtain m where m: "jmap C s m = Some x"
    using listed_subseq_ran [OF assms(2)] by (auto simp: ran_def)
  with assms(1) have "m = n" using x(4) unfolding well_named_def by blast
  with m x show ?thesis by blast
qed

section \<open>Properties of enqueue\<close>

text \<open>A pending entry that makes another one superfluous.\<close>

definition covers :: "DeferEntry \<Rightarrow> DeferEntry \<Rightarrow> bool" where
  "covers x e \<longleftrightarrow> same_target e x \<and>
     (entry_id x = entry_id e \<or> subsumes (entry_action x) (entry_action e))"

text \<open>No pending entry of a target makes another one of that target superfluous.\<close>

definition no_redundant :: "(string \<Rightarrow> DeferEntry option) \<Rightarrow> bool" where
  "no_redundant M \<longleftrightarrow> (\<forall>x \<in> ran M. \<forall>y \<in> ran M.
     same_target x y \<longrightarrow> \<not> subsumes (entry_action x) (entry_action y))"

lemma same_target_sym: "same_target x y \<longleftrightarrow> same_target y x"
  by (auto simp: same_target_def)

lemma covers_refl [simp]: "covers e e"
  by (simp add: covers_def same_target_def)

lemma subsumes_irrefl [simp]: "\<not> subsumes a a"
  by (cases a) simp_all

lemma ran_without: "x \<in> ran (without N M) \<Longrightarrow> x \<in> ran M"
  by (auto simp: ran_def without_def split: if_splits)

lemma no_redundant_mono: "ran M' \<subseteq> ran M \<Longrightarrow> no_redundant M \<Longrightarrow> no_redundant M'"
  by (auto simp: no_redundant_def)

lemma well_named_jmap:
  "well_named C s' \<longleftrightarrow> (\<forall>n e. jmap C s' n = Some e \<longrightarrow> n = entry_filename e)"
  by (simp add: well_named_def)

lemma enqueue_well_named:
  assumes "enqueue env C J e s = (r, s')" "codec_ok C" "well_named C s"
  shows "well_named C s'"
  using assms(1,2)
proof (cases rule: enqueue_jmap)
  case same
  then show ?thesis using assms(3) by (simp add: well_named_def)
next
  case (pruned es D err)
  then show ?thesis using assms(3) by (auto simp: well_named_def without_def split: if_splits)
next
  case (written es t)
  then show ?thesis using assms(3) by (auto simp: well_named_def without_def split: if_splits)
qed

end
