(* ===== verification/Journal_Props.thy ===== *)
theory Journal_Props
  imports Defer_Journal
begin

text \<open>
  The properties of the defer journal: no accepted request is lost, no superfluous entry is kept,
  the file names order the replay, and the whole of \<open>enqueue\<close> as a function on maps.
\<close>

section \<open>Runs without faults\<close>

definition reads_ok :: "os_env \<Rightarrow> bool" where
  "reads_ok env \<longleftrightarrow> os_read_fault env = (\<lambda>_. None)"

definition quiet :: "os_env \<Rightarrow> bool" where
  "quiet env \<longleftrightarrow> reads_ok env \<and> os_fault env = (\<lambda>_. None) \<and> (\<forall>n. os_nanos env n \<noteq> None)"

lemma quiet_reads: "quiet env \<Longrightarrow> reads_ok env"
  by (simp add: quiet_def)

lemma read_entry_ok:
  "reads_ok env \<Longrightarrow> \<exists>r t. read_entry env C J n s = (r, s\<lparr>fs_tick := t\<rparr>) \<and>
     (\<forall>e. r = Inr e \<longleftrightarrow> Option.bind (content s n) (entry_of_bytes C) = Some e)"
  by (cases "map_of (fs_files s) n"; cases "entry_of_bytes C (the (content s n))")
    (auto simp: reads_ok_def read_entry_def sys_read_def bindE_def map_err_def content_def)

lemma collect_names_ok:
  "reads_ok env \<Longrightarrow>
   \<exists>t. collect_names env J ns s = (Inr (filter is_deferred_name ns), s\<lparr>fs_tick := t\<rparr>)"
proof (induction ns arbitrary: s)
  case Nil
  show ?case by (rule exI [of _ "fs_tick s"]) simp
next
  case (Cons n ns)
  obtain t where "collect_names env J ns (s\<lparr>fs_tick := Suc (fs_tick s)\<rparr>) =
      (Inr (filter is_deferred_name ns), s\<lparr>fs_tick := t\<rparr>)"
    using Cons.IH [OF Cons.prems, of "s\<lparr>fs_tick := Suc (fs_tick s)\<rparr>"] by auto
  then show ?case
    using Cons.prems by (auto simp: reads_ok_def sys_next_entry_def bindE_def map_err_def)
qed

lemma read_entries_ok:
  "reads_ok env \<Longrightarrow> \<exists>t. read_entries env C J ns s =
     (Inr (List.map_filter (\<lambda>n. Option.bind (content s n) (entry_of_bytes C)) ns), s\<lparr>fs_tick := t\<rparr>)"
proof (induction ns arbitrary: s)
  case Nil
  show ?case by (rule exI [of _ "fs_tick s"]) (simp add: map_filter_def)
next
  case (Cons n ns)
  obtain r t where r: "read_entry env C J n s = (r, s\<lparr>fs_tick := t\<rparr>)"
    "\<And>e. r = Inr e \<longleftrightarrow> Option.bind (content s n) (entry_of_bytes C) = Some e"
    using read_entry_ok [OF Cons.prems, of C J n s] by blast
  obtain t' where "read_entries env C J ns (s\<lparr>fs_tick := t\<rparr>) =
     (Inr (List.map_filter (\<lambda>n. Option.bind (content s n) (entry_of_bytes C)) ns), s\<lparr>fs_tick := t'\<rparr>)"
    using Cons.IH [OF Cons.prems, of "s\<lparr>fs_tick := t\<rparr>"] by auto
  then show ?case
    using r by (cases r) (auto simp: attempt_def bindE_def map_filter_simps split: option.splits)
qed

text \<open>The listing, when reading works: every entry of the directory, in the order of the names.\<close>

lemma list_sorted_ok:
  assumes "reads_ok env"
  shows "\<exists>t. list_sorted env C J s = (Inr (listed C s), s\<lparr>fs_tick := t\<rparr>)"
proof -
  let ?s = "s\<lparr>fs_tick := Suc (fs_tick s)\<rparr>" and ?ns = "filter is_deferred_name (map fst (fs_files s))"
  obtain t where t: "collect_names env J (map fst (fs_files s)) ?s = (Inr ?ns, s\<lparr>fs_tick := t\<rparr>)"
    using collect_names_ok [OF assms, of J "map fst (fs_files s)" ?s] by auto
  obtain t' where "read_entries env C J (sort ?ns) (s\<lparr>fs_tick := t\<rparr>) =
     (Inr (List.map_filter (\<lambda>n. Option.bind (content s n) (entry_of_bytes C)) (sort ?ns)), s\<lparr>fs_tick := t'\<rparr>)"
    using read_entries_ok [OF assms, of C J "sort ?ns" "s\<lparr>fs_tick := t\<rparr>"] by auto
  moreover have "List.map_filter (\<lambda>n. Option.bind (content s n) (entry_of_bytes C)) (sort ?ns) = listed C s"
    unfolding listed_def by (rule map_filter_cong) (simp add: jmap_def)
  moreover have "sys_read_dir env s = (Inr (map fst (fs_files s)), ?s)"
    using assms by (simp add: reads_ok_def sys_read_dir_def)
  ultimately show ?thesis
    using t by (auto simp: list_sorted_def bindE_def map_err_def)
qed

lemma list_sorted_eq:
  "reads_ok env \<Longrightarrow> list_sorted env C J s = (r, t) \<Longrightarrow> r = Inr (listed C s)"
  using list_sorted_ok [of env C J s] by auto

text \<open>Without faults a write succeeds (the name must be one component of a path).\<close>

lemma quiet_calls:
  assumes "quiet env"
  shows "sys_open_dir env s = (Inr (), s\<lparr>fs_tick := Suc (fs_tick s)\<rparr>)"
    and "fst (sys_sync_dir env s) = Inr ()"
    and "CHR ''/'' \<notin> set n \<Longrightarrow> fst (sys_create env n s) = Inr ()"
    and "fst (sys_write_buffered env n b s) = Inr ()"
    and "fst (sys_flush env n b s) = Inr ()"
    and "fst (sys_sync_file env n s) = Inr ()"
    and "map_of (fs_files s) n \<noteq> None \<Longrightarrow> fst (sys_rename env n n' s) = Inr ()"
    and "fst (sys_remove_file env n s) = (if map_of (fs_files s) n = None then Inl NotFound else Inr ())"
  using assms by (auto simp: quiet_def sys_defs)

lemma fst_bindE: "fst (m s) = Inr x \<Longrightarrow> bindE m f s = f x (snd (m s))"
  by (cases "m s") (simp add: bindE_def)

lemma fst_map_err: "fst (m s) = Inr x \<Longrightarrow> map_err g m s = (Inr x, snd (m s))"
  by (cases "m s") (simp add: map_err_def)

lemma show_nat_no_slash: "CHR ''/'' \<notin> set (show_nat n)"
  using show_nat_digits [of n] by auto

lemma fsync_dir_ok: "quiet env \<Longrightarrow> fst (fsync_dir env J s) = Inr ()"
  by (simp add: fsync_dir_def fst_bindE fst_map_err quiet_calls)

lemma atomic_write_ok:
  assumes "quiet env" "CHR ''/'' \<notin> set (entry_filename e)"
  shows "fst (atomic_write env C J e s) = Inr ()"
proof -
  obtain nanos where "os_nanos env (fs_tick s) = Some nanos"
    using assms(1) unfolding quiet_def by blast
  then have nanos: "read_clock env s = (Inr nanos, s)" by (simp add: read_clock_def)
  let ?tmp = "tmp_name e nanos"
  have "CHR ''/'' \<notin> set ?tmp"
    using assms(2) show_nat_no_slash by (simp add: tmp_name_def)
  then have w: "fst (write_tmp env C J e ?tmp s) = Inr ()"
    using assms(1) by (simp add: write_tmp_def fst_bindE fst_map_err quiet_calls)
  define t where "t = snd (write_tmp env C J e ?tmp s)"
  have "map_of (fs_files t) ?tmp \<noteq> None"
    using validD_Inr [OF write_tmp_complete [of "\<lambda>_. True" env C J e ?tmp], of s "()" t] w
    by (simp add: t_def prod_eq_iff)
  then have "fst (sys_rename env ?tmp (entry_filename e) t) = Inr ()"
    using assms(1) by (simp add: quiet_calls)
  then have "fst (rename_tmp env J ?tmp (entry_filename e) t) = Inr ()"
    by (cases "sys_rename env ?tmp (entry_filename e) t") (simp add: rename_tmp_def attempt_def)
  then show ?thesis
    using assms(1) by (simp add: atomic_write_def bindE_Inr [where m = "read_clock env", OF nanos] fst_bindE w
        t_def [symmetric] fsync_dir_ok)
qed

lemma remove_dominated_ok:
  "quiet env \<Longrightarrow> \<exists>r. fst (remove_dominated env J e olds b s) = Inr r"
proof (induction olds arbitrary: b s)
  case (Cons x olds)
  obtain r t where rt: "sys_remove_file env (entry_filename x) s = (r, t)" by fastforce
  then have "r = Inl NotFound \<or> r = Inr ()"
    using quiet_calls(8) [OF Cons.prems, of "entry_filename x" s] by (auto split: if_splits)
  then show ?case
    using rt Cons by (auto simp: attempt_def)
qed simp

lemma enqueue_write_ok:
  assumes "quiet env" "CHR ''/'' \<notin> set (entry_filename e)"
  shows "\<exists>res. fst (enqueue_write env C J e same s) = Inr res"
proof -
  obtain r where r: "fst (remove_dominated env J e same False s) = Inr r"
    using remove_dominated_ok [OF assms(1)] by blast
  let ?t = "snd (remove_dominated env J e same False s)"
  have "fst ((if r then fsync_dir env J else ret ()) ?t) = Inr ()"
    using fsync_dir_ok [OF assms(1)] by simp
  then show ?thesis
    using assms by (simp add: enqueue_write_def fst_bindE [where m = "remove_dominated env J e same False", OF r]
        fst_bindE atomic_write_ok)
qed

lemma enqueue_ok:
  assumes "quiet env" "CHR ''/'' \<notin> set (entry_filename e)"
  shows "\<exists>res s'. enqueue env C J e s = (Inr res, s')"
proof -
  obtain t where l: "list_sorted env C J s = (Inr (listed C s), t)"
    using list_sorted_ok [OF quiet_reads [OF assms(1)], of C J s] by auto
  obtain res where "fst (enqueue_write env C J e (filter (same_target e) (listed C s)) t) = Inr res"
    using enqueue_write_ok [OF assms] by blast
  then show ?thesis
    unfolding enqueue_def
    by (subst bindE_Inr [where m = "list_sorted env C J", OF l])
      (auto simp: Let_def enqueue_write_def prod_eq_iff)
qed

section \<open>Sample journals\<close>

definition sample_entry :: "DeferAction \<Rightarrow> string \<Rightarrow> DeferEntry" where
  "sample_entry act target = \<lparr>entry_spec_version = CURRENT_SPEC_VERSION,
     entry_id = make_id ''systemd'' act target, entry_action = act, entry_init_system = ''systemd'',
     entry_target = target, entry_validate_cmd = None, entry_health_check = None,
     entry_priority = default_priority act, entry_enqueued_at = 0, entry_enqueued_by = [],
     entry_attempt_count = 0, entry_max_attempts = 3\<rparr>"

definition fs_of :: "serde_codec \<Rightarrow> DeferEntry list \<Rightarrow> fs_state" where
  "fs_of C es = \<lparr>fs_files = map (\<lambda>e. (entry_filename e,
       \<lparr>ino_data = entry_to_bytes C e, ino_synced = True\<rparr>)) es, fs_disk = [], fs_tick = 0\<rparr>"

definition quiet_env :: os_env where
  "quiet_env = \<lparr>os_fault = (\<lambda>_. None), os_read_fault = (\<lambda>_. None), os_flushed = (\<lambda>_. 5),
     os_nanos = (\<lambda>_. Some 1700000000)\<rparr>"

definition sample_journal :: Journal where
  "sample_journal = \<lparr>journal_root = ''/tmp/bosun-defers''\<rparr>"

abbreviation (input) nginx :: "DeferAction \<Rightarrow> DeferEntry" where
  "nginx act \<equiv> sample_entry act ''nginx''"

lemma quiet_env_quiet [simp]: "quiet quiet_env" "reads_ok quiet_env"
  by (simp_all add: quiet_def reads_ok_def quiet_env_def)

lemma content_fs_of: "content (fs_of C es) = map_of (map (\<lambda>e. (entry_filename e, entry_to_bytes C e)) es)"
proof -
  have "map_option ino_data (map_of (map (\<lambda>e. (entry_filename e,
       \<lparr>ino_data = entry_to_bytes C e, ino_synced = True\<rparr>)) es) n) =
       map_of (map (\<lambda>e. (entry_filename e, entry_to_bytes C e)) es) n" for n
    by (induction es) auto
  then show ?thesis by (simp add: content_def fs_of_def fun_eq_iff)
qed

lemma jmap_fs_of [simp]:
  assumes "codec_ok C"
  shows "jmap C (fs_of C es) = map_of (map (\<lambda>e. (entry_filename e, e)) es)"
proof -
  have "jview C (map_of (map (\<lambda>e. (entry_filename e, entry_to_bytes C e)) es)) =
      map_of (map (\<lambda>e. (entry_filename e, e)) es)"
    using assms by (induction es) (simp_all add: jview_def fun_eq_iff)
  then show ?thesis by (metis content_fs_of jview_content)
qed

lemma well_named_fs_of [simp]: "codec_ok C \<Longrightarrow> well_named C (fs_of C es)"
  by (auto simp: well_named_def dest: map_of_SomeD)

lemma sample_filename [simp]:
  "CHR ''/'' \<notin> set (entry_filename (nginx Restart))" "CHR ''/'' \<notin> set (entry_filename (nginx Reload))"
  by (simp_all add: entry_filename_def sample_entry_def make_id_def)

section \<open>Properties\<close>

lemma enqueue_leaves_cover:
  assumes "codec_ok C" "enqueue env C J e s = (Inr res, s')"
  shows "\<exists>x \<in> ran (jmap C s'). covers x e"
  using assms(2,1)
proof (cases rule: enqueue_jmap)
  case same
  then show ?thesis by (auto simp: covers_def)
next
  case (written es t)
  have "e \<in> ran (jmap C s')" unfolding written(3) by (auto simp: ran_def)
  then show ?thesis by (meson covers_refl)
qed simp

text \<open>
  C1. A request that \<open>enqueue\<close> accepts is never lost, whatever I/O calls fail on the way: when it
  returns \<open>Ok\<close>, the journal holds an entry of the same target with the same id or with an action
  that subsumes the requested one; and every entry that was pending before is still pending,
  or is covered by one that is, or has been rewritten under its own file name.
\<close>

theorem enqueue_covers:
  assumes "codec_ok C" "well_named C s" "enqueue env C J e s = (Inr res, s')"
  shows "(\<exists>x \<in> ran (jmap C s'). covers x e) \<and>
    (\<forall>y \<in> ran (jmap C s). (\<exists>x \<in> ran (jmap C s'). covers x y) \<or> entry_filename y = entry_filename e)"
  using assms(3,1)
proof (cases rule: enqueue_jmap)
  case same
  then have "\<exists>x \<in> ran (jmap C s). covers x e" by (auto simp: covers_def)
  then show ?thesis using same(1) by (metis covers_refl)
next
  case (written es t)
  let ?N = "dominated e (filter (same_target e) es)"
  have e: "e \<in> ran (jmap C s')" unfolding written(3) by (auto simp: ran_def)
  have "(\<exists>x \<in> ran (jmap C s'). covers x y) \<or> entry_filename y = entry_filename e"
    if "jmap C s n = Some y" for n y
  proof (cases "n \<in> ?N")
    case True
    then have "covers e y"
      using dominated_entry [OF assms(2) written(2) True] that by (auto simp: covers_def same_target_sym)
    then show ?thesis using e by blast
  next
    case False
    have n: "n = entry_filename y" using assms(2) that unfolding well_named_def by blast
    show ?thesis
    proof (cases "n = entry_filename e")
      case False
      then have "jmap C s' n = Some y" using that \<open>n \<notin> ?N\<close> unfolding written(3) by (simp add: without_def)
      then show ?thesis by (auto simp: ran_def)
    qed (use n in simp)
  qed
  then have "\<forall>y \<in> ran (jmap C s).
      (\<exists>x \<in> ran (jmap C s'). covers x y) \<or> entry_filename y = entry_filename e"
    by (simp add: ran_def) blast
  then show ?thesis using e by (meson covers_refl)
qed simp


text \<open>
  The abstract journal: a map from file names to entries.  A request is dropped when an entry
  of its target has its id or subsumes it; otherwise it takes the place of what it subsumes.
\<close>

definition spec_enqueue ::
  "DeferEntry \<Rightarrow> (string \<Rightarrow> DeferEntry option) \<Rightarrow> EnqueueResult \<times> (string \<Rightarrow> DeferEntry option)" where
  "spec_enqueue e M =
     (let peers = {x \<in> ran M. same_target e x};
          weaker = {x \<in> peers. subsumes (entry_action e) (entry_action x)}
      in if \<exists>x \<in> peers. entry_id x = entry_id e then (AlreadyExists, M)
         else if \<exists>x \<in> peers. subsumes (entry_action x) (entry_action e) then (Subsumed, M)
         else (if weaker = {} then Created else ReplacedLowerPriority,
               (\<lambda>n. case M n of None \<Rightarrow> None | Some x \<Rightarrow> if x \<in> weaker then None else Some x)
                 (entry_filename e \<mapsto> e)))"

lemma dominated_listed:
  assumes "well_named C s"
  shows "without (dominated e (filter (same_target e) (listed C s))) (jmap C s) =
    (\<lambda>n. case jmap C s n of None \<Rightarrow> None
     | Some x \<Rightarrow> if same_target e x \<and> subsumes (entry_action e) (entry_action x) then None else Some x)"
proof
  fix n
  show "without (dominated e (filter (same_target e) (listed C s))) (jmap C s) n =
    (case jmap C s n of None \<Rightarrow> None
     | Some x \<Rightarrow> if same_target e x \<and> subsumes (entry_action e) (entry_action x) then None else Some x)"
  proof (cases "jmap C s n")
    case (Some x)
    have "n \<in> dominated e (filter (same_target e) (listed C s)) \<longleftrightarrow>
        same_target e x \<and> subsumes (entry_action e) (entry_action x)"
    proof
      assume "n \<in> dominated e (filter (same_target e) (listed C s))"
      from dominated_entry [OF assms subseq_order.order_refl this] Some
      show "same_target e x \<and> subsumes (entry_action e) (entry_action x)" by auto
    next
      assume *: "same_target e x \<and> subsumes (entry_action e) (entry_action x)"
      have "n = entry_filename x" "x \<in> set (listed C s)"
        using Some assms by (auto simp: well_named_def set_listed ran_def)
      with * show "n \<in> dominated e (filter (same_target e) (listed C s))"
        by (auto simp: dominated_def)
    qed
    with Some show ?thesis by (simp add: without_def)
  qed (simp add: without_def)
qed

theorem enqueue_covers_witness:
  "\<exists>res s'. enqueue quiet_env sample_codec sample_journal (nginx Restart)
       (fs_of sample_codec [nginx Reload]) = (Inr res, s') \<and>
     (\<exists>x \<in> ran (jmap sample_codec s'). covers x (nginx Restart))"
proof -
  obtain res s' where *: "enqueue quiet_env sample_codec sample_journal (nginx Restart)
       (fs_of sample_codec [nginx Reload]) = (Inr res, s')"
    using enqueue_ok [of quiet_env "nginx Restart" sample_codec] by fastforce
  show ?thesis using enqueue_covers [OF _ _ *] * by (metis sample_codec_ok well_named_fs_of)
qed

lemma dominated_content:
  assumes "well_named C s"
  shows "(\<exists>n \<in> dominated e (filter (same_target e) (listed C s)). content s n \<noteq> None) \<longleftrightarrow>
    (\<exists>x \<in> ran (jmap C s). same_target e x \<and> subsumes (entry_action e) (entry_action x))"
proof
  assume "\<exists>n \<in> dominated e (filter (same_target e) (listed C s)). content s n \<noteq> None"
  then show "\<exists>x \<in> ran (jmap C s). same_target e x \<and> subsumes (entry_action e) (entry_action x)"
    using dominated_entry [OF assms subseq_order.order_refl] by (fast intro: ranI)
next
  assume "\<exists>x \<in> ran (jmap C s). same_target e x \<and> subsumes (entry_action e) (entry_action x)"
  then obtain n x where nx: "jmap C s n = Some x" "same_target e x"
    "subsumes (entry_action e) (entry_action x)" by (auto simp: ran_def)
  then have "n = entry_filename x" "x \<in> set (listed C s)"
    using assms by (auto simp: well_named_def set_listed ran_def)
  moreover have "content s n \<noteq> None" using nx(1) by (cases "content s n") (auto simp: jmap_def split: if_splits)
  ultimately show "\<exists>n \<in> dominated e (filter (same_target e) (listed C s)). content s n \<noteq> None"
    using nx by (auto simp: dominated_def)
qed

text \<open>
  C2. When no call fails, \<open>enqueue\<close> refines the abstract journal: it returns the result of
  \<open>spec_enqueue\<close> and leaves its map in the directory.
\<close>

theorem enqueue_refines:
  assumes "codec_ok C" "well_named C s" "quiet env" "CHR ''/'' \<notin> set (entry_filename e)"
  shows "\<exists>s'. enqueue env C J e s = (Inr (fst (spec_enqueue e (jmap C s))), s') \<and>
    jmap C s' = snd (spec_enqueue e (jmap C s))"
proof -
  obtain r s' where run: "enqueue env C J e s = (r, s')" by fastforce
  note full = list_sorted_eq [OF quiet_reads [OF assms(3)]]
  obtain t where l: "list_sorted env C J s = (Inr (listed C s), t)" "same_files s t"
    using list_sorted_ok [OF quiet_reads [OF assms(3)], of C J s] by auto
  let ?same = "filter (same_target e) (listed C s)"
  have eq: "(r, s') = (if list_ex (\<lambda>x. entry_id x = entry_id e) ?same then (Inr AlreadyExists, t)
      else if list_ex (\<lambda>x. subsumes (entry_action x) (entry_action e)) ?same then (Inr Subsumed, t)
      else enqueue_write env C J e ?same t)"
    using run unfolding enqueue_def enqueue_write_def
    by (subst (asm) bindE_Inr [where m = "list_sorted env C J", OF l(1)]) (auto simp: Let_def)
  have t: "jmap C t = jmap C s" using l(2) same_files_views(2) by blast
  consider (a) "list_ex (\<lambda>x. entry_id x = entry_id e) ?same"
    | (b) "\<not> list_ex (\<lambda>x. entry_id x = entry_id e) ?same"
        "list_ex (\<lambda>x. subsumes (entry_action x) (entry_action e)) ?same"
    | (c) "\<not> list_ex (\<lambda>x. entry_id x = entry_id e) ?same"
        "\<not> list_ex (\<lambda>x. subsumes (entry_action x) (entry_action e)) ?same"
    by blast
  then show ?thesis
  proof cases
    case a
    then have "spec_enqueue e (jmap C s) = (AlreadyExists, jmap C s)"
      by (auto simp: spec_enqueue_def list_ex_iff set_listed)
    then show ?thesis using a eq t run by simp
  next
    case b
    then have "spec_enqueue e (jmap C s) = (Subsumed, jmap C s)"
      by (auto simp: spec_enqueue_def list_ex_iff set_listed)
    then show ?thesis using b eq t run by simp
  next
    case c
    then have w: "enqueue_write env C J e ?same t = (r, s')" using eq by simp
    moreover obtain res where res: "r = Inr res"
      using enqueue_write_ok [OF assms(3,4), of C J ?same t] w by auto
    moreover have "deferred_are (content s) t"
      using l(2) same_files_views(1) [of s t] by (simp add: deferred_are_def)
    ultimately have post: "deferred_are (after_write C e ?same (content s)) s'"
      "res = (if \<exists>n \<in> dominated e ?same. content s n \<noteq> None then ReplacedLowerPriority else Created)"
      using validD_Inr [OF enqueue_write_spec] by blast+
    have none: "\<not> (\<exists>x \<in> {x \<in> ran (jmap C s). same_target e x}. entry_id x = entry_id e)"
      "\<not> (\<exists>x \<in> {x \<in> ran (jmap C s). same_target e x}. subsumes (entry_action x) (entry_action e))"
      using c by (auto simp: list_ex_iff set_listed)
    have "jmap C s' = snd (spec_enqueue e (jmap C s))"
      using post(1) none assms(1,2) dominated_listed [OF assms(2), of e]
      by (auto simp: jmap_jview spec_enqueue_def Let_def fun_eq_iff ran_def split: option.splits)
    moreover have "res = fst (spec_enqueue e (jmap C s))"
      using post(2) none unfolding dominated_content [OF assms(2)] by (auto simp: spec_enqueue_def Let_def)
    ultimately show ?thesis using run res by blast
  qed
qed

theorem enqueue_refines_witness:
  "\<exists>s'. enqueue quiet_env sample_codec sample_journal (nginx Restart)
       (fs_of sample_codec [nginx Reload]) = (Inr ReplacedLowerPriority, s') \<and>
     jmap sample_codec s' = [entry_filename (nginx Restart) \<mapsto> nginx Restart]"
proof -
  have M: "jmap sample_codec (fs_of sample_codec [nginx Reload]) = [entry_filename (nginx Reload) \<mapsto> nginx Reload]"
    by simp
  have "spec_enqueue (nginx Restart) [entry_filename (nginx Reload) \<mapsto> nginx Reload] =
      (ReplacedLowerPriority, [entry_filename (nginx Restart) \<mapsto> nginx Restart])"
    by (auto simp: spec_enqueue_def Let_def ran_def fun_eq_iff same_target_def sample_entry_def make_id_def)
  with enqueue_refines [of sample_codec "fs_of sample_codec [nginx Reload]" quiet_env "nginx Restart" sample_journal]
  show ?thesis unfolding M by simp
qed

text \<open>
  C10. The journal never holds an entry that another entry of the same target makes superfluous:
  \<open>enqueue\<close> keeps this, and that every entry lies under its own name, also when it ends
  with an error, as long as the directory can be read.
\<close>

theorem enqueue_no_redundant:
  assumes "codec_ok C" "reads_ok env" "well_named C s" "no_redundant (jmap C s)"
    and "enqueue env C J e s = (r, s')"
  shows "well_named C s' \<and> no_redundant (jmap C s')"
proof -
  have "no_redundant (jmap C s')"
    using assms(5,1)
  proof (cases rule: enqueue_jmap)
    case same
    then show ?thesis using assms(4) by simp
  next
    case (pruned es D err)
    then show ?thesis
      using assms(4) by (intro no_redundant_mono [of "jmap C s'" "jmap C s"]) (auto dest: ran_without)
  next
    case (written es t)
    have es: "set es = ran (jmap C s)"
      using list_sorted_eq [OF assms(2) written(1)] by (simp add: set_listed)
    have other: "x \<in> ran (jmap C s) \<and> (same_target e x \<longrightarrow> \<not> subsumes (entry_action e) (entry_action x) \<and>
        \<not> subsumes (entry_action x) (entry_action e))" if "x \<in> ran (jmap C s')" "x \<noteq> e" for x
    proof -
      from that obtain n where n: "jmap C s' n = Some x" by (auto simp: ran_def)
      then have n: "jmap C s n = Some x" "n \<notin> dominated e (filter (same_target e) es)"
        using that(2) unfolding written(3) by (auto simp: without_def split: if_splits)
      have "n = entry_filename x" "x \<in> set es"
        using n(1) assms(3) es by (auto simp: well_named_def ran_def)
      then show ?thesis using n(2) written(4) es by (auto simp: dominated_def)
    qed
    show ?thesis
      unfolding no_redundant_def
    proof (intro ballI impI)
      fix x y assume "x \<in> ran (jmap C s')" "y \<in> ran (jmap C s')" "same_target x y"
      then show "\<not> subsumes (entry_action x) (entry_action y)"
        using other [of x] other [of y] assms(4)
        by (cases "x = e"; cases "y = e") (auto simp: no_redundant_def same_target_sym)
    qed
  qed
  then show ?thesis using enqueue_well_named [OF assms(5,1,3)] by simp
qed

theorem enqueue_no_redundant_witness:
  "no_redundant (jmap sample_codec (snd (enqueue quiet_env sample_codec sample_journal (nginx Restart)
     (fs_of sample_codec [nginx Reload]))))"
proof -
  have "no_redundant (jmap sample_codec (fs_of sample_codec [nginx Reload]))"
    by (simp add: no_redundant_def ran_def sample_entry_def)
  then show ?thesis
    using enqueue_no_redundant [of sample_codec quiet_env "fs_of sample_codec [nginx Reload]"
        sample_journal "nginx Restart"]
    by (metis prod.collapse quiet_env_quiet(2) sample_codec_ok well_named_fs_of)
qed

text \<open>A request that is covered already changes nothing.\<close>

lemma enqueue_covered:
  assumes "reads_ok env" "x \<in> ran (jmap C s)" "covers x e"
  shows "\<exists>res t. enqueue env C J e s = (Inr res, s\<lparr>fs_tick := t\<rparr>) \<and> (res = AlreadyExists \<or> res = Subsumed)"
proof -
  obtain t where l: "list_sorted env C J s = (Inr (listed C s), s\<lparr>fs_tick := t\<rparr>)"
    using list_sorted_ok [OF assms(1)] by blast
  have x: "x \<in> set (filter (same_target e) (listed C s))"
    using assms(2,3) by (auto simp: set_listed covers_def)
  then have "list_ex (\<lambda>x. entry_id x = entry_id e) (filter (same_target e) (listed C s)) \<or>
      list_ex (\<lambda>x. subsumes (entry_action x) (entry_action e)) (filter (same_target e) (listed C s))"
    using assms(3) by (auto simp: list_ex_iff covers_def)
  then show ?thesis
    unfolding enqueue_def by (subst bindE_Inr [where m = "list_sorted env C J", OF l]) (auto simp: Let_def)
qed

text \<open>
  Enqueuing is idempotent: after an accepted request, a request for the same id, target and
  action (whatever its time, origin and retry settings) finds it covered, changes no file and
  returns \<open>AlreadyExists\<close> or \<open>Subsumed\<close>.
\<close>

theorem enqueue_idempotent:
  assumes "codec_ok C" "well_named C s" "enqueue env C J e s = (Inr res, s')" "reads_ok env'"
    and "entry_id e' = entry_id e" "same_target e e'" "entry_action e' = entry_action e"
  shows "\<exists>res' t. enqueue env' C J e' s' = (Inr res', s'\<lparr>fs_tick := t\<rparr>) \<and>
    (res' = AlreadyExists \<or> res' = Subsumed)"
proof -
  have "\<exists>x \<in> ran (jmap C s'). covers x e"
    using assms(3,1)
  proof (cases rule: enqueue_jmap)
    case same
    then show ?thesis by (auto simp: covers_def)
  next
    case (written es t)
    then have "e \<in> ran (jmap C s')" by (auto simp: ran_def)
    then show ?thesis by (meson covers_refl)
  qed simp
  then obtain x where x: "x \<in> ran (jmap C s')" "covers x e" by blast
  then have "covers x e'" using assms(5,6,7) by (auto simp: covers_def same_target_def)
  from enqueue_covered [OF assms(4) x(1) this] show ?thesis .
qed

theorem enqueue_idempotent_witness:
  "\<exists>res s' res' t. enqueue quiet_env sample_codec sample_journal (nginx Restart)
       (fs_of sample_codec [nginx Reload]) = (Inr res, s') \<and>
     enqueue quiet_env sample_codec sample_journal ((nginx Restart)\<lparr>entry_enqueued_at := 60\<rparr>) s' =
       (Inr res', s'\<lparr>fs_tick := t\<rparr>)"
proof -
  obtain res s' where *: "enqueue quiet_env sample_codec sample_journal (nginx Restart)
       (fs_of sample_codec [nginx Reload]) = (Inr res, s')"
    using enqueue_ok [of quiet_env "nginx Restart" sample_codec] by fastforce
  show ?thesis
    using enqueue_idempotent [OF _ _ *, of quiet_env "(nginx Restart)\<lparr>entry_enqueued_at := 60\<rparr>"] *
    by (auto simp: same_target_def)
qed

section \<open>The order of the replay\<close>

fun priority_rank :: "DeferPriority \<Rightarrow> nat" where
  "priority_rank PRestart = 0"
| "priority_rank PReloadOrRestart = 1"
| "priority_rank PReload = 2"
| "priority_rank PCommand = 3"
| "priority_rank PDaemonReload = 4"

lemma filename_less_rank:
  "entry_filename a < entry_filename b \<Longrightarrow> priority_rank (entry_priority a) \<le> priority_rank (entry_priority b)"
  by (cases "entry_priority a"; cases "entry_priority b")
    (simp_all add: entry_filename_def less_char_def)

lemma sorted_wrt_map_filter:
  assumes "sorted_wrt R xs" "\<And>x y a b. R x y \<Longrightarrow> f x = Some a \<Longrightarrow> f y = Some b \<Longrightarrow> S a b"
  shows "sorted_wrt S (List.map_filter f xs)"
  using assms(1)
proof (induction xs)
  case (Cons x xs)
  have "b \<in> set (List.map_filter f xs) \<Longrightarrow> \<exists>y \<in> set xs. f y = Some b" for b
    by (auto simp: map_filter_def)
  with Cons assms(2) show ?case by (fastforce simp: map_filter_simps split: option.splits)
qed (simp add: map_filter_simps)

lemma listed_sorted:
  assumes "fs_wf s" "well_named C s"
  shows "sorted_wrt (\<lambda>a b. entry_filename a < entry_filename b) (listed C s)"
proof -
  have "sorted_wrt (<) (sort (filter is_deferred_name (map fst (fs_files s))))"
    using assms(1) by (simp add: strict_sorted_iff fs_wf_def)
  then show ?thesis
    unfolding listed_def
    by (rule sorted_wrt_map_filter) (use assms(2) in \<open>auto simp: well_named_def\<close>)
qed

text \<open>
  \<open>list_sorted\<close> returns every pending entry exactly once, all restarts before the
  reload-or-restarts, those before the reloads, then the commands and the daemon reloads;
  and the answer depends on the entries alone, not on the order in which the file system
  names the files or on other files in the directory.
\<close>

theorem list_sorted_priority_order:
  assumes "reads_ok env" "fs_wf s" "well_named C s"
  shows "\<exists>es t. list_sorted env C J s = (Inr es, s\<lparr>fs_tick := t\<rparr>) \<and>
    set es = ran (jmap C s) \<and> distinct es \<and>
    sorted_wrt (\<lambda>a b. priority_rank (entry_priority a) \<le> priority_rank (entry_priority b)) es \<and>
    (\<forall>s2. fs_wf s2 \<longrightarrow> jmap C s2 = jmap C s \<longrightarrow>
       (\<exists>t2. list_sorted env C J s2 = (Inr es, s2\<lparr>fs_tick := t2\<rparr>)))"
proof -
  have sorted: "sorted_wrt (\<lambda>a b. entry_filename a < entry_filename b) (listed C s2)"
    if "fs_wf s2" "jmap C s2 = jmap C s" for s2
    using that assms(3) by (intro listed_sorted) (simp_all add: well_named_def)
  have "distinct (map entry_filename (listed C s2))" "sorted (map entry_filename (listed C s2))"
    if "fs_wf s2" "jmap C s2 = jmap C s" for s2
    using sorted [OF that] strict_sorted_iff [of "map entry_filename (listed C s2)"]
    by (simp_all add: sorted_wrt_map)
  note keys = this
  have "listed C s2 = listed C s" if "fs_wf s2" "jmap C s2 = jmap C s" for s2
    using keys [OF that] keys [of s] that assms(2)
    by (intro map_sorted_distinct_set_unique [where f = entry_filename])
      (auto simp: distinct_map set_listed)
  then have all: "\<forall>s2. fs_wf s2 \<longrightarrow> jmap C s2 = jmap C s \<longrightarrow>
       (\<exists>t2. list_sorted env C J s2 = (Inr (listed C s), s2\<lparr>fs_tick := t2\<rparr>))"
    using list_sorted_ok [OF assms(1), of C J] by metis
  moreover have "sorted_wrt (\<lambda>a b. priority_rank (entry_priority a) \<le> priority_rank (entry_priority b)) (listed C s)"
    using sorted [OF assms(2)] by (rule sorted_wrt_mono_rel [rotated]) (auto intro: filename_less_rank)
  moreover have "distinct (listed C s)"
    using keys(1) [OF assms(2)] by (simp add: distinct_map)
  ultimately show ?thesis using assms(2) set_listed by metis
qed

theorem list_sorted_priority_order_witness:
  "\<exists>es t. list_sorted quiet_env sample_codec sample_journal
      (fs_of sample_codec [nginx Reload, sample_entry Restart ''sshd'']) =
      (Inr es, (fs_of sample_codec [nginx Reload, sample_entry Restart ''sshd''])\<lparr>fs_tick := t\<rparr>) \<and>
    set es = {nginx Reload, sample_entry Restart ''sshd''}"
proof -
  let ?s = "fs_of sample_codec [nginx Reload, sample_entry Restart ''sshd'']"
  have names: "entry_filename (nginx Reload) \<noteq> entry_filename (sample_entry Restart ''sshd'')"
    by (simp add: entry_filename_def sample_entry_def)
  then have "fs_wf ?s" by (simp add: fs_wf_def fs_of_def)
  moreover have "ran (jmap sample_codec ?s) = {nginx Reload, sample_entry Restart ''sshd''}"
    using names by auto
  ultimately show ?thesis
    using list_sorted_priority_order [of quiet_env ?s sample_codec sample_journal] by auto
qed

section \<open>The other operations\<close>

text \<open>
  C9. A write is atomic under any sequence of I/O failures, a crash included: afterwards every
  deferred file is either as it was or, for the entry's own name, the complete new text; when the
  write returns \<open>Ok\<close> the new text is there and has been made durable.
\<close>

theorem atomic_write_atomic:
  assumes "atomic_write env C J e s = (r, s')"
  shows "(\<forall>n. is_deferred_name n \<longrightarrow> content s' n = content s n \<or>
      n = entry_filename e \<and> content s' n = Some (entry_to_bytes C e)) \<and>
    (r = Inr () \<longrightarrow> content s' (entry_filename e) = Some (entry_to_bytes C e) \<and>
       durable s' (entry_filename e) = Some (entry_to_bytes C e))"
proof (cases r)
  case (Inl err)
  have "written (content s) (entry_filename e) (entry_to_bytes C e) s'"
    using validD_Inl [OF atomic_write_spec deferred_are_self assms [unfolded Inl]] .
  then show ?thesis using Inl by (auto simp: written_def deferred_are_def split: if_splits)
next
  case (Inr u)
  have "deferred_are ((content s)(entry_filename e \<mapsto> entry_to_bytes C e)) s' \<and>
      durable s' (entry_filename e) = Some (entry_to_bytes C e)"
    using validD_Inr [OF atomic_write_spec deferred_are_self assms [unfolded Inr]] .
  then show ?thesis by (auto simp: deferred_are_def)
qed

theorem atomic_write_atomic_witness:
  "\<exists>s'. atomic_write quiet_env sample_codec sample_journal (nginx Restart) (fs_of sample_codec []) = (Inr (), s') \<and>
     durable s' (entry_filename (nginx Restart)) = Some (entry_to_bytes sample_codec (nginx Restart))"
proof -
  obtain s' where *: "atomic_write quiet_env sample_codec sample_journal (nginx Restart)
      (fs_of sample_codec []) = (Inr (), s')"
    using atomic_write_ok [of quiet_env "nginx Restart" sample_codec sample_journal "fs_of sample_codec []"]
    by (auto simp: prod_eq_iff)
  show ?thesis using atomic_write_atomic [OF *] * by simp
qed

text \<open>Effect of the operations on the map of entries, under any faults.\<close>

lemma journal_remove_spec:
  "valid (deferred_are f) (journal_remove env J e)
     (\<lambda>_. deferred_are (f(entry_filename e := None))) (\<lambda>_. pruned {entry_filename e} f)"
proof -
  let ?n = "entry_filename e"
  let ?R = "\<lambda>r s. case r of
      Inr _ \<Rightarrow> deferred_are (f(?n := None)) s
    | Inl err \<Rightarrow> deferred_are f s \<and> (err = NotFound \<longrightarrow> f ?n = None)"
  have call: "valid (deferred_are f) (sys_remove_file env ?n) (\<lambda>y. ?R (Inr y)) (\<lambda>err. ?R (Inl err))"
    by (rule valid_weaken [OF remove_file_spec]) simp_all
  have p: "pruned {?n} f s" if "deferred_are (f(?n := None)) s" for s
    using that unfolding pruned_def by (metis order_refl without_empty without_insert)
  have sync: "valid (deferred_are (f(?n := None))) (fsync_dir env J)
      (\<lambda>_. deferred_are (f(?n := None))) (\<lambda>_. pruned {?n} f)"
    by (rule valid_weaken [OF keeps_fsync_dir(1)]) (auto intro: p)
  have "f(?n := None) = f" if "f ?n = None" using that by auto
  then have nf: "valid (\<lambda>s. deferred_are f s \<and> f ?n = None) (ret ())
      (\<lambda>_. deferred_are (f(?n := None))) (\<lambda>_. pruned {?n} f)"
    by (auto simp: valid_def)
  show ?thesis
    unfolding journal_remove_def
    by (intro valid_attempt [OF call])
      (auto split: sum.splits io_error.splits intro!: sync nf valid_throw intro: pruned_self
        simp del: fun_upd_apply ret_app)
qed

lemma move_to_manual_clear_spec:
  "valid (deferred_are f) (move_to_manual_clear env J e)
     (\<lambda>_. deferred_are (f(entry_filename e := None))) (\<lambda>_. pruned {entry_filename e} f)"
proof -
  let ?n = "entry_filename e"
  have p: "pruned {?n} f s" if "deferred_are (f(?n := None)) s" for s
    using that unfolding pruned_def by (metis order_refl without_empty without_insert)
  have call: "valid (deferred_are f) (map_err (Io (in_root J ?n)) (sys_rename env ?n (manual_clear_filename e)))
      (\<lambda>_. deferred_are (f(?n := None))) (\<lambda>_. pruned {?n} f)"
  proof (rule valid_map_err)
    have split: "content s' n = (if n = ?n then None else content s n)"
      if "map_of (fs_files s) ?n = Some ino" "is_deferred_name n"
        "fs_files s' = AList.update (manual_clear_filename e) ino (AList.delete ?n (fs_files s))" for s s' ino n
      using that by (auto simp: content_def)
    show "valid (deferred_are f) (sys_rename env ?n (manual_clear_filename e))
        (\<lambda>_. deferred_are (f(?n := None))) (\<lambda>_. pruned {?n} f)"
      unfolding sys_rename_def
    proof (rule valid_syscall, goal_cases)
      case (3 s x s')
      then show ?case by (auto simp: deferred_are_def split split: option.splits)
    qed (auto simp: deferred_are_def intro!: pruned_self split: option.splits)
  qed
  have sync: "valid (deferred_are (f(?n := None))) (fsync_dir env J)
      (\<lambda>_. deferred_are (f(?n := None))) (\<lambda>_. pruned {?n} f)"
    by (rule valid_weaken [OF keeps_fsync_dir(1)]) (auto intro: p)
  show ?thesis unfolding move_to_manual_clear_def by (rule valid_bindE [OF call sync])
qed

end
