(* ===== verification/Std_Path.thy ===== *)
theory Std_Path
  imports Bosun_Prelude
begin

text \<open>
  The parts of \<open>std::path\<close> and \<open>std::fs\<close> that the path checks rely on.  A path is the list of its
  components, which is what comparing, joining and \<open>starts_with\<close> work on in Rust.  The file system is
  a tree of directories, files and symbolic links, and \<open>realpath\<close> is the resolution of a path
  in it, with the kernel's bound on the number of links.
\<close>

datatype component = RootDir | CurDir | ParentDir | Normal string

definition component_of :: "string \<Rightarrow> component" where
  "component_of s = (if s = ''..'' then ParentDir else Normal s)"

text \<open>
  \<open>Path::components\<close>: repeated and trailing slashes vanish, and so does every \<open>.\<close> except a leading one.
\<close>

definition path_components :: "string \<Rightarrow> component list" where
  "path_components s =
     (let pieces = split_on (CHR ''/'') s;
          body = map component_of (filter (\<lambda>p. p \<noteq> [] \<and> p \<noteq> ''.'') pieces)
      in if s = [] then []
         else if hd s = CHR ''/'' then RootDir # body
         else if hd pieces = ''.'' then CurDir # body
         else body)"

text \<open>
  What the kernel sees of a path is its text: a trailing slash or \<open>.\<close> asks for a directory and makes the
  last name be followed when it is a link.  That request is a final \<open>CurDir\<close> here.
\<close>

definition ends_open :: "string \<Rightarrow> bool" where
  "ends_open s \<longleftrightarrow> (let piece = last (split_on (CHR ''/'') s) in piece = [] \<or> piece = ''.'')"

definition os_path :: "string \<Rightarrow> component list" where
  "os_path s = (if s = [] then [] else path_components s @ (if ends_open s then [CurDir] else []))"

text \<open>\<open>Path::join\<close>: an absolute path replaces the base; joining the empty path adds a slash.\<close>

definition path_join :: "component list \<Rightarrow> string \<Rightarrow> component list" where
  "path_join base rel =
     (if RootDir \<in> set (path_components rel) then os_path rel
      else base @ filter (\<lambda>c. c \<noteq> CurDir) (path_components rel) @ (if ends_open rel then [CurDir] else []))"

section \<open>A file tree with symbolic links\<close>

text \<open>A link holds the text of its target.\<close>

datatype tree_node = TDir | TFile string | TLink string

type_synonym file_tree = "string list \<Rightarrow> tree_node option"

datatype fs_error = FsNotFound | FsOther string

text \<open>
  Resolve the remaining components from a directory that is resolved already; \<open>k\<close> links may still
  be followed (40 in the kernel).
\<close>

function realpath :: "file_tree \<Rightarrow> nat \<Rightarrow> string list \<Rightarrow> component list \<Rightarrow> fs_error + string list" where
  "realpath t k cur [] = Inr cur"
| "realpath t k cur (RootDir # cs) = realpath t k [] cs"
| "realpath t k cur (CurDir # cs) = realpath t k cur cs"
| "realpath t k cur (ParentDir # cs) = realpath t k (butlast cur) cs"
| "realpath t k cur (Normal n # cs) =
     (case t (cur @ [n]) of
        None \<Rightarrow> Inl FsNotFound
      | Some TDir \<Rightarrow> realpath t k (cur @ [n]) cs
      | Some (TFile _) \<Rightarrow> (if cs = [] then Inr (cur @ [n]) else Inl (FsOther ''Not a directory''))
      | Some (TLink target) \<Rightarrow>
          (case k of
             0 \<Rightarrow> Inl (FsOther ''Too many levels of symbolic links'')
           | Suc k' \<Rightarrow> realpath t k' cur (os_path target @ cs)))"
  by pat_completeness auto
termination
  by (relation "measures [\<lambda>(t, k, cur, cs). k, \<lambda>(t, k, cur, cs). length cs]") auto

definition MAX_LINKS :: nat where
  "MAX_LINKS = 40"

definition canonicalize :: "file_tree \<Rightarrow> string list \<Rightarrow> component list \<Rightarrow> fs_error + string list" where
  "canonicalize t cwd p = (if p = [] then Inl FsNotFound else realpath t MAX_LINKS cwd p)"

definition abs_path :: "string list \<Rightarrow> component list" where
  "abs_path names = RootDir # map Normal names"

text \<open>\<open>symlink_metadata\<close>: the links on the way are followed, the last component is not.\<close>

definition lstat :: "file_tree \<Rightarrow> string list \<Rightarrow> component list \<Rightarrow> fs_error + tree_node" where
  "lstat t cwd p =
     (if p = [] then Inl FsNotFound
      else case last p of
        Normal n \<Rightarrow>
          (case realpath t MAX_LINKS cwd (butlast p @ [CurDir]) of
             Inl e \<Rightarrow> Inl e
           | Inr dir \<Rightarrow> (case t (dir @ [n]) of None \<Rightarrow> Inl FsNotFound | Some node \<Rightarrow> Inr node))
      | _ \<Rightarrow> (case canonicalize t cwd p of Inl e \<Rightarrow> Inl e | Inr _ \<Rightarrow> Inr TDir))"

section \<open>Laws\<close>

text \<open>A resolved path: directories all the way, no link in it.\<close>

definition resolved :: "file_tree \<Rightarrow> string list \<Rightarrow> bool" where
  "resolved t names \<longleftrightarrow>
     (\<forall>i < length names - 1. t (take (Suc i) names) = Some TDir) \<and>
     (names \<noteq> [] \<longrightarrow> (t names = Some TDir \<or> (\<exists>s. t names = Some (TFile s))))"

definition dirs :: "file_tree \<Rightarrow> string list \<Rightarrow> bool" where
  "dirs t names \<longleftrightarrow> (\<forall>i < length names. t (take (Suc i) names) = Some TDir)"

lemma dirs_Nil [simp]: "dirs t []"
  by (simp add: dirs_def)

lemma dirs_snoc [simp]: "dirs t (names @ [n]) \<longleftrightarrow> dirs t names \<and> t (names @ [n]) = Some TDir"
  by (auto simp: dirs_def less_Suc_eq)

lemma dirs_butlast: "dirs t names \<Longrightarrow> dirs t (butlast names)"
  by (cases names rule: rev_cases) auto

lemma resolved_snoc: "resolved t (names @ [n]) \<longleftrightarrow> dirs t names \<and>
    (t (names @ [n]) = Some TDir \<or> (\<exists>s. t (names @ [n]) = Some (TFile s)))"
  by (auto simp: resolved_def dirs_def)

lemma dirs_resolved: "dirs t names \<Longrightarrow> resolved t names"
  by (cases names rule: rev_cases) (auto simp: resolved_snoc, simp add: resolved_def)

lemma realpath_resolved:
  "realpath t k cur cs = Inr p \<Longrightarrow> dirs t cur \<Longrightarrow> resolved t p"
proof (induction t k cur cs rule: realpath.induct)
  case (5 t k cur n cs)
  then show ?case
    by (auto split: option.splits tree_node.splits if_splits nat.splits simp: resolved_snoc)
qed (auto intro: dirs_resolved dirs_butlast)

lemma realpath_names:
  assumes "dirs t cur" "resolved t (cur @ names)"
  shows "realpath t k cur (map Normal names) = Inr (cur @ names)"
  using assms
proof (induction names arbitrary: cur)
  case (Cons n names)
  show ?case
  proof (cases "names = []")
    case True
    then show ?thesis using Cons.prems by (auto simp: resolved_snoc split: option.splits)
  next
    case False
    then have "length cur < length (cur @ n # names) - 1" by (cases names) auto
    then have "t (take (Suc (length cur)) (cur @ n # names)) = Some TDir"
      using Cons.prems(2) unfolding resolved_def by blast
    then have "t (cur @ [n]) = Some TDir" by simp
    then show ?thesis using Cons.IH [of "cur @ [n]"] Cons.prems by simp
  qed
qed simp

text \<open>Canonicalizing a canonical path returns it.\<close>

lemma canonicalize_resolved:
  "resolved t names \<Longrightarrow> canonicalize t cwd (abs_path names) = Inr names"
  using realpath_names [of t "[]" names] by (simp add: canonicalize_def abs_path_def)

end
