(* ===== verification/Journal_Open.thy ===== *)
theory Journal_Open
  imports Defer_Journal Std_Path
begin

unbundle bit_operations_syntax

text \<open>
  \<open>Journal::open\<close> of \<open>bosun-core/src/defers/journal.rs\<close>, which runs as root on a path below \<open>/tmp\<close>
  where other users can create files.  What the path names is decided by the environment anew for
  every system call, so that any replacement of the path by another process between two calls is covered: \<open>ro_path\<close> is the
  entry of the last name of the path, \<open>ro_link\<close> the object behind a link.  The kernel follows the last name of a path that ends in
  a slash or a dot, in every call but \<open>mkdir\<close>.  The inodes have a type, an owner and a mode; the state is their table, and the only
  call that changes it is \<open>fchmod\<close>.
\<close>

datatype file_type = Symlink | RegularFile | Dir

record fnode =
  st_type :: file_type
  st_uid :: u32
  st_mode :: u32

record root_env =
  ro_path :: "nat \<Rightarrow> nat option"
  ro_link :: "nat \<Rightarrow> nat \<Rightarrow> nat option"
  ro_fault :: "nat \<Rightarrow> string option"
  ro_euid :: u32

record root_state =
  nodes :: "nat \<Rightarrow> fnode"
  ro_tick :: nat

text \<open>The object that a path with this text names: without following its last name, or behind it.\<close>

definition named :: "root_env \<Rightarrow> string \<Rightarrow> nat \<Rightarrow> (nat \<Rightarrow> fnode) \<Rightarrow> io_error + nat" where
  "named env root n t =
     (case ro_path env n of
        None \<Rightarrow> Inl NotFound
      | Some i \<Rightarrow>
          (if \<not> ends_open root then Inr i
           else case st_type (t i) of
                  Dir \<Rightarrow> Inr i
                | RegularFile \<Rightarrow> Inl (OtherIo ''Not a directory'')
                | Symlink \<Rightarrow>
                    (case ro_link env n i of
                       None \<Rightarrow> Inl NotFound
                     | Some j \<Rightarrow> (if st_type (t j) = Dir then Inr j else Inl (OtherIo ''Not a directory'')))))"

definition root_call ::
  "root_env \<Rightarrow> (nat \<Rightarrow> (nat \<Rightarrow> fnode) \<Rightarrow> (io_error + 'a) \<times> (nat \<Rightarrow> fnode)) \<Rightarrow>
   (root_state, io_error, 'a) prog" where
  "root_call env f = (\<lambda>s.
     let n = ro_tick s
     in case ro_fault env n of
          Some msg \<Rightarrow> (Inl (OtherIo msg), s\<lparr>ro_tick := Suc n\<rparr>)
        | None \<Rightarrow> (case f n (nodes s) of (r, t) \<Rightarrow> (r, s\<lparr>nodes := t, ro_tick := Suc n\<rparr>)))"

text \<open>\<open>symlink_metadata\<close>, \<open>mkdir\<close>, \<open>open\<close> with \<open>O_NOFOLLOW | O_DIRECTORY\<close>, \<open>fstat\<close> and \<open>fchmod\<close>.\<close>

definition symlink_metadata :: "root_env \<Rightarrow> string \<Rightarrow> (root_state, io_error, file_type) prog" where
  "symlink_metadata env root = root_call env (\<lambda>n t. (case named env root n t of
     Inl e \<Rightarrow> Inl e | Inr i \<Rightarrow> Inr (st_type (t i)), t))"

definition ends_in_dot :: "string \<Rightarrow> bool" where
  "ends_in_dot s \<longleftrightarrow> (let pieces = filter (\<lambda>p. p \<noteq> []) (split_on (CHR ''/'') s) in pieces \<noteq> [] \<and> last pieces = ''.'')"

definition create_dir :: "root_env \<Rightarrow> string \<Rightarrow> (root_state, io_error, unit) prog" where
  "create_dir env root = root_call env (\<lambda>n t. (case ro_path env n of
     None \<Rightarrow> (if ends_in_dot root then Inl NotFound else Inr ())
   | Some i \<Rightarrow> Inl (OtherIo ''File exists''), t))"

definition open_dir_nofollow :: "root_env \<Rightarrow> string \<Rightarrow> (root_state, io_error, nat) prog" where
  "open_dir_nofollow env root = root_call env (\<lambda>n t. (case named env root n t of
     Inl e \<Rightarrow> Inl e
   | Inr i \<Rightarrow> (case st_type (t i) of
        Dir \<Rightarrow> Inr i
      | Symlink \<Rightarrow> Inl (OtherIo ''Too many levels of symbolic links'')
      | RegularFile \<Rightarrow> Inl (OtherIo ''Not a directory'')), t))"

definition fstat :: "root_env \<Rightarrow> nat \<Rightarrow> (root_state, io_error, fnode) prog" where
  "fstat env fd = root_call env (\<lambda>_ t. (Inr (t fd), t))"

definition fchmod :: "root_env \<Rightarrow> nat \<Rightarrow> u32 \<Rightarrow> (root_state, io_error, unit) prog" where
  "fchmod env fd mode = root_call env (\<lambda>_ t. (Inr (), t(fd := (t fd)\<lparr>st_mode := mode\<rparr>)))"

lemmas root_calls = symlink_metadata_def create_dir_def open_dir_nofollow_def fstat_def fchmod_def root_call_def

section \<open>Opening\<close>

definition ensure_root_directory :: "root_env \<Rightarrow> string \<Rightarrow> (root_state, DeferError, unit) prog" where
  "ensure_root_directory env root =
     attempt (symlink_metadata env root) (\<lambda>r. case r of
       Inr Symlink \<Rightarrow> throw (UnsafeRoot root ''path is a symlink'')
     | Inr RegularFile \<Rightarrow> throw (UnsafeRoot root ''path exists but is not a directory'')
     | Inr Dir \<Rightarrow> ret ()
     | Inl NotFound \<Rightarrow>
         bindE (map_err (Io root) (create_dir env root)) (\<lambda>_.
         bindE (map_err (Io root) (symlink_metadata env root)) (\<lambda>ty.
         if ty = Symlink then throw (UnsafeRoot root ''path became a symlink after mkdir'') else ret ()))
     | Inl e \<Rightarrow> throw (Io root e))"

definition open_root_nofollow :: "root_env \<Rightarrow> string \<Rightarrow> (root_state, DeferError, nat) prog" where
  "open_root_nofollow env root = map_err (Io root) (open_dir_nofollow env root)"

definition harden_root :: "root_env \<Rightarrow> string \<Rightarrow> nat \<Rightarrow> (root_state, DeferError, unit) prog" where
  "harden_root env root dir =
     bindE (map_err (Io root) (fstat env dir)) (\<lambda>stat.
     if st_uid stat \<noteq> ro_euid env \<and> st_uid stat \<noteq> 0
     then throw (UnsafeRoot root (''owner uid='' @ show_nat (unat (st_uid stat)) @ '' differs from euid='' @
            show_nat (unat (ro_euid env)) @ '' (and is not root)''))
     else if (st_mode stat AND 0x1FF) \<noteq> 0x1C0
     then map_err (Io root) (fchmod env dir 0x1C0)
     else ret ())"

definition journal_open :: "root_env \<Rightarrow> string \<Rightarrow> (root_state, DeferError, Journal) prog" where
  "journal_open env root =
     bindE (ensure_root_directory env root) (\<lambda>_.
     bindE (open_root_nofollow env root) (\<lambda>dir.
     bindE (harden_root env root dir) (\<lambda>_.
     ret \<lparr>journal_root = root\<rparr>)))"

section \<open>Properties\<close>

lemma ensure_root_nodes: "keeps (\<lambda>s. nodes s = t) (ensure_root_directory env root)"
proof -
  have meta: "keeps (\<lambda>s. nodes s = t) (symlink_metadata env root)" "keeps (\<lambda>s. nodes s = t) (create_dir env root)"
    by (rule validI; auto simp: root_calls Let_def split: option.splits)+
  show ?thesis
    unfolding ensure_root_directory_def
    by (rule keeps_attempt [OF meta(1)])
      (auto split: sum.split io_error.split file_type.split intro!: valid_rules meta simp del: ret_app)
qed

text \<open>The object is the one in the directory itself, or, for a path with a slash at its end, the one behind a link.\<close>

definition stands_for :: "root_env \<Rightarrow> string \<Rightarrow> nat \<Rightarrow> (nat \<Rightarrow> fnode) \<Rightarrow> nat \<Rightarrow> bool" where
  "stands_for env root n t i \<longleftrightarrow>
     ro_path env n = Some i \<or>
     ends_open root \<and> (\<exists>l. ro_path env n = Some l \<and> st_type (t l) = Symlink \<and> ro_link env n l = Some i)"

lemma named_stands_for: "named env root n t = Inr i \<Longrightarrow> stands_for env root n t i"
  by (auto simp: named_def stands_for_def split: option.splits if_splits file_type.splits)

lemma open_root_spec:
  "valid (\<lambda>s. nodes s = t) (open_root_nofollow env root)
     (\<lambda>i s. nodes s = t \<and> st_type (t i) = Dir \<and> (\<exists>n. stands_for env root n t i)) (\<lambda>_ s. nodes s = t)"
  unfolding open_root_nofollow_def
  by (rule valid_map_err, rule validI)
    (auto simp: root_calls Let_def dest: named_stands_for split: option.splits file_type.splits sum.splits)

text \<open>The owner check and the mode that hardening leaves.\<close>

definition trusted :: "root_env \<Rightarrow> fnode \<Rightarrow> bool" where
  "trusted env f \<longleftrightarrow> st_uid f = ro_euid env \<or> st_uid f = 0"

definition hardened :: "fnode \<Rightarrow> fnode" where
  "hardened f = (if (st_mode f AND 0x1FF) \<noteq> 0x1C0 then f\<lparr>st_mode := 0x1C0\<rparr> else f)"

lemma harden_root_spec:
  "valid (\<lambda>s. nodes s = t) (harden_root env root i)
     (\<lambda>_ s. trusted env (t i) \<and> nodes s = t(i := hardened (t i))) (\<lambda>_ s. nodes s = t)"
proof -
  have stat: "valid (\<lambda>s. nodes s = t) (map_err (Io root) (fstat env i))
      (\<lambda>f s. nodes s = t \<and> f = t i) (\<lambda>_ s. nodes s = t)"
    by (rule valid_map_err, rule validI) (auto simp: root_calls Let_def split: option.splits)
  have chmod: "valid (\<lambda>s. nodes s = t \<and> f = t i) (map_err (Io root) (fchmod env i 0x1C0))
      (\<lambda>_ s. nodes s = t(i := f\<lparr>st_mode := 0x1C0\<rparr>)) (\<lambda>_ s. nodes s = t)" for f
    by (rule valid_map_err, rule validI) (auto simp: root_calls Let_def split: option.splits)
  have rest: "valid (\<lambda>s. nodes s = t \<and> f = t i)
     (if st_uid f \<noteq> ro_euid env \<and> st_uid f \<noteq> 0 then throw (UnsafeRoot root msg)
      else if (st_mode f AND 0x1FF) \<noteq> 0x1C0 then map_err (Io root) (fchmod env i 0x1C0) else ret ())
     (\<lambda>_ s. trusted env (t i) \<and> nodes s = t(i := hardened (t i))) (\<lambda>_ s. nodes s = t)" for f msg
  proof (cases "trusted env f \<and> (st_mode f AND 0x1FF) \<noteq> 0x1C0 \<and> f = t i")
    case True
    then have eq: "(if st_uid f \<noteq> ro_euid env \<and> st_uid f \<noteq> 0 then throw (UnsafeRoot root msg)
        else if (st_mode f AND 0x1FF) \<noteq> 0x1C0 then map_err (Io root) (fchmod env i 0x1C0) else ret ()) =
        map_err (Io root) (fchmod env i 0x1C0)"
      by (auto simp: trusted_def)
    show ?thesis
      unfolding eq by (rule valid_weaken [OF chmod [of f]]) (use True in \<open>auto simp: hardened_def\<close>)
  next
    case False
    then show ?thesis by (auto simp: valid_def trusted_def hardened_def)
  qed
  show ?thesis unfolding harden_root_def by (rule valid_bindE [OF stat rest])
qed

text \<open>
  C39. Opening the journal is safe against a local user who replaces the path at any moment.  It
  succeeds only on a directory that belongs to the process's user or to root, whose permission bits are then exactly \<open>0700\<close>;
  this is the directory the path itself names, never one behind a symbolic link, unless the path ends in a slash or a dot;
  and whether it succeeds or fails, nothing else is changed of any file's owner, type or mode.
\<close>

theorem journal_open_safe:
  assumes "journal_open env root s = (r, s')"
  shows "(\<forall>J. r = Inr J \<longrightarrow> journal_root J = root \<and>
      (\<exists>i n. stands_for env root n (nodes s) i \<and> (\<not> ends_open root \<longrightarrow> ro_path env n = Some i) \<and> st_type (nodes s i) = Dir \<and>
         (st_uid (nodes s i) = ro_euid env \<or> st_uid (nodes s i) = 0) \<and>
         st_mode (nodes s' i) AND 0x1FF = 0x1C0 \<and>
         nodes s' = (nodes s)(i := (nodes s i)\<lparr>st_mode := st_mode (nodes s' i)\<rparr>))) \<and>
    (\<forall>e. r = Inl e \<longrightarrow> nodes s' = nodes s)"
proof -
  let ?t = "nodes s"
  let ?Q = "\<lambda>J s'. journal_root J = root \<and> (\<exists>i n. stands_for env root n ?t i \<and> st_type (?t i) = Dir \<and>
      trusted env (?t i) \<and> nodes s' = ?t(i := hardened (?t i)))"
  have 1: "valid (\<lambda>s. nodes s = ?t \<and> st_type (?t i) = Dir \<and> (\<exists>n. stands_for env root n ?t i))
      (harden_root env root i)
      (\<lambda>_ s. \<exists>n. stands_for env root n ?t i \<and> st_type (?t i) = Dir \<and> trusted env (?t i) \<and>
         nodes s = ?t(i := hardened (?t i))) (\<lambda>_ s. nodes s = ?t)" for i
  proof (cases "st_type (?t i) = Dir \<and> (\<exists>n. stands_for env root n ?t i)")
    case True
    then show ?thesis by (intro valid_weaken [OF harden_root_spec [of ?t env root i]]) auto
  qed (auto simp: valid_def)
  have "valid (\<lambda>s. nodes s = ?t) (journal_open env root) ?Q (\<lambda>_ s. nodes s = ?t)"
    unfolding journal_open_def
    by (rule valid_bindE [OF ensure_root_nodes], rule valid_bindE [OF open_root_spec],
        rule valid_bindE [OF 1], rule valid_ret) auto
  then have "(\<forall>J. r = Inr J \<longrightarrow> ?Q J s') \<and> (\<forall>e. r = Inl e \<longrightarrow> nodes s' = ?t)"
    using assms by (auto dest: validD_Inr validD_Inl)
  moreover have "(st_mode (hardened f) AND 0x1FF) = 0x1C0" "hardened f = f\<lparr>st_mode := st_mode (hardened f)\<rparr>" for f
    by (simp_all add: hardened_def)
  moreover have "\<not> ends_open root \<Longrightarrow> stands_for env root n ?t i \<Longrightarrow> ro_path env n = Some i" for n i
    by (simp add: stands_for_def)
  ultimately show ?thesis by (fastforce simp: trusted_def)
qed

text \<open>A root-owned directory with mode \<open>0755\<close>, and one that a user planted.\<close>

definition sample_root :: "u32 \<Rightarrow> file_type \<Rightarrow> root_state" where
  "sample_root uid ty = \<lparr>nodes = (\<lambda>_. \<lparr>st_type = ty, st_uid = uid, st_mode = 0x1ED\<rparr>), ro_tick = 0\<rparr>"

definition sample_root_env :: root_env where
  "sample_root_env = \<lparr>ro_path = (\<lambda>_. Some 7), ro_link = (\<lambda>_ _. None), ro_fault = (\<lambda>_. None), ro_euid = 0\<rparr>"

lemma sample_open:
  "\<exists>s'. journal_open sample_root_env ''/tmp/bosun-defers'' (sample_root 0 Dir) =
     (Inr \<lparr>journal_root = ''/tmp/bosun-defers''\<rparr>, s') \<and> st_mode (nodes s' 7) = 0x1C0"
  by (simp add: journal_open_def ensure_root_directory_def open_root_nofollow_def harden_root_def root_calls named_def ends_open_def
      bindE_def map_err_def attempt_def sample_root_env_def sample_root_def)

theorem journal_open_safe_witness:
  "\<exists>s' i. journal_open sample_root_env ''/tmp/bosun-defers'' (sample_root 0 Dir) =
       (Inr \<lparr>journal_root = ''/tmp/bosun-defers''\<rparr>, s') \<and>
     st_type (nodes (sample_root 0 Dir) i) = Dir \<and> st_mode (nodes s' i) AND 0x1FF = 0x1C0"
proof -
  obtain s' where run: "journal_open sample_root_env ''/tmp/bosun-defers'' (sample_root 0 Dir) =
      (Inr \<lparr>journal_root = ''/tmp/bosun-defers''\<rparr>, s')"
    using sample_open by blast
  show ?thesis using journal_open_safe [OF run] run by blast
qed

section \<open>A path that ends in a slash\<close>

text \<open>
  With a slash at its end the path is followed through a link in every call, so the directory behind the link is taken for the
  journal and its mode is changed: here entry 7 is a link to directory 8.
\<close>

definition linked_root :: root_state where
  "linked_root = \<lparr>nodes = (\<lambda>i. \<lparr>st_type = (if i = 7 then Symlink else Dir), st_uid = 0, st_mode = 0x1ED\<rparr>), ro_tick = 0\<rparr>"

lemma journal_open_follows_slash:
  "\<exists>s'. journal_open (sample_root_env\<lparr>ro_link := (\<lambda>_ _. Some 8)\<rparr>) ''/tmp/j/'' linked_root = (Inr \<lparr>journal_root = ''/tmp/j/''\<rparr>, s') \<and>
     st_mode (nodes s' 8) = 0x1C0"
  "fst (journal_open (sample_root_env\<lparr>ro_link := (\<lambda>_ _. Some 8)\<rparr>) ''/tmp/j'' linked_root) = Inl (UnsafeRoot ''/tmp/j'' ''path is a symlink'')"
  by (simp_all add: journal_open_def ensure_root_directory_def open_root_nofollow_def harden_root_def root_calls named_def ends_open_def
      bindE_def map_err_def attempt_def sample_root_env_def linked_root_def)

end
