(* ===== verification/Defer_Replay.thy ===== *)
theory Defer_Replay
  imports Journal_Props
begin

text \<open>
  \<open>bosun-core/src/defers/replay.rs\<close> and \<open>action.rs\<close>: one replay cycle over the journal.

  The trait objects of the source are parameters: a \<open>DispatchClient\<close> and a \<open>HealthCheckRunner\<close>
  are programs over the world outside the journal, and the cancellation token is read from
  that world.  The cycle itself is written over the four journal operations it calls;
  \<open>replay_with_health_check\<close> is the instance for the journal of \<open>Defer_Journal\<close>.

  The locale \<open>defer_store\<close> states what the cycle relies on, and \<open>live_store\<close> adds that the calls
  succeed; the interpretations show that the journal provides both.
\<close>

section \<open>Clients\<close>

datatype DispatchError = ClientUnavailable | ActionFailed string

datatype HealthCheckError =
    CmdExitNonZero int u32 string
  | CmdTimeout "string list" u32
  | CmdSpawnError string
  | UrlBadStatus string u16 u16 u32
  | UrlTransport string u32 string
  | HcCancelled

type_synonym 'w dispatch_client = "DeferEntry \<Rightarrow> ('w, DispatchError, unit) prog"
type_synonym 'w health_check_runner = "HealthCheck \<Rightarrow> ('w, HealthCheckError, unit) prog"

definition NoopHealthCheckRunner :: "'w health_check_runner" where
  "NoopHealthCheckRunner check = ret ()"

definition dispatch :: "DeferEntry \<Rightarrow> 'w dispatch_client \<Rightarrow> ('w, DispatchError, unit) prog" where
  "dispatch entry client = client entry"

section \<open>Report\<close>

record ReplayReport =
  executed :: u32
  skipped_unavailable :: u32
  failed :: u32
  promoted_to_manual_clear :: u32
  health_check_failed :: u32

definition report_default :: ReplayReport where
  "report_default = \<lparr>executed = 0, skipped_unavailable = 0, failed = 0,
     promoted_to_manual_clear = 0, health_check_failed = 0\<rparr>"

definition add_executed :: "ReplayReport \<Rightarrow> ReplayReport" where
  "add_executed r = r\<lparr>executed := saturating_add (executed r) 1\<rparr>"

definition add_skipped :: "ReplayReport \<Rightarrow> ReplayReport" where
  "add_skipped r = r\<lparr>skipped_unavailable := saturating_add (skipped_unavailable r) 1\<rparr>"

definition add_failed :: "ReplayReport \<Rightarrow> ReplayReport" where
  "add_failed r = r\<lparr>failed := saturating_add (failed r) 1\<rparr>"

definition add_promoted :: "ReplayReport \<Rightarrow> ReplayReport" where
  "add_promoted r = r\<lparr>promoted_to_manual_clear := saturating_add (promoted_to_manual_clear r) 1\<rparr>"

definition add_hc_failed :: "ReplayReport \<Rightarrow> ReplayReport" where
  "add_hc_failed r = r\<lparr>health_check_failed := saturating_add (health_check_failed r) 1\<rparr>"

section \<open>The cycle\<close>

text \<open>The journal on the left of the state, the world of the clients on the right.\<close>

definition on_store :: "('s, 'e, 'a) prog \<Rightarrow> ('s \<times> 'w, 'e, 'a) prog" where
  "on_store m = (\<lambda>(s, w). case m s of (r, s') \<Rightarrow> (r, s', w))"

definition on_world :: "('w, 'f, 'a) prog \<Rightarrow> ('s \<times> 'w, 'e, 'f + 'a) prog" where
  "on_world m = (\<lambda>(s, w). case m w of (r, w') \<Rightarrow> (Inr r, s, w'))"

text \<open>The bookkeeping of a failed attempt: count it, and give up when the limit is reached.\<close>

definition record_failure ::
  "(DeferEntry \<Rightarrow> ('s, 'e, DeferEntry) prog) \<Rightarrow> (DeferEntry \<Rightarrow> ('s, 'e, unit) prog) \<Rightarrow>
   DeferEntry \<Rightarrow> (ReplayReport \<Rightarrow> ReplayReport) \<Rightarrow> ReplayReport \<Rightarrow> ('s, 'e, ReplayReport) prog" where
  "record_failure bump promote entry tally report =
     bindE (bump entry) (\<lambda>updated.
     if entry_max_attempts updated \<le> entry_attempt_count updated
     then bindE (promote updated) (\<lambda>_. ret (add_promoted report))
     else ret (tally report))"

text \<open>The health check of an entry that has one, after its action went well.\<close>

definition probe :: "'w health_check_runner \<Rightarrow> DeferEntry \<Rightarrow> ('s \<times> 'w, 'e, HealthCheckError + unit) prog" where
  "probe runner entry =
     (case entry_health_check entry of
        None \<Rightarrow> ret (Inr ())
      | Some check \<Rightarrow> on_world (runner check))"

definition replay_entry ::
  "(DeferEntry \<Rightarrow> ('s, 'e, unit) prog) \<Rightarrow> (DeferEntry \<Rightarrow> ('s, 'e, DeferEntry) prog) \<Rightarrow>
   (DeferEntry \<Rightarrow> ('s, 'e, unit) prog) \<Rightarrow> 'w dispatch_client \<Rightarrow> 'w health_check_runner \<Rightarrow>
   DeferEntry \<Rightarrow> ReplayReport \<Rightarrow> ('s \<times> 'w, 'e, ReplayReport) prog" where
  "replay_entry remove bump promote client runner entry report =
     bindE (on_world (dispatch entry client)) (\<lambda>outcome. case outcome of
       Inr _ \<Rightarrow>
         bindE (probe runner entry) (\<lambda>health. case health of
           Inr _ \<Rightarrow> bindE (on_store (remove entry)) (\<lambda>_. ret (add_executed report))
         | Inl HcCancelled \<Rightarrow> ret report
         | Inl _ \<Rightarrow> on_store (record_failure bump promote entry add_hc_failed report))
     | Inl ClientUnavailable \<Rightarrow> ret (add_skipped report)
     | Inl (ActionFailed msg) \<Rightarrow> on_store (record_failure bump promote entry add_failed report))"

fun replay_loop ::
  "(DeferEntry \<Rightarrow> ('s, 'e, unit) prog) \<Rightarrow> (DeferEntry \<Rightarrow> ('s, 'e, DeferEntry) prog) \<Rightarrow>
   (DeferEntry \<Rightarrow> ('s, 'e, unit) prog) \<Rightarrow> 'w dispatch_client \<Rightarrow> 'w health_check_runner \<Rightarrow> ('w \<Rightarrow> bool) \<Rightarrow>
   DeferEntry list \<Rightarrow> ReplayReport \<Rightarrow> ('s \<times> 'w, 'e, ReplayReport) prog" where
  "replay_loop remove bump promote client runner cancelled [] report = ret report"
| "replay_loop remove bump promote client runner cancelled (entry # entries) report = (\<lambda>sw.
     if cancelled (snd sw) then (Inr report, sw)
     else bindE (replay_entry remove bump promote client runner entry report)
            (replay_loop remove bump promote client runner cancelled entries) sw)"

definition replay_with_health_check ::
  "os_env \<Rightarrow> serde_codec \<Rightarrow> Journal \<Rightarrow> 'w dispatch_client \<Rightarrow> 'w health_check_runner \<Rightarrow> ('w \<Rightarrow> bool) \<Rightarrow>
   (fs_state \<times> 'w, DeferError, ReplayReport) prog" where
  "replay_with_health_check env C J client runner cancelled =
     bindE (on_store (list_sorted env C J)) (\<lambda>entries.
     replay_loop (journal_remove env J) (bump_attempt env C J) (move_to_manual_clear env J)
       client runner cancelled entries report_default)"

text \<open>\<open>replay\<close> makes a token of its own, which nobody cancels.\<close>

definition replay ::
  "os_env \<Rightarrow> serde_codec \<Rightarrow> Journal \<Rightarrow> 'w dispatch_client \<Rightarrow> (fs_state \<times> 'w, DeferError, ReplayReport) prog" where
  "replay env C J client = replay_with_health_check env C J client NoopHealthCheckRunner (\<lambda>_. False)"

section \<open>What the cycle relies on\<close>

definition bumped :: "DeferEntry \<Rightarrow> DeferEntry" where
  "bumped e = e\<lparr>entry_attempt_count := saturating_add (entry_attempt_count e) 1\<rparr>"

lemma bumped_filename [simp]: "entry_filename (bumped e) = entry_filename e"
  by (simp add: bumped_def entry_filename_def)

definition exhausted :: "DeferEntry \<Rightarrow> bool" where
  "exhausted e \<longleftrightarrow> entry_max_attempts e \<le> saturating_add (entry_attempt_count e) 1"

text \<open>
  What counts an attempt of an entry that is dispatched in the world \<open>w\<close> (its action failed, or its
  health check did), and what takes it out of the journal (it was carried out, or the attempt
  that failed was the last).
\<close>

definition counts_at :: "'w dispatch_client \<Rightarrow> 'w health_check_runner \<Rightarrow> DeferEntry \<Rightarrow> 'w \<Rightarrow> bool" where
  "counts_at client runner e w \<longleftrightarrow>
     (\<exists>msg. fst (client e w) = Inl (ActionFailed msg)) \<or>
     (\<exists>w1 check err. client e w = (Inr (), w1) \<and> entry_health_check e = Some check \<and>
        fst (runner check w1) = Inl err \<and> err \<noteq> HcCancelled)"

definition drops_at :: "'w dispatch_client \<Rightarrow> 'w health_check_runner \<Rightarrow> DeferEntry \<Rightarrow> 'w \<Rightarrow> bool" where
  "drops_at client runner e w \<longleftrightarrow>
     (\<exists>w1. client e w = (Inr (), w1) \<and>
        (case entry_health_check e of None \<Rightarrow> True | Some check \<Rightarrow> fst (runner check w1) = Inr ())) \<or>
     exhausted e \<and> counts_at client runner e w"

text \<open>The dispatches of a cycle: each entry with the world in which it was dispatched.\<close>

fun loop_calls ::
  "(DeferEntry \<Rightarrow> ('s, 'e, unit) prog) \<Rightarrow> (DeferEntry \<Rightarrow> ('s, 'e, DeferEntry) prog) \<Rightarrow>
   (DeferEntry \<Rightarrow> ('s, 'e, unit) prog) \<Rightarrow> 'w dispatch_client \<Rightarrow> 'w health_check_runner \<Rightarrow> ('w \<Rightarrow> bool) \<Rightarrow>
   DeferEntry list \<Rightarrow> ReplayReport \<Rightarrow> 's \<times> 'w \<Rightarrow> (DeferEntry \<times> 'w) list" where
  "loop_calls remove bump promote client runner cancelled [] report sw = []"
| "loop_calls remove bump promote client runner cancelled (entry # entries) report sw =
     (if cancelled (snd sw) then []
      else (entry, snd sw) #
        (case replay_entry remove bump promote client runner entry report sw of
           (Inr report', sw') \<Rightarrow> loop_calls remove bump promote client runner cancelled entries report' sw'
         | (Inl _, _) \<Rightarrow> []))"

definition replay_calls ::
  "os_env \<Rightarrow> serde_codec \<Rightarrow> Journal \<Rightarrow> 'w dispatch_client \<Rightarrow> 'w health_check_runner \<Rightarrow> ('w \<Rightarrow> bool) \<Rightarrow>
   fs_state \<times> 'w \<Rightarrow> (DeferEntry \<times> 'w) list" where
  "replay_calls env C J client runner cancelled sw =
     (case list_sorted env C J (fst sw) of
        (Inr entries, s1) \<Rightarrow>
          loop_calls (journal_remove env J) (bump_attempt env C J) (move_to_manual_clear env J)
            client runner cancelled entries report_default (s1, snd sw)
      | (Inl _, _) \<Rightarrow> [])"

locale defer_store =
  fixes pending :: "'s \<Rightarrow> string \<Rightarrow> DeferEntry option"
    and inv :: "'s \<Rightarrow> bool"
    and listing :: "('s, 'e, DeferEntry list) prog"
    and remove :: "DeferEntry \<Rightarrow> ('s, 'e, unit) prog"
    and bump :: "DeferEntry \<Rightarrow> ('s, 'e, DeferEntry) prog"
    and promote :: "DeferEntry \<Rightarrow> ('s, 'e, unit) prog"
  assumes listing_law: "inv s \<Longrightarrow> listing s = (r, s') \<Longrightarrow> inv s' \<and> pending s' = pending s \<and>
      (\<forall>es. r = Inr es \<longrightarrow> distinct (map entry_filename es) \<and>
         (\<forall>e \<in> set es. pending s (entry_filename e) = Some e))"
    and remove_law: "inv s \<Longrightarrow> remove e s = (u, s') \<Longrightarrow> inv s' \<and>
      (pending s' = pending s \<or> pending s' = (pending s)(entry_filename e := None)) \<and>
      (u = Inr () \<longrightarrow> pending s' = (pending s)(entry_filename e := None))"
    and bump_law: "inv s \<Longrightarrow> bump e s = (v, s') \<Longrightarrow> inv s' \<and>
      (pending s' = pending s \<or> pending s' = (pending s)(entry_filename e \<mapsto> bumped e)) \<and>
      (\<forall>x. v = Inr x \<longrightarrow> x = bumped e \<and> pending s' = (pending s)(entry_filename e \<mapsto> bumped e))"
    and promote_law: "inv s \<Longrightarrow> promote e s = (u, s') \<Longrightarrow> inv s' \<and>
      (pending s' = pending s \<or> pending s' = (pending s)(entry_filename e := None)) \<and>
      (u = Inr () \<longrightarrow> pending s' = (pending s)(entry_filename e := None))"
begin

text \<open>One entry touches no other entry, and its own is kept, counted or taken out, each for a cause.\<close>

definition entry_step :: "bool \<Rightarrow> bool \<Rightarrow> DeferEntry \<Rightarrow> 's \<Rightarrow> 's \<Rightarrow> bool" where
  "entry_step counts drops e s s' \<longleftrightarrow> inv s' \<and>
     (pending s' = pending s \<or> counts \<and> pending s' = (pending s)(entry_filename e \<mapsto> bumped e) \<or>
      drops \<and> pending s' = (pending s)(entry_filename e := None))"

lemma record_failure_step:
  assumes "inv s" "record_failure bump promote e tally rep s = (r, s')"
  shows "entry_step True (exhausted e) e s s'"
proof -
  obtain r1 s1 where b: "bump e s = (r1, s1)" by fastforce
  note law = bump_law [OF assms(1) b]
  show ?thesis
  proof (cases r1)
    case (Inl x)
    then show ?thesis using assms b law by (auto simp: record_failure_def bindE_def entry_step_def)
  next
    case (Inr x)
    obtain r2 s2 where p: "promote x s1 = (r2, s2)" by fastforce
    have x: "x = bumped e" "inv s1" "pending s1 = (pending s)(entry_filename e \<mapsto> bumped e)"
      using law Inr by auto
    have s': "s' = s1 \<or> exhausted e \<and> s' = s2"
      using assms(2) b Inr p x(1)
      by (auto simp: record_failure_def bindE_def exhausted_def bumped_def split: if_splits sum.splits)
    then show ?thesis
      using x promote_law [OF x(2) p] by (auto simp: entry_step_def)
  qed
qed

lemma replay_entry_step:
  assumes "inv s" "replay_entry remove bump promote client runner e rep (s, w) = (r, s', w')"
  shows "entry_step (counts_at client runner e w) (drops_at client runner e w) e s s'"
proof -
  have self: "entry_step x y e s s" for x y using assms(1) by (simp add: entry_step_def)
  have failing: "entry_step (counts_at client runner e w) (drops_at client runner e w) e s s'"
    if "on_store (record_failure bump promote e tally rep) (s, v) = (r, s', w')" "counts_at client runner e w" for tally v
  proof -
    have "record_failure bump promote e tally rep s = (r, s')"
      using that(1) by (auto simp: on_store_def split: prod.splits)
    from record_failure_step [OF assms(1) this] that(2) show ?thesis
      unfolding entry_step_def drops_at_def by blast
  qed
  have removal: "entry_step x True e s s'"
    if "bindE (on_store (remove e)) (\<lambda>_. ret (add_executed rep)) (s, v) = (r, s', w')" for v x
    using that remove_law [OF assms(1)]
    by (auto simp: on_store_def bindE_def entry_step_def split: prod.splits sum.splits)
  obtain d w1 where d: "client e w = (d, w1)" by fastforce
  show ?thesis
  proof (cases d)
    case (Inl err)
    show ?thesis
    proof (cases err)
      case ClientUnavailable
      then show ?thesis using assms(2) d Inl self
        by (auto simp: replay_entry_def dispatch_def on_world_def bindE_def)
    next
      case (ActionFailed msg)
      then have "counts_at client runner e w" using d Inl unfolding counts_at_def by (metis fst_conv)
      then show ?thesis using assms(2) d Inl ActionFailed failing
        by (auto simp: replay_entry_def dispatch_def on_world_def bindE_def)
    qed
  next
    case (Inr u)
    then have ok: "client e w = (Inr (), w1)" using d by simp
    obtain h w2 where h: "(probe runner e (s, w1) :: ('e + _) \<times> _) = (Inr h, s, w2)"
      and hc: "h = (case entry_health_check e of None \<Rightarrow> Inr () | Some check \<Rightarrow> fst (runner check w1))"
      by (cases "entry_health_check e"; cases "runner (the (entry_health_check e)) w1")
        (auto simp: probe_def on_world_def)
    have eq: "(r, s', w') = (case h of
        Inr _ \<Rightarrow> bindE (on_store (remove e)) (\<lambda>_. ret (add_executed rep))
      | Inl HcCancelled \<Rightarrow> ret rep
      | Inl _ \<Rightarrow> on_store (record_failure bump promote e add_hc_failed rep)) (s, w2)"
      using assms(2) d Inr h unfolding replay_entry_def dispatch_def
      by (cases h; cases "projl h") (auto simp: bindE_def on_world_def)
    show ?thesis
    proof (cases h)
      case (Inr u')
      then have "drops_at client runner e w"
        using ok hc unfolding drops_at_def by (cases "entry_health_check e") auto
      then show ?thesis using removal [of w2] eq Inr by auto
    next
      case (Inl err)
      show ?thesis
      proof (cases "err = HcCancelled")
        case True
        then show ?thesis using eq Inl self by auto
      next
        case False
        then have "counts_at client runner e w"
          using ok hc Inl unfolding counts_at_def by (cases "entry_health_check e") (auto intro: exI [of _ err])
        then show ?thesis using failing [of add_hc_failed w2] eq Inl False by (cases err) auto
      qed
    qed
  qed
qed

text \<open>What a cycle can do to the journal, whatever fails.\<close>

lemma replay_loop_frame:
  assumes "inv s" "replay_loop remove bump promote client runner cancelled es rep (s, w) = (r, s', w')"
    and "distinct (map entry_filename es)" "\<forall>e \<in> set es. pending s (entry_filename e) = Some e"
  shows "inv s' \<and> (\<forall>n. pending s' n = pending s n \<or>
    (\<exists>(e, v) \<in> set (loop_calls remove bump promote client runner cancelled es rep (s, w)). n = entry_filename e \<and> e \<in> set es \<and>
      (counts_at client runner e v \<and> pending s' n = Some (bumped e) \<or> drops_at client runner e v \<and> pending s' n = None)))"
  using assms
proof (induction es arbitrary: s w rep)
  case (Cons e es)
  show ?case
  proof (cases "cancelled w")
    case True
    then show ?thesis using Cons.prems by auto
  next
    case False
    obtain r1 s1 w1 where one: "replay_entry remove bump promote client runner e rep (s, w) = (r1, s1, w1)"
      by (cases "replay_entry remove bump promote client runner e rep (s, w)") auto
    have step: "entry_step (counts_at client runner e w) (drops_at client runner e w) e s s1"
      using replay_entry_step [OF Cons.prems(1) one] .
    then have inv1: "inv s1"
      and other: "\<And>n. n \<noteq> entry_filename e \<Longrightarrow> pending s1 n = pending s n"
      and own: "pending s1 (entry_filename e) = pending s (entry_filename e) \<or>
        counts_at client runner e w \<and> pending s1 (entry_filename e) = Some (bumped e) \<or>
        drops_at client runner e w \<and> pending s1 (entry_filename e) = None"
      by (auto simp: entry_step_def)
    have first: "pending s1 n = pending s n \<or> n = entry_filename e \<and>
        (counts_at client runner e w \<and> pending s1 n = Some (bumped e) \<or> drops_at client runner e w \<and> pending s1 n = None)" for n
      using other [of n] own by (cases "n = entry_filename e") auto
    show ?thesis
    proof (cases r1)
      case (Inl x)
      then have "s' = s1" using Cons.prems(2) False one by (simp add: bindE_def)
      then show ?thesis using first inv1 False one Inl by auto
    next
      case (Inr rep1)
      then have run: "replay_loop remove bump promote client runner cancelled es rep1 (s1, w1) = (r, s', w')"
        using Cons.prems(2) False one by (simp add: bindE_def)
      have calls: "loop_calls remove bump promote client runner cancelled (e # es) rep (s, w) =
          (e, w) # loop_calls remove bump promote client runner cancelled es rep1 (s1, w1)"
        using False one Inr by simp
      have later: "\<forall>x \<in> set es. pending s1 (entry_filename x) = Some x"
        using Cons.prems(3,4) other by (auto simp: image_iff)
      have IH: "inv s' \<and> (\<forall>n. pending s' n = pending s1 n \<or>
          (\<exists>(x, v) \<in> set (loop_calls remove bump promote client runner cancelled es rep1 (s1, w1)). n = entry_filename x \<and> x \<in> set es \<and>
            (counts_at client runner x v \<and> pending s' n = Some (bumped x) \<or> drops_at client runner x v \<and> pending s' n = None)))"
        using Cons.IH [OF inv1 run _ later] Cons.prems(3) by simp
      have "pending s' n = pending s n \<or>
          (\<exists>(x, v) \<in> set (loop_calls remove bump promote client runner cancelled (e # es) rep (s, w)). n = entry_filename x \<and>
            x \<in> set (e # es) \<and>
            (counts_at client runner x v \<and> pending s' n = Some (bumped x) \<or> drops_at client runner x v \<and> pending s' n = None))" for n
      proof (cases "pending s' n = pending s1 n")
        case True
        then show ?thesis using first [of n] unfolding calls by auto
      next
        case False
        then show ?thesis using IH unfolding calls by auto
      qed
      then show ?thesis using IH by blast
    qed
  qed
qed simp

end

section \<open>A cycle in which the journal works\<close>

text \<open>What becomes of one entry, from the answers of the client and the runner.\<close>

datatype verdict = Executed | Skipped | Failed | HealthFailed | Promoted | Kept

definition verdict_of ::
  "(DeferEntry \<Rightarrow> DispatchError + unit) \<Rightarrow> (HealthCheck \<Rightarrow> HealthCheckError + unit) \<Rightarrow> DeferEntry \<Rightarrow> verdict" where
  "verdict_of d h e = (case d e of
       Inl ClientUnavailable \<Rightarrow> Skipped
     | Inl (ActionFailed msg) \<Rightarrow> if exhausted e then Promoted else Failed
     | Inr _ \<Rightarrow> (case entry_health_check e of
           None \<Rightarrow> Executed
         | Some check \<Rightarrow> (case h check of
               Inr _ \<Rightarrow> Executed
             | Inl HcCancelled \<Rightarrow> Kept
             | Inl _ \<Rightarrow> if exhausted e then Promoted else HealthFailed)))"

fun entry_after :: "verdict \<Rightarrow> DeferEntry \<Rightarrow> DeferEntry option" where
  "entry_after Executed e = None"
| "entry_after Promoted e = None"
| "entry_after Failed e = Some (bumped e)"
| "entry_after HealthFailed e = Some (bumped e)"
| "entry_after Skipped e = Some e"
| "entry_after Kept e = Some e"

fun add_verdict :: "verdict \<Rightarrow> ReplayReport \<Rightarrow> ReplayReport" where
  "add_verdict Executed = add_executed"
| "add_verdict Promoted = add_promoted"
| "add_verdict Failed = add_failed"
| "add_verdict HealthFailed = add_hc_failed"
| "add_verdict Skipped = add_skipped"
| "add_verdict Kept = (\<lambda>r. r)"

locale live_store = defer_store +
  fixes ready :: bool
  assumes listing_live: "ready \<Longrightarrow> inv s \<Longrightarrow> \<exists>es s'. listing s = (Inr es, s') \<and> set es = ran (pending s)"
    and remove_live: "ready \<Longrightarrow> inv s \<Longrightarrow> pending s (entry_filename e) = Some x \<Longrightarrow> \<exists>s'. remove e s = (Inr (), s')"
    and bump_live: "ready \<Longrightarrow> inv s \<Longrightarrow> pending s (entry_filename e) = Some x \<Longrightarrow> \<exists>y s'. bump e s = (Inr y, s')"
    and promote_live: "ready \<Longrightarrow> inv s \<Longrightarrow> pending s (entry_filename e) = Some x \<Longrightarrow> \<exists>s'. promote e s = (Inr (), s')"
begin

lemma record_failure_live:
  assumes "ready" "inv s" "pending s (entry_filename e) = Some x"
  shows "\<exists>s'. record_failure bump promote e tally rep s =
      (Inr (if exhausted e then add_promoted rep else tally rep), s') \<and> inv s' \<and>
    pending s' = (pending s)(entry_filename e := (if exhausted e then None else Some (bumped e)))"
proof -
  obtain y s1 where b: "bump e s = (Inr y, s1)" using bump_live [OF assms] by blast
  then have y: "y = bumped e" "inv s1" "pending s1 = (pending s)(entry_filename e \<mapsto> bumped e)"
    using bump_law [OF assms(2) b] by auto
  have ex: "entry_max_attempts y \<le> entry_attempt_count y \<longleftrightarrow> exhausted e"
    by (simp add: y(1) exhausted_def bumped_def)
  have "pending s1 (entry_filename y) = Some (bumped e)" by (simp add: y)
  then obtain s2 where p: "promote y s1 = (Inr (), s2)" using promote_live [OF assms(1) y(2)] by blast
  have "inv s2" "pending s2 = (pending s)(entry_filename e := None)"
    using promote_law [OF y(2) p] y by auto
  then show ?thesis
    using b p y ex by (auto simp: record_failure_def bindE_def)
qed

lemma replay_entry_live:
  assumes "ready" "inv s" "pending s (entry_filename e) = Some e"
    and d: "fst (client e w) = d e" and h: "\<And>c v. fst (runner c v) = h c"
  shows "\<exists>s' w'. replay_entry remove bump promote client runner e rep (s, w) =
      (Inr (add_verdict (verdict_of d h e) rep), s', w') \<and> inv s' \<and>
    pending s' = (pending s)(entry_filename e := entry_after (verdict_of d h e) e)"
proof -
  have same: "(pending s)(entry_filename e \<mapsto> e) = pending s" using assms(3) by auto
  obtain s1 where r: "remove e s = (Inr (), s1)" "inv s1" "pending s1 = (pending s)(entry_filename e := None)"
    using remove_live [OF assms(1-3)] remove_law [OF assms(2)] by blast
  obtain w1 where c: "client e w = (d e, w1)" using d by (metis prod.collapse)
  note fail = record_failure_live [OF assms(1-3)]
  note unf = replay_entry_def probe_def dispatch_def on_world_def on_store_def bindE_def verdict_of_def
  show ?thesis
  proof (cases "d e")
    case (Inl err)
    then show ?thesis
      using c same assms(2) fail [of add_failed rep] by (cases err) (auto simp: unf)
  next
    case (Inr u)
    show ?thesis
    proof (cases "entry_health_check e")
      case None
      then show ?thesis using Inr c r by (auto simp: unf)
    next
      case (Some check)
      obtain w2 where R: "runner check w1 = (h check, w2)" using h by (metis prod.collapse)
      show ?thesis
      proof (cases "h check")
        case hr: (Inr u)
        then show ?thesis using Inr Some c r R by (auto simp: unf)
      next
        case hl: (Inl err)
        then show ?thesis
          using Inr Some c R same assms(2) fail [of add_hc_failed rep]
          by (cases err) (auto simp: unf)
      qed
    qed
  qed
qed

lemma replay_loop_live:
  assumes "ready" "inv s" "distinct (map entry_filename es)"
    and "\<forall>e \<in> set es. pending s (entry_filename e) = Some e"
    and d: "\<And>e w. fst (client e w) = d e" and h: "\<And>c w. fst (runner c w) = h c"
  shows "\<exists>s' w'. replay_loop remove bump promote client runner (\<lambda>_. False) es rep (s, w) =
      (Inr (fold (\<lambda>e. add_verdict (verdict_of d h e)) es rep), s', w') \<and> inv s' \<and>
    (\<forall>n. pending s' n = (if n \<in> entry_filename ` set es
       then Option.bind (pending s n) (\<lambda>e. entry_after (verdict_of d h e) e) else pending s n))"
  using assms(2-4)
proof (induction es arbitrary: s w rep)
  case (Cons e es)
  obtain s1 w1 where one: "replay_entry remove bump promote client runner e rep (s, w) =
      (Inr (add_verdict (verdict_of d h e) rep), s1, w1)" "inv s1"
      "pending s1 = (pending s)(entry_filename e := entry_after (verdict_of d h e) e)"
    using replay_entry_live [where e = e and w = w and rep = rep and client = client and d = d and
        runner = runner and h = h, OF assms(1) Cons.prems(1)] Cons.prems(3) d h by auto
  have later: "\<forall>x \<in> set es. pending s1 (entry_filename x) = Some x"
    using Cons.prems(2,3) one(3) by (auto simp: image_iff)
  obtain s' w' where rest: "replay_loop remove bump promote client runner (\<lambda>_. False) es
        (add_verdict (verdict_of d h e) rep) (s1, w1) =
      (Inr (fold (\<lambda>e. add_verdict (verdict_of d h e)) es (add_verdict (verdict_of d h e) rep)), s', w')"
      "inv s'" "\<forall>n. pending s' n = (if n \<in> entry_filename ` set es
       then Option.bind (pending s1 n) (\<lambda>e. entry_after (verdict_of d h e) e) else pending s1 n)"
    using Cons.IH [where rep = "add_verdict (verdict_of d h e) rep" and w = w1, OF one(2) _ later]
      Cons.prems(2) by auto
  have "entry_filename e \<notin> entry_filename ` set es" using Cons.prems(2) by simp
  then have "\<forall>n. pending s' n = (if n \<in> entry_filename ` set (e # es)
       then Option.bind (pending s n) (\<lambda>e. entry_after (verdict_of d h e) e) else pending s n)"
    using rest(3) one(3) Cons.prems(3) by auto
  then show ?case using one rest by (auto simp: bindE_def)
qed simp

end

section \<open>The journal provides the store\<close>

definition flat_dir :: "directory \<Rightarrow> bool" where
  "flat_dir d \<longleftrightarrow> (\<forall>n \<in> fst ` set d. CHR ''/'' \<notin> set n)"

definition store_inv :: "serde_codec \<Rightarrow> fs_state \<Rightarrow> bool" where
  "store_inv C s \<longleftrightarrow> codec_ok C \<and> fs_wf s \<and> well_named C s \<and>
     flat_dir (fs_files s)"

text \<open>No call of the journal puts a name with a slash into the directory.\<close>

definition flat_names :: "fs_state \<Rightarrow> bool" where
  "flat_names s \<longleftrightarrow> fs_wf s \<and> flat_dir (fs_files s)"

lemma flat_dir_update [simp]: "flat_dir (AList.update n ino d) \<longleftrightarrow> CHR ''/'' \<notin> set n \<and> flat_dir d"
  unfolding flat_dir_def AList.dom_update by blast

lemma flat_dir_delete [simp]: "flat_dir d \<Longrightarrow> flat_dir (AList.delete n d)"
  using AList.dom_delete_subset [of n d] unfolding flat_dir_def by blast

lemma flat_dirD [dest]: "map_of d n = Some ino \<Longrightarrow> flat_dir d \<Longrightarrow> CHR ''/'' \<notin> set n"
  using map_of_SomeD by (force simp: flat_dir_def)

lemmas flat_simps = flat_names_def fs_wf_def set_data_def

lemma manual_clear_no_slash:
  "CHR ''/'' \<notin> set (manual_clear_filename e) \<longleftrightarrow> CHR ''/'' \<notin> set (entry_filename e)"
  by (simp add: manual_clear_filename_def entry_filename_def)

lemma flat_names_calls [valid_rules]:
  "keeps flat_names (sys_create env n)"
  "keeps flat_names (sys_remove_file env n)"
  "keeps flat_names (sys_open_dir env)"
  "keeps flat_names (sys_sync_dir env)"
  "keeps flat_names (sys_sync_file env n)"
  by (auto simp: sys_defs flat_simps intro!: valid_syscall
      split: if_splits option.splits simp del: map_of_eq_Some_iff)

lemma flat_names_fsync [valid_rules]: "keeps flat_names (fsync_dir env J)"
  unfolding fsync_dir_def by (intro valid_rules)

lemma flat_names_rename:
  assumes "CHR ''/'' \<notin> set n \<Longrightarrow> CHR ''/'' \<notin> set n'"
  shows "keeps flat_names (sys_rename env n n')"
proof -
  have "CHR ''/'' \<notin> set n'" if "map_of (fs_files s) n = Some ino" "flat_names s" for s ino
    using that assms by (auto simp: flat_names_def simp del: map_of_eq_Some_iff)
  then show ?thesis
    unfolding sys_rename_def
    by (intro valid_syscall)
      (auto simp: flat_simps split: option.splits if_splits simp del: map_of_eq_Some_iff)
qed

lemma flat_names_write_tmp: "keeps flat_names (write_tmp env C J e tmp)"
proof -
  let ?P = "\<lambda>s. flat_names s \<and> CHR ''/'' \<notin> set tmp"
  have create: "valid flat_names (sys_create env tmp) (\<lambda>_. ?P) (\<lambda>_. flat_names)"
    unfolding sys_create_def
    by (rule valid_syscall) (auto simp: flat_simps split: if_splits)
  have w: "valid ?P (sys_write_buffered env tmp b) (\<lambda>_. ?P) (\<lambda>_. flat_names)"
    "valid ?P (sys_flush env tmp b) (\<lambda>_. ?P) (\<lambda>_. flat_names)" for b
    unfolding sys_write_buffered_def sys_flush_def
    by (rule valid_syscall; auto simp: flat_simps split: if_splits)+
  have y: "valid ?P (sys_sync_file env tmp) (\<lambda>_. flat_names) (\<lambda>_. flat_names)"
    by (rule valid_weaken [OF flat_names_calls(5)]) auto
  show ?thesis
    unfolding write_tmp_def
    by (rule valid_bindE [OF valid_map_err [OF create]], rule valid_bindE [OF valid_map_err [OF w(1)]],
        rule valid_bindE [OF valid_map_err [OF w(1)]], rule valid_bindE [OF valid_map_err [OF w(2)]],
        rule valid_map_err [OF y])
qed

lemma flat_names_atomic_write: "keeps flat_names (atomic_write env C J e)"
proof -
  have clock: "keeps flat_names (read_clock env)"
    by (rule validI) (auto simp: read_clock_def split: option.splits)
  have "keeps flat_names (rename_tmp env J (tmp_name e nanos) (entry_filename e))" for nanos
    unfolding rename_tmp_def
    by (rule keeps_attempt [OF flat_names_rename]) (auto simp: tmp_name_def intro!: valid_rules split: sum.split)
  then show ?thesis
    unfolding atomic_write_def
    by (intro keeps_bindE clock flat_names_write_tmp flat_names_fsync)
qed

lemma flat_names_ops:
  "keeps flat_names (bump_attempt env C J e)"
  "keeps flat_names (journal_remove env J e)"
  "keeps flat_names (move_to_manual_clear env J e)"
proof -
  show "keeps flat_names (bump_attempt env C J e)"
    unfolding bump_attempt_def Let_def by (intro keeps_bindE flat_names_atomic_write valid_ret)
  show "keeps flat_names (journal_remove env J e)"
    unfolding journal_remove_def
    by (rule keeps_attempt [OF flat_names_calls(2)])
      (auto split: sum.split io_error.split intro!: valid_rules simp del: ret_app)
  show "keeps flat_names (move_to_manual_clear env J e)"
    unfolding move_to_manual_clear_def
    by (intro keeps_bindE keeps_map_err flat_names_rename flat_names_fsync)
      (simp add: manual_clear_no_slash)
qed

lemma store_inv_flat: "store_inv C s \<longleftrightarrow> codec_ok C \<and> well_named C s \<and> flat_names s"
  by (auto simp: store_inv_def flat_names_def)

lemma flat_names_enqueue: "keeps flat_names (enqueue env C J e)"
proof -
  have list: "keeps flat_names (list_sorted env C J)"
    by (rule validI) (use list_sorted_sound in \<open>fastforce simp: flat_names_def fs_wf_def\<close>)+
  have prune: "keeps flat_names (remove_dominated env J e olds replaced)" for olds replaced
  proof (induction olds arbitrary: replaced)
    case (Cons old olds)
    have "keeps flat_names (attempt (sys_remove_file env (entry_filename old)) (\<lambda>r. case r of
             Inr _ \<Rightarrow> remove_dominated env J e olds True
           | Inl NotFound \<Rightarrow> remove_dominated env J e olds replaced
           | Inl err \<Rightarrow> throw (Io (in_root J (entry_filename old)) err)))"
      by (rule keeps_attempt [OF flat_names_calls(2)])
        (auto split: sum.split io_error.split intro!: Cons.IH valid_throw)
    then show ?case using Cons.IH by simp
  qed (simp add: valid_ret)
  show ?thesis
    unfolding enqueue_def Let_def
    by (intro keeps_bindE keeps_if list prune flat_names_fsync flat_names_atomic_write valid_ret)
qed

lemma enqueue_store_inv:
  assumes "store_inv C s" "enqueue env C J e s = (r, s')"
  shows "store_inv C s'"
  using assms enqueue_well_named [OF assms(2)] keeps_run [OF flat_names_enqueue _ assms(2)]
  by (simp add: store_inv_flat)

lemma well_named_upd:
  assumes "well_named C s"
    and "jmap C s' = jmap C s \<or> jmap C s' = (jmap C s)(entry_filename e := None) \<or>
         jmap C s' = (jmap C s)(entry_filename e \<mapsto> e)"
  shows "well_named C s'"
  using assms by (auto simp: well_named_def split: if_splits)

lemma pruned_single:
  "pruned {n} (content s) s' \<Longrightarrow> jmap C s' = jmap C s \<or> jmap C s' = (jmap C s)(n := None)"
  by (auto simp: pruned_def subset_singleton_iff jmap_jview without_insert)

lemma distinct_subseq: "distinct ys \<Longrightarrow> subseq xs ys \<Longrightarrow> distinct xs"
  by (metis distinct_nthsI subseq_conv_nths)

lemma store_listing:
  assumes "store_inv C s" "list_sorted env C J s = (r, s')"
  shows "store_inv C s' \<and> jmap C s' = jmap C s \<and>
    (\<forall>es. r = Inr es \<longrightarrow> distinct (map entry_filename es) \<and>
       (\<forall>e \<in> set es. jmap C s (entry_filename e) = Some e))"
proof -
  have same: "same_files s s'" and sub: "\<And>es. r = Inr es \<Longrightarrow> subseq es (listed C s)"
    using list_sorted_sound [OF assms(2)] by auto
  have inv: "fs_wf s" "well_named C s" using assms(1) by (simp_all add: store_inv_def)
  have "sorted_wrt (<) (map entry_filename (listed C s))"
    using listed_sorted [OF inv] by (simp add: sorted_wrt_map)
  then have "distinct (map entry_filename (listed C s))" by (simp add: strict_sorted_iff)
  then have "distinct (map entry_filename es)" if "r = Inr es" for es
    using subseq_map [OF sub [OF that], of entry_filename] by (rule distinct_subseq)
  moreover have "jmap C s (entry_filename e) = Some e" if "r = Inr es" "e \<in> set es" for e es
    using listed_subseq_ran [OF sub [OF that(1)] that(2)] inv(2) by (auto simp: ran_def well_named_def)
  moreover have j: "jmap C s' = jmap C s" using same_files_views(2) [OF same] .
  moreover have "store_inv C s'"
    using assms(1) same j by (auto simp: store_inv_def fs_wf_def well_named_def)
  ultimately show ?thesis by blast
qed

lemma store_drop:
  assumes "store_inv C s" "m s = (r, s')" "keeps flat_names m"
    and "valid (deferred_are (content s)) m
      (\<lambda>_. deferred_are ((content s)(entry_filename e := None))) (\<lambda>_. pruned {entry_filename e} (content s))"
  shows "store_inv C s' \<and> (jmap C s' = jmap C s \<or> jmap C s' = (jmap C s)(entry_filename e := None)) \<and>
    (r = Inr () \<longrightarrow> jmap C s' = (jmap C s)(entry_filename e := None))"
proof -
  have inv: "codec_ok C" "well_named C s" "flat_names s" using assms(1) by (simp_all add: store_inv_flat)
  have ok: "jmap C s' = (jmap C s)(entry_filename e := None)" if "r = Inr u" for u
    using validD_Inr [OF assms(4) deferred_are_self assms(2) [unfolded that]]
    by (simp add: jmap_jview)
  have err: "jmap C s' = jmap C s \<or> jmap C s' = (jmap C s)(entry_filename e := None)" if "r = Inl x" for x
    using validD_Inl [OF assms(4) deferred_are_self assms(2) [unfolded that]] by (rule pruned_single)
  have "jmap C s' = jmap C s \<or> jmap C s' = (jmap C s)(entry_filename e := None)"
    using ok err by (cases r) auto
  moreover from this have "well_named C s'" using well_named_upd [OF inv(2)] by blast
  ultimately show ?thesis
    using ok inv keeps_run [OF assms(3) inv(3) assms(2)] by (auto simp: store_inv_flat)
qed

lemma store_bump:
  assumes "store_inv C s" "bump_attempt env C J e s = (r, s')"
  shows "store_inv C s' \<and>
    (jmap C s' = jmap C s \<or> jmap C s' = (jmap C s)(entry_filename e \<mapsto> bumped e)) \<and>
    (\<forall>x. r = Inr x \<longrightarrow> x = bumped e \<and> jmap C s' = (jmap C s)(entry_filename e \<mapsto> bumped e))"
proof -
  have inv: "codec_ok C" "well_named C s" "flat_names s" using assms(1) by (simp_all add: store_inv_flat)
  obtain r1 where w: "atomic_write env C J (bumped e) s = (r1, s')"
    and r: "r = (case r1 of Inl x \<Rightarrow> Inl x | Inr _ \<Rightarrow> Inr (bumped e))"
    using assms(2) by (cases "atomic_write env C J (bumped e) s")
      (auto simp: bump_attempt_def Let_def bumped_def [symmetric] bindE_def split: sum.splits)
  note spec = atomic_write_spec [of "content s" env C J "bumped e", unfolded bumped_filename]
  have upd: "jmap C s' = (jmap C s)(entry_filename e \<mapsto> bumped e)"
    if "deferred_are ((content s)(entry_filename e \<mapsto> entry_to_bytes C (bumped e))) s'"
    using jview_upd [OF inv(1), of "content s" "bumped e"] by (simp add: jmap_jview [OF that])
  have cases: "jmap C s' = jmap C s \<or> jmap C s' = (jmap C s)(entry_filename e \<mapsto> bumped e)"
    and ok: "\<And>u. r1 = Inr u \<Longrightarrow> jmap C s' = (jmap C s)(entry_filename e \<mapsto> bumped e)"
  proof -
    show ok: "jmap C s' = (jmap C s)(entry_filename e \<mapsto> bumped e)" if "r1 = Inr u" for u
      using validD_Inr [OF spec deferred_are_self w [unfolded that]] upd by blast
    show "jmap C s' = jmap C s \<or> jmap C s' = (jmap C s)(entry_filename e \<mapsto> bumped e)"
    proof (cases r1)
      case (Inl x)
      then have "written (content s) (entry_filename e) (entry_to_bytes C (bumped e)) s'"
        using validD_Inl [OF spec deferred_are_self] w by blast
      then show ?thesis using upd by (auto simp: written_def jmap_jview)
    qed (use ok in auto)
  qed
  have "well_named C s'"
    using well_named_upd [OF inv(2), of s' "bumped e"] cases by auto
  then show ?thesis
    using inv cases ok r keeps_run [OF flat_names_atomic_write inv(3) w]
    by (auto simp: store_inv_flat split: sum.splits)
qed

interpretation journal_store: defer_store "jmap C" "store_inv C" "list_sorted env C J"
  "journal_remove env J" "bump_attempt env C J" "move_to_manual_clear env J" for env C J
proof unfold_locales
  fix s r s' assume "store_inv C s" "list_sorted env C J s = (r, s')"
  then show "store_inv C s' \<and> jmap C s' = jmap C s \<and>
    (\<forall>es. r = Inr es \<longrightarrow> distinct (map entry_filename es) \<and>
       (\<forall>e \<in> set es. jmap C s (entry_filename e) = Some e))" by (rule store_listing)
next
  fix s e r s' assume "store_inv C s" "journal_remove env J e s = (r, s')"
  then show "store_inv C s' \<and> (jmap C s' = jmap C s \<or> jmap C s' = (jmap C s)(entry_filename e := None)) \<and>
    (r = Inr () \<longrightarrow> jmap C s' = (jmap C s)(entry_filename e := None))"
    by (rule store_drop [OF _ _ flat_names_ops(2) journal_remove_spec])
next
  fix s e r s' assume "store_inv C s" "bump_attempt env C J e s = (r, s')"
  then show "store_inv C s' \<and>
    (jmap C s' = jmap C s \<or> jmap C s' = (jmap C s)(entry_filename e \<mapsto> bumped e)) \<and>
    (\<forall>x. r = Inr x \<longrightarrow> x = bumped e \<and> jmap C s' = (jmap C s)(entry_filename e \<mapsto> bumped e))"
    by (rule store_bump)
next
  fix s e r s' assume "store_inv C s" "move_to_manual_clear env J e s = (r, s')"
  then show "store_inv C s' \<and> (jmap C s' = jmap C s \<or> jmap C s' = (jmap C s)(entry_filename e := None)) \<and>
    (r = Inr () \<longrightarrow> jmap C s' = (jmap C s)(entry_filename e := None))"
    by (rule store_drop [OF _ _ flat_names_ops(3) move_to_manual_clear_spec])
qed

lemma jmap_file: "jmap C s n = Some x \<Longrightarrow> \<exists>ino. map_of (fs_files s) n = Some ino"
  by (cases "map_of (fs_files s) n") (auto simp: jmap_def content_def split: if_splits)

interpretation journal_live: live_store "jmap C" "store_inv C" "list_sorted env C J"
  "journal_remove env J" "bump_attempt env C J" "move_to_manual_clear env J" "quiet env" for env C J
proof unfold_locales
  fix s assume "quiet env" "store_inv C s"
  then show "\<exists>es s'. list_sorted env C J s = (Inr es, s') \<and> set es = ran (jmap C s)"
    using list_sorted_ok [OF quiet_reads, of env C J s] set_listed by blast
next
  fix s e x assume *: "quiet env" "store_inv C s" "jmap C s (entry_filename e) = Some x"
  then obtain ino where "map_of (fs_files s) (entry_filename e) = Some ino" using jmap_file by blast
  then obtain t where "sys_remove_file env (entry_filename e) s = (Inr (), t)"
    using quiet_calls(8) [OF *(1), of "entry_filename e" s] by (auto simp: prod_eq_iff)
  then show "\<exists>s'. journal_remove env J e s = (Inr (), s')"
    using fsync_dir_ok [OF *(1), of J t]
    by (cases "fsync_dir env J t") (auto simp: journal_remove_def attempt_def)
next
  fix s e x assume *: "quiet env" "store_inv C s" "jmap C s (entry_filename e) = Some x"
  then have "CHR ''/'' \<notin> set (entry_filename e)" using jmap_file by (auto simp: store_inv_def dest!: jmap_file)
  then have "fst (atomic_write env C J (bumped e) s) = Inr ()" using *(1) by (intro atomic_write_ok) simp_all
  then show "\<exists>y s'. bump_attempt env C J e s = (Inr y, s')"
    by (cases "atomic_write env C J (bumped e) s")
      (auto simp: bump_attempt_def Let_def bumped_def [symmetric] bindE_def)
next
  fix s e x assume *: "quiet env" "store_inv C s" "jmap C s (entry_filename e) = Some x"
  then obtain ino where "map_of (fs_files s) (entry_filename e) = Some ino" using jmap_file by blast
  then have "fst (sys_rename env (entry_filename e) (manual_clear_filename e) s) = Inr ()"
    using quiet_calls(7) [OF *(1)] by simp
  then show "\<exists>s'. move_to_manual_clear env J e s = (Inr (), s')"
    using fsync_dir_ok [OF *(1)]
    by (simp add: move_to_manual_clear_def fst_bindE fst_map_err prod_eq_iff)
qed

section \<open>Properties of a cycle\<close>

text \<open>The report: every counter is the number of entries with its verdict, up to saturation.\<close>

fun counter :: "verdict \<Rightarrow> ReplayReport \<Rightarrow> u32" where
  "counter Executed = executed"
| "counter Skipped = skipped_unavailable"
| "counter Failed = failed"
| "counter HealthFailed = health_check_failed"
| "counter Promoted = promoted_to_manual_clear"
| "counter Kept = (\<lambda>_. 0)"

lemmas add_defs = add_executed_def add_skipped_def add_failed_def add_promoted_def add_hc_failed_def

lemma counter_add:
  "v \<noteq> Kept \<Longrightarrow> counter v (add_verdict v' r) =
     (if v' = v then saturating_add (counter v r) 1 else counter v r)"
  by (cases v; cases v') (simp_all add: add_defs)

lemma counter_fold:
  assumes "v \<noteq> Kept"
  shows "unat (counter v (fold (\<lambda>e. add_verdict (f e)) es r)) =
    min (unat (counter v r) + length (filter (\<lambda>e. f e = v) es)) (2 ^ 32 - 1)"
proof (induction es arbitrary: r)
  case Nil
  have "unat (counter v r) < 2 ^ 32" using unsigned_less [of "counter v r"] by simp
  then show ?case by simp
next
  case (Cons e es)
  show ?case
    using Cons.IH [of "add_verdict (f e) r"] counter_add [OF assms, of "f e" r]
    by (auto simp: unat_saturating_add)
qed

lemma counter_default: "unat (counter v report_default) = 0"
  by (cases v) (simp_all add: report_default_def)

lemma replay_run:
  assumes "quiet env" "store_inv C s"
    and "\<And>e w. fst (client e w) = d e" "\<And>c w. fst (runner c w) = h c"
  shows "\<exists>es s' w'. replay_with_health_check env C J client runner (\<lambda>_. False) (s, w) =
      (Inr (fold (\<lambda>e. add_verdict (verdict_of d h e)) es report_default), s', w') \<and>
    store_inv C s' \<and> set es = ran (jmap C s) \<and> distinct es \<and>
    jmap C s' = (\<lambda>n. Option.bind (jmap C s n) (\<lambda>e. entry_after (verdict_of d h e) e))"
proof -
  obtain es s1 where l: "list_sorted env C J s = (Inr es, s1)" "set es = ran (jmap C s)"
    using journal_live.listing_live [OF assms(1,2)] by blast
  note law = journal_store.listing_law [OF assms(2) l(1)]
  have es: "distinct (map entry_filename es)" "\<forall>e \<in> set es. jmap C s1 (entry_filename e) = Some e"
    "store_inv C s1" "jmap C s1 = jmap C s" using law by auto
  obtain s' w' where run: "replay_loop (journal_remove env J) (bump_attempt env C J)
        (move_to_manual_clear env J) client runner (\<lambda>_. False) es report_default (s1, w) =
      (Inr (fold (\<lambda>e. add_verdict (verdict_of d h e)) es report_default), s', w')" "store_inv C s'"
    "\<forall>n. jmap C s' n = (if n \<in> entry_filename ` set es
       then Option.bind (jmap C s1 n) (\<lambda>e. entry_after (verdict_of d h e) e) else jmap C s1 n)"
    using journal_live.replay_loop_live [where client = client and runner = runner and d = d and h = h,
        OF assms(1) es(3,1,2) assms(3,4)] by blast
  have "n \<in> entry_filename ` set es" if "jmap C s n = Some e" for n e
    using that assms(2) l(2) by (auto simp: store_inv_def well_named_def ran_def)
  then have "jmap C s' n = Option.bind (jmap C s n) (\<lambda>e. entry_after (verdict_of d h e) e)" for n
    using run(3) es(4) by (cases "jmap C s n") auto
  then have "jmap C s' = (\<lambda>n. Option.bind (jmap C s n) (\<lambda>e. entry_after (verdict_of d h e) e))" by blast
  moreover have "replay_with_health_check env C J client runner (\<lambda>_. False) (s, w) =
      (Inr (fold (\<lambda>e. add_verdict (verdict_of d h e)) es report_default), s', w')"
    using l(1) run(1) by (simp add: replay_with_health_check_def bindE_def on_store_def)
  ultimately show ?thesis using run(2) l(2) es(1) by (auto simp: distinct_map)
qed

text \<open>
  C3. A replay cycle, with a journal that works and clients whose answer depends on the entry:
  it returns a report, it removes the executed entries and those whose attempts are used up,
  counts one more attempt for the other failures (of the action and of the health check alike),
  leaves the entries of an unavailable client and of a cancelled health check untouched, and
  each counter of the report is the number of entries that met that fate (saturating at the
  32-bit maximum).
\<close>

theorem replay_cycle:
  assumes "quiet env" "store_inv C s"
    and "\<And>e w. fst (client e w) = d e" "\<And>c w. fst (runner c w) = h c"
  shows "\<exists>report s' w'. replay_with_health_check env C J client runner (\<lambda>_. False) (s, w) = (Inr report, s', w') \<and>
    store_inv C s' \<and>
    jmap C s' = (\<lambda>n. Option.bind (jmap C s n) (\<lambda>e. entry_after (verdict_of d h e) e)) \<and>
    (\<forall>v. v \<noteq> Kept \<longrightarrow> unat (counter v report) =
       min (card {e \<in> ran (jmap C s). verdict_of d h e = v}) (2 ^ 32 - 1))"
proof -
  obtain es s' w' where run: "replay_with_health_check env C J client runner (\<lambda>_. False) (s, w) =
      (Inr (fold (\<lambda>e. add_verdict (verdict_of d h e)) es report_default), s', w')"
    and es: "store_inv C s'" "set es = ran (jmap C s)" "distinct es"
    and j: "jmap C s' = (\<lambda>n. Option.bind (jmap C s n) (\<lambda>e. entry_after (verdict_of d h e) e))"
    using replay_run [where client = client and runner = runner and d = d and h = h, OF assms] by blast
  have "length (filter (\<lambda>e. verdict_of d h e = v) es) = card {e \<in> ran (jmap C s). verdict_of d h e = v}" for v
    using es(2,3) distinct_card [of "filter (\<lambda>e. verdict_of d h e = v) es"] by simp
  then show ?thesis
    using run es(1) j counter_fold [of _ "verdict_of d h" es report_default] counter_default by auto
qed

lemma replay_causes:
  assumes "store_inv C s"
    and "replay_with_health_check env C J client runner cancelled (s, w) = (r, s', w')"
  shows "store_inv C s' \<and> (\<forall>n. jmap C s' n = jmap C s n \<or>
    (\<exists>e v. jmap C s n = Some e \<and> (e, v) \<in> set (replay_calls env C J client runner cancelled (s, w)) \<and>
      (counts_at client runner e v \<and> jmap C s' n = Some (bumped e) \<or> drops_at client runner e v \<and> jmap C s' n = None)))"
proof -
  obtain rl s1 where l: "list_sorted env C J s = (rl, s1)" by fastforce
  note law = journal_store.listing_law [OF assms(1) l]
  show ?thesis
  proof (cases rl)
    case (Inl x)
    then show ?thesis
      using assms(2) l law by (auto simp: replay_with_health_check_def bindE_def on_store_def)
  next
    case (Inr es)
    then have run: "replay_loop (journal_remove env J) (bump_attempt env C J)
        (move_to_manual_clear env J) client runner cancelled es report_default (s1, w) = (r, s', w')"
      using assms(2) l by (simp add: replay_with_health_check_def bindE_def on_store_def)
    have es: "distinct (map entry_filename es)" "\<forall>e \<in> set es. jmap C s1 (entry_filename e) = Some e"
      "store_inv C s1" "jmap C s1 = jmap C s" using law Inr by auto
    have calls: "replay_calls env C J client runner cancelled (s, w) = loop_calls (journal_remove env J) (bump_attempt env C J)
        (move_to_manual_clear env J) client runner cancelled es report_default (s1, w)"
      using l Inr by (simp add: replay_calls_def)
    show ?thesis using journal_store.replay_loop_frame [OF es(3) run es(1,2)] es(2,4) unfolding calls by fastforce
  qed
qed

text \<open>
  C11. Whatever fails during a cycle (any call of the file system, at any point, and with any
  client, runner and cancellation), the journal stays well formed, no entry appears, and a pending
  entry changes only for a cause: an attempt more is counted only if the entry was dispatched in this cycle and
  its action or its health check failed, and it is gone only if it was dispatched in this cycle and the action
  and the health check went well or the failed attempt was the last one allowed.  An entry whose backend is unavailable is therefore left as it was.
\<close>

theorem replay_frame:
  assumes "store_inv C s"
    and "replay_with_health_check env C J client runner cancelled (s, w) = (r, s', w')"
  shows "store_inv C s' \<and> (\<forall>n. jmap C s' n = jmap C s n \<or>
    (\<exists>e v. jmap C s n = Some e \<and> (e, v) \<in> set (replay_calls env C J client runner cancelled (s, w)) \<and>
      (counts_at client runner e v \<and> jmap C s' n = Some (bumped e) \<or> drops_at client runner e v \<and> jmap C s' n = None)))"
  using replay_causes [OF assms] .

text \<open>Replay cycles in a row.\<close>

fun replay_cycles ::
  "nat \<Rightarrow> os_env \<Rightarrow> serde_codec \<Rightarrow> Journal \<Rightarrow> 'w dispatch_client \<Rightarrow> 'w health_check_runner \<Rightarrow>
   fs_state \<times> 'w \<Rightarrow> fs_state \<times> 'w" where
  "replay_cycles 0 env C J client runner sw = sw"
| "replay_cycles (Suc k) env C J client runner sw =
     replay_cycles k env C J client runner
       (snd (replay_with_health_check env C J client runner (\<lambda>_. False) sw))"

lemma unat_u32_less: "unat (x :: u32) < 2 ^ 32"
  by (rule order.strict_trans2 [OF unsigned_less]) simp

lemma exhausted_unat: "exhausted e \<longleftrightarrow> unat (entry_max_attempts e) \<le> unat (entry_attempt_count e) + 1"
proof -
  have "unat (entry_max_attempts e) \<le> 2 ^ 32 - 1"
    using unat_u32_less [of "entry_max_attempts e"] by simp
  then show ?thesis
    by (simp add: exhausted_def word_le_nat_alt unat_saturating_add min_def)
qed

lemma bumped_unat:
  "\<not> exhausted e \<Longrightarrow> unat (entry_attempt_count (bumped e)) = Suc (unat (entry_attempt_count e))"
  using unat_u32_less [of "entry_max_attempts e"]
  by (simp add: exhausted_unat bumped_def unat_saturating_add)

text \<open>How many failing cycles an entry lives through before it is taken out.\<close>

definition failing_cycles :: "DeferEntry \<Rightarrow> nat" where
  "failing_cycles e = max 1 (unat (entry_max_attempts e) - unat (entry_attempt_count e))"

lemma failing_cycles_bumped:
  "\<not> exhausted e \<Longrightarrow> failing_cycles e = Suc (failing_cycles (bumped e))"
  using bumped_unat [of e] by (auto simp: failing_cycles_def exhausted_unat bumped_def)

lemma failing_cycles_exhausted: "exhausted e \<Longrightarrow> failing_cycles e = 1"
  by (simp add: failing_cycles_def exhausted_unat)

text \<open>
  C4. Retries end: an entry whose action always fails is attempted once per cycle and is taken out
  of the queue after exactly \<open>max(1, max_attempts - attempt_count)\<close> cycles; before that it is
  pending with one more attempt counted for every cycle.
\<close>

theorem replay_gives_up:
  assumes "quiet env" "store_inv C s" "jmap C s n = Some e"
    and "\<And>x w. fst (client x w) = d x" "\<And>c w. fst (runner c w) = h c"
    and "\<And>x. entry_id x = entry_id e \<Longrightarrow> \<exists>msg. d x = Inl (ActionFailed msg)"
  shows "jmap C (fst (replay_cycles k env C J client runner (s, w))) n =
    (if k < failing_cycles e then Some ((bumped ^^ k) e) else None) \<and>
    (k < failing_cycles e \<longrightarrow>
       unat (entry_attempt_count ((bumped ^^ k) e)) = unat (entry_attempt_count e) + k)"
  using assms(2,3,6)
proof (induction k arbitrary: s e w)
  case 0
  then show ?case by (simp add: failing_cycles_def)
next
  case (Suc k)
  obtain es s' w' where run: "replay_with_health_check env C J client runner (\<lambda>_. False) (s, w) =
      (Inr (fold (\<lambda>e. add_verdict (verdict_of d h e)) es report_default), s', w')" "store_inv C s'"
    and j: "jmap C s' = (\<lambda>n. Option.bind (jmap C s n) (\<lambda>e. entry_after (verdict_of d h e) e))"
    using replay_run [where client = client and runner = runner and d = d and h = h,
        OF assms(1) Suc.prems(1) assms(4,5)] by blast
  obtain msg where d: "d e = Inl (ActionFailed msg)" using Suc.prems(3) by blast
  have gone: "jmap C (fst (replay_cycles m env C J client runner (t, v))) n = None"
    if "store_inv C t" "jmap C t n = None" for m t v
    using that
  proof (induction m arbitrary: t v)
    case (Suc m)
    obtain es t' v' where r: "replay_with_health_check env C J client runner (\<lambda>_. False) (t, v) =
        (Inr (fold (\<lambda>e. add_verdict (verdict_of d h e)) es report_default), t', v')" "store_inv C t'"
      and "jmap C t' = (\<lambda>n. Option.bind (jmap C t n) (\<lambda>e. entry_after (verdict_of d h e) e))"
      using replay_run [where client = client and runner = runner and d = d and h = h,
          OF assms(1) Suc.prems(1) assms(4,5)] by blast
    then show ?case using Suc.IH [OF r(2)] Suc.prems(2) r(1) by simp
  qed simp
  show ?case
  proof (cases "exhausted e")
    case True
    then have "jmap C s' n = None" using j d Suc.prems(2) by (simp add: verdict_of_def)
    then show ?thesis using gone [OF run(2)] run(1) failing_cycles_exhausted [OF True] by simp
  next
    case False
    then have next_: "jmap C s' n = Some (bumped e)" using j d Suc.prems(2) by (simp add: verdict_of_def)
    have id: "entry_id (bumped e) = entry_id e" by (simp add: bumped_def)
    show ?thesis
      using Suc.IH [OF run(2) next_, unfolded id, OF Suc.prems(3)] run(1)
        failing_cycles_bumped [OF False] bumped_unat [OF False]
      by (simp add: funpow_swap1)
  qed
qed

section \<open>Sample runs\<close>

lemma store_inv_sample [simp]: "store_inv sample_codec (fs_of sample_codec [nginx Restart])"
  using well_named_fs_of [OF sample_codec_ok, of "[nginx Restart]"]
  by (simp add: store_inv_def fs_wf_def flat_dir_def) (simp add: fs_of_def)

definition broken_client :: "unit dispatch_client" where
  "broken_client entry = throw (ActionFailed ''boom'')"

lemma broken_client_fst: "fst (broken_client e w) = Inl (ActionFailed ''boom'')"
  "fst (NoopHealthCheckRunner c w) = Inr ()"
  by (simp_all add: broken_client_def NoopHealthCheckRunner_def)

theorem replay_cycle_witness:
  "\<exists>report s' w'. replay_with_health_check quiet_env sample_codec sample_journal broken_client
      NoopHealthCheckRunner (\<lambda>_. False) (fs_of sample_codec [nginx Restart], ()) = (Inr report, s', w') \<and>
    jmap sample_codec s' (entry_filename (nginx Restart)) = Some (bumped (nginx Restart))"
proof -
  have "\<not> exhausted (nginx Restart)" by (simp add: exhausted_unat sample_entry_def)
  then have "verdict_of (\<lambda>_. Inl (ActionFailed ''boom'')) (\<lambda>_. Inr ()) (nginx Restart) = Failed"
    by (simp add: verdict_of_def)
  then show ?thesis
    using replay_cycle [where client = broken_client and runner = NoopHealthCheckRunner and
        d = "\<lambda>_. Inl (ActionFailed ''boom'')" and h = "\<lambda>_. Inr ()" and env = quiet_env and
        C = sample_codec and s = "fs_of sample_codec [nginx Restart]" and J = sample_journal and w = "()",
        OF _ _ broken_client_fst]
    by auto
qed

theorem replay_frame_witness:
  "store_inv sample_codec (fst (snd (replay_with_health_check quiet_env sample_codec sample_journal
     broken_client NoopHealthCheckRunner (\<lambda>_. False) (fs_of sample_codec [nginx Restart], ()))))"
proof -
  obtain r s' w' where "replay_with_health_check quiet_env sample_codec sample_journal
     broken_client NoopHealthCheckRunner (\<lambda>_. False) (fs_of sample_codec [nginx Restart], ()) = (r, s', w')"
    by (metis prod.exhaust)
  then show ?thesis using replay_frame [OF store_inv_sample] by fastforce
qed

theorem replay_gives_up_witness:
  "jmap sample_codec (fst (replay_cycles 3 quiet_env sample_codec sample_journal broken_client
     NoopHealthCheckRunner (fs_of sample_codec [nginx Restart], ()))) (entry_filename (nginx Restart)) = None"
proof -
  have "failing_cycles (nginx Restart) = 3" by (simp add: failing_cycles_def sample_entry_def)
  then show ?thesis
    using replay_gives_up [where client = broken_client and runner = NoopHealthCheckRunner and
        d = "\<lambda>_. Inl (ActionFailed ''boom'')" and h = "\<lambda>_. Inr ()" and env = quiet_env and
        C = sample_codec and s = "fs_of sample_codec [nginx Restart]" and J = sample_journal and w = "()" and
        k = 3 and n = "entry_filename (nginx Restart)" and e = "nginx Restart", OF _ _ _ broken_client_fst]
    by simp
qed

end
