(* ===== verification/Pacer.thy ===== *)
theory Pacer
  imports Bosun_Prelude
begin

text \<open>
  \<open>bosun-core/src/pacer.rs\<close> and \<open>cancellable_sleep\<close> of \<open>health_check.rs\<close>: spreading an apply run over
  time.  A \<open>Duration\<close> is its number of nanoseconds.  The thread's \<open>sleep\<close> is a parameter over the
  world that returns by how much it overslept (the standard library promises that it never returns
  early), and the cancellation token is read from the world.
\<close>

section \<open>The pause between resources\<close>

type_synonym duration = nat

record PacerConfig =
  target :: duration
  min_interval :: duration
  max_interval :: duration

definition pacer_disabled :: PacerConfig where
  "pacer_disabled = \<lparr>target = 0, min_interval = 0, max_interval = 0\<rparr>"

definition pacer_new :: "u32 \<Rightarrow> u32 \<Rightarrow> u32 \<Rightarrow> PacerConfig" where
  "pacer_new target_sec min_interval_ms max_interval_ms =
     \<lparr>target = unat target_sec * 1000000000, min_interval = unat min_interval_ms * 1000000,
      max_interval = unat max_interval_ms * 1000000\<rparr>"

definition is_enabled :: "PacerConfig \<Rightarrow> bool" where
  "is_enabled p \<longleftrightarrow> target p \<noteq> 0"

definition interval_for :: "PacerConfig \<Rightarrow> nat \<Rightarrow> duration" where
  "interval_for p resource_count =
     (if \<not> is_enabled p \<or> resource_count = 0 then 0
      else let n = (if resource_count < 2 ^ 32 then resource_count else 2 ^ 32 - 1);
               raw = target p div n;
               (lo, hi) = (if min_interval p > max_interval p then (min_interval p, min_interval p)
                           else (min_interval p, max_interval p))
           in max lo (min raw hi))"



section \<open>Sleeping with a token\<close>

definition POLL :: duration where
  "POLL = 50000000"

function cancellable_sleep_loop ::
  "('w \<Rightarrow> bool) \<Rightarrow> (duration \<Rightarrow> 'w \<Rightarrow> duration \<times> 'w) \<Rightarrow> duration \<Rightarrow> duration \<Rightarrow> 'w \<Rightarrow> bool \<times> 'w" where
  "cancellable_sleep_loop cancelled snooze whole elapsed w =
     (if elapsed < whole
      then if cancelled w then (False, w)
           else let step = min (whole - elapsed) POLL; (over, w') = snooze step w
                in cancellable_sleep_loop cancelled snooze whole (elapsed + step + over) w'
      else (\<not> cancelled w, w))"
  by pat_completeness auto
termination
  by (relation "measure (\<lambda>(cancelled, snooze, whole, elapsed, w). whole - elapsed)") (auto simp: POLL_def)

declare cancellable_sleep_loop.simps [simp del]

definition cancellable_sleep ::
  "('w \<Rightarrow> bool) \<Rightarrow> (duration \<Rightarrow> 'w \<Rightarrow> duration \<times> 'w) \<Rightarrow> duration \<Rightarrow> 'w \<Rightarrow> bool \<times> 'w" where
  "cancellable_sleep cancelled snooze whole w = cancellable_sleep_loop cancelled snooze whole 0 w"

lemma cancellable_sleep_loop_result:
  "cancellable_sleep_loop cancelled snooze whole elapsed w = (ok, w') \<Longrightarrow> ok \<longleftrightarrow> \<not> cancelled w'"
proof (induction cancelled snooze whole elapsed w rule: cancellable_sleep_loop.induct)
  case (1 cancelled snooze whole elapsed w)
  show ?case
  proof (cases "elapsed < whole \<and> \<not> cancelled w")
    case True
    let ?step = "min (whole - elapsed) POLL"
    obtain over v where v: "snooze ?step w = (over, v)" by fastforce
    then have "cancellable_sleep_loop cancelled snooze whole (elapsed + ?step + over) v = (ok, w')"
      using 1(2) True by (simp add: cancellable_sleep_loop.simps [of cancelled snooze whole elapsed w] Let_def)
    with 1(1) True v show ?thesis by auto
  next
    case False
    then show ?thesis
      using 1(2) by (auto simp: cancellable_sleep_loop.simps [of cancelled snooze whole elapsed w] split: if_splits)
  qed
qed

end
