(* ===== verification/Primitive.thy ===== *)
theory Primitive
  imports Resource_Registry Bosun_Json
begin

text \<open>
  \<open>bosun-core/src/primitive.rs\<close>, \<open>diff.rs\<close> and \<open>facts.rs\<close>: the contract between the orchestrator and
  a primitive.  The parts of \<open>ApplyCtx\<close> that change during a run (the changed resources, the published
  facts and the two daemon-reload flags) are the record \<open>ApplyCtx\<close>; the handles, runners and
  directories it also carries are parameters of the primitives that use them.  A mutex that
  another thread poisoned does not occur: an apply is single threaded.
\<close>

section \<open>Plans and reports\<close>

datatype Diff = NoChange | Add (diff_description: string) json | Update json json (diff_description: string)

definition is_no_change :: "Diff \<Rightarrow> bool" where
  "is_no_change d \<longleftrightarrow> (case d of NoChange \<Rightarrow> True | _ \<Rightarrow> False)"

record ChangeReport =
  cr_changed :: bool
  cr_message :: string
  cr_deferred :: bool

definition report_no_change :: ChangeReport where
  "report_no_change = \<lparr>cr_changed = False, cr_message = [], cr_deferred = False\<rparr>"

definition report_changed :: "string \<Rightarrow> ChangeReport" where
  "report_changed message = \<lparr>cr_changed = True, cr_message = message, cr_deferred = False\<rparr>"

definition report_deferred :: "string \<Rightarrow> ChangeReport" where
  "report_deferred message = \<lparr>cr_changed = False, cr_message = message, cr_deferred = True\<rparr>"

section \<open>Errors\<close>

datatype PrimitiveError =
    PeIo string string
  | InvalidPayload string
  | Exec string "int option" string
  | DpkgLocked "int option"
  | ChownNotPermitted string string
  | InvalidTarget
  | Cancelled
  | PePanic string string
  | PeApply string
  | RunrUnavailable string string
  | SystemdUnavailable string
  | Validation string string
  | HealthCheckFailed string string
  | DeferIo string string

definition is_deferrable :: "PrimitiveError \<Rightarrow> bool" where
  "is_deferrable e \<longleftrightarrow>
     (case e of DpkgLocked _ \<Rightarrow> True | RunrUnavailable _ _ \<Rightarrow> True | SystemdUnavailable _ \<Rightarrow> True | _ \<Rightarrow> False)"

text \<open>The \<open>Debug\<close> rendering of an \<open>Option<i32>\<close>.\<close>

definition show_int :: "int \<Rightarrow> string" where
  "show_int i = (if i < 0 then ''-'' @ show_nat (nat (- i)) else show_nat (nat i))"

definition debug_option_int :: "int option \<Rightarrow> string" where
  "debug_option_int x = (case x of None \<Rightarrow> ''None'' | Some i \<Rightarrow> ''Some('' @ show_int i @ '')'')"

definition show_primitive_error :: "PrimitiveError \<Rightarrow> string" where
  "show_primitive_error e =
     (case e of
        PeIo context source \<Rightarrow> ''io error in '' @ context
      | InvalidPayload msg \<Rightarrow> ''invalid resource payload: '' @ msg
      | Exec reason code stderr \<Rightarrow> ''external command failed: '' @ reason
      | DpkgLocked holder \<Rightarrow> ''dpkg locked, holder pid='' @ debug_option_int holder
      | ChownNotPermitted requested actual \<Rightarrow>
          ''chown not permitted: requested '' @ requested @ '', current '' @ actual
      | InvalidTarget \<Rightarrow> ''target is a symlink, refusing to write through it''
      | Cancelled \<Rightarrow> ''operation cancelled by deadline or signal''
      | PePanic context message \<Rightarrow> ''panicked in '' @ context @ '': '' @ message
      | PeApply reason \<Rightarrow> ''apply failed: '' @ reason
      | RunrUnavailable base_url reason \<Rightarrow> ''runr unavailable at '' @ base_url @ '': '' @ reason
      | SystemdUnavailable reason \<Rightarrow> ''systemd unavailable: '' @ reason
      | Validation validator stderr \<Rightarrow> ''validation by '' @ validator @ '' failed: '' @ stderr
      | HealthCheckFailed tgt reason \<Rightarrow> ''health check on '' @ tgt @ '' failed: '' @ reason
      | DeferIo path reason \<Rightarrow> ''defer journal i/o error at '' @ path @ '': '' @ reason)"

section \<open>The apply context\<close>

record ApplyCtx =
  changed_resources :: "ResourceId set"
  published_facts :: "string \<Rightarrow> json option"
  runr_daemon_reload_done :: bool
  systemd_daemon_reload_done :: bool

definition apply_ctx_build :: ApplyCtx where
  "apply_ctx_build = \<lparr>changed_resources = {}, published_facts = (\<lambda>_. None),
     runr_daemon_reload_done = False, systemd_daemon_reload_done = False\<rparr>"

definition record_changed :: "ResourceId \<Rightarrow> ApplyCtx \<Rightarrow> ApplyCtx" where
  "record_changed i ctx = ctx\<lparr>changed_resources := insert i (changed_resources ctx)\<rparr>"

definition is_changed :: "ApplyCtx \<Rightarrow> ResourceId \<Rightarrow> bool" where
  "is_changed ctx i \<longleftrightarrow> i \<in> changed_resources ctx"

definition publish_fact :: "string \<Rightarrow> json \<Rightarrow> ApplyCtx \<Rightarrow> ApplyCtx" where
  "publish_fact name v ctx = ctx\<lparr>published_facts := (published_facts ctx)(name \<mapsto> v)\<rparr>"

definition read_published_fact :: "ApplyCtx \<Rightarrow> string \<Rightarrow> json option" where
  "read_published_fact ctx name = published_facts ctx name"

section \<open>Facts\<close>

datatype FactValue = Known json | Unknown string | Stale json u64

definition fact_value :: "FactValue \<Rightarrow> json option" where
  "fact_value f = (case f of Known v \<Rightarrow> Some v | Stale v _ \<Rightarrow> Some v | Unknown _ \<Rightarrow> None)"

text \<open>\<open>OverlayFactsSource::get\<close> over an inner source.\<close>

definition overlay_get :: "(string \<Rightarrow> FactValue) \<Rightarrow> ApplyCtx \<Rightarrow> string \<Rightarrow> FactValue" where
  "overlay_get inner ctx name =
     (case published_facts ctx name of
        Some v \<Rightarrow> Known v
      | None \<Rightarrow> inner name)"

section \<open>Calling a primitive\<close>

text \<open>
  A call returns or unwinds.  \<open>call_primitive\<close> is the \<open>catch_unwind\<close> of the orchestrator: what the
  primitive did to the world before it panicked stays.
\<close>

datatype panic_payload = StaticStr string | OwnedString string | OtherPayload

datatype 'a unwind = Returned "PrimitiveError + 'a" | Panicked panic_payload

type_synonym ('w, 'a) prim_call = "'w \<Rightarrow> 'a unwind \<times> 'w"

definition panic_message :: "panic_payload \<Rightarrow> string" where
  "panic_message p =
     (case p of StaticStr s \<Rightarrow> s | OwnedString s \<Rightarrow> s | OtherPayload \<Rightarrow> ''<non-string panic payload>'')"

definition call_primitive :: "string \<Rightarrow> ('w, 'a) prim_call \<Rightarrow> ('w, PrimitiveError, 'a) prog" where
  "call_primitive context f = (\<lambda>w. case f w of
     (Returned r, w') \<Rightarrow> (r, w')
   | (Panicked p, w') \<Rightarrow> (Inl (PePanic context (panic_message p)), w'))"

text \<open>The world of an apply run: its context and the host (with the facts and the outside).\<close>

record 'h world =
  w_ctx :: ApplyCtx
  w_host :: 'h

record 'h primitive =
  prim_plan :: "Resource \<Rightarrow> ('h world, Diff) prim_call"
  prim_apply :: "Resource \<Rightarrow> Diff \<Rightarrow> ('h world, ChangeReport) prim_call"

section \<open>Laws of the context\<close>

lemma is_changed_record [simp]: "is_changed (record_changed i ctx) j \<longleftrightarrow> j = i \<or> is_changed ctx j"
  by (auto simp: is_changed_def record_changed_def)

text \<open>
  A published fact is what every later read sees, through the context and through the overlay,
  and a name that was not published falls through to the facts collected from the host.
\<close>

lemma published_fact_read:
  "read_published_fact (publish_fact name v ctx) k = (if k = name then Some v else read_published_fact ctx k) \<and>
   overlay_get inner (publish_fact name v ctx) k = (if k = name then Known v else overlay_get inner ctx k) \<and>
   overlay_get inner apply_ctx_build k = inner k"
  by (simp add: read_published_fact_def publish_fact_def overlay_get_def apply_ctx_build_def)

end
