(* ===== verification/Orchestrator.thy ===== *)
theory Orchestrator
  imports Primitive Pacer
begin

text \<open>
  \<open>bosun-core/src/orchestrator.rs\<close>: \<open>plan_only\<close> and \<open>apply\<close> over a registry and the primitives.

  Each branch of the loop of \<open>apply\<close> is written with the three things the source does in it by hand:
  the outcome it pushes, the counter it increments, and the bookkeeping of the aborted flag and
  the set of failed resources.  That these agree is a property, not a convention of the model.
  The order of the hash map iteration inside \<open>topological_order\<close> is the parameter \<open>ord\<close>; the callback
  \<open>mark_dirty\<close>, the thread's sleep and the cancellation token are parameters over the world.
\<close>

section \<open>Reports\<close>

record ApplyOpts =
  continue_on_error :: bool
  pacer :: PacerConfig

record ResourcePlan =
  rp_id :: ResourceId
  rp_kind :: ResourceKind
  rp_diff :: Diff
  rp_annotations :: "string list"

record PlanSummary =
  ps_add :: nat
  ps_update :: nat
  ps_no_change :: nat

record PlanFailure =
  pf_id :: ResourceId
  pf_kind :: ResourceKind
  pf_message :: string

record PlanReport =
  pr_resources :: "ResourcePlan list"
  pr_summary :: PlanSummary
  pr_errors :: "PlanFailure list"

definition has_drift :: "PlanReport \<Rightarrow> bool" where
  "has_drift r \<longleftrightarrow> ps_add (pr_summary r) > 0 \<or> ps_update (pr_summary r) > 0"

definition has_errors :: "PlanReport \<Rightarrow> bool" where
  "has_errors r \<longleftrightarrow> pr_errors r \<noteq> []"

datatype Outcome =
    OutNoChange
  | OutChanged
  | OutFailed string
  | OutSkipped
  | OutDeferred string
  | OutInterrupted string

record ResourceApplyOutcome =
  ro_id :: ResourceId
  ro_kind :: ResourceKind
  ro_outcome :: Outcome
  ro_message :: string

record ApplySummary =
  as_changed :: nat
  as_no_change :: nat
  as_failed :: nat
  as_skipped :: nat
  as_deferred :: nat
  as_interrupted :: nat

record ApplyReport =
  ar_resources :: "ResourceApplyOutcome list"
  ar_summary :: ApplySummary

definition has_failures :: "ApplyReport \<Rightarrow> bool" where
  "has_failures r \<longleftrightarrow> as_failed (ar_summary r) > 0"

definition has_interruptions :: "ApplyReport \<Rightarrow> bool" where
  "has_interruptions r \<longleftrightarrow> as_interrupted (ar_summary r) > 0"

type_synonym 'h primitives = "ResourceKind \<Rightarrow> 'h primitive option"

section \<open>Planning\<close>

text \<open>The body of the loop of \<open>plan_only\<close>.\<close>

definition plan_step ::
  "'h primitives \<Rightarrow> Registry \<Rightarrow> ResourceId \<Rightarrow> PlanReport \<Rightarrow> 'h world \<Rightarrow> PlanReport \<times> 'h world" where
  "plan_step primitives registry i rep w =
     (let failure = (\<lambda>kind message. rep\<lparr>pr_errors := pr_errors rep @ [\<lparr>pf_id = i, pf_kind = kind, pf_message = message\<rparr>]\<rparr>)
      in case registry_get registry i of
           None \<Rightarrow> (failure ''unknown'' ''resource missing from registry during topo iteration'', w)
         | Some resource \<Rightarrow>
             (let kind = res_kind resource
              in case primitives kind of
                   None \<Rightarrow> (failure kind (''no primitive registered for kind '' @ [CHR 0x27] @ kind @ [CHR 0x27]), w)
                 | Some primitive \<Rightarrow>
                     (case call_primitive (''plan '' @ res_id resource) (prim_plan primitive resource) w of
                        (Inr diff, w') \<Rightarrow>
                          (let summary = pr_summary rep;
                               summary' = (case diff of
                                   NoChange \<Rightarrow> summary\<lparr>ps_no_change := ps_no_change summary + 1\<rparr>
                                 | Add _ _ \<Rightarrow> summary\<lparr>ps_add := ps_add summary + 1\<rparr>
                                 | Update _ _ _ \<Rightarrow> summary\<lparr>ps_update := ps_update summary + 1\<rparr>)
                           in (rep\<lparr>pr_summary := summary',
                                 pr_resources := pr_resources rep @
                                   [\<lparr>rp_id = i, rp_kind = kind, rp_diff = diff, rp_annotations = []\<rparr>]\<rparr>, w'))
                      | (Inl e, w') \<Rightarrow> (failure kind (show_primitive_error e), w'))))"

fun plan_loop ::
  "'h primitives \<Rightarrow> Registry \<Rightarrow> ResourceId list \<Rightarrow> PlanReport \<Rightarrow> 'h world \<Rightarrow> PlanReport \<times> 'h world" where
  "plan_loop primitives registry [] rep w = (rep, w)"
| "plan_loop primitives registry (i # ids) rep w =
     (case plan_step primitives registry i rep w of (rep', w') \<Rightarrow> plan_loop primitives registry ids rep' w')"

definition plan_report_new :: PlanReport where
  "plan_report_new = \<lparr>pr_resources = [], pr_summary = \<lparr>ps_add = 0, ps_update = 0, ps_no_change = 0\<rparr>, pr_errors = []\<rparr>"

definition plan_only ::
  "(degrees \<Rightarrow> degrees) \<Rightarrow> 'h primitives \<Rightarrow> Registry \<Rightarrow> ('h world, RegistryError fail, PlanReport) prog" where
  "plan_only ord primitives registry = (\<lambda>w.
     case topological_order ord registry of
       Inl e \<Rightarrow> (Inl e, w)
     | Inr order \<Rightarrow> (case plan_loop primitives registry order plan_report_new w of (rep, w') \<Rightarrow> (Inr rep, w')))"

section \<open>Applying\<close>

record run_state =
  rs_resources :: "ResourceApplyOutcome list"
  rs_summary :: ApplySummary
  rs_aborted :: bool
  rs_failed :: "ResourceId set"

definition push_outcome :: "ResourceId \<Rightarrow> ResourceKind \<Rightarrow> Outcome \<Rightarrow> string \<Rightarrow> run_state \<Rightarrow> run_state" where
  "push_outcome i kind out message st = st\<lparr>rs_resources := rs_resources st @
     [\<lparr>ro_id = i, ro_kind = kind, ro_outcome = out, ro_message = message\<rparr>]\<rparr>"

definition count_changed :: "run_state \<Rightarrow> run_state" where
  "count_changed st = st\<lparr>rs_summary := (rs_summary st)\<lparr>as_changed := as_changed (rs_summary st) + 1\<rparr>\<rparr>"

definition count_no_change :: "run_state \<Rightarrow> run_state" where
  "count_no_change st = st\<lparr>rs_summary := (rs_summary st)\<lparr>as_no_change := as_no_change (rs_summary st) + 1\<rparr>\<rparr>"

definition count_failed :: "run_state \<Rightarrow> run_state" where
  "count_failed st = st\<lparr>rs_summary := (rs_summary st)\<lparr>as_failed := as_failed (rs_summary st) + 1\<rparr>\<rparr>"

definition count_skipped :: "run_state \<Rightarrow> run_state" where
  "count_skipped st = st\<lparr>rs_summary := (rs_summary st)\<lparr>as_skipped := as_skipped (rs_summary st) + 1\<rparr>\<rparr>"

definition count_deferred :: "run_state \<Rightarrow> run_state" where
  "count_deferred st = st\<lparr>rs_summary := (rs_summary st)\<lparr>as_deferred := as_deferred (rs_summary st) + 1\<rparr>\<rparr>"

definition count_interrupted :: "run_state \<Rightarrow> run_state" where
  "count_interrupted st = st\<lparr>rs_summary := (rs_summary st)\<lparr>as_interrupted := as_interrupted (rs_summary st) + 1\<rparr>\<rparr>"

definition mark_failed :: "ResourceId \<Rightarrow> run_state \<Rightarrow> run_state" where
  "mark_failed i st = st\<lparr>rs_failed := insert i (rs_failed st)\<rparr>"

definition abort_run :: "run_state \<Rightarrow> run_state" where
  "abort_run st = st\<lparr>rs_aborted := True\<rparr>"

definition abort_unless :: "bool \<Rightarrow> run_state \<Rightarrow> run_state" where
  "abort_unless continue st = (if \<not> continue then abort_run st else st)"

definition known_kind :: "Registry \<Rightarrow> ResourceId \<Rightarrow> ResourceKind" where
  "known_kind registry i = (case registry_get registry i of Some r \<Rightarrow> res_kind r | None \<Rightarrow> ''unknown'')"

text \<open>The branch for a pause that was interrupted, and the one for a run that was aborted before.\<close>

definition pause_interrupted :: "Registry \<Rightarrow> ResourceId \<Rightarrow> run_state \<Rightarrow> run_state" where
  "pause_interrupted registry i st =
     (let reason = ''apply cancelled during pacer sleep''
      in abort_run (count_interrupted
           (push_outcome i (known_kind registry i) (OutInterrupted reason) reason (mark_failed i st))))"

definition skip_aborted :: "Registry \<Rightarrow> ResourceId \<Rightarrow> run_state \<Rightarrow> run_state" where
  "skip_aborted registry i st =
     count_skipped (push_outcome i (known_kind registry i) OutSkipped ''skipped: aborted after earlier failure'' st)"

text \<open>Step 4: what becomes of the result of \<open>primitive.apply\<close>.\<close>

definition finish_apply ::
  "ApplyOpts \<Rightarrow> ResourceId \<Rightarrow> ResourceKind \<Rightarrow> PrimitiveError + ChangeReport \<Rightarrow> run_state \<Rightarrow> 'h world \<Rightarrow>
   run_state \<times> 'h world" where
  "finish_apply opts i kind result st w =
     (case result of
        Inr report \<Rightarrow>
          (if cr_deferred report
           then (count_deferred (push_outcome i kind (OutDeferred (cr_message report)) (cr_message report) st), w)
           else if cr_changed report
           then (count_changed (push_outcome i kind OutChanged (cr_message report) st),
                 w\<lparr>w_ctx := record_changed i (w_ctx w)\<rparr>)
           else (count_no_change (push_outcome i kind OutNoChange (cr_message report) st), w))
      | Inl Cancelled \<Rightarrow>
          (let reason = ''apply cancelled by deadline or signal''
           in (abort_run (count_interrupted (push_outcome i kind (OutInterrupted reason) reason (mark_failed i st))), w))
      | Inl e \<Rightarrow>
          (if is_deferrable e
           then (let reason = show_primitive_error e
                 in (count_deferred (push_outcome i kind (OutDeferred reason) reason st), w))
           else (let text = show_primitive_error e
                 in (abort_unless (continue_on_error opts)
                       (count_failed (push_outcome i kind (OutFailed text) text (mark_failed i st))), w))))"

text \<open>Steps 1 to 3: plan, stop when there is no change, mark the facts dirty, apply.\<close>

definition run_primitive ::
  "(ResourceKind \<Rightarrow> 'h world \<Rightarrow> 'h world) \<Rightarrow> ApplyOpts \<Rightarrow> 'h primitive \<Rightarrow> Resource \<Rightarrow> ResourceId \<Rightarrow>
   run_state \<Rightarrow> 'h world \<Rightarrow> run_state \<times> 'h world" where
  "run_primitive mark_dirty opts primitive resource i st w =
     (let kind = res_kind resource
      in case call_primitive (''plan '' @ res_id resource) (prim_plan primitive resource) w of
           (Inl Cancelled, w1) \<Rightarrow>
             (let reason = ''plan cancelled by deadline or signal''
              in (abort_run (mark_failed i (count_interrupted (push_outcome i kind (OutInterrupted reason) reason st))), w1))
         | (Inl e, w1) \<Rightarrow>
             (let message = ''plan failed: '' @ show_primitive_error e
              in (abort_unless (continue_on_error opts)
                    (mark_failed i (count_failed (push_outcome i kind (OutFailed message) message st))), w1))
         | (Inr NoChange, w1) \<Rightarrow> (count_no_change (push_outcome i kind OutNoChange [] st), w1)
         | (Inr diff, w1) \<Rightarrow>
             (case call_primitive (''apply '' @ res_id resource) (prim_apply primitive resource diff)
                     (mark_dirty kind w1) of
                (result, w2) \<Rightarrow> finish_apply opts i kind result st w2))"

text \<open>A resource whose turn it is: look it up, skip it when a dependency failed, find its primitive.\<close>

definition apply_resource ::
  "'h primitives \<Rightarrow> (ResourceKind \<Rightarrow> 'h world \<Rightarrow> 'h world) \<Rightarrow> ApplyOpts \<Rightarrow> Registry \<Rightarrow> ResourceId \<Rightarrow>
   run_state \<Rightarrow> 'h world \<Rightarrow> run_state \<times> 'h world" where
  "apply_resource primitives mark_dirty opts registry i st w =
     (case registry_get registry i of
        None \<Rightarrow>
          (abort_unless (continue_on_error opts) (mark_failed i (count_failed (push_outcome i ''unknown''
             (OutFailed ''resource missing from registry during topo iteration'') [] st))), w)
      | Some resource \<Rightarrow>
          (let kind = res_kind resource
           in case find (\<lambda>dep. dep \<in> rs_failed st) (res_depends_on resource) of
                Some failed_dep \<Rightarrow>
                  (mark_failed i (count_skipped (push_outcome i kind OutSkipped
                     (''skipped: transitive failure of dependency '' @ [CHR 0x27] @ failed_dep @ [CHR 0x27]) st)), w)
              | None \<Rightarrow>
                  (case primitives kind of
                     None \<Rightarrow>
                       (let message = ''no primitive registered for kind '' @ [CHR 0x27] @ kind @ [CHR 0x27]
                        in (abort_unless (continue_on_error opts) (mark_failed i (count_failed
                              (push_outcome i kind (OutFailed message) message st))), w))
                   | Some primitive \<Rightarrow> run_primitive mark_dirty opts primitive resource i st w)))"

text \<open>One iteration; \<open>pause\<close> is the cancellable sleep of the pacer.\<close>

definition apply_step ::
  "'h primitives \<Rightarrow> (ResourceKind \<Rightarrow> 'h world \<Rightarrow> 'h world) \<Rightarrow> (duration \<Rightarrow> 'h world \<Rightarrow> bool \<times> 'h world) \<Rightarrow>
   ApplyOpts \<Rightarrow> Registry \<Rightarrow> duration \<Rightarrow> bool \<Rightarrow> ResourceId \<Rightarrow> run_state \<Rightarrow> 'h world \<Rightarrow> run_state \<times> 'h world" where
  "apply_step primitives mark_dirty pause opts registry pacer_interval first i st w =
     (let (slept, w1) = (if \<not> first \<and> pacer_interval \<noteq> 0 \<and> \<not> rs_aborted st then pause pacer_interval w else (True, w))
      in if \<not> slept then (pause_interrupted registry i st, w1)
         else if rs_aborted st then (skip_aborted registry i st, w1)
         else apply_resource primitives mark_dirty opts registry i st w1)"

fun apply_loop ::
  "'h primitives \<Rightarrow> (ResourceKind \<Rightarrow> 'h world \<Rightarrow> 'h world) \<Rightarrow> (duration \<Rightarrow> 'h world \<Rightarrow> bool \<times> 'h world) \<Rightarrow>
   ApplyOpts \<Rightarrow> Registry \<Rightarrow> duration \<Rightarrow> bool \<Rightarrow> ResourceId list \<Rightarrow> run_state \<Rightarrow> 'h world \<Rightarrow> run_state \<times> 'h world" where
  "apply_loop primitives mark_dirty pause opts registry pacer_interval first [] st w = (st, w)"
| "apply_loop primitives mark_dirty pause opts registry pacer_interval first (i # ids) st w =
     (case apply_step primitives mark_dirty pause opts registry pacer_interval first i st w of
        (st', w') \<Rightarrow> apply_loop primitives mark_dirty pause opts registry pacer_interval False ids st' w')"

definition run_state_new :: run_state where
  "run_state_new = \<lparr>rs_resources = [],
     rs_summary = \<lparr>as_changed = 0, as_no_change = 0, as_failed = 0, as_skipped = 0, as_deferred = 0, as_interrupted = 0\<rparr>,
     rs_aborted = False, rs_failed = {}\<rparr>"

definition orchestrator_apply ::
  "(degrees \<Rightarrow> degrees) \<Rightarrow> 'h primitives \<Rightarrow> (ResourceKind \<Rightarrow> 'h world \<Rightarrow> 'h world) \<Rightarrow>
   (duration \<Rightarrow> 'h world \<Rightarrow> bool \<times> 'h world) \<Rightarrow> ApplyOpts \<Rightarrow> Registry \<Rightarrow>
   ('h world, RegistryError fail, ApplyReport) prog" where
  "orchestrator_apply ord primitives mark_dirty pause opts registry = (\<lambda>w.
     case topological_order ord registry of
       Inl e \<Rightarrow> (Inl e, w)
     | Inr order \<Rightarrow>
         (case apply_loop primitives mark_dirty pause opts registry
                 (interval_for (pacer opts) (length order)) True order run_state_new w of
            (st, w') \<Rightarrow> (Inr \<lparr>ar_resources = rs_resources st, ar_summary = rs_summary st\<rparr>, w')))"

section \<open>What one iteration does\<close>

fun count_outcome :: "Outcome \<Rightarrow> ApplySummary \<Rightarrow> ApplySummary" where
  "count_outcome OutNoChange s = s\<lparr>as_no_change := as_no_change s + 1\<rparr>"
| "count_outcome OutChanged s = s\<lparr>as_changed := as_changed s + 1\<rparr>"
| "count_outcome (OutFailed _) s = s\<lparr>as_failed := as_failed s + 1\<rparr>"
| "count_outcome OutSkipped s = s\<lparr>as_skipped := as_skipped s + 1\<rparr>"
| "count_outcome (OutDeferred _) s = s\<lparr>as_deferred := as_deferred s + 1\<rparr>"
| "count_outcome (OutInterrupted _) s = s\<lparr>as_interrupted := as_interrupted s + 1\<rparr>"

text \<open>An outcome that ends the run, and one that holds back what depends on the resource.\<close>

fun stops :: "ApplyOpts \<Rightarrow> Outcome \<Rightarrow> bool" where
  "stops opts (OutFailed _) \<longleftrightarrow> \<not> continue_on_error opts"
| "stops opts (OutInterrupted _) \<longleftrightarrow> True"
| "stops opts _ \<longleftrightarrow> False"

fun unsuccessful :: "Outcome \<Rightarrow> bool" where
  "unsuccessful (OutFailed _) \<longleftrightarrow> True"
| "unsuccessful (OutInterrupted _) \<longleftrightarrow> True"
| "unsuccessful OutSkipped \<longleftrightarrow> True"
| "unsuccessful _ \<longleftrightarrow> False"

text \<open>The outcomes of a resource whose turn did not come: it was skipped, or the pause before it was interrupted.\<close>

definition not_run :: "Outcome \<Rightarrow> bool" where
  "not_run out \<longleftrightarrow> out = OutSkipped \<or> out = OutInterrupted ''apply cancelled during pacer sleep''"

lemma not_run_simps [simp]: "not_run OutSkipped" "\<not> not_run (OutFailed e)" "not_run (OutInterrupted ''apply cancelled during pacer sleep'')"
  by (simp_all add: not_run_def)

definition advance :: "ApplyOpts \<Rightarrow> Registry \<Rightarrow> ResourceId \<Rightarrow> Outcome \<Rightarrow> string \<Rightarrow> run_state \<Rightarrow> run_state" where
  "advance opts registry i out message st =
     \<lparr>rs_resources = rs_resources st @
        [\<lparr>ro_id = i, ro_kind = known_kind registry i, ro_outcome = out, ro_message = message\<rparr>],
      rs_summary = count_outcome out (rs_summary st),
      rs_aborted = (rs_aborted st \<or> stops opts out),
      rs_failed = (if unsuccessful out \<and> \<not> rs_aborted st then insert i (rs_failed st) else rs_failed st)\<rparr>"

lemmas branch_defs = push_outcome_def count_changed_def count_no_change_def count_failed_def count_skipped_def
  count_deferred_def count_interrupted_def mark_failed_def abort_run_def abort_unless_def

text \<open>Only \<open>push_outcome\<close> adds an outcome.\<close>

lemma outcome_simps:
  "rs_resources (push_outcome i kind out message st) = rs_resources st @
     [\<lparr>ro_id = i, ro_kind = kind, ro_outcome = out, ro_message = message\<rparr>]"
  "rs_resources (count_changed st) = rs_resources st" "rs_resources (count_no_change st) = rs_resources st"
  "rs_resources (count_failed st) = rs_resources st" "rs_resources (count_skipped st) = rs_resources st"
  "rs_resources (count_deferred st) = rs_resources st" "rs_resources (count_interrupted st) = rs_resources st"
  "rs_resources (mark_failed i st) = rs_resources st" "rs_resources (abort_run st) = rs_resources st"
  "rs_resources (abort_unless c st) = rs_resources st"
  by (simp_all add: branch_defs)

definition deps_of :: "Registry \<Rightarrow> ResourceId \<Rightarrow> ResourceId list" where
  "deps_of registry i = (case registry_get registry i of Some r \<Rightarrow> res_depends_on r | None \<Rightarrow> [])"

lemma finish_apply_advance:
  assumes "finish_apply opts i kind result st w = (st', w')" "kind = known_kind registry i" "\<not> rs_aborted st"
  shows "\<exists>out message. st' = advance opts registry i out message st"
proof (cases result)
  case (Inl e)
  have "st' = advance opts registry i (ro_outcome (last (rs_resources st'))) (ro_message (last (rs_resources st'))) st"
    using assms Inl by (cases e) (auto simp: finish_apply_def branch_defs advance_def is_deferrable_def Let_def)
  then show ?thesis by blast
next
  case (Inr report)
  have "st' = advance opts registry i (ro_outcome (last (rs_resources st'))) (ro_message (last (rs_resources st'))) st"
    using assms Inr by (auto simp: finish_apply_def branch_defs advance_def split: if_splits)
  then show ?thesis by blast
qed

lemma run_primitive_advance:
  assumes "run_primitive mark_dirty opts primitive resource i st w = (st', w')"
    and "registry_get registry i = Some resource" "\<not> rs_aborted st"
  shows "\<exists>out message. st' = advance opts registry i out message st"
proof -
  have kind: "res_kind resource = known_kind registry i" using assms(2) by (simp add: known_kind_def)
  obtain r w1 where plan: "call_primitive (''plan '' @ res_id resource) (prim_plan primitive resource) w = (r, w1)"
    by fastforce
  have last_out: "\<exists>out message. st' = advance opts registry i out message st"
    if "st' = advance opts registry i (ro_outcome (last (rs_resources st'))) (ro_message (last (rs_resources st'))) st"
    using that by blast
  show ?thesis
  proof (cases r)
    case (Inl e)
    show ?thesis
      by (rule last_out) (use assms(1,3) plan Inl kind in
          \<open>cases e; auto simp: run_primitive_def branch_defs advance_def Let_def\<close>)
  next
    case (Inr diff)
    show ?thesis
    proof (cases "diff = NoChange")
      case True
      show ?thesis
        by (rule last_out) (use assms(1,3) plan Inr True kind in
            \<open>auto simp: run_primitive_def branch_defs advance_def Let_def\<close>)
    next
      case False
      obtain r2 w2 where ap: "call_primitive (''apply '' @ res_id resource) (prim_apply primitive resource diff)
          (mark_dirty (res_kind resource) w1) = (r2, w2)" by fastforce
      have "finish_apply opts i (res_kind resource) r2 st w2 = (st', w')"
        using assms(1) plan Inr False ap by (cases diff) (auto simp: run_primitive_def Let_def)
      then show ?thesis using finish_apply_advance kind assms(3) by blast
    qed
  qed
qed

text \<open>
  Every iteration reports exactly one outcome for its resource, with the counter, the flag and the
  set that belong to it; an aborted run touches nothing any more, and a resource with a failed
  dependency is not run.
\<close>

lemma apply_step_advance:
  assumes "apply_step primitives mark_dirty pause opts registry interval first i st w = (st', w')"
  obtains out message where "st' = advance opts registry i out message st"
    and "rs_aborted st \<Longrightarrow> out = OutSkipped \<and> w' = w"
    and "\<exists>dep \<in> set (deps_of registry i). dep \<in> rs_failed st \<Longrightarrow> not_run out"
proof -
  obtain slept w1 where sl: "(if \<not> first \<and> interval \<noteq> 0 \<and> \<not> rs_aborted st then pause interval w else (True, w)) = (slept, w1)"
    by fastforce
  consider (pause) "\<not> slept" | (aborted) "slept" "rs_aborted st" | (turn) "slept" "\<not> rs_aborted st" by blast
  then show ?thesis
  proof cases
    case pause
    have na: "\<not> rs_aborted st" using sl pause by (auto split: if_splits)
    have "st' = advance opts registry i (OutInterrupted ''apply cancelled during pacer sleep'')
        ''apply cancelled during pacer sleep'' st"
      using assms sl pause na by (auto simp: apply_step_def Let_def pause_interrupted_def branch_defs advance_def)
    then show ?thesis using that na by auto
  next
    case aborted
    have "w1 = w" using sl aborted by auto
    moreover have "st' = advance opts registry i OutSkipped ''skipped: aborted after earlier failure'' st"
      using assms sl aborted by (auto simp: apply_step_def Let_def skip_aborted_def branch_defs advance_def)
    ultimately show ?thesis using that assms sl aborted by (auto simp: apply_step_def)
  next
    case turn
    then have run: "apply_resource primitives mark_dirty opts registry i st w1 = (st', w')"
      using assms sl by (simp add: apply_step_def)
    show ?thesis
    proof (cases "registry_get registry i")
      case None
      have "st' = advance opts registry i (OutFailed ''resource missing from registry during topo iteration'') [] st"
        using run None turn by (auto simp: apply_resource_def branch_defs advance_def known_kind_def)
      then show ?thesis using that turn None by (simp add: deps_of_def)
    next
      case (Some resource)
      then have kind: "res_kind resource = known_kind registry i" "deps_of registry i = res_depends_on resource"
        by (simp_all add: known_kind_def deps_of_def)
      show ?thesis
      proof (cases "find (\<lambda>dep. dep \<in> rs_failed st) (res_depends_on resource)")
        case dep: (Some dep)
        have "st' = advance opts registry i OutSkipped (''skipped: transitive failure of dependency '' @ [CHR 0x27] @ dep @ [CHR 0x27]) st"
          using run Some dep turn kind by (auto simp: apply_resource_def branch_defs advance_def)
        then show ?thesis using that turn by simp
      next
        case None
        then have nd: "\<not> (\<exists>dep \<in> set (deps_of registry i). dep \<in> rs_failed st)"
          by (simp add: kind(2) find_None_iff)
        show ?thesis
        proof (cases "primitives (res_kind resource)")
          case no: None
          have "st' = advance opts registry i (ro_outcome (last (rs_resources st'))) (ro_message (last (rs_resources st'))) st"
            using run Some None no turn kind by (auto simp: apply_resource_def branch_defs advance_def Let_def)
          then show ?thesis using that turn nd by blast
        next
          case prim: (Some primitive)
          then have "run_primitive mark_dirty opts primitive resource i st w1 = (st', w')"
            using run Some None by (simp add: apply_resource_def Let_def)
          then show ?thesis using run_primitive_advance [OF _ Some turn(2)] that turn nd by metis
        qed
      qed
    qed
  qed
qed

section \<open>The whole run\<close>

definition summary_of :: "ResourceApplyOutcome list \<Rightarrow> ApplySummary" where
  "summary_of rs = fold (\<lambda>out. count_outcome (ro_outcome out)) rs
     \<lparr>as_changed = 0, as_no_change = 0, as_failed = 0, as_skipped = 0, as_deferred = 0, as_interrupted = 0\<rparr>"

text \<open>After an outcome that ends the run, everything is skipped.\<close>

definition stopped_after :: "ApplyOpts \<Rightarrow> ResourceApplyOutcome \<Rightarrow> ResourceApplyOutcome \<Rightarrow> bool" where
  "stopped_after opts a b \<longleftrightarrow> (stops opts (ro_outcome a) \<longrightarrow> ro_outcome b = OutSkipped)"

text \<open>What depends on a resource without success is not run.\<close>

definition held_back :: "Registry \<Rightarrow> ResourceApplyOutcome \<Rightarrow> ResourceApplyOutcome \<Rightarrow> bool" where
  "held_back registry a b \<longleftrightarrow>
     (ro_id a \<in> set (deps_of registry (ro_id b)) \<and> unsuccessful (ro_outcome a) \<longrightarrow> not_run (ro_outcome b))"

definition run_inv :: "ApplyOpts \<Rightarrow> Registry \<Rightarrow> run_state \<Rightarrow> bool" where
  "run_inv opts registry st \<longleftrightarrow>
     rs_summary st = summary_of (rs_resources st) \<and>
     (rs_aborted st \<longleftrightarrow> (\<exists>out \<in> set (rs_resources st). stops opts (ro_outcome out))) \<and>
     (\<forall>out \<in> set (rs_resources st). unsuccessful (ro_outcome out) \<longrightarrow> ro_id out \<in> rs_failed st \<or> rs_aborted st) \<and>
     sorted_wrt (stopped_after opts) (rs_resources st) \<and>
     sorted_wrt (held_back registry) (rs_resources st)"

lemma run_inv_new [simp]: "run_inv opts registry run_state_new"
  by (simp add: run_inv_def run_state_new_def summary_of_def)

lemma run_inv_advance:
  assumes "run_inv opts registry st"
    and "rs_aborted st \<Longrightarrow> out = OutSkipped"
    and "\<exists>dep \<in> set (deps_of registry i). dep \<in> rs_failed st \<Longrightarrow> not_run out"
  shows "run_inv opts registry (advance opts registry i out message st)"
proof -
  let ?o = "\<lparr>ro_id = i, ro_kind = known_kind registry i, ro_outcome = out, ro_message = message\<rparr>"
  have stopped: "stopped_after opts a ?o" if "a \<in> set (rs_resources st)" for a
    using assms(1,2) that by (auto simp: run_inv_def stopped_after_def)
  have held: "held_back registry a ?o" if "a \<in> set (rs_resources st)" for a
    using assms that by (cases "rs_aborted st") (auto simp: run_inv_def held_back_def)
  show ?thesis
    using assms(1) stopped held
    by (auto simp: run_inv_def advance_def summary_of_def sorted_wrt_append)
qed

lemma apply_loop_inv:
  assumes "apply_loop primitives mark_dirty pause opts registry interval first ids st w = (st', w')"
    and "run_inv opts registry st"
  shows "run_inv opts registry st' \<and> map ro_id (rs_resources st') = map ro_id (rs_resources st) @ ids"
  using assms
proof (induction ids arbitrary: st w first)
  case (Cons i ids)
  obtain st1 w1 where step: "apply_step primitives mark_dirty pause opts registry interval first i st w = (st1, w1)"
    by fastforce
  from step obtain out message where adv: "st1 = advance opts registry i out message st"
    and a: "rs_aborted st \<Longrightarrow> out = OutSkipped \<and> w1 = w"
    and b: "\<exists>dep \<in> set (deps_of registry i). dep \<in> rs_failed st \<Longrightarrow> not_run out"
    by (rule apply_step_advance) blast
  have "run_inv opts registry st1" unfolding adv by (rule run_inv_advance [OF Cons.prems(2)]) (use a b in auto)
  moreover have "map ro_id (rs_resources st1) = map ro_id (rs_resources st) @ [i]" by (simp add: adv advance_def)
  ultimately show ?case using Cons.IH [of False st1 w1] Cons.prems(1) step by simp
qed simp

lemma orchestrator_apply_run:
  assumes "orchestrator_apply ord primitives mark_dirty pause opts registry w = (Inr rep, w')"
  obtains order st where "topological_order ord registry = Inr order"
    "apply_loop primitives mark_dirty pause opts registry (interval_for (pacer opts) (length order)) True order
       run_state_new w = (st, w')"
    "rep = \<lparr>ar_resources = rs_resources st, ar_summary = rs_summary st\<rparr>"
  using assms by (auto simp: orchestrator_apply_def split: sum.splits prod.splits)

lemma summary_counts:
  "as_changed (summary_of rs) = length (filter (\<lambda>out. ro_outcome out = OutChanged) rs) \<and>
   as_no_change (summary_of rs) = length (filter (\<lambda>out. ro_outcome out = OutNoChange) rs) \<and>
   as_skipped (summary_of rs) = length (filter (\<lambda>out. ro_outcome out = OutSkipped) rs) \<and>
   as_failed (summary_of rs) = length (filter (\<lambda>out. \<exists>e. ro_outcome out = OutFailed e) rs) \<and>
   as_deferred (summary_of rs) = length (filter (\<lambda>out. \<exists>e. ro_outcome out = OutDeferred e) rs) \<and>
   as_interrupted (summary_of rs) = length (filter (\<lambda>out. \<exists>e. ro_outcome out = OutInterrupted e) rs)"
proof -
  have fold_out: "as_changed (fold (\<lambda>out. count_outcome (ro_outcome out)) rs s) = as_changed s + length (filter (\<lambda>out. ro_outcome out = OutChanged) rs)"
    "as_no_change (fold (\<lambda>out. count_outcome (ro_outcome out)) rs s) = as_no_change s + length (filter (\<lambda>out. ro_outcome out = OutNoChange) rs)"
    "as_skipped (fold (\<lambda>out. count_outcome (ro_outcome out)) rs s) = as_skipped s + length (filter (\<lambda>out. ro_outcome out = OutSkipped) rs)"
    "as_failed (fold (\<lambda>out. count_outcome (ro_outcome out)) rs s) = as_failed s + length (filter (\<lambda>out. \<exists>e. ro_outcome out = OutFailed e) rs)"
    "as_deferred (fold (\<lambda>out. count_outcome (ro_outcome out)) rs s) = as_deferred s + length (filter (\<lambda>out. \<exists>e. ro_outcome out = OutDeferred e) rs)"
    "as_interrupted (fold (\<lambda>out. count_outcome (ro_outcome out)) rs s) = as_interrupted s + length (filter (\<lambda>out. \<exists>e. ro_outcome out = OutInterrupted e) rs)"
    for s
  proof (induction rs arbitrary: s)
    case (Cons out rs)
    {
      case 1 show ?case by (cases "ro_outcome out") (simp_all add: Cons.IH)
    next
      case 2 show ?case by (cases "ro_outcome out") (simp_all add: Cons.IH)
    next
      case 3 show ?case by (cases "ro_outcome out") (simp_all add: Cons.IH)
    next
      case 4 show ?case by (cases "ro_outcome out") (simp_all add: Cons.IH)
    next
      case 5 show ?case by (cases "ro_outcome out") (simp_all add: Cons.IH)
    next
      case 6 show ?case by (cases "ro_outcome out") (simp_all add: Cons.IH)
    }
  qed simp_all
  show ?thesis by (simp add: summary_of_def fold_out)
qed

text \<open>
  C5. The report of an apply run is complete and its summary is exact: there is one outcome per
  registered resource, in the topological order, and every counter is the number of outcomes of
  its class, so that the exit code computed from it reflects what happened.
\<close>

theorem apply_report_exact:
  assumes "registry_inv registry" "map_order ord"
    and "orchestrator_apply ord primitives mark_dirty pause opts registry w = (Inr rep, w')"
  shows "topological_order ord registry = Inr (map ro_id (ar_resources rep)) \<and>
    mset (map ro_id (ar_resources rep)) = mset (map res_id (reg_resources registry)) \<and>
    as_changed (ar_summary rep) = length (filter (\<lambda>out. ro_outcome out = OutChanged) (ar_resources rep)) \<and>
    as_no_change (ar_summary rep) = length (filter (\<lambda>out. ro_outcome out = OutNoChange) (ar_resources rep)) \<and>
    as_skipped (ar_summary rep) = length (filter (\<lambda>out. ro_outcome out = OutSkipped) (ar_resources rep)) \<and>
    as_failed (ar_summary rep) = length (filter (\<lambda>out. \<exists>e. ro_outcome out = OutFailed e) (ar_resources rep)) \<and>
    as_deferred (ar_summary rep) = length (filter (\<lambda>out. \<exists>e. ro_outcome out = OutDeferred e) (ar_resources rep)) \<and>
    as_interrupted (ar_summary rep) = length (filter (\<lambda>out. \<exists>e. ro_outcome out = OutInterrupted e) (ar_resources rep))"
proof -
  obtain order st where order: "topological_order ord registry = Inr order"
    and run: "apply_loop primitives mark_dirty pause opts registry (interval_for (pacer opts) (length order)) True order
       run_state_new w = (st, w')"
    and rep: "rep = \<lparr>ar_resources = rs_resources st, ar_summary = rs_summary st\<rparr>"
    using assms(3) by (rule orchestrator_apply_run)
  have inv: "run_inv opts registry st" and ids: "map ro_id (rs_resources st) = order"
    using apply_loop_inv [OF run run_inv_new] by (simp_all add: run_state_new_def)
  have "mset order = mset (map res_id (reg_resources registry))"
    using topological_order_perm [OF assms(1,2) order] .
  then show ?thesis
    using inv ids order summary_counts [of "rs_resources st"] by (simp add: rep run_inv_def)
qed

text \<open>Other primitives for the resources with the given ids, and the same ones for all others.\<close>

definition replaced_for :: "ResourceId set \<Rightarrow> (ResourceKind \<Rightarrow> 'h primitive) \<Rightarrow> 'h primitives \<Rightarrow> 'h primitives" where
  "replaced_for ids others primitives kind = map_option (\<lambda>primitive. \<lparr>
     prim_plan = (\<lambda>r. if res_id r \<in> ids then prim_plan (others kind) r else prim_plan primitive r),
     prim_apply = (\<lambda>r. if res_id r \<in> ids then prim_apply (others kind) r else prim_apply primitive r)\<rparr>) (primitives kind)"

text \<open>A turn that calls the primitive of the resource ends with another outcome.\<close>

lemma finish_apply_ran:
  "finish_apply opts i kind result st w = (st', w') \<Longrightarrow> \<not> not_run (ro_outcome (last (rs_resources st')))"
  by (auto simp: finish_apply_def outcome_simps not_run_def Let_def split: sum.splits PrimitiveError.splits if_splits)

lemma run_primitive_ran:
  assumes "run_primitive mark_dirty opts primitive resource i st w = (st', w')"
  shows "\<not> not_run (ro_outcome (last (rs_resources st')))"
  using assms
  by (auto simp: run_primitive_def outcome_simps not_run_def Let_def dest: finish_apply_ran
      split: sum.splits prod.splits Diff.splits PrimitiveError.splits)

lemma run_primitive_replaced:
  assumes "primitives kind = Some primitive" "res_id resource \<notin> ids" "replaced_for ids others primitives kind = Some p"
  shows "run_primitive mark_dirty opts p resource i st w = run_primitive mark_dirty opts primitive resource i st w"
proof -
  have "prim_plan p resource = prim_plan primitive resource" "prim_apply p resource d = prim_apply primitive resource d" for d
    using assms by (auto simp: replaced_for_def)
  then show ?thesis by (simp only: run_primitive_def)
qed

lemma apply_step_replaced:
  assumes "apply_step primitives mark_dirty pause opts registry interval first i st w = (st', w')" "registry_inv registry"
    and "i \<in> ids \<Longrightarrow> not_run (ro_outcome (last (rs_resources st')))"
  shows "apply_step (replaced_for ids others primitives) mark_dirty pause opts registry interval first i st w = (st', w')"
proof -
  have "apply_resource (replaced_for ids others primitives) mark_dirty opts registry i st w1 = (st', w')"
    if run: "apply_resource primitives mark_dirty opts registry i st w1 = (st', w')" for w1
  proof (cases "registry_get registry i")
    case None
    then show ?thesis using run by (simp add: apply_resource_def)
  next
    case (Some resource)
    then have i: "res_id resource = i" using assms(2) by (auto simp: registry_get_def registry_inv_def split: option.splits)
    show ?thesis
    proof (cases "find (\<lambda>dep. dep \<in> rs_failed st) (res_depends_on resource)")
      case None
      show ?thesis
      proof (cases "primitives (res_kind resource)")
        case no: None
        then show ?thesis using run Some None by (simp add: apply_resource_def replaced_for_def)
      next
        case prim: (Some primitive)
        then obtain p where repl: "replaced_for ids others primitives (res_kind resource) = Some p" by (simp add: replaced_for_def)
        from prim have "run_primitive mark_dirty opts primitive resource i st w1 = (st', w')"
          using run Some None by (simp add: apply_resource_def Let_def)
        moreover from run_primitive_ran [OF this] assms(3) i have "res_id resource \<notin> ids" by auto
        ultimately show ?thesis
          using run_primitive_replaced [of primitives "res_kind resource", OF prim] repl Some None by (simp add: apply_resource_def Let_def)
      qed
    qed (use run Some in \<open>simp add: apply_resource_def\<close>)
  qed
  then show ?thesis using assms(1) by (auto simp: apply_step_def Let_def split: prod.splits if_splits)
qed

lemma apply_loop_replaced:
  assumes "apply_loop primitives mark_dirty pause opts registry interval first is st w = (st', w')" "registry_inv registry"
    and "distinct (map ro_id (rs_resources st'))" "\<forall>out \<in> set (rs_resources st'). ro_id out \<in> ids \<longrightarrow> not_run (ro_outcome out)"
  shows "(\<exists>outs. rs_resources st' = rs_resources st @ outs \<and> map ro_id outs = is) \<and>
    apply_loop (replaced_for ids others primitives) mark_dirty pause opts registry interval first is st w = (st', w')"
  using assms(1)
proof (induction "is" arbitrary: st w first)
  case (Cons i "is")
  obtain st1 w1 where step: "apply_step primitives mark_dirty pause opts registry interval first i st w = (st1, w1)" by fastforce
  then obtain out message where "st1 = advance opts registry i out message st" by (rule apply_step_advance)
  then have adv: "\<exists>o1. rs_resources st1 = rs_resources st @ [o1] \<and> ro_id o1 = i" by (simp add: advance_def)
  then obtain o1 where o1: "rs_resources st1 = rs_resources st @ [o1]" "ro_id o1 = i" by blast
  have rest: "apply_loop primitives mark_dirty pause opts registry interval False is st1 w1 = (st', w')"
    using Cons.prems step by simp
  from Cons.IH [OF this] obtain outs where outs: "rs_resources st' = rs_resources st1 @ outs" "map ro_id outs = is"
    and loop: "apply_loop (replaced_for ids others primitives) mark_dirty pause opts registry interval False is st1 w1 = (st', w')"
    by blast
  have "i \<in> ids \<Longrightarrow> not_run (ro_outcome (last (rs_resources st1)))" using o1 outs assms(4) by auto
  from apply_step_replaced [OF step assms(2) this]
  have "apply_step (replaced_for ids others primitives) mark_dirty pause opts registry interval first i st w = (st1, w1)" .
  then show ?case using o1 outs loop by simp
qed simp

text \<open>
  C6. A failure stops what must not run.  After a resource that was interrupted, or that failed when \<open>continue_on_error\<close> is off,
  every later resource is skipped; and a resource that depends on one that failed, was interrupted or was skipped is
  itself not run, transitively, even when \<open>continue_on_error\<close> is on.  Nothing of such a resource is executed: with any other primitives
  for the resources that are reported as not run, the run has the same report and leaves the same world.
\<close>

theorem apply_failure_contained:
  assumes "registry_inv registry" "map_order ord"
    and "orchestrator_apply ord primitives mark_dirty pause opts registry w = (Inr rep, w')"
  shows "(\<forall>k j. k < j \<and> j < length (ar_resources rep) \<and> stops opts (ro_outcome (ar_resources rep ! k)) \<longrightarrow>
       ro_outcome (ar_resources rep ! j) = OutSkipped) \<and>
    (\<forall>k j. k < j \<and> j < length (ar_resources rep) \<and> unsuccessful (ro_outcome (ar_resources rep ! k)) \<and>
       ro_id (ar_resources rep ! k) \<in> set (deps_of registry (ro_id (ar_resources rep ! j))) \<longrightarrow>
       not_run (ro_outcome (ar_resources rep ! j))) \<and>
    (\<forall>others. orchestrator_apply ord
       (replaced_for (set (map ro_id (filter (\<lambda>out. not_run (ro_outcome out)) (ar_resources rep)))) others primitives)
       mark_dirty pause opts registry w = (Inr rep, w'))"
proof -
  obtain order st where order: "topological_order ord registry = Inr order"
    and run: "apply_loop primitives mark_dirty pause opts registry
       (interval_for (pacer opts) (length order)) True order run_state_new w = (st, w')"
    and rep: "rep = \<lparr>ar_resources = rs_resources st, ar_summary = rs_summary st\<rparr>"
    using assms(3) by (rule orchestrator_apply_run)
  have inv: "run_inv opts registry st" and ids: "map ro_id (rs_resources st) = order"
    using apply_loop_inv [OF run run_inv_new] by (simp_all add: run_state_new_def)
  let ?ids = "set (map ro_id (filter (\<lambda>out. not_run (ro_outcome out)) (rs_resources st)))"
  have "mset order = mset (map res_id (reg_resources registry))" using topological_order_perm [OF assms(1,2) order] .
  then have d: "distinct (map ro_id (rs_resources st))"
    using assms(1) unfolding ids registry_inv_def by (metis mset_eq_imp_distinct_iff)
  then have "inj_on ro_id (set (rs_resources st))" by (simp add: distinct_map)
  then have "\<forall>out \<in> set (rs_resources st). ro_id out \<in> ?ids \<longrightarrow> not_run (ro_outcome out)" by (auto dest: inj_onD)
  note same = conjunct2 [OF apply_loop_replaced [OF run assms(1) d this]]
  show ?thesis
    using inv same order
    by (auto simp: rep run_inv_def stopped_after_def held_back_def sorted_wrt_iff_nth_less orchestrator_apply_def)
qed

section \<open>Witnesses of the run\<close>

text \<open>A package whose installation fails and a service that depends on it.\<close>

definition broken_pkg :: "'h primitive" where
  "broken_pkg = \<lparr>prim_plan = (\<lambda>r w. (Returned (Inr (Add ''install'' JNull)), w)),
     prim_apply = (\<lambda>r d w. (Panicked (StaticStr ''boom''), w))\<rparr>"

definition happy_svc :: "'h primitive" where
  "happy_svc = \<lparr>prim_plan = (\<lambda>r w. (Returned (Inr (Add ''start'' JNull)), w)),
     prim_apply = (\<lambda>r d w. (Returned (Inr (report_changed ''started'')), w))\<rparr>"

definition sample_primitives :: "'h primitives" where
  "sample_primitives = [''pkg'' \<mapsto> broken_pkg, ''svc'' \<mapsto> happy_svc]"

definition sample_opts :: ApplyOpts where
  "sample_opts = \<lparr>continue_on_error = True, pacer = pacer_disabled\<rparr>"

definition sample_world :: "unit world" where
  "sample_world = \<lparr>w_ctx = apply_ctx_build, w_host = ()\<rparr>"

definition sample_apply_report :: ApplyReport where
  "sample_apply_report = \<lparr>ar_resources =
       [\<lparr>ro_id = ''pkg:a'', ro_kind = ''pkg'', ro_outcome = OutFailed ''panicked in apply pkg:a: boom'',
         ro_message = ''panicked in apply pkg:a: boom''\<rparr>,
        \<lparr>ro_id = ''svc:b'', ro_kind = ''svc'', ro_outcome = OutSkipped,
         ro_message = ''skipped: transitive failure of dependency '' @ [CHR 0x27] @ ''pkg:a'' @ [CHR 0x27]\<rparr>],
     ar_summary = \<lparr>as_changed = 0, as_no_change = 0, as_failed = 1, as_skipped = 1, as_deferred = 0, as_interrupted = 0\<rparr>\<rparr>"

lemma sample_order: "topological_order rev sample_registry = Inr [''pkg:a'', ''svc:b'']"
  by (simp add: topological_order_def sample_registry_simps sample_resource_def resource_id_new_def
      resource_deps_def)

lemma sample_apply_run:
  "orchestrator_apply rev sample_primitives (\<lambda>_ w. w) (\<lambda>_ w. (True, w)) sample_opts sample_registry sample_world =
     (Inr sample_apply_report, sample_world)"
  by (simp add: orchestrator_apply_def sample_order apply_step_def apply_resource_def run_primitive_def
      finish_apply_def call_primitive_def registry_get_def sample_registry_simps sample_resource_def resource_id_new_def
      branch_defs run_state_new_def sample_primitives_def broken_pkg_def sample_opts_def is_deferrable_def
      show_primitive_error_def panic_message_def sample_apply_report_def Let_def)

theorem apply_report_exact_witness:
  "mset (map ro_id (ar_resources sample_apply_report)) = mset (map res_id (reg_resources sample_registry)) \<and>
   as_failed (ar_summary sample_apply_report) = 1"
  using apply_report_exact [OF sample_registry_inv map_order_rev sample_apply_run]
  by (simp add: sample_apply_report_def)

theorem apply_failure_contained_witness:
  "unsuccessful (ro_outcome (ar_resources sample_apply_report ! 0)) \<and> not_run (ro_outcome (ar_resources sample_apply_report ! 1)) \<and>
   orchestrator_apply rev (replaced_for {''svc:b''} (\<lambda>_. broken_pkg) sample_primitives) (\<lambda>_ w. w) (\<lambda>_ w. (True, w)) sample_opts
     sample_registry sample_world = (Inr sample_apply_report, sample_world)"
  using apply_failure_contained [OF sample_registry_inv map_order_rev sample_apply_run]
  by (simp add: sample_apply_report_def deps_of_def registry_get_def sample_registry_simps sample_resource_def)

section \<open>The whole plan\<close>

definition plan_inv :: "PlanReport \<Rightarrow> bool" where
  "plan_inv rep \<longleftrightarrow>
     ps_no_change (pr_summary rep) = length (filter (\<lambda>p. rp_diff p = NoChange) (pr_resources rep)) \<and>
     ps_add (pr_summary rep) = length (filter (\<lambda>p. \<exists>d v. rp_diff p = Add d v) (pr_resources rep)) \<and>
     ps_update (pr_summary rep) = length (filter (\<lambda>p. \<exists>a b d. rp_diff p = Update a b d) (pr_resources rep))"

definition planned_ids :: "PlanReport \<Rightarrow> ResourceId multiset" where
  "planned_ids rep = mset (map rp_id (pr_resources rep)) + mset (map pf_id (pr_errors rep))"

lemma plan_step_inv:
  assumes "plan_step primitives registry i rep w = (rep', w')" "plan_inv rep"
  shows "plan_inv rep' \<and> planned_ids rep' = add_mset i (planned_ids rep)"
proof (cases "registry_get registry i")
  case None
  then show ?thesis using assms by (auto simp: plan_step_def plan_inv_def planned_ids_def)
next
  case (Some resource)
  show ?thesis
  proof (cases "primitives (res_kind resource)")
    case None
    then show ?thesis using assms Some by (auto simp: plan_step_def plan_inv_def planned_ids_def Let_def)
  next
    case (Some primitive)
    obtain r w1 where call: "call_primitive (''plan '' @ res_id resource) (prim_plan primitive resource) w = (r, w1)"
      by fastforce
    show ?thesis
    proof (cases r)
      case (Inl e)
      then show ?thesis using assms \<open>registry_get registry i = _\<close> Some call
        by (auto simp: plan_step_def plan_inv_def planned_ids_def Let_def)
    next
      case (Inr d)
      then show ?thesis using assms \<open>registry_get registry i = _\<close> Some call
        by (cases d) (auto simp: plan_step_def plan_inv_def planned_ids_def Let_def)
    qed
  qed
qed

lemma plan_loop_inv:
  assumes "plan_loop primitives registry ids rep w = (rep', w')" "plan_inv rep"
  shows "plan_inv rep' \<and> planned_ids rep' = mset ids + planned_ids rep"
  using assms
proof (induction ids arbitrary: rep w)
  case (Cons i ids)
  obtain rep1 w1 where step: "plan_step primitives registry i rep w = (rep1, w1)" by fastforce
  then show ?case using Cons.IH [of rep1 w1] Cons.prems plan_step_inv [OF step] by simp
qed simp

text \<open>
  C25. A plan covers everything and reports drift exactly: every registered resource has a plan or a failure, and
  exactly one of them; and the report has drift if and only if some resource would be changed, whatever
  the other resources do.
\<close>

theorem plan_only_exact:
  assumes "registry_inv registry" "map_order ord"
    and "plan_only ord primitives registry w = (Inr rep, w')"
  shows "mset (map rp_id (pr_resources rep)) + mset (map pf_id (pr_errors rep)) =
      mset (map res_id (reg_resources registry)) \<and>
    (has_drift rep \<longleftrightarrow> (\<exists>p \<in> set (pr_resources rep). \<not> is_no_change (rp_diff p))) \<and>
    (has_errors rep \<longleftrightarrow> length (pr_resources rep) < length (reg_resources registry))"
proof -
  obtain order where order: "topological_order ord registry = Inr order"
    and run: "plan_loop primitives registry order plan_report_new w = (rep, w')"
    using assms(3) by (auto simp: plan_only_def split: sum.splits prod.splits)
  have inv: "plan_inv rep" "planned_ids rep = mset order"
    using plan_loop_inv [OF run] by (simp_all add: plan_inv_def planned_ids_def plan_report_new_def)
  then have ids: "mset (map rp_id (pr_resources rep)) + mset (map pf_id (pr_errors rep)) =
      mset (map res_id (reg_resources registry))"
    using topological_order_perm [OF assms(1,2) order] by (simp add: planned_ids_def)
  then have "length (pr_resources rep) + length (pr_errors rep) = length (reg_resources registry)"
    by (metis length_map size_mset size_union)
  then have "has_errors rep \<longleftrightarrow> length (pr_resources rep) < length (reg_resources registry)"
    by (cases "pr_errors rep") (auto simp: has_errors_def)
  moreover have "is_no_change d \<longleftrightarrow> \<not> (\<exists>a v. d = Add a v) \<and> \<not> (\<exists>a b c. d = Update a b c)" for d
    by (cases d) (auto simp: is_no_change_def)
  then have "has_drift rep \<longleftrightarrow> (\<exists>p \<in> set (pr_resources rep). \<not> is_no_change (rp_diff p))"
    using inv(1) by (simp add: has_drift_def plan_inv_def filter_empty_conv) blast
  ultimately show ?thesis using ids by blast
qed

theorem plan_only_exact_witness:
  "has_drift (fst (plan_loop (sample_primitives :: unit primitives) sample_registry [''pkg:a'', ''svc:b''] plan_report_new sample_world))"
proof -
  let ?r = "plan_loop sample_primitives sample_registry [''pkg:a'', ''svc:b''] plan_report_new sample_world"
  have run: "plan_only rev sample_primitives sample_registry sample_world = (Inr (fst ?r), snd ?r)"
    by (simp add: plan_only_def sample_order split: prod.splits)
  have "\<exists>p \<in> set (pr_resources (fst ?r)). \<not> is_no_change (rp_diff p)"
    by (simp add: plan_step_def registry_get_def sample_registry_simps sample_resource_def resource_id_new_def
        sample_primitives_def broken_pkg_def happy_svc_def call_primitive_def plan_report_new_def is_no_change_def Let_def)
  then show ?thesis using plan_only_exact [OF sample_registry_inv map_order_rev run] by blast
qed

section \<open>Primitives that converge\<close>

text \<open>A primitive whose phases are programs over the host.\<close>

definition on_host :: "('h, PrimitiveError, 'a) prog \<Rightarrow> ('h world, 'a) prim_call" where
  "on_host m = (\<lambda>w. case m (w_host w) of (r, h) \<Rightarrow> (Returned r, w\<lparr>w_host := h\<rparr>))"

definition host_primitive_of ::
  "(Resource \<Rightarrow> ('h, PrimitiveError, Diff) prog) \<Rightarrow> (Resource \<Rightarrow> Diff \<Rightarrow> ('h, PrimitiveError, ChangeReport) prog) \<Rightarrow>
   'h primitive" where
  "host_primitive_of plan_of apply_of =
     \<lparr>prim_plan = (\<lambda>r. on_host (plan_of r)), prim_apply = (\<lambda>r d. on_host (apply_of r d))\<rparr>"

text \<open>
  The contract of such a primitive: planning only reads; on a host where the resource can be managed
  (\<open>manageable\<close>), a successful apply leaves nothing to do and reports a change exactly when the host changed.
\<close>

locale converging_primitive =
  fixes plan_of :: "Resource \<Rightarrow> ('h, PrimitiveError, Diff) prog"
    and apply_of :: "Resource \<Rightarrow> Diff \<Rightarrow> ('h, PrimitiveError, ChangeReport) prog"
    and manageable :: "Resource \<Rightarrow> 'h \<Rightarrow> bool"
  assumes plan_reads: "plan_of r h = (x, h') \<Longrightarrow> h' = h"
    and apply_converges: "manageable r h \<Longrightarrow> \<not> is_no_change d \<Longrightarrow> apply_of r d h = (Inr rep, h') \<Longrightarrow>
      plan_of r h' = (Inr NoChange, h') \<and> (cr_changed rep \<longleftrightarrow> h' \<noteq> h) \<and> \<not> cr_deferred rep"
begin

lemma plan_call:
  "call_primitive c (prim_plan (host_primitive_of plan_of apply_of) r) w = (fst (plan_of r (w_host w)), w)"
  using plan_reads [of r "w_host w"]
  by (cases "plan_of r (w_host w)") (simp add: call_primitive_def host_primitive_of_def on_host_def)

lemma apply_call:
  "call_primitive c (prim_apply (host_primitive_of plan_of apply_of) r d) w =
     (fst (apply_of r d (w_host w)), w\<lparr>w_host := snd (apply_of r d (w_host w))\<rparr>)"
  by (cases "apply_of r d (w_host w)") (simp add: call_primitive_def host_primitive_of_def on_host_def)

lemma run_settled:
  assumes "plan_of r (w_host w) = (Inr NoChange, h)"
  shows "run_primitive mark_dirty opts (host_primitive_of plan_of apply_of) r i st w =
    (count_no_change (push_outcome i (res_kind r) OutNoChange [] st), w)"
  using assms by (simp add: run_primitive_def plan_call Let_def)

text \<open>After a run that did not fail, running the resource again changes nothing and says so.\<close>

lemma second_run:
  assumes "manageable r (w_host w)" "\<And>k v. w_host (mark_dirty k v) = w_host v"
    and "run_primitive mark_dirty opts (host_primitive_of plan_of apply_of) r i st w = (st1, w1)"
    and "ro_outcome (last (rs_resources st1)) \<in> {OutChanged, OutNoChange}"
  shows "run_primitive mark_dirty opts (host_primitive_of plan_of apply_of) r j st2 w1 =
      (count_no_change (push_outcome j (res_kind r) OutNoChange [] st2), w1) \<and>
    (ro_outcome (last (rs_resources st1)) = OutChanged \<longleftrightarrow> w_host w1 \<noteq> w_host w)"
proof (cases "fst (plan_of r (w_host w))")
  case (Inl e)
  then have False
    using assms(3,4) by (cases e) (auto simp: run_primitive_def plan_call outcome_simps Let_def)
  then show ?thesis ..
next
  case (Inr d)
  then have plan: "plan_of r (w_host w) = (Inr d, w_host w)"
    using plan_reads by (metis prod.collapse)
  show ?thesis
  proof (cases "d = NoChange")
    case True
    then have "w1 = w" "ro_outcome (last (rs_resources st1)) = OutNoChange"
      using run_settled [of r w] plan assms(3) by (auto simp: outcome_simps)
    then show ?thesis using run_settled plan True by simp
  next
    case False
    obtain res h where ap: "apply_of r d (w_host w) = (res, h)" by fastforce
    have fin: "finish_apply opts i (res_kind r) res st ((mark_dirty (res_kind r) w)\<lparr>w_host := h\<rparr>) = (st1, w1)"
      using assms(2,3) plan False ap by (cases d) (auto simp: run_primitive_def plan_call apply_call Let_def)
    obtain rep where rep: "res = Inr rep"
    proof (cases res)
      case (Inl e)
      then have False
        using fin assms(4) by (cases e) (auto simp: finish_apply_def outcome_simps is_deferrable_def Let_def)
      then show ?thesis ..
    qed blast
    have nc: "\<not> is_no_change d" using False by (cases d) (simp_all add: is_no_change_def)
    from apply_converges [OF assms(1) nc] ap rep
    have conv: "plan_of r h = (Inr NoChange, h)" "cr_changed rep \<longleftrightarrow> h \<noteq> w_host w" "\<not> cr_deferred rep" by auto
    have w1: "w_host w1 = h" and out: "ro_outcome (last (rs_resources st1)) = OutChanged \<longleftrightarrow> cr_changed rep"
      using fin rep conv(3) by (auto simp: finish_apply_def outcome_simps split: if_splits)
    show ?thesis using run_settled [of r w1] conv w1 out by simp
  qed
qed

end

end
