(* ===== verification/Facts_Collector.thy ===== *)
theory Facts_Collector
  imports Primitive
begin

text \<open>
  \<open>bosun-facts/src/collector.rs\<close> with the policies of \<open>bosun-core/src/facts.rs\<close>: the fact cache with lazy
  refresh.  A fact is its name, its policy and its \<open>collect\<close>, which reads the host and may panic; the
  individual collectors are parameters.  Clock readings are arguments, in nanoseconds.
\<close>

section \<open>Facts and the cache\<close>

datatype RefreshPolicy = AtStart | AfterApply "ResourceKind list" | AtStartAndAfterApply "ResourceKind list"

record 'h fact =
  fact_name :: string
  fact_policy :: RefreshPolicy
  fact_collect :: "'h \<Rightarrow> panic_payload + FactValue"

record CachedFact =
  cf_value :: FactValue
  cf_collected_at :: nat
  cf_dirty :: bool

type_synonym fact_cache = "string \<Rightarrow> CachedFact option"

definition collect_with_panic_guard :: "'h fact \<Rightarrow> 'h \<Rightarrow> FactValue" where
  "collect_with_panic_guard fct h =
     (case fact_collect fct h of
        Inr v \<Rightarrow> v
      | Inl payload \<Rightarrow> Unknown (''panic: '' @ panic_message payload))"

definition collects_at_start :: "RefreshPolicy \<Rightarrow> bool" where
  "collects_at_start p \<longleftrightarrow> (case p of AtStart \<Rightarrow> True | AtStartAndAfterApply _ \<Rightarrow> True | AfterApply _ \<Rightarrow> False)"

definition collect_at_start :: "'h fact list \<Rightarrow> 'h \<Rightarrow> nat \<Rightarrow> fact_cache \<Rightarrow> fact_cache" where
  "collect_at_start facts h now cache =
     fold (\<lambda>fct cache.
       if collects_at_start (fact_policy fct)
       then cache(fact_name fct \<mapsto>
              \<lparr>cf_value = collect_with_panic_guard fct h, cf_collected_at = now, cf_dirty = False\<rparr>)
       else cache) facts cache"

definition triggered :: "ResourceKind \<Rightarrow> RefreshPolicy \<Rightarrow> bool" where
  "triggered kind p \<longleftrightarrow>
     (case p of AtStart \<Rightarrow> False | AfterApply ts \<Rightarrow> kind \<in> set ts | AtStartAndAfterApply ts \<Rightarrow> kind \<in> set ts)"

definition mark_name_dirty :: "nat \<Rightarrow> string \<Rightarrow> fact_cache \<Rightarrow> fact_cache" where
  "mark_name_dirty now name cache =
     (case cache name of
        Some entry \<Rightarrow> cache(name \<mapsto> entry\<lparr>cf_dirty := True\<rparr>)
      | None \<Rightarrow> cache(name \<mapsto> \<lparr>cf_value = Unknown ''pending after-apply refresh'',
                                cf_collected_at = now, cf_dirty = True\<rparr>))"

definition mark_dirty_after_apply :: "'h fact list \<Rightarrow> nat \<Rightarrow> ResourceKind \<Rightarrow> fact_cache \<Rightarrow> fact_cache" where
  "mark_dirty_after_apply facts now applied_kind cache =
     fold (mark_name_dirty now)
       (map fact_name (filter (\<lambda>f. triggered applied_kind (fact_policy f)) facts)) cache"

text \<open>\<open>FactsSnapshot\<close>: the values as they are.\<close>

definition snapshot_get :: "fact_cache \<Rightarrow> string \<Rightarrow> FactValue" where
  "snapshot_get cache name =
     (case cache name of
        Some cached \<Rightarrow> cf_value cached
      | None \<Rightarrow> Unknown (''unknown fact '' @ [CHR 0x27] @ name @ [CHR 0x27]))"

definition fact_by_name :: "'h fact list \<Rightarrow> string \<Rightarrow> 'h fact option" where
  "fact_by_name facts name = find (\<lambda>f. fact_name f = name) facts"

text \<open>\<open>elapsed().as_millis() as u64\<close>.\<close>

definition age_ms :: "nat \<Rightarrow> nat \<Rightarrow> u64" where
  "age_ms now since = of_nat ((now - since) div 1000000)"

definition upgrade_or_replace :: "nat \<Rightarrow> FactValue \<Rightarrow> FactValue \<Rightarrow> nat \<Rightarrow> FactValue" where
  "upgrade_or_replace now prev fresh prev_collected_at =
     (case (prev, fresh) of
        (_, Known v) \<Rightarrow> Known v
      | (Known prev_v, Unknown _) \<Rightarrow> Stale prev_v (age_ms now prev_collected_at)
      | (Stale v _, Unknown _) \<Rightarrow> Stale v (age_ms now prev_collected_at)
      | (Unknown _, Unknown reason) \<Rightarrow> Unknown reason
      | (_, _) \<Rightarrow> fresh)"

text \<open>
  \<open>FactsView::get\<close>.  \<open>now\<close> is the reading for the age and \<open>now'\<close> the one stored with a fresh value.
  That the cache could lose the entry between its two steps is not possible in this model, as it is
  not in the single-threaded program.
\<close>

definition view_get :: "'h fact list \<Rightarrow> 'h \<Rightarrow> nat \<Rightarrow> nat \<Rightarrow> string \<Rightarrow> fact_cache \<Rightarrow> FactValue \<times> fact_cache" where
  "view_get facts h now now' name cache =
     (case cache name of
        None \<Rightarrow> (Unknown (''unknown fact '' @ [CHR 0x27] @ name @ [CHR 0x27]), cache)
      | Some entry \<Rightarrow>
          (if \<not> cf_dirty entry then (cf_value entry, cache)
           else (case fact_by_name facts name of
                   None \<Rightarrow> (Unknown (''fact '' @ [CHR 0x27] @ name @ [CHR 0x27] @ '' has cache entry but no collector''), cache)
                 | Some fct \<Rightarrow>
                     (let fresh = collect_with_panic_guard fct h;
                          new_value = upgrade_or_replace now (cf_value entry) fresh (cf_collected_at entry);
                          collected_at = (case new_value of Stale _ _ \<Rightarrow> cf_collected_at entry | _ \<Rightarrow> now')
                      in (new_value, cache(name \<mapsto> \<lparr>cf_value = new_value, cf_collected_at = collected_at, cf_dirty = False\<rparr>))))))"

section \<open>Properties\<close>

lemma fold_mark_dirty:
  "fold (mark_name_dirty now) names cache n =
     (if n \<in> set names
      then Some (case cache n of Some entry \<Rightarrow> entry\<lparr>cf_dirty := True\<rparr>
                 | None \<Rightarrow> \<lparr>cf_value = Unknown ''pending after-apply refresh'', cf_collected_at = now, cf_dirty = True\<rparr>)
      else cache n)"
  by (induction names arbitrary: cache)
    (auto simp: mark_name_dirty_def split: option.splits)

lemma fact_by_name_Some:
  assumes "distinct (map fact_name facts)" "f \<in> set facts"
  shows "fact_by_name facts (fact_name f) = Some f"
  using assms by (induction facts) (auto simp: fact_by_name_def)

text \<open>
  No stale reads: after an apply of a kind that a fact depends on has been announced, the next
  read of that fact collects it anew from the host as it is then.  A new known value is
  returned as it is; if the collection fails or panics, the last known value is returned, marked
  stale, with its age counted from when it was collected.  Facts that do not depend
  on the kind are read as before.
\<close>

theorem dirty_fact_is_refreshed:
  assumes "distinct (map fact_name facts)" "f \<in> set facts"
  shows "fst (view_get facts h now now' (fact_name f) (mark_dirty_after_apply facts t kind cache)) =
    (if triggered kind (fact_policy f)
     then (case (cache (fact_name f), collect_with_panic_guard f h) of
             (Some entry, Unknown reason) \<Rightarrow>
               (case fact_value (cf_value entry) of
                  Some old \<Rightarrow> Stale old (age_ms now (cf_collected_at entry))
                | None \<Rightarrow> Unknown reason)
           | (_, fresh) \<Rightarrow> fresh)
     else fst (view_get facts h now now' (fact_name f) cache))"
proof -
  let ?n = "fact_name f" and ?c = "mark_dirty_after_apply facts t kind cache"
  have found: "fact_by_name facts ?n = Some f" using fact_by_name_Some [OF assms] .
  have marked: "?n \<in> set (map fact_name (filter (\<lambda>f. triggered kind (fact_policy f)) facts)) \<longleftrightarrow> triggered kind (fact_policy f)"
    using assms by (auto simp: distinct_map inj_on_def)
  show ?thesis
  proof (cases "triggered kind (fact_policy f)")
    case True
    then have "?c ?n = Some (case cache ?n of Some entry \<Rightarrow> entry\<lparr>cf_dirty := True\<rparr>
        | None \<Rightarrow> \<lparr>cf_value = Unknown ''pending after-apply refresh'', cf_collected_at = t, cf_dirty = True\<rparr>)"
      using marked unfolding mark_dirty_after_apply_def fold_mark_dirty by simp
    then show ?thesis
      using True found
      by (cases "collect_with_panic_guard f h"; cases "cache ?n"; cases "cf_value (the (cache ?n))")
        (simp_all add: view_get_def Let_def upgrade_or_replace_def fact_value_def)
  next
    case False
    then have "?c ?n = cache ?n" using marked unfolding mark_dirty_after_apply_def fold_mark_dirty by simp
    then show ?thesis
      using False found by (cases "cache ?n") (simp_all add: view_get_def Let_def)
  qed
qed

fun view_gets :: "'h fact list \<Rightarrow> (string \<times> 'h \<times> nat \<times> nat) list \<Rightarrow> fact_cache \<Rightarrow> fact_cache" where
  "view_gets facts [] cache = cache"
| "view_gets facts ((name, h, now, now') # reads) cache =
     view_gets facts reads (snd (view_get facts h now now' name cache))"

definition remembered :: "fact_cache \<Rightarrow> string \<Rightarrow> bool" where
  "remembered cache name \<longleftrightarrow> (\<exists>entry. cache name = Some entry \<and> fact_value (cf_value entry) \<noteq> None)"

lemma remembered_mark: "remembered cache n \<Longrightarrow> remembered (mark_dirty_after_apply facts t kind cache) n"
  unfolding mark_dirty_after_apply_def remembered_def fold_mark_dirty by auto

lemma upgrade_keeps_value:
  "fact_value prev \<noteq> None \<Longrightarrow> fact_value (upgrade_or_replace now prev fresh at) \<noteq> None"
  by (cases prev; cases fresh) (simp_all add: upgrade_or_replace_def fact_value_def)

lemma remembered_get: "remembered cache n \<Longrightarrow> remembered (snd (view_get facts h now now' name cache)) n"
proof -
  assume r: "remembered cache n"
  show ?thesis
  proof (cases "name = n")
    case True
    then show ?thesis
      using r upgrade_keeps_value
      by (auto simp: view_get_def remembered_def Let_def split: option.splits)
  next
    case False
    then show ?thesis
      using r by (auto simp: view_get_def remembered_def Let_def split: option.splits)
  qed
qed

lemma remembered_gets: "remembered cache n \<Longrightarrow> remembered (view_gets facts reads cache) n"
  by (induction facts reads cache rule: view_gets.induct) (auto intro: remembered_get)

text \<open>
  A value that was once known is never lost: from then on every read of the fact, after any
  number of refreshes and failed collections, returns a known or a stale value.
\<close>

theorem known_fact_survives:
  assumes "cache n = Some entry" "cf_value entry = Known v" "n \<in> set (map fact_name facts)"
  shows "fact_value (fst (view_get facts h now now' n
    (mark_dirty_after_apply facts t kind (view_gets facts reads cache)))) \<noteq> None"
proof -
  have "remembered cache n" using assms(1,2) by (simp add: remembered_def fact_value_def)
  then have r: "remembered (mark_dirty_after_apply facts t kind (view_gets facts reads cache)) n" (is "remembered ?c n")
    by (intro remembered_mark remembered_gets)
  obtain e where e: "?c n = Some e" "fact_value (cf_value e) \<noteq> None" using r by (auto simp: remembered_def)
  obtain f where f: "fact_by_name facts n = Some f"
    using assms(3) by (cases "fact_by_name facts n") (auto simp: fact_by_name_def find_None_iff image_iff)
  show ?thesis
    using e f upgrade_keeps_value by (auto simp: view_get_def Let_def)
qed

section \<open>Sample facts\<close>

definition pg_fact :: "bool fact" where
  "pg_fact = \<lparr>fact_name = ''installed_packages'', fact_policy = AtStartAndAfterApply [''apt.package''],
     fact_collect = (\<lambda>up. if up then Inr (Known (JBool True)) else Inl (StaticStr ''boom''))\<rparr>"

theorem dirty_fact_is_refreshed_witness:
  "fst (view_get [pg_fact] False 5000000 6000000 ''installed_packages''
     (mark_dirty_after_apply [pg_fact] 0 ''apt.package'' (collect_at_start [pg_fact] True 2000000 (\<lambda>_. None)))) =
   Stale (JBool True) 3"
  using dirty_fact_is_refreshed [of "[pg_fact]" pg_fact False 5000000 6000000 0 "''apt.package''"
      "collect_at_start [pg_fact] True 2000000 (\<lambda>_. None)"]
  by (simp add: pg_fact_def triggered_def collect_at_start_def collects_at_start_def
      collect_with_panic_guard_def fact_value_def age_ms_def)

theorem known_fact_survives_witness:
  "fact_value (fst (view_get [pg_fact] False 5000000 6000000 ''installed_packages''
     (mark_dirty_after_apply [pg_fact] 0 ''apt.package''
       (view_gets [pg_fact] [(''installed_packages'', False, 3, 4)] (collect_at_start [pg_fact] True 2000000 (\<lambda>_. None)))))) \<noteq> None"
  by (rule known_fact_survives
      [where entry = "\<lparr>cf_value = Known (JBool True), cf_collected_at = 2000000, cf_dirty = False\<rparr>" and v = "JBool True"])
    (simp_all add: pg_fact_def collect_at_start_def collects_at_start_def collect_with_panic_guard_def)

end
