(* ===== verification/Path_Safety.thy ===== *)
theory Path_Safety
  imports Std_Path
begin

text \<open>
  \<open>bosun-core/src/path_safety.rs\<close> and \<open>bundle.rs\<close>: which files a bundle can reach.  The file system does
  not change while a path is resolved, and every component can be searched (bosun runs as root).
  The TOML parser and the semver crate are the record \<open>bundle_deps\<close>.
\<close>

section \<open>Resolving a path within a root\<close>

datatype PathSafetyError =
    Absolute string
  | HasParentDir string
  | NulByte
  | PsNotFound "component list"
  | NotInRoot "string list" "string list"
  | IsSymlink "component list"
  | PsIo "component list" fs_error

text \<open>The loop over the components: the first offending one decides.\<close>

fun check_components :: "string \<Rightarrow> component list \<Rightarrow> PathSafetyError option" where
  "check_components relative [] = None"
| "check_components relative (RootDir # cs) = Some (Absolute relative)"
| "check_components relative (ParentDir # cs) = Some (HasParentDir relative)"
| "check_components relative (_ # cs) = check_components relative cs"

definition resolve_within_root ::
  "file_tree \<Rightarrow> string list \<Rightarrow> component list \<Rightarrow> string \<Rightarrow> PathSafetyError + string list" where
  "resolve_within_root t cwd root relative =
     (if CHR 0x00 \<in> set relative then Inl NulByte
      else let rel = path_components relative
      in case check_components relative rel of
           Some e \<Rightarrow> Inl e
         | None \<Rightarrow>
             (case canonicalize t cwd root of
                Inl e \<Rightarrow> Inl (PsIo root e)
              | Inr canonical_root \<Rightarrow>
                  (let candidate = path_join (abs_path canonical_root) relative
                   in case canonicalize t cwd candidate of
                        Inl FsNotFound \<Rightarrow> Inl (PsNotFound candidate)
                      | Inl e \<Rightarrow> Inl (PsIo candidate e)
                      | Inr canonical_candidate \<Rightarrow>
                          (if \<not> prefix canonical_root canonical_candidate
                           then Inl (NotInRoot canonical_root canonical_candidate)
                           else (case lstat t cwd candidate of
                                   Inl e \<Rightarrow> Inl (PsIo candidate e)
                                 | Inr (TLink _) \<Rightarrow> Inl (IsSymlink candidate)
                                 | Inr _ \<Rightarrow> Inr canonical_candidate)))))"

section \<open>Bundles\<close>

datatype BundleError =
    BeIo string fs_error
  | InvalidManifest string
  | EntryNotFound "component list"
  | InvalidYaml string string
  | VersionIncompatible string string
  | ModuleNotFound string "component list"
  | UnsupportedLoadPath string
  | UnsupportedModuleForTemplate "string list"
  | TemplateFromEntry string
  | PrivateSymbol string "string list"
  | BePathSafety PathSafetyError
  | DefaultMergeStrategyMissing

record BundleMetadata =
  bm_name :: string
  bm_version :: string
  bm_description :: "string option"
  bm_requires_bosun :: string
  bm_entry :: string
  bm_default_merge_strategy :: "string option"
  bm_tags :: "(string \<times> string) list"

record Bundle =
  bundle_metadata :: BundleMetadata
  bundle_root :: "string list"
  bundle_entry :: "string list"

text \<open>
  \<open>dep_toml\<close>: the manifest in a TOML text (with \<open>main.star\<close> for a missing entry), or the error text.
  \<open>dep_req_error\<close>, \<open>dep_version_error\<close>: why a text is not a requirement or a version;
  \<open>dep_matches\<close>: whether a version satisfies a requirement.
\<close>

record bundle_deps =
  dep_toml :: "string \<Rightarrow> string + BundleMetadata"
  dep_req_error :: "string \<Rightarrow> string option"
  dep_version_error :: "string \<Rightarrow> string option"
  dep_matches :: "string \<Rightarrow> string \<Rightarrow> bool"

definition read_to_string :: "file_tree \<Rightarrow> string list \<Rightarrow> component list \<Rightarrow> fs_error + string" where
  "read_to_string t cwd p =
     (case canonicalize t cwd p of
        Inl e \<Rightarrow> Inl e
      | Inr names \<Rightarrow> (case t names of Some (TFile s) \<Rightarrow> Inr s | _ \<Rightarrow> Inl (FsOther ''Is a directory'')))"

definition show_names :: "string list \<Rightarrow> string" where
  "show_names names = concat (map (\<lambda>n. CHR ''/'' # n) names)"

definition load_manifest :: "bundle_deps \<Rightarrow> file_tree \<Rightarrow> string list \<Rightarrow> string list \<Rightarrow> BundleError + BundleMetadata" where
  "load_manifest deps t cwd root =
     (let path = root @ [''bundle.toml'']
      in case read_to_string t cwd (abs_path path) of
           Inl e \<Rightarrow> Inl (BeIo (show_names path) e)
         | Inr content \<Rightarrow>
             (case dep_toml deps content of
                Inl e \<Rightarrow> Inl (InvalidManifest (show_names path @ '': '' @ e))
              | Inr m \<Rightarrow> Inr m))"

definition load_dir :: "bundle_deps \<Rightarrow> file_tree \<Rightarrow> string list \<Rightarrow> string \<Rightarrow> BundleError + Bundle" where
  "load_dir deps t cwd path =
     (case canonicalize t cwd (os_path path) of
        Inl e \<Rightarrow> Inl (BeIo path e)
      | Inr canonical_root \<Rightarrow>
          (case load_manifest deps t cwd canonical_root of
             Inl e \<Rightarrow> Inl e
           | Inr m \<Rightarrow>
               (case resolve_within_root t cwd (abs_path canonical_root) (bm_entry m) of
                  Inr p \<Rightarrow> Inr \<lparr>bundle_metadata = m, bundle_root = canonical_root, bundle_entry = p\<rparr>
                | Inl (PsNotFound missing) \<Rightarrow> Inl (EntryNotFound missing)
                | Inl e \<Rightarrow> Inl (BePathSafety e))))"

definition check_compatibility :: "bundle_deps \<Rightarrow> Bundle \<Rightarrow> string \<Rightarrow> BundleError + unit" where
  "check_compatibility deps b current_version =
     (let req = bm_requires_bosun (bundle_metadata b)
      in case dep_req_error deps req of
           Some e \<Rightarrow> Inl (InvalidManifest (''requires_bosun '' @ [CHR 0x27] @ req @ [CHR 0x27] @
             '' is not a valid semver requirement: '' @ e))
         | None \<Rightarrow>
             (case dep_version_error deps current_version of
                Some e \<Rightarrow> Inl (InvalidManifest (''current version '' @ [CHR 0x27] @ current_version @ [CHR 0x27] @
                  '' is not valid semver: '' @ e))
              | None \<Rightarrow>
                  (if \<not> dep_matches deps req current_version then Inl (VersionIncompatible req current_version)
                   else Inr ())))"

definition resolve_module :: "file_tree \<Rightarrow> string list \<Rightarrow> Bundle \<Rightarrow> string \<Rightarrow> BundleError + string list" where
  "resolve_module t cwd b load_path =
     (let relative = (case strip_prefix_str ''@roles/'' load_path of
              Some name \<Rightarrow> Some (''roles/'' @ name @ ''/main.star'')
            | None \<Rightarrow> (case strip_prefix_str ''@lib/'' load_path of
                         Some name \<Rightarrow> Some (''_lib/'' @ name @ ''/main.star'')
                       | None \<Rightarrow> None))
      in case relative of
           None \<Rightarrow> Inl (UnsupportedLoadPath load_path)
         | Some rel \<Rightarrow>
             (case resolve_within_root t cwd (abs_path (bundle_root b)) rel of
                Inr p \<Rightarrow> Inr p
              | Inl (PsNotFound missing) \<Rightarrow> Inl (ModuleNotFound load_path missing)
              | Inl e \<Rightarrow> Inl (BePathSafety e)))"

definition templates_dir_for_module :: "string list \<Rightarrow> string list \<Rightarrow> string list option" where
  "templates_dir_for_module root module =
     (if prefix root module
      then (case drop (length root) module of
              [area, name, leaf] \<Rightarrow>
                (if leaf = ''main.star'' \<and> (area = ''roles'' \<or> area = ''_lib'')
                 then Some (root @ [area, name, ''templates'']) else None)
            | _ \<Rightarrow> None)
      else None)"

definition resolve_template ::
  "file_tree \<Rightarrow> string list \<Rightarrow> Bundle \<Rightarrow> string list \<Rightarrow> string \<Rightarrow> BundleError + string list" where
  "resolve_template t cwd b module template_rel =
     (if module = bundle_entry b then Inl (TemplateFromEntry ''move rendering into a role or @lib module'')
      else if prefix ''@'' template_rel \<or> CHR '':'' \<in> set template_rel
      then Inl (BePathSafety (HasParentDir template_rel))
      else (case templates_dir_for_module (bundle_root b) module of
              None \<Rightarrow> Inl (UnsupportedModuleForTemplate module)
            | Some templates_dir \<Rightarrow>
                (case resolve_within_root t cwd (abs_path templates_dir) template_rel of
                   Inl e \<Rightarrow> Inl (BePathSafety e)
                 | Inr p \<Rightarrow> Inr p)))"

section \<open>A bundle on disk\<close>

text \<open>
  \<open>/srv/b\<close> with an entry and a role \<open>web\<close>, whose templates are a directory of their own or a link to \<open>/etc\<close>.
\<close>

definition bundle_tree :: "bool \<Rightarrow> file_tree" where
  "bundle_tree linked = map_of
     [([''srv''], TDir), ([''srv'', ''b''], TDir), ([''etc''], TDir), ([''etc'', ''shadow''], TFile ''secret''),
      ([''srv'', ''b'', ''bundle.toml''], TFile ''manifest''), ([''srv'', ''b'', ''main.star''], TFile []),
      ([''srv'', ''b'', ''roles''], TDir), ([''srv'', ''b'', ''roles'', ''web''], TDir),
      ([''srv'', ''b'', ''roles'', ''web'', ''main.star''], TFile []),
      ([''srv'', ''b'', ''roles'', ''web'', ''templates''],
         if linked then TLink ''/etc'' else TDir),
      ([''srv'', ''b'', ''roles'', ''web'', ''templates'', ''a.conf''], TFile ''conf'')]"

definition sample_metadata :: BundleMetadata where
  "sample_metadata = \<lparr>bm_name = ''demo'', bm_version = ''0.1.0'', bm_description = None,
     bm_requires_bosun = ''^0.1'', bm_entry = ''main.star'', bm_default_merge_strategy = None, bm_tags = []\<rparr>"

definition sample_bundle_deps :: bundle_deps where
  "sample_bundle_deps = \<lparr>dep_toml = (\<lambda>content. if content = ''manifest'' then Inr sample_metadata else Inl ''no table''),
     dep_req_error = (\<lambda>_. None), dep_version_error = (\<lambda>_. None), dep_matches = (\<lambda>req v. True)\<rparr>"

definition sample_bundle :: Bundle where
  "sample_bundle = \<lparr>bundle_metadata = sample_metadata, bundle_root = [''srv'', ''b''],
     bundle_entry = [''srv'', ''b'', ''main.star'']\<rparr>"

section \<open>Properties\<close>

lemmas path_eval = canonicalize_def MAX_LINKS_def abs_path_def bundle_tree_def path_components_def component_of_def
  os_path_def path_join_def ends_open_def lstat_def

lemma sample_bundle_loads: "load_dir sample_bundle_deps (bundle_tree linked) [] ''/srv/b'' = Inr sample_bundle"
  by (simp add: load_dir_def load_manifest_def read_to_string_def resolve_within_root_def sample_bundle_deps_def
      sample_metadata_def sample_bundle_def path_eval)

lemma check_components_None:
  "check_components s cs = None \<longleftrightarrow> RootDir \<notin> set cs \<and> ParentDir \<notin> set cs"
  by (induction s cs rule: check_components.induct) auto

lemma check_components_error: "check_components s cs = Some e \<Longrightarrow> e = Absolute s \<or> e = HasParentDir s"
  by (induction s cs rule: check_components.induct) auto

text \<open>What a successful resolution promises.\<close>

lemma resolve_within_root_Inr:
  assumes "resolve_within_root t cwd root relative = Inr p"
  obtains canonical_root where "canonicalize t cwd root = Inr canonical_root"
    "prefix canonical_root p" "resolved t p"
    "RootDir \<notin> set (path_components relative)" "ParentDir \<notin> set (path_components relative)"
    "\<And>target. lstat t cwd (path_join (abs_path canonical_root) relative) \<noteq> Inr (TLink target)"
proof -
  have chk: "check_components relative (path_components relative) = None"
    using assms by (auto simp: resolve_within_root_def Let_def split: if_splits option.splits)
  obtain cr where cr: "canonicalize t cwd root = Inr cr"
    using assms chk by (auto simp: resolve_within_root_def Let_def split: if_splits sum.splits)
  let ?c = "path_join (abs_path cr) relative"
  have p: "canonicalize t cwd ?c = Inr p" "prefix cr p"
    using assms chk cr
    by (auto simp: resolve_within_root_def Let_def split: if_splits sum.splits fs_error.splits tree_node.splits)
  have l: "lstat t cwd ?c \<noteq> Inr (TLink target)" for target
    using assms chk cr p
    by (auto simp: resolve_within_root_def Let_def split: if_splits)
  have ok: "RootDir \<notin> set (path_components relative)" "ParentDir \<notin> set (path_components relative)"
    using chk by (simp_all add: check_components_None)
  have "realpath t MAX_LINKS [] (tl ?c) = Inr p"
    using p(1) ok by (simp add: canonicalize_def path_join_def abs_path_def)
  then have "resolved t p" by (rule realpath_resolved) simp
  with that cr p ok l show ?thesis by blast
qed

text \<open>
  No path escapes its root: a path that \<open>resolve_within_root\<close> accepts is relative and without
  parent steps, and what it returns lies below the canonical root, consists of real
  directories down to an existing file or directory (no symbolic link remains in it);
  canonicalizing it again changes nothing.  The last name of the path itself is not a link, unless the
  path ends in a slash or \<open>.\<close>, which makes the kernel look at the directory behind the link.
\<close>

theorem resolve_within_root_contained:
  assumes "resolve_within_root t cwd root relative = Inr p"
  shows "\<exists>canonical_root. canonicalize t cwd root = Inr canonical_root \<and> prefix canonical_root p \<and>
    resolved t p \<and> canonicalize t cwd (abs_path p) = Inr p \<and>
    RootDir \<notin> set (path_components relative) \<and> ParentDir \<notin> set (path_components relative) \<and>
    CHR 0x00 \<notin> set relative \<and>
    (\<forall>target. lstat t cwd (path_join (abs_path canonical_root) relative) \<noteq> Inr (TLink target))"
proof -
  have "CHR 0x00 \<notin> set relative" using assms by (auto simp: resolve_within_root_def)
  with assms show ?thesis
    by (elim resolve_within_root_Inr) (auto intro: canonicalize_resolved)
qed

theorem resolve_within_root_contained_witness:
  "\<exists>canonical_root. canonicalize (bundle_tree False) [] (abs_path [''srv'', ''b'']) = Inr canonical_root \<and>
    prefix canonical_root [''srv'', ''b'', ''roles'', ''web'', ''main.star''] \<and>
    resolved (bundle_tree False) [''srv'', ''b'', ''roles'', ''web'', ''main.star'']"
proof -
  have "resolve_within_root (bundle_tree False) [] (abs_path [''srv'', ''b'']) ''./roles//web/main.star'' =
      Inr [''srv'', ''b'', ''roles'', ''web'', ''main.star'']"
    by (simp add: resolve_within_root_def path_eval)
  from resolve_within_root_contained [OF this] show ?thesis by blast
qed

text \<open>
  C34. What a bundle can reach: for a bundle that \<open>load_dir\<close> returned, the root is canonical, the entry lies below it,
  a module path resolves only below the root and only for the two supported prefixes, and a
  template resolves only for a module \<open>roles/<name>/main.star\<close> or \<open>_lib/<name>/main.star\<close>,
  never for the entry, and only below the canonical form of that module's own templates directory.
\<close>

theorem bundle_contained:
  assumes "load_dir deps t cwd path = Inr b" "dirs t cwd"
  shows "resolved t (bundle_root b) \<and> prefix (bundle_root b) (bundle_entry b) \<and> resolved t (bundle_entry b) \<and>
    (\<forall>load_path p. resolve_module t cwd b load_path = Inr p \<longrightarrow>
      prefix (bundle_root b) p \<and> resolved t p \<and> (prefix ''@roles/'' load_path \<or> prefix ''@lib/'' load_path)) \<and>
    (\<forall>module rel p. resolve_template t cwd b module rel = Inr p \<longrightarrow>
      module \<noteq> bundle_entry b \<and>
      (\<exists>area name dir. (area = ''roles'' \<or> area = ''_lib'') \<and> module = bundle_root b @ [area, name, ''main.star''] \<and>
         canonicalize t cwd (abs_path (bundle_root b @ [area, name, ''templates''])) = Inr dir \<and>
         prefix dir p \<and> resolved t p))"
proof (intro conjI allI impI)
  have root: "\<exists>p. canonicalize t cwd p = Inr (bundle_root b)"
    and entry: "resolve_within_root t cwd (abs_path (bundle_root b)) (bm_entry (bundle_metadata b)) = Inr (bundle_entry b)"
    using assms(1) by (auto simp: load_dir_def split: sum.splits PathSafetyError.splits)
  show root_resolved: "resolved t (bundle_root b)"
    using root assms(2) by (auto simp: canonicalize_def split: if_splits intro: realpath_resolved)
  have same: "canonicalize t cwd (abs_path (bundle_root b)) = Inr (bundle_root b)"
    using root_resolved by (rule canonicalize_resolved)
  show "prefix (bundle_root b) (bundle_entry b)" "resolved t (bundle_entry b)"
    using entry same by (auto elim!: resolve_within_root_Inr)
  fix load_path p assume *: "resolve_module t cwd b load_path = Inr p"
  then obtain rel where rel: "resolve_within_root t cwd (abs_path (bundle_root b)) rel = Inr p"
    by (auto simp: resolve_module_def Let_def split: option.splits sum.splits PathSafetyError.splits)
  with same show "prefix (bundle_root b) p" "resolved t p"
    by (auto elim!: resolve_within_root_Inr)
  show "prefix ''@roles/'' load_path \<or> prefix ''@lib/'' load_path"
    using * by (auto simp: resolve_module_def strip_prefix_str_def Let_def split: if_splits)
next
  fix module rel p assume *: "resolve_template t cwd b module rel = Inr p"
  then show "module \<noteq> bundle_entry b" by (auto simp: resolve_template_def)
  from * obtain dir where dir: "templates_dir_for_module (bundle_root b) module = Some dir"
    and r: "resolve_within_root t cwd (abs_path dir) rel = Inr p"
    by (auto simp: resolve_template_def split: if_splits option.splits sum.splits)
  from dir obtain area name where area: "area = ''roles'' \<or> area = ''_lib''"
    and m: "module = bundle_root b @ [area, name, ''main.star'']"
    and d: "dir = bundle_root b @ [area, name, ''templates'']"
    by (auto simp: templates_dir_for_module_def prefix_def split: if_splits list.splits)
  with r show "\<exists>area name dir. (area = ''roles'' \<or> area = ''_lib'') \<and> module = bundle_root b @ [area, name, ''main.star''] \<and>
         canonicalize t cwd (abs_path (bundle_root b @ [area, name, ''templates''])) = Inr dir \<and>
         prefix dir p \<and> resolved t p"
    by (elim resolve_within_root_Inr) blast
qed

theorem bundle_contained_witness:
  "resolve_template (bundle_tree False) [] sample_bundle [''srv'', ''b'', ''roles'', ''web'', ''main.star''] ''a.conf'' =
     Inr [''srv'', ''b'', ''roles'', ''web'', ''templates'', ''a.conf''] \<and>
   resolved (bundle_tree False) [''srv'', ''b'', ''roles'', ''web'', ''templates'', ''a.conf'']"
proof -
  have 1: "resolve_template (bundle_tree False) [] sample_bundle [''srv'', ''b'', ''roles'', ''web'', ''main.star''] ''a.conf'' =
     Inr [''srv'', ''b'', ''roles'', ''web'', ''templates'', ''a.conf'']"
    by (simp add: resolve_template_def resolve_within_root_def templates_dir_for_module_def sample_bundle_def path_eval)
  then show ?thesis using bundle_contained [OF sample_bundle_loads [of False] dirs_Nil] by blast
qed

text \<open>
  The templates directory is itself resolved through links, so the bound of a template is the place the
  link points to and not the bundle: with \<open>roles/web/templates\<close> linked to \<open>/etc\<close>, \<open>template\<close> in
  \<open>roles/web/main.star\<close> reads a file outside the bundle, while the same file is refused as a module and
  as an entry path through the link.
\<close>

theorem template_link_leaves_bundle:
  "load_dir sample_bundle_deps (bundle_tree True) [] ''/srv/b'' = Inr sample_bundle \<and>
   resolve_template (bundle_tree True) [] sample_bundle [''srv'', ''b'', ''roles'', ''web'', ''main.star''] ''shadow'' =
     Inr [''etc'', ''shadow''] \<and>
   \<not> prefix (bundle_root sample_bundle) [''etc'', ''shadow''] \<and>
   resolve_within_root (bundle_tree True) [] (abs_path (bundle_root sample_bundle)) ''roles/web/templates/shadow'' =
     Inl (NotInRoot [''srv'', ''b''] [''etc'', ''shadow''])"
  using sample_bundle_loads [of True]
  by (simp add: resolve_template_def resolve_within_root_def templates_dir_for_module_def sample_bundle_def path_eval)

end
