(* ===== verification/Unit_Name.thy ===== *)
theory Unit_Name
  imports Resource_Registry Defer_Format Std_Path
begin

text \<open>
  \<open>bosun-core/src/unit_name.rs\<close>: the validated name of a unit, which ends up in a file name of
  the defer journal, in a URL path of the runr API and in payloads.  A \<open>char\<close> of Rust is its UTF-8
  bytes here, since strings are byte strings.
\<close>

section \<open>Validation\<close>

datatype UnitNameError =
    UnEmpty
  | UnTooLong nat
  | UnInvalidChar string nat string
  | UnBadFirstChar string string

definition UNIT_NAME_MAX_BYTES :: nat where
  "UNIT_NAME_MAX_BYTES = 255"

text \<open>\<open>chars().next()\<close>: the bytes of the first scalar value, by its leading byte.\<close>

definition first_char :: "string \<Rightarrow> string" where
  "first_char s =
     (case s of [] \<Rightarrow> []
      | b # _ \<Rightarrow> take (if b < CHR 0x80 then 1 else if b < CHR 0xE0 then 2 else if b < CHR 0xF0 then 3 else 4) s)"

definition is_alphanumeric_ascii :: "char \<Rightarrow> bool" where
  "is_alphanumeric_ascii c \<longleftrightarrow> is_ascii_lowercase c \<or> is_ascii_uppercase c \<or> is_ascii_digit c"

definition is_allowed_byte :: "char \<Rightarrow> bool" where
  "is_allowed_byte b \<longleftrightarrow> is_ascii_lowercase b \<or> is_ascii_uppercase b \<or> is_ascii_digit b \<or>
     b = CHR ''.'' \<or> b = CHR ''_'' \<or> b = CHR ''@'' \<or> b = CHR ''-''"

text \<open>The loop over the bytes, with the offset of the next one.\<close>

fun check_bytes :: "string \<Rightarrow> nat \<Rightarrow> string \<Rightarrow> UnitNameError + unit" where
  "check_bytes s offset [] = Inr ()"
| "check_bytes s offset (b # bs) =
     (if \<not> is_allowed_byte b
      then Inl (UnInvalidChar s offset (if drop offset s = [] then ''?'' else first_char (drop offset s)))
      else check_bytes s (Suc offset) bs)"

definition unit_name_validate :: "string \<Rightarrow> UnitNameError + unit" where
  "unit_name_validate s =
     (if s = [] then Inl UnEmpty
      else if length s > UNIT_NAME_MAX_BYTES then Inl (UnTooLong (length s))
      else if \<not> is_alphanumeric_ascii (hd s) then Inl (UnBadFirstChar s (first_char s))
      else check_bytes s 0 s)"

definition unit_name_new :: "string \<Rightarrow> UnitNameError + string" where
  "unit_name_new s = (case unit_name_validate s of Inl e \<Rightarrow> Inl e | Inr _ \<Rightarrow> Inr s)"

text \<open>\<open>Deserialize\<close> and \<open>Serialize\<close>.\<close>

definition unit_name_of_json :: "json \<Rightarrow> string option" where
  "unit_name_of_json v =
     (case de_string v of
        None \<Rightarrow> None
      | Some raw \<Rightarrow> (case unit_name_new raw of Inl _ \<Rightarrow> None | Inr n \<Rightarrow> Some n))"

definition unit_name_to_json :: "string \<Rightarrow> json" where
  "unit_name_to_json n = JString n"

section \<open>What a valid name is\<close>

lemma check_bytes_ok: "check_bytes s offset bs = Inr () \<longleftrightarrow> list_all is_allowed_byte bs"
  by (induction bs arbitrary: offset) auto

lemma check_bytes_first_bad:
  "list_all is_allowed_byte xs \<Longrightarrow> \<not> is_allowed_byte b \<Longrightarrow>
   check_bytes s offset (xs @ b # bs) =
     Inl (UnInvalidChar s (offset + length xs)
       (if drop (offset + length xs) s = [] then ''?'' else first_char (drop (offset + length xs) s)))"
  by (induction xs arbitrary: offset) auto

lemma alphanumeric_allowed: "is_alphanumeric_ascii c \<Longrightarrow> is_allowed_byte c"
  by (auto simp: is_alphanumeric_ascii_def is_allowed_byte_def)

definition valid_unit_name :: "string \<Rightarrow> bool" where
  "valid_unit_name n \<longleftrightarrow> n \<noteq> [] \<and> length n \<le> 255 \<and> is_alphanumeric_ascii (hd n) \<and> list_all is_allowed_byte n"

lemma unit_name_new_Inr: "unit_name_new s = Inr n \<longleftrightarrow> n = s \<and> valid_unit_name s"
  using check_bytes_ok [of s 0 s]
  by (auto simp: unit_name_new_def unit_name_validate_def valid_unit_name_def UNIT_NAME_MAX_BYTES_def
      split: sum.splits if_splits)

lemma is_allowed_byte_not: "\<not> is_allowed_byte (CHR ''/'')" "\<not> is_allowed_byte (CHR '':'')"
    "\<not> is_allowed_byte (CHR ''%'')" "\<not> is_allowed_byte (CHR 0x00)"
  by (simp_all add: is_allowed_byte_def is_ascii_lowercase_def is_ascii_uppercase_def is_ascii_digit_def
      less_eq_char_def)

lemma valid_unit_name_chars: "valid_unit_name n \<Longrightarrow> c \<in> set n \<Longrightarrow> is_allowed_byte c"
  by (auto simp: valid_unit_name_def list_all_iff)

lemma split_on_absent: "c \<notin> set s \<Longrightarrow> split_on c s = [s]"
  by (induction s) auto

lemma valid_unit_name_component:
  assumes "valid_unit_name n"
  shows "path_components n = [Normal n]"
proof -
  have noslash: "CHR ''/'' \<notin> set n" using valid_unit_name_chars [OF assms] is_allowed_byte_not by blast
  have "is_alphanumeric_ascii (hd n)" "n \<noteq> []" using assms by (simp_all add: valid_unit_name_def)
  moreover have "\<not> is_alphanumeric_ascii (CHR ''.'')" "\<not> is_alphanumeric_ascii (CHR ''/'')"
    by (simp_all add: is_alphanumeric_ascii_def is_ascii_lowercase_def is_ascii_uppercase_def is_ascii_digit_def
        less_eq_char_def)
  ultimately have "n \<noteq> ''.''" "n \<noteq> ''..''" "hd n \<noteq> CHR ''/''" by auto
  then show ?thesis
    using noslash \<open>n \<noteq> []\<close> by (simp add: path_components_def split_on_absent component_of_def)
qed

section \<open>Properties\<close>

text \<open>
  C35. \<open>UnitName::new\<close> accepts exactly the names of the documented pattern
  \<open>[a-zA-Z0-9][a-zA-Z0-9._@-]*\<close> of at most 255 bytes, returns them unchanged, and serialising an
  accepted name and reading it back gives it again.  An accepted name is one ordinary path component, never
  \<open>.\<close> or \<open>..\<close>; a rejected one that is not empty, not too long and starts well is rejected
  for its first bad byte, at its offset.
\<close>

theorem unit_name_new_exact:
  "(case unit_name_new s of
      Inr n \<Rightarrow> n = s \<and> valid_unit_name s \<and> unit_name_of_json (unit_name_to_json n) = Some n \<and>
        path_components n = [Normal n]
    | Inl UnEmpty \<Rightarrow> s = []
    | Inl (UnTooLong k) \<Rightarrow> k = length s \<and> k > 255
    | Inl (UnBadFirstChar input ch) \<Rightarrow> input = s \<and> s \<noteq> [] \<and> \<not> is_alphanumeric_ascii (hd s)
    | Inl (UnInvalidChar input offset ch) \<Rightarrow> input = s \<and> offset < length s \<and> \<not> is_allowed_byte (s ! offset) \<and>
        (\<exists>rest. s = take offset s @ ch @ rest) \<and> list_all is_allowed_byte (take offset s))"
proof (cases "unit_name_new s")
  case (Inr n)
  then have "n = s" "valid_unit_name s" by (simp_all add: unit_name_new_Inr)
  then show ?thesis
    using Inr valid_unit_name_component [of s] by (simp add: unit_name_of_json_def unit_name_to_json_def)
next
  case (Inl e)
  have bytes: ?thesis if "check_bytes s 0 s = Inl e"
  proof -
    have "\<not> list_all is_allowed_byte s" using check_bytes_ok [of s 0 s] that by auto
    then have "takeWhile is_allowed_byte s \<noteq> s"
      by (auto simp: takeWhile_eq_all_conv list_all_iff)
    then obtain b bs where s: "s = takeWhile is_allowed_byte s @ b # bs" and b: "\<not> is_allowed_byte b"
      by (metis append.right_neutral dropWhile_eq_Cons_conv list.exhaust takeWhile_dropWhile_id)
    let ?xs = "takeWhile is_allowed_byte s"
    have xs: "list_all is_allowed_byte ?xs" by (auto simp: list_all_iff dest: set_takeWhileD)
    have drp: "drop (length ?xs) s = b # bs" by (subst (2) s) simp
    have tk: "take (length ?xs) s = ?xs" by (subst (2) s) simp
    have nth: "s ! length ?xs = b" by (subst s) simp
    have len: "length ?xs < length s" by (subst (2) s) simp
    have "check_bytes s 0 (?xs @ b # bs) = Inl (UnInvalidChar s (length ?xs) (first_char (b # bs)))"
      using check_bytes_first_bad [OF xs b, of s 0 bs] drp by simp
    then have e: "e = UnInvalidChar s (length ?xs) (first_char (b # bs))" using that s by simp
    obtain rest where rest: "b # bs = first_char (b # bs) @ rest"
      unfolding first_char_def list.case by (metis append_take_drop_id)
    have "s = take (length ?xs) s @ drop (length ?xs) s" by simp
    then have "s = take (length ?xs) s @ first_char (b # bs) @ rest"
      unfolding drp using rest by simp
    then have ch: "\<exists>rest. s = take (length ?xs) s @ first_char (b # bs) @ rest" by blast
    have ok: "list_all is_allowed_byte (take (length ?xs) s)" unfolding tk by (rule xs)
    have bad: "\<not> is_allowed_byte (s ! length ?xs)" unfolding nth by (rule b)
    show ?thesis unfolding Inl e by (simp only: sum.case UnitNameError.case) (intro conjI refl len bad ch ok)
  qed
  show ?thesis
    using Inl bytes by (auto simp: unit_name_new_def unit_name_validate_def UNIT_NAME_MAX_BYTES_def
        split: if_splits sum.splits)
qed

text \<open>The actions on a unit, and the names of the init systems.\<close>

definition unit_action :: "DeferAction \<Rightarrow> bool" where
  "unit_action act \<longleftrightarrow> act \<in> {Start, Stop, Restart, Reload, ReloadOrRestart}"

definition plain_init :: "string \<Rightarrow> bool" where
  "plain_init i \<longleftrightarrow> CHR ''.'' \<notin> set i \<and> CHR '':'' \<notin> set i \<and> CHR ''/'' \<notin> set i"

lemma plain_init_known: "plain_init ''systemd''" "plain_init ''runr''" "plain_init []"
  by (simp_all add: plain_init_def)

lemma make_id_unit: "unit_action act \<Longrightarrow> make_id i act t = i @ ''.'' @ filename_slug act @ '':'' @ t"
  by (auto simp: unit_action_def make_id_def)

lemma filename_slug_chars: "unit_action act \<Longrightarrow> CHR '':'' \<notin> set (filename_slug act) \<and> CHR ''/'' \<notin> set (filename_slug act)"
  by (auto simp: unit_action_def)

lemma filename_slug_inj:
  "unit_action act \<Longrightarrow> unit_action act' \<Longrightarrow> filename_slug act = filename_slug act' \<Longrightarrow> act = act'"
  by (auto simp: unit_action_def)

text \<open>Two texts that are the same around a separator missing on the left are the same on both sides.\<close>

lemma append_sep_inj: "c \<notin> set xs \<Longrightarrow> c \<notin> set xs' \<Longrightarrow> xs @ c # ys = xs' @ c # ys' \<Longrightarrow> xs = xs' \<and> ys = ys'"
proof (induction xs arbitrary: xs')
  case Nil
  then show ?case by (cases xs') auto
next
  case (Cons x xs)
  then show ?case by (cases xs') auto
qed

text \<open>
  The identifier under which an action on a unit waits in the journal determines the init
  system, the action and the unit, so two different requests never share a file; and the file name of an entry for a
  valid unit name is one ordinary component of a path, so it stays inside the journal's directory.  Its
  length is that of the unit name plus 14 and the init system and the action: 258 for a name of 235 bytes on
  runr, so a valid unit name gives a file name beyond the 255 bytes of the limit that the name check is meant to keep.
\<close>

theorem unit_entry_filename:
  assumes "unit_action act" "plain_init i" "i \<noteq> []" "valid_unit_name t"
    and "entry_id e = make_id i act t" "entry_priority e = default_priority act"
  shows "path_components (entry_filename e) = [Normal (entry_filename e)] \<and>
    length (entry_filename e) = length t + length i + length (filename_slug act) + 14 \<and>
    (\<forall>i' act' t'. unit_action act' \<and> plain_init i' \<and> make_id i' act' t' = entry_id e \<longrightarrow> i' = i \<and> act' = act \<and> t' = t)"
proof (intro conjI allI impI)
  let ?n = "entry_filename e"
  have n: "?n = sortkey (default_priority act) @ ''-'' @ i @ ''.'' @ filename_slug act @ '':'' @ t @ ''.deferred''"
    using assms(1,5,6) by (simp add: entry_filename_def make_id_unit)
  have slash: "CHR ''/'' \<notin> set ?n"
    using assms(2) filename_slug_chars [OF assms(1)] valid_unit_name_chars [OF assms(4)] is_allowed_byte_not(1)
    by (cases "default_priority act") (auto simp: n plain_init_def)
  have "?n \<noteq> []" "hd ?n \<noteq> CHR ''/''" "hd ?n \<noteq> CHR ''.''"
    by (cases "default_priority act"; simp add: n)+
  then show "path_components ?n = [Normal ?n]"
    using slash by (auto simp: path_components_def split_on_absent component_of_def)
  show "length ?n = length t + length i + length (filename_slug act) + 14"
    by (cases "default_priority act") (simp_all add: n)
  fix i' act' t' assume *: "unit_action act' \<and> plain_init i' \<and> make_id i' act' t' = entry_id e"
  then have "i' @ CHR ''.'' # filename_slug act' @ CHR '':'' # t' = i @ CHR ''.'' # filename_slug act @ CHR '':'' # t"
    using assms(1,5) make_id_unit [of act' i' t'] by (simp add: make_id_unit)
  then have i: "i' = i" and rest: "filename_slug act' @ CHR '':'' # t' = filename_slug act @ CHR '':'' # t"
    using append_sep_inj [of "CHR ''.''" i' i] * assms(2) by (simp_all add: plain_init_def)
  from rest have "filename_slug act' = filename_slug act \<and> t' = t"
    using append_sep_inj [of "CHR '':''" "filename_slug act'" "filename_slug act" t' t] * filename_slug_chars assms(1)
    by blast
  with i show "i' = i" "act' = act" "t' = t" using filename_slug_inj * assms(1) by blast+
qed

definition long_unit_entry :: DeferEntry where
  "long_unit_entry = \<lparr>entry_spec_version = 1, entry_id = make_id ''runr'' Start (replicate 235 (CHR ''a'')),
     entry_action = Start, entry_init_system = ''runr'', entry_target = replicate 235 (CHR ''a''),
     entry_validate_cmd = None, entry_health_check = None, entry_priority = PRestart,
     entry_enqueued_at = 0, entry_enqueued_by = [], entry_attempt_count = 0, entry_max_attempts = 5\<rparr>"

theorem unit_entry_filename_witness:
  "unit_name_new (replicate 235 (CHR ''a'')) = Inr (replicate 235 (CHR ''a'')) \<and>
   length (entry_filename long_unit_entry) = 258"
proof -
  have a: "is_alphanumeric_ascii (CHR ''a'')"
    by (simp add: is_alphanumeric_ascii_def is_ascii_lowercase_def less_eq_char_def)
  then have "valid_unit_name (replicate 235 (CHR ''a''))"
    by (simp add: valid_unit_name_def list_all_iff alphanumeric_allowed)
  then show ?thesis
    using unit_entry_filename [of Start "''runr''" "replicate 235 (CHR ''a'')" long_unit_entry] plain_init_known
    by (simp add: unit_name_new_Inr long_unit_entry_def unit_action_def)
qed

end
