(* ===== verification/Runr_Client.thy ===== *)
theory Runr_Client
  imports Unit_Name Pacer "HOL-Library.Monad_Syntax"
begin

text \<open>
  \<open>bosun-runr-client\<close>: the requests of the runr HTTP client (\<open>client.rs\<close>), the classification of its
  errors (\<open>error.rs\<close>) and the polling loops that verify a restart or a start (\<open>verify.rs\<close>).

  The HTTP agent, the clock, \<open>thread::sleep\<close> and the JSON parser are the record \<open>runr_net\<close> over a
  world that contains the daemon.  The polling loops end only because time passes, so they are
  \<open>partial_function (option)\<close>, with \<open>None\<close> for a loop that never ends.
\<close>

section \<open>Types\<close>

text \<open>The fields of a service status that bosun reads; the others are informative.\<close>

record ServiceStatus =
  st_name :: string
  st_state :: string
  st_restarts :: u64
  st_pid :: "u32 option"

record ActionAck =
  ack_action_id :: string
  ack_accepted_at :: string
  ack_message :: "string option"

datatype RunrError =
    Unavailable string string
  | ApiError u16 string
  | BadResponse string
  | UnitNotFound string string
  | RestartNotObserved string
  | StartNotObserved string string
  | ServiceStartFailed string
  | RunrIo string

record TimerStatus =
  ts_name :: string
  ts_state :: string
  ts_next_run :: "string option"
  ts_target_service :: string
  ts_enabled :: "bool option"

text \<open>A response body can fail to be read; \<open>ureq\<close> reports a status of 400 and above as an error.\<close>

type_synonym response_body = "string + string"

datatype ureq_error = UreqStatus u16 response_body | UreqTransport string

datatype http_request = HttpGet string | HttpPost string "(string \<times> string) list" json

record 'w runr_net =
  net_call :: "http_request \<Rightarrow> 'w \<Rightarrow> (ureq_error + response_body) \<times> 'w"
  net_now :: "'w \<Rightarrow> nat"
  net_sleep :: "duration \<Rightarrow> 'w \<Rightarrow> 'w"
  net_de_ack :: "string \<Rightarrow> string + ActionAck"
  net_de_statuses :: "string \<Rightarrow> string + ServiceStatus list"
  net_de_timers :: "string \<Rightarrow> string + TimerStatus list"

record runr_client =
  client_base_url :: string

section \<open>Errors\<close>

definition from_ureq :: "ureq_error \<Rightarrow> string \<Rightarrow> (string \<times> string) option \<Rightarrow> RunrError" where
  "from_ureq err base_url unit_lookup =
     (case err of
        UreqStatus status response \<Rightarrow>
          (let body = (case response of Inr s \<Rightarrow> s | Inl e \<Rightarrow> ''<failed to read body: '' @ e @ ''>'')
           in case (status = 404, unit_lookup) of
                (True, Some (kind, name)) \<Rightarrow> UnitNotFound kind name
              | _ \<Rightarrow> ApiError status body)
      | UreqTransport transport \<Rightarrow> Unavailable base_url transport)"

section \<open>Requests\<close>

definition hex_digit :: "nat \<Rightarrow> char" where
  "hex_digit n = ''0123456789ABCDEF'' ! n"

definition unreserved :: "char \<Rightarrow> bool" where
  "unreserved b \<longleftrightarrow> is_ascii_uppercase b \<or> is_ascii_lowercase b \<or> is_ascii_digit b \<or>
     b = CHR ''-'' \<or> b = CHR ''.'' \<or> b = CHR ''_'' \<or> b = CHR ''~'' \<or> b = CHR ''@''"

definition percent_encode_byte :: "char \<Rightarrow> string" where
  "percent_encode_byte b =
     (if unreserved b then [b]
      else [CHR ''%'', hex_digit (of_char b div 16), hex_digit (of_char b mod 16)])"

definition percent_encode_path_segment :: "string \<Rightarrow> string" where
  "percent_encode_path_segment s = concat (map percent_encode_byte s)"

definition trim_end_slashes :: "string \<Rightarrow> string" where
  "trim_end_slashes s = rev (dropWhile (\<lambda>c. c = CHR ''/'') (rev s))"

definition client_new :: "string \<Rightarrow> runr_client" where
  "client_new base_url = \<lparr>client_base_url = trim_end_slashes base_url\<rparr>"

definition parse_json :: "(string \<Rightarrow> string + 'a) \<Rightarrow> response_body \<Rightarrow> RunrError + 'a" where
  "parse_json de response =
     (case response of
        Inl e \<Rightarrow> Inl (RunrIo e)
      | Inr body \<Rightarrow>
          (case de body of
             Inl err \<Rightarrow> Inl (BadResponse (err @ '' (body: '' @ body @ '')''))
           | Inr v \<Rightarrow> Inr v))"

definition get_json ::
  "'w runr_net \<Rightarrow> runr_client \<Rightarrow> (string \<Rightarrow> string + 'a) \<Rightarrow> string \<Rightarrow> (string \<times> string) option \<Rightarrow> ('w, RunrError, 'a) prog" where
  "get_json net c de path unit_lookup = (\<lambda>w.
     case net_call net (HttpGet (client_base_url c @ path)) w of
       (Inl err, w') \<Rightarrow> (Inl (from_ureq err (client_base_url c) unit_lookup), w')
     | (Inr response, w') \<Rightarrow> (parse_json de response, w'))"

definition post_json ::
  "'w runr_net \<Rightarrow> runr_client \<Rightarrow> (string \<Rightarrow> string + 'a) \<Rightarrow> string \<Rightarrow> json \<Rightarrow> (string \<times> string) option \<Rightarrow> ('w, RunrError, 'a) prog" where
  "post_json net c de path body unit_lookup = (\<lambda>w.
     case net_call net (HttpPost (client_base_url c @ path) [(''Content-Type'', ''application/json'')] body) w of
       (Inl err, w') \<Rightarrow> (Inl (from_ureq err (client_base_url c) unit_lookup), w')
     | (Inr response, w') \<Rightarrow> (parse_json de response, w'))"

definition start_options :: "bool \<Rightarrow> json" where
  "start_options idempotent = JObject [(''idempotent'', JBool idempotent)]"

definition stop_options :: "string option \<Rightarrow> bool \<Rightarrow> json" where
  "stop_options timeout force = JObject ((''force'', JBool force) #
     (case timeout of None \<Rightarrow> [] | Some t \<Rightarrow> [(''timeout'', JString t)]))"

definition empty_body :: json where
  "empty_body = JObject []"

text \<open>The path of an action on a unit.\<close>

definition unit_path :: "string \<Rightarrow> string \<Rightarrow> string \<Rightarrow> string" where
  "unit_path collection name verb =
     ''/api/v1/'' @ collection @ ''/'' @ percent_encode_path_segment name @ ''/'' @ verb"

definition daemon_reload :: "'w runr_net \<Rightarrow> runr_client \<Rightarrow> ('w, RunrError, ActionAck) prog" where
  "daemon_reload net c = post_json net c (net_de_ack net) ''/api/v1/units/reload'' empty_body None"

definition service_start :: "'w runr_net \<Rightarrow> runr_client \<Rightarrow> string \<Rightarrow> bool \<Rightarrow> ('w, RunrError, ActionAck) prog" where
  "service_start net c name idempotent =
     post_json net c (net_de_ack net) (unit_path ''services'' name ''start'') (start_options idempotent) (Some (''service'', name))"

definition service_stop ::
  "'w runr_net \<Rightarrow> runr_client \<Rightarrow> string \<Rightarrow> bool \<Rightarrow> string option \<Rightarrow> ('w, RunrError, ActionAck) prog" where
  "service_stop net c name force timeout_humantime =
     post_json net c (net_de_ack net) (unit_path ''services'' name ''stop'') (stop_options timeout_humantime force)
       (Some (''service'', name))"

definition service_restart :: "'w runr_net \<Rightarrow> runr_client \<Rightarrow> string \<Rightarrow> ('w, RunrError, ActionAck) prog" where
  "service_restart net c name =
     post_json net c (net_de_ack net) (unit_path ''services'' name ''restart'')
       (JObject [(''start'', start_options True), (''stop'', stop_options None False)]) (Some (''service'', name))"

definition service_reload :: "'w runr_net \<Rightarrow> runr_client \<Rightarrow> string \<Rightarrow> ('w, RunrError, ActionAck) prog" where
  "service_reload net c name =
     post_json net c (net_de_ack net) (unit_path ''services'' name ''reload'') empty_body (Some (''service'', name))"

definition timer_start :: "'w runr_net \<Rightarrow> runr_client \<Rightarrow> string \<Rightarrow> ('w, RunrError, ActionAck) prog" where
  "timer_start net c name =
     post_json net c (net_de_ack net) (unit_path ''timers'' name ''start'') empty_body (Some (''timer'', name))"

definition timer_stop :: "'w runr_net \<Rightarrow> runr_client \<Rightarrow> string \<Rightarrow> ('w, RunrError, ActionAck) prog" where
  "timer_stop net c name =
     post_json net c (net_de_ack net) (unit_path ''timers'' name ''stop'') empty_body (Some (''timer'', name))"

definition timer_enable :: "'w runr_net \<Rightarrow> runr_client \<Rightarrow> string \<Rightarrow> bool \<Rightarrow> ('w, RunrError, ActionAck) prog" where
  "timer_enable net c name at_once =
     post_json net c (net_de_ack net) (unit_path ''timers'' name ''enable'')
       (JObject [(''now'', JBool at_once)]) (Some (''timer'', name))"

definition timer_disable :: "'w runr_net \<Rightarrow> runr_client \<Rightarrow> string \<Rightarrow> bool \<Rightarrow> ('w, RunrError, ActionAck) prog" where
  "timer_disable net c name at_once =
     post_json net c (net_de_ack net) (unit_path ''timers'' name ''disable'')
       (JObject [(''now'', JBool at_once)]) (Some (''timer'', name))"

definition service_statuses :: "'w runr_net \<Rightarrow> runr_client \<Rightarrow> ('w, RunrError, ServiceStatus list) prog" where
  "service_statuses net c = get_json net c (net_de_statuses net) ''/api/v1/services/statuses'' None"

definition timer_statuses :: "'w runr_net \<Rightarrow> runr_client \<Rightarrow> ('w, RunrError, TimerStatus list) prog" where
  "timer_statuses net c = get_json net c (net_de_timers net) ''/api/v1/timers/statuses'' None"

section \<open>Polling\<close>

definition RUNNING_STATE :: string where
  "RUNNING_STATE = ''Running''"

definition FAILED_STATE :: string where
  "FAILED_STATE = ''Failed''"

definition is_restart_observed :: "ServiceStatus \<Rightarrow> ServiceStatus \<Rightarrow> bool" where
  "is_restart_observed before current =
     (if st_state current \<noteq> RUNNING_STATE then False
      else (case (st_pid before, st_pid current) of
              (Some before_pid, Some current_pid) \<Rightarrow>
                (if before_pid \<noteq> current_pid then True else st_restarts before < st_restarts current)
            | _ \<Rightarrow> st_restarts before < st_restarts current))"

partial_function (option) verify_restart_loop ::
  "'w runr_net \<Rightarrow> runr_client \<Rightarrow> string \<Rightarrow> ServiceStatus \<Rightarrow> duration \<Rightarrow> nat \<Rightarrow> 'w \<Rightarrow>
   ((RunrError + ServiceStatus) \<times> 'w) option" where
  "verify_restart_loop net c name before poll_interval deadline w =
     (case service_statuses net c w of
        (Inl e, w') \<Rightarrow> Some (Inl e, w')
      | (Inr statuses, w') \<Rightarrow>
          (case Option.bind (find (\<lambda>s. st_name s = name) statuses)
                  (\<lambda>current. if is_restart_observed before current then Some current else None) of
             Some current \<Rightarrow> Some (Inr current, w')
           | None \<Rightarrow>
               (if net_now net w' \<ge> deadline then Some (Inl (RestartNotObserved name), w')
                else verify_restart_loop net c name before poll_interval deadline (net_sleep net poll_interval w'))))"

definition verify_restart ::
  "'w runr_net \<Rightarrow> runr_client \<Rightarrow> string \<Rightarrow> ServiceStatus \<Rightarrow> duration \<Rightarrow> duration \<Rightarrow> 'w \<Rightarrow>
   ((RunrError + ServiceStatus) \<times> 'w) option" where
  "verify_restart net c name before poll_interval poll_total w =
     verify_restart_loop net c name before poll_interval (net_now net w + poll_total) w"

text \<open>What one poll of \<open>verify_start\<close> decides.\<close>

definition start_verdict :: "string \<Rightarrow> ServiceStatus list \<Rightarrow> (RunrError + ServiceStatus) option" where
  "start_verdict name statuses =
     (case find (\<lambda>s. st_name s = name) statuses of
        None \<Rightarrow> None
      | Some current \<Rightarrow>
          (if st_state current = RUNNING_STATE then Some (Inr current)
           else if st_state current = FAILED_STATE then Some (Inl (ServiceStartFailed name))
           else None))"

definition seen_state :: "string \<Rightarrow> ServiceStatus list \<Rightarrow> string \<Rightarrow> string" where
  "seen_state name statuses last_state =
     (case find (\<lambda>s. st_name s = name) statuses of None \<Rightarrow> last_state | Some current \<Rightarrow> st_state current)"

partial_function (option) verify_start_loop ::
  "'w runr_net \<Rightarrow> runr_client \<Rightarrow> string \<Rightarrow> duration \<Rightarrow> nat \<Rightarrow> string \<Rightarrow> 'w \<Rightarrow>
   ((RunrError + ServiceStatus) \<times> 'w) option" where
  "verify_start_loop net c name poll_interval deadline last_state w =
     (case service_statuses net c w of
        (Inl e, w') \<Rightarrow> Some (Inl e, w')
      | (Inr statuses, w') \<Rightarrow>
          (case start_verdict name statuses of
             Some r \<Rightarrow> Some (r, w')
           | None \<Rightarrow>
               (if net_now net w' \<ge> deadline
                then Some (Inl (StartNotObserved name (seen_state name statuses last_state)), w')
                else verify_start_loop net c name poll_interval deadline (seen_state name statuses last_state)
                       (net_sleep net poll_interval w'))))"

definition verify_start ::
  "'w runr_net \<Rightarrow> runr_client \<Rightarrow> string \<Rightarrow> duration \<Rightarrow> duration \<Rightarrow> 'w \<Rightarrow>
   ((RunrError + ServiceStatus) \<times> 'w) option" where
  "verify_start net c name poll_interval poll_total w =
     verify_start_loop net c name poll_interval (net_now net w + poll_total) ''Unknown'' w"

section \<open>The polling loops end\<close>

text \<open>A monotone clock and a sleep that does not return early, as \<open>Instant\<close> and \<open>thread::sleep\<close> document.\<close>

definition clock_ok :: "'w runr_net \<Rightarrow> bool" where
  "clock_ok net \<longleftrightarrow>
     (\<forall>rq w. net_now net w \<le> net_now net (snd (net_call net rq w))) \<and>
     (\<forall>d w. net_now net w + d \<le> net_now net (net_sleep net d w))"

lemma service_statuses_time:
  "clock_ok net \<Longrightarrow> service_statuses net c w = (r, w') \<Longrightarrow> net_now net w \<le> net_now net w'"
  unfolding service_statuses_def get_json_def clock_ok_def
  by (cases "net_call net (HttpGet (client_base_url c @ ''/api/v1/services/statuses'')) w"; cases "fst (net_call net (HttpGet (client_base_url c @ ''/api/v1/services/statuses'')) w)")
    (auto, (metis snd_conv)+)

definition status_error :: "'w runr_net \<Rightarrow> runr_client \<Rightarrow> RunrError \<Rightarrow> bool" where
  "status_error net c e \<longleftrightarrow> (\<exists>w. fst (service_statuses net c w) = Inl e)"

lemma verify_restart_loop_ends:
  assumes "clock_ok net" "0 < poll_interval"
  shows "\<exists>r w'. verify_restart_loop net c name before poll_interval deadline w = Some (r, w') \<and>
    (case r of
       Inr current \<Rightarrow> st_name current = name \<and> is_restart_observed before current
     | Inl e \<Rightarrow> status_error net c e \<or> e = RestartNotObserved name \<and> deadline \<le> net_now net w')"
proof (induction "deadline - net_now net w" arbitrary: w rule: less_induct)
  case less
  obtain r w1 where st: "service_statuses net c w = (r, w1)" by fastforce
  show ?case
  proof (cases r)
    case (Inl e)
    then have "status_error net c e" using st by (metis status_error_def fst_conv)
    then show ?thesis using st Inl by (subst verify_restart_loop.simps) auto
  next
    case (Inr statuses)
    let ?found = "Option.bind (find (\<lambda>s. st_name s = name) statuses)
      (\<lambda>current. if is_restart_observed before current then Some current else None)"
    consider (found) current where "?found = Some current" | (late) "?found = None" "net_now net w1 \<ge> deadline"
      | (again) "?found = None" "net_now net w1 < deadline" by (metis linorder_not_le option.exhaust)
    then show ?thesis
    proof cases
      case found
      then have "st_name current = name \<and> is_restart_observed before current"
        by (auto simp: find_Some_iff split: bind_splits if_splits)
      then show ?thesis using st Inr found by (subst verify_restart_loop.simps) auto
    next
      case late
      then show ?thesis using st Inr by (subst verify_restart_loop.simps) auto
    next
      case again
      have "net_now net w < net_now net (net_sleep net poll_interval w1)"
        using assms service_statuses_time [OF assms(1) st] unfolding clock_ok_def
        by (meson add_le_same_cancel1 le_trans less_le_not_le linorder_not_le not_add_less1)
      moreover have "net_now net w < deadline" using again(2) service_statuses_time [OF assms(1) st] by simp
      ultimately have "deadline - net_now net (net_sleep net poll_interval w1) < deadline - net_now net w" by simp
      from less [OF this] show ?thesis using st Inr again by (subst verify_restart_loop.simps) auto
    qed
  qed
qed

lemma verify_start_loop_ends:
  assumes "clock_ok net" "0 < poll_interval" "last_state \<noteq> RUNNING_STATE"
  shows "\<exists>r w'. verify_start_loop net c name poll_interval deadline last_state w = Some (r, w') \<and>
    (case r of
       Inr current \<Rightarrow> st_name current = name \<and> st_state current = RUNNING_STATE
     | Inl e \<Rightarrow> status_error net c e \<or> e = ServiceStartFailed name \<or>
         (\<exists>s. e = StartNotObserved name s \<and> s \<noteq> RUNNING_STATE) \<and> deadline \<le> net_now net w')"
  using assms(3)
proof (induction "deadline - net_now net w" arbitrary: w last_state rule: less_induct)
  case less
  note clock = assms(1,2)
  obtain r w1 where st: "service_statuses net c w = (r, w1)" by fastforce
  show ?case
  proof (cases r)
    case (Inl e)
    then have "status_error net c e" using st by (metis status_error_def fst_conv)
    then show ?thesis using st Inl by (subst verify_start_loop.simps) auto
  next
    case (Inr statuses)
    have seen: "seen_state name statuses last_state \<noteq> RUNNING_STATE" if "start_verdict name statuses = None"
      using that less.prems by (auto simp: start_verdict_def seen_state_def split: option.splits if_splits)
    consider (found) v where "start_verdict name statuses = Some v"
      | (late) "start_verdict name statuses = None" "net_now net w1 \<ge> deadline"
      | (again) "start_verdict name statuses = None" "net_now net w1 < deadline" by (metis linorder_not_le option.exhaust)
    then show ?thesis
    proof cases
      case found
      then have "case v of Inr current \<Rightarrow> st_name current = name \<and> st_state current = RUNNING_STATE
          | Inl e \<Rightarrow> e = ServiceStartFailed name"
        by (auto simp: start_verdict_def find_Some_iff split: option.splits if_splits)
      then show ?thesis using st Inr found by (subst verify_start_loop.simps) (auto split: sum.splits)
    next
      case late
      then show ?thesis using st Inr seen by (subst verify_start_loop.simps) auto
    next
      case again
      have "net_now net w < net_now net (net_sleep net poll_interval w1)"
        using clock service_statuses_time [OF clock(1) st] unfolding clock_ok_def
        by (meson add_le_same_cancel1 le_trans less_le_not_le linorder_not_le not_add_less1)
      moreover have "net_now net w < deadline" using again(2) service_statuses_time [OF clock(1) st] by simp
      ultimately have "deadline - net_now net (net_sleep net poll_interval w1) < deadline - net_now net w" by simp
      from less(1) [OF this seen [OF again(1)]] show ?thesis using st Inr again by (subst verify_start_loop.simps) auto
    qed
  qed
qed

section \<open>Properties\<close>

text \<open>
  \<open>verify_restart\<close> always returns when the poll interval is not zero.  It reports success only for a service of that
  name that runs and whose process was replaced (another pid) or whose restart counter grew; it
  gives up only after the whole time was used, and any other error is one of the status request.
\<close>

theorem verify_restart_reliable:
  assumes "clock_ok net" "0 < poll_interval"
  shows "\<exists>r w'. verify_restart net c name before poll_interval poll_total w = Some (r, w') \<and>
    (case r of
       Inr current \<Rightarrow> st_name current = name \<and> st_state current = ''Running'' \<and>
         ((\<exists>p q. st_pid before = Some p \<and> st_pid current = Some q \<and> p \<noteq> q) \<or> st_restarts before < st_restarts current)
     | Inl e \<Rightarrow> status_error net c e \<or> e = RestartNotObserved name \<and> net_now net w + poll_total \<le> net_now net w')"
proof -
  obtain r w' where run: "verify_restart net c name before poll_interval poll_total w = Some (r, w')"
    and r: "case r of Inr current \<Rightarrow> st_name current = name \<and> is_restart_observed before current
     | Inl e \<Rightarrow> status_error net c e \<or> e = RestartNotObserved name \<and> net_now net w + poll_total \<le> net_now net w'"
    using verify_restart_loop_ends [OF assms] unfolding verify_restart_def by blast
  have "is_restart_observed before current \<Longrightarrow> st_state current = ''Running'' \<and>
      ((\<exists>p q. st_pid before = Some p \<and> st_pid current = Some q \<and> p \<noteq> q) \<or> st_restarts before < st_restarts current)" for current
    by (auto simp: is_restart_observed_def RUNNING_STATE_def split: if_splits option.splits)
  then show ?thesis using run r by (intro exI [of _ r] exI [of _ w']) (auto split: sum.splits)
qed

text \<open>
  \<open>verify_start\<close> always returns when the poll interval is not zero: with the status of the running service, with the
  failure of a service that failed, with an error of the status request, or, only after the whole time was used, with the
  last state seen, which is not the running one.
\<close>

theorem verify_start_reliable:
  assumes "clock_ok net" "0 < poll_interval"
  shows "\<exists>r w'. verify_start net c name poll_interval poll_total w = Some (r, w') \<and>
    (case r of
       Inr current \<Rightarrow> st_name current = name \<and> st_state current = ''Running''
     | Inl e \<Rightarrow> status_error net c e \<or> e = ServiceStartFailed name \<or>
         (\<exists>s. e = StartNotObserved name s \<and> s \<noteq> ''Running'') \<and> net_now net w + poll_total \<le> net_now net w')"
  using verify_start_loop_ends [OF assms, of "''Unknown''" c name "net_now net w + poll_total" w]
  unfolding verify_start_def RUNNING_STATE_def by simp

text \<open>A daemon that restarts the service \<open>pg\<close> while the client sleeps.\<close>

definition pg_status :: "u32 \<Rightarrow> ServiceStatus" where
  "pg_status pid = \<lparr>st_name = ''pg'', st_state = ''Running'', st_restarts = 0, st_pid = Some pid\<rparr>"

definition sample_net :: "nat runr_net" where
  "sample_net = \<lparr>net_call = (\<lambda>rq w. (Inr (Inr (if w = 0 then ''old'' else ''new'')), w)), net_now = (\<lambda>w. w),
     net_sleep = (\<lambda>d w. w + d), net_de_ack = (\<lambda>_. Inl ''no ack''),
     net_de_statuses = (\<lambda>body. Inr [pg_status (if body = ''old'' then 7 else 8)]), net_de_timers = (\<lambda>_. Inr [])\<rparr>"

lemma sample_net_clock: "clock_ok sample_net"
  by (simp add: clock_ok_def sample_net_def)

lemma sample_net_run:
  "verify_restart sample_net (client_new []) ''pg'' (pg_status 7) 5 100 0 = Some (Inr (pg_status 8), 5)"
  "verify_start sample_net (client_new []) ''pg'' 5 100 0 = Some (Inr (pg_status 7), 0)"
  by (simp_all add: verify_restart_def verify_restart_loop.simps verify_start_def verify_start_loop.simps
      service_statuses_def get_json_def parse_json_def sample_net_def pg_status_def is_restart_observed_def
      start_verdict_def RUNNING_STATE_def)

theorem verify_restart_reliable_witness:
  "verify_restart sample_net (client_new []) ''pg'' (pg_status 7) 5 100 0 = Some (Inr (pg_status 8), 5) \<and>
   ((\<exists>p q. st_pid (pg_status 7) = Some p \<and> st_pid (pg_status 8) = Some q \<and> p \<noteq> q) \<or>
    st_restarts (pg_status 7) < st_restarts (pg_status 8))"
  using verify_restart_reliable [OF sample_net_clock, of 5 "client_new []" "''pg''" "pg_status 7" 100 0] sample_net_run(1)
  by simp

theorem verify_start_reliable_witness:
  "verify_start sample_net (client_new []) ''pg'' 5 100 0 = Some (Inr (pg_status 7), 0) \<and>
   st_name (pg_status 7) = ''pg'' \<and> st_state (pg_status 7) = ''Running''"
  using verify_start_reliable [OF sample_net_clock, of 5 "client_new []" "''pg''" 100 0] sample_net_run(2) by simp

section \<open>Path segments\<close>

text \<open>The inverse of the encoding, as a server decodes a segment.\<close>

definition hex_value :: "char \<Rightarrow> nat" where
  "hex_value c = (let n = of_char c :: nat in if n < 65 then n - 48 else n - 55)"

fun percent_decode :: "string \<Rightarrow> string" where
  "percent_decode [] = []"
| "percent_decode (c # cs) =
     (if c = CHR ''%''
      then (case cs of
              h # l # rest \<Rightarrow> char_of (16 * hex_value h + hex_value l) # percent_decode rest
            | _ \<Rightarrow> c # percent_decode cs)
      else c # percent_decode cs)"

lemma hex_value_digit: "n < 16 \<Longrightarrow> hex_value (hex_digit n) = n"
proof -
  have "list_all (\<lambda>n. hex_value (hex_digit n) = n) [0..<16]" by code_simp
  then show "n < 16 \<Longrightarrow> hex_value (hex_digit n) = n" by (simp add: list_all_iff)
qed

lemma hex_digit_unreserved: "n < 16 \<Longrightarrow> unreserved (hex_digit n)"
proof -
  have "list_all (\<lambda>n. unreserved (hex_digit n)) [0..<16]" by code_simp
  then show "n < 16 \<Longrightarrow> unreserved (hex_digit n)" by (simp add: list_all_iff)
qed

lemma percent_not_unreserved: "\<not> unreserved (CHR ''%'')" "\<not> unreserved (CHR ''/'')"
  by code_simp+

lemma char_nibbles: "of_char c div 16 < (16::nat)" "of_char c mod 16 < (16::nat)"
proof -
  have "(of_char c :: nat) < 16 * 16" using nat_of_char_less_256 [of c] by simp
  then show "of_char c div 16 < (16::nat)" by (rule less_mult_imp_div_less)
qed simp

lemma percent_decode_byte: "percent_decode (percent_encode_byte b @ rest) = b # percent_decode rest"
proof (cases "unreserved b")
  case True
  then have "b \<noteq> CHR ''%''" using percent_not_unreserved by blast
  then show ?thesis using True by (simp add: percent_encode_byte_def)
next
  case False
  show ?thesis using False char_nibbles [of b] by (simp add: percent_encode_byte_def hex_value_digit)
qed

lemma percent_decode_encode: "percent_decode (percent_encode_path_segment s) = s"
  by (induction s) (simp_all add: percent_encode_path_segment_def percent_decode_byte)

lemma percent_encode_chars:
  assumes "c \<in> set (percent_encode_path_segment s)"
  shows "unreserved c \<or> c = CHR ''%''"
proof -
  obtain b where "c \<in> set (percent_encode_byte b)"
    using assms by (auto simp: percent_encode_path_segment_def)
  then show ?thesis using char_nibbles [of b] by (auto simp: percent_encode_byte_def hex_digit_unreserved split: if_splits)
qed

lemma percent_encode_no_slash: "CHR ''/'' \<notin> set (percent_encode_path_segment s)"
  using percent_encode_chars [of "CHR ''/''" s] percent_not_unreserved by auto

lemma percent_encode_valid: "valid_unit_name n \<Longrightarrow> percent_encode_path_segment n = n"
proof -
  have "is_allowed_byte b \<Longrightarrow> percent_encode_byte b = [b]" for b
    by (auto simp: is_allowed_byte_def percent_encode_byte_def unreserved_def)
  then have "list_all is_allowed_byte n \<Longrightarrow> percent_encode_path_segment n = n"
    by (induction n) (auto simp: percent_encode_path_segment_def)
  then show "valid_unit_name n \<Longrightarrow> percent_encode_path_segment n = n" by (simp add: valid_unit_name_def)
qed

lemma split_on_append: "c \<notin> set xs \<Longrightarrow> split_on c (xs @ c # ys) = xs # split_on c ys"
  by (induction xs) auto

text \<open>
  A unit name cannot change the shape of a request: whatever the name, the path of an action has exactly the segments
  \<open>api/v1/<collection>/<segment>/<verb>\<close>, the segment decodes to the name (so two units never share a path), and a
  validated unit name is sent as it is.  Only the segments \<open>.\<close> and \<open>..\<close> come through the encoding as such;
  no validated name is one of them.
\<close>

theorem unit_path_shape:
  assumes "CHR ''/'' \<notin> set collection" "CHR ''/'' \<notin> set verb"
  shows "split_on (CHR ''/'') (unit_path collection name verb) =
      [[], ''api'', ''v1'', collection, percent_encode_path_segment name, verb] \<and>
    percent_decode (percent_encode_path_segment name) = name \<and>
    (valid_unit_name name \<longrightarrow> percent_encode_path_segment name = name \<and> name \<noteq> ''.'' \<and> name \<noteq> ''..'') \<and>
    percent_encode_path_segment ''..'' = ''..''"
proof (intro conjI impI)
  have "unit_path collection name verb = CHR ''/'' # ''api'' @ CHR ''/'' # ''v1'' @ CHR ''/'' #
      collection @ CHR ''/'' # percent_encode_path_segment name @ CHR ''/'' # verb"
    by (simp add: unit_path_def)
  then show "split_on (CHR ''/'') (unit_path collection name verb) =
      [[], ''api'', ''v1'', collection, percent_encode_path_segment name, verb]"
    using assms percent_encode_no_slash [of name]
    by (simp only: split_on.simps split_on_append split_on_absent) (simp add: split_on_append split_on_absent)
  show "percent_decode (percent_encode_path_segment name) = name" by (rule percent_decode_encode)
  show "percent_encode_path_segment ''..'' = ''..''" by code_simp
  assume v: "valid_unit_name name"
  then show "percent_encode_path_segment name = name" by (rule percent_encode_valid)
  show "name \<noteq> ''.''" "name \<noteq> ''..''"
    using valid_unit_name_component [OF v] by (auto simp: path_components_def component_of_def)
qed

theorem unit_path_shape_witness:
  "split_on (CHR ''/'') (unit_path ''services'' ''a/b'' ''start'') =
     [[], ''api'', ''v1'', ''services'', percent_encode_path_segment ''a/b'', ''start''] \<and>
   percent_encode_path_segment ''a/b'' = ''a%2Fb''"
  using unit_path_shape [of "''services''" "''start''" "''a/b''"]
  by (simp add: percent_encode_path_segment_def percent_encode_byte_def unreserved_def is_ascii_lowercase_def
      is_ascii_uppercase_def is_ascii_digit_def less_eq_char_def hex_digit_def)

end
