(* ===== verification/Call_Args.thy ===== *)
theory Call_Args
  imports Primitive
begin

text \<open>
  \<open>bosun-core/src/call_args.rs\<close>: the named arguments of a call from a manifest, read with their type.
  An \<open>i64\<close> is a 64-bit word read with \<open>sint\<close>.
\<close>

datatype ArgValue =
    ArgStr string
  | ArgInt "64 word"
  | ArgBool bool
  | ArgHandleList "ResourceId list"
  | ArgOther json

type_synonym CallArgs = "string \<Rightarrow> ArgValue option"

datatype CallArgsError =
    ArgMissing string
  | ArgWrongType string string string
  | ArgOutOfRange string "64 word" string

definition show_call_args_error :: "CallArgsError \<Rightarrow> string" where
  "show_call_args_error e =
     (case e of
        ArgMissing name \<Rightarrow> ''missing required argument '' @ [CHR 0x27] @ name @ [CHR 0x27]
      | ArgWrongType name expected actual \<Rightarrow>
          ''argument '' @ [CHR 0x27] @ name @ [CHR 0x27] @ '' has wrong type: expected '' @ expected @ '', got '' @ actual
      | ArgOutOfRange name v target \<Rightarrow>
          ''argument '' @ [CHR 0x27] @ name @ [CHR 0x27] @ '' value '' @ show_int (sint v) @ '' out of range for '' @ target)"

fun arg_type_name :: "ArgValue \<Rightarrow> string" where
  "arg_type_name (ArgStr _) = ''str''"
| "arg_type_name (ArgInt _) = ''int''"
| "arg_type_name (ArgBool _) = ''bool''"
| "arg_type_name (ArgHandleList _) = ''list[Handle]''"
| "arg_type_name (ArgOther _) = ''other''"

definition take_raw :: "string \<Rightarrow> CallArgs \<Rightarrow> ArgValue option \<times> CallArgs" where
  "take_raw name args = (args name, args(name := None))"

definition put_raw :: "string \<Rightarrow> ArgValue \<Rightarrow> CallArgs \<Rightarrow> CallArgs" where
  "put_raw name v args = args(name \<mapsto> v)"

definition required_str :: "CallArgs \<Rightarrow> string \<Rightarrow> CallArgsError + string" where
  "required_str args name =
     (case args name of
        Some (ArgStr s) \<Rightarrow> Inr s
      | Some other \<Rightarrow> Inl (ArgWrongType name ''str'' (arg_type_name other))
      | None \<Rightarrow> Inl (ArgMissing name))"

definition optional_str :: "CallArgs \<Rightarrow> string \<Rightarrow> CallArgsError + string option" where
  "optional_str args name =
     (case args name of
        Some (ArgStr s) \<Rightarrow> Inr (Some s)
      | Some other \<Rightarrow> Inl (ArgWrongType name ''str'' (arg_type_name other))
      | None \<Rightarrow> Inr None)"

definition optional_u32 :: "CallArgs \<Rightarrow> string \<Rightarrow> CallArgsError + u32 option" where
  "optional_u32 args name =
     (case args name of
        Some (ArgInt i) \<Rightarrow>
          (case int_to_word (sint i) of
             None \<Rightarrow> Inl (ArgOutOfRange name i ''u32'')
           | Some v \<Rightarrow> Inr (Some v))
      | Some other \<Rightarrow> Inl (ArgWrongType name ''int'' (arg_type_name other))
      | None \<Rightarrow> Inr None)"

definition optional_u64 :: "CallArgs \<Rightarrow> string \<Rightarrow> CallArgsError + u64 option" where
  "optional_u64 args name =
     (case args name of
        Some (ArgInt i) \<Rightarrow>
          (case int_to_word (sint i) of
             None \<Rightarrow> Inl (ArgOutOfRange name i ''u64'')
           | Some v \<Rightarrow> Inr (Some v))
      | Some other \<Rightarrow> Inl (ArgWrongType name ''int'' (arg_type_name other))
      | None \<Rightarrow> Inr None)"

definition optional_bool :: "CallArgs \<Rightarrow> string \<Rightarrow> CallArgsError + bool option" where
  "optional_bool args name =
     (case args name of
        Some (ArgBool b) \<Rightarrow> Inr (Some b)
      | Some other \<Rightarrow> Inl (ArgWrongType name ''bool'' (arg_type_name other))
      | None \<Rightarrow> Inr None)"

definition optional_handle_list :: "CallArgs \<Rightarrow> string \<Rightarrow> CallArgsError + ResourceId list" where
  "optional_handle_list args name =
     (case args name of
        Some (ArgHandleList v) \<Rightarrow> Inr v
      | Some other \<Rightarrow> Inl (ArgWrongType name ''list[Handle]'' (arg_type_name other))
      | None \<Rightarrow> Inr [])"

text \<open>The loop of \<open>optional_str_list\<close>: the strings so far, and the index of the next item.\<close>

fun str_items :: "string \<Rightarrow> nat \<Rightarrow> json list \<Rightarrow> string list \<Rightarrow> CallArgsError + string list" where
  "str_items name idx [] out = Inr out"
| "str_items name idx (item # items) out =
     (case item of
        JString s \<Rightarrow> str_items name (Suc idx) items (out @ [s])
      | _ \<Rightarrow> Inl (ArgWrongType (name @ ''['' @ show_nat idx @ '']'') ''str'' ''non-string json''))"

definition optional_str_list :: "CallArgs \<Rightarrow> string \<Rightarrow> CallArgsError + string list option" where
  "optional_str_list args name =
     (case args name of
        Some (ArgOther (JArray items)) \<Rightarrow>
          (case str_items name 0 items [] of Inl e \<Rightarrow> Inl e | Inr out \<Rightarrow> Inr (Some out))
      | Some (ArgOther JNull) \<Rightarrow> Inr None
      | None \<Rightarrow> Inr None
      | Some other \<Rightarrow> Inl (ArgWrongType name ''list[str]'' (arg_type_name other)))"

section \<open>Properties\<close>

lemma int_to_word_sint:
  "int_to_word (sint (i :: 64 word)) = Some (v :: 'a::len word) \<longleftrightarrow> sint i = uint v"
proof
  assume "int_to_word (sint i) = Some v"
  then have "0 \<le> sint i" "sint i < 2 ^ LENGTH('a)" "v = word_of_int (sint i)"
    unfolding int_to_word_def by (simp_all split: if_splits)
  then show "sint i = uint v" by (simp only: uint_word_of_int mod_pos_pos_trivial)
next
  assume "sint i = uint v"
  then show "int_to_word (sint i) = Some v" by (simp only: int_to_word_uint)
qed

lemma str_items_result:
  "str_items name idx items out = Inr xs \<longleftrightarrow> (\<exists>ys. items = map JString ys \<and> xs = out @ ys)"
proof (induction items arbitrary: idx out)
  case (Cons item items)
  show ?case
  proof (cases item)
    case (JString s)
    then show ?thesis using Cons [of "Suc idx" "out @ [s]"] by (auto simp: map_eq_Cons_conv)
  qed (auto simp: Cons_eq_map_conv)
qed auto

text \<open>
  A number from a manifest is never truncated or wrapped: \<open>optional_u32\<close> and \<open>optional_u64\<close> return a value only when it equals the
  signed integer that was passed, and refuse exactly the negative ones and those that do not fit (for
  64 bits no non-negative one); a list of strings is returned exactly when every item is one, in order.
\<close>

theorem call_args_exact:
  assumes "args name = Some v"
  shows "(\<forall>n. optional_u32 args name = Inr (Some n) \<longleftrightarrow> (\<exists>i. v = ArgInt i \<and> sint i = uint n)) \<and>
    (\<forall>i t. optional_u32 args name = Inl (ArgOutOfRange t i ''u32'') \<longleftrightarrow>
       t = name \<and> v = ArgInt i \<and> (sint i < 0 \<or> sint i \<ge> 2 ^ 32)) \<and>
    (\<forall>n. optional_u64 args name = Inr (Some n) \<longleftrightarrow> (\<exists>i. v = ArgInt i \<and> sint i = uint n)) \<and>
    (\<forall>i t. optional_u64 args name = Inl (ArgOutOfRange t i ''u64'') \<longleftrightarrow> t = name \<and> v = ArgInt i \<and> sint i < 0) \<and>
    (\<forall>xs. optional_str_list args name = Inr (Some xs) \<longleftrightarrow> v = ArgOther (JArray (map JString xs)))"
proof (intro conjI allI)
  have lim: "sint (i :: 64 word) < 2 ^ 63" for i using sint_lt [of i] by simp
  show "optional_u32 args name = Inr (Some n) \<longleftrightarrow> (\<exists>i. v = ArgInt i \<and> sint i = uint n)" for n
    using assms int_to_word_sint [of _ n] by (cases v) (auto simp: optional_u32_def split: option.splits)
  show "optional_u32 args name = Inl (ArgOutOfRange t i ''u32'') \<longleftrightarrow>
       t = name \<and> v = ArgInt i \<and> (sint i < 0 \<or> sint i \<ge> 2 ^ 32)" for i t
    using assms by (cases v) (auto simp: optional_u32_def int_to_word_def split: option.splits if_splits)
  show "optional_u64 args name = Inr (Some n) \<longleftrightarrow> (\<exists>i. v = ArgInt i \<and> sint i = uint n)" for n
    using assms int_to_word_sint [of _ n] by (cases v) (auto simp: optional_u64_def split: option.splits)
  show "optional_u64 args name = Inl (ArgOutOfRange t i ''u64'') \<longleftrightarrow> t = name \<and> v = ArgInt i \<and> sint i < 0" for i t
    using assms lim [of i] by (cases v) (auto simp: optional_u64_def int_to_word_def split: option.splits if_splits)
  show "optional_str_list args name = Inr (Some xs) \<longleftrightarrow> v = ArgOther (JArray (map JString xs))" for xs
  proof (cases "\<exists>items. v = ArgOther (JArray items)")
    case True
    then obtain items where v: "v = ArgOther (JArray items)" by blast
    have "optional_str_list args name = Inr (Some xs) \<longleftrightarrow> str_items name 0 items [] = Inr xs"
      using assms by (simp add: optional_str_list_def v split: sum.splits)
    also have "\<dots> \<longleftrightarrow> items = map JString xs" by (simp add: str_items_result)
    finally show ?thesis by (simp add: v)
  next
    case False
    then show ?thesis
      using assms by (cases v) (auto simp: optional_str_list_def split: json.splits)
  qed
qed

theorem call_args_exact_witness:
  "optional_u32 [''n'' \<mapsto> ArgInt (- 1)] ''n'' = Inl (ArgOutOfRange ''n'' (- 1) ''u32'')"
  using call_args_exact [of "[''n'' \<mapsto> ArgInt (- 1)]" "''n''" "ArgInt (- 1)"] by simp

end
