(* ===== verification/File_Host.thy ===== *)
theory File_Host
  imports Std_Path
begin

text \<open>
  The calls of \<open>std::fs\<close> that change the file tree, as the file primitives use them.  The environment
  may refuse any call on any path (permissions, a read-only mount) with a message; otherwise a call
  behaves as on Linux, also for a path that ends in a slash, whose last name is followed.
\<close>

datatype fs_op = OpLstat | OpReadLink | OpExists | OpMkdir | OpSymlink | OpUnlink | OpRemoveTree | OpReadDir
  | OpRead | OpStat | OpTemp | OpWrite | OpSync | OpChmod | OpChown | OpRename | OpCopy

type_synonym fs_env = "fs_op \<Rightarrow> component list \<Rightarrow> string option"

definition fs_call ::
  "fs_env \<Rightarrow> fs_op \<Rightarrow> component list \<Rightarrow> ('s, fs_error, 'a) prog \<Rightarrow> ('s, fs_error, 'a) prog" where
  "fs_call env op p m = (\<lambda>t. case env op p of Some msg \<Rightarrow> (Inl (FsOther msg), t) | None \<Rightarrow> m t)"

definition fs_lstat :: "fs_env \<Rightarrow> component list \<Rightarrow> (file_tree, fs_error, tree_node) prog" where
  "fs_lstat env p = fs_call env OpLstat p (\<lambda>t. (lstat t [] p, t))"

definition fs_read_link :: "fs_env \<Rightarrow> component list \<Rightarrow> (file_tree, fs_error, string) prog" where
  "fs_read_link env p = fs_call env OpReadLink p (\<lambda>t.
     (case lstat t [] p of
        Inl e \<Rightarrow> Inl e
      | Inr (TLink s) \<Rightarrow> Inr s
      | Inr _ \<Rightarrow> Inl (FsOther ''Invalid argument''), t))"

text \<open>\<open>Path::exists\<close>: any error counts as absence.\<close>

definition fs_exists :: "fs_env \<Rightarrow> component list \<Rightarrow> file_tree \<Rightarrow> bool" where
  "fs_exists env p t \<longleftrightarrow> env OpExists p = None \<and> (case canonicalize t [] p of Inl _ \<Rightarrow> False | Inr _ \<Rightarrow> True)"

definition fs_is_dir :: "fs_env \<Rightarrow> component list \<Rightarrow> file_tree \<Rightarrow> bool" where
  "fs_is_dir env p t \<longleftrightarrow> env OpExists p = None \<and>
     (case canonicalize t [] p of Inl _ \<Rightarrow> False | Inr names \<Rightarrow> names = [] \<or> t names = Some TDir)"

text \<open>The directory entry a path stands for: its parent is resolved, its last name is not.\<close>

definition dir_entry :: "file_tree \<Rightarrow> component list \<Rightarrow> fs_error + string list" where
  "dir_entry t p =
     (if p = [] then Inl FsNotFound
      else case last p of
        Normal n \<Rightarrow>
          (case realpath t MAX_LINKS [] (butlast p @ [CurDir]) of Inl e \<Rightarrow> Inl e | Inr dir \<Rightarrow> Inr (dir @ [n]))
      | _ \<Rightarrow> (case canonicalize t [] p of Inl e \<Rightarrow> Inl e | Inr _ \<Rightarrow> Inl (FsOther ''Not an entry of a directory'')))"

text \<open>Create an entry that is not there yet.\<close>

definition add_entry :: "component list \<Rightarrow> tree_node \<Rightarrow> (file_tree, fs_error, unit) prog" where
  "add_entry p node = (\<lambda>t.
     case dir_entry t p of
       Inl e \<Rightarrow> (Inl e, t)
     | Inr names \<Rightarrow> (if t names = None then (Inr (), t(names \<mapsto> node)) else (Inl (FsOther ''File exists''), t)))"

definition fs_mkdir :: "fs_env \<Rightarrow> component list \<Rightarrow> (file_tree, fs_error, unit) prog" where
  "fs_mkdir env p = fs_call env OpMkdir p (add_entry p TDir)"

definition fs_symlink :: "fs_env \<Rightarrow> string \<Rightarrow> component list \<Rightarrow> (file_tree, fs_error, unit) prog" where
  "fs_symlink env target p = fs_call env OpSymlink p (if target = [] then throw FsNotFound else add_entry p (TLink target))"

definition fs_unlink :: "fs_env \<Rightarrow> component list \<Rightarrow> (file_tree, fs_error, unit) prog" where
  "fs_unlink env p = fs_call env OpUnlink p (\<lambda>t.
     case dir_entry t p of
       Inl e \<Rightarrow> (Inl e, t)
     | Inr names \<Rightarrow>
         (case t names of
            None \<Rightarrow> (Inl FsNotFound, t)
          | Some TDir \<Rightarrow> (Inl (FsOther ''Is a directory''), t)
          | Some _ \<Rightarrow> (Inr (), t(names := None))))"

text \<open>
  \<open>remove_dir_all\<close>.  When the path names the root, or a link with a slash behind it, the contents of the
  directory go, and only the removal of the directory itself fails.
\<close>

definition without_tree :: "(string list \<Rightarrow> bool) \<Rightarrow> file_tree \<Rightarrow> file_tree" where
  "without_tree gone t = (\<lambda>names. if gone names then None else t names)"

definition fs_remove_dir_all :: "fs_env \<Rightarrow> component list \<Rightarrow> (file_tree, fs_error, unit) prog" where
  "fs_remove_dir_all env p = fs_call env OpRemoveTree p (\<lambda>t.
     case lstat t [] p of
       Inl e \<Rightarrow> (Inl e, t)
     | Inr (TLink _) \<Rightarrow> fs_unlink env p t
     | Inr (TFile _) \<Rightarrow> (Inl (FsOther ''Not a directory''), t)
     | Inr TDir \<Rightarrow>
         (case canonicalize t [] p of
            Inl e \<Rightarrow> (Inl e, t)
          | Inr dir \<Rightarrow>
              (if dir_entry t (filter (\<lambda>c. c \<noteq> CurDir) p) = Inr dir
               then (Inr (), without_tree (prefix dir) t)
               else (Inl (FsOther ''Not a directory''), without_tree (strict_prefix dir) t))))"

text \<open>\<open>create_dir_all\<close> of the standard library: create, else create the parent first.\<close>

function fs_create_dir_all :: "fs_env \<Rightarrow> component list \<Rightarrow> (file_tree, fs_error, unit) prog" where
  "fs_create_dir_all env p t =
     (if p = [] then (Inr (), t)
      else case fs_mkdir env p t of
        (Inr _, t1) \<Rightarrow> (Inr (), t1)
      | (Inl FsNotFound, t1) \<Rightarrow>
          (if length p \<le> 1 then (Inl (FsOther ''failed to create whole tree''), t1)
           else (case fs_create_dir_all env (butlast p) t1 of
                   (Inl e, t2) \<Rightarrow> (Inl e, t2)
                 | (Inr _, t2) \<Rightarrow>
                     (case fs_mkdir env p t2 of
                        (Inr _, t3) \<Rightarrow> (Inr (), t3)
                      | (Inl e, t3) \<Rightarrow> (if fs_is_dir env p t3 then (Inr (), t3) else (Inl e, t3)))))
      | (Inl e, t1) \<Rightarrow> (if fs_is_dir env p t1 then (Inr (), t1) else (Inl e, t1)))"
  by pat_completeness auto
termination
  by (relation "measure (\<lambda>(env, p, t). length p)") auto

declare fs_create_dir_all.simps [simp del]

text \<open>
  \<open>read_dir\<close>: the names in a directory, in the order in which the kernel lists them, which is the parameter
  \<open>lister\<close>.  \<open>lists_dirs\<close> is what any kernel does: every entry once, and no other name.
\<close>

type_synonym dir_lister = "file_tree \<Rightarrow> string list \<Rightarrow> string list"

definition lists_dirs :: "dir_lister \<Rightarrow> bool" where
  "lists_dirs lister \<longleftrightarrow>
     (\<forall>t dir. finite {n. t (dir @ [n]) \<noteq> None} \<longrightarrow>
        distinct (lister t dir) \<and> set (lister t dir) = {n. t (dir @ [n]) \<noteq> None})"

definition fs_read_dir :: "fs_env \<Rightarrow> dir_lister \<Rightarrow> component list \<Rightarrow> (file_tree, fs_error, string list) prog" where
  "fs_read_dir env lister p = fs_call env OpReadDir p (\<lambda>t.
     (case canonicalize t [] p of
        Inl e \<Rightarrow> Inl e
      | Inr dir \<Rightarrow> (if dir = [] \<or> t dir = Some TDir then Inr (lister t dir) else Inl (FsOther ''Not a directory'')), t))"

text \<open>Every directory has finitely many entries, and what is in the tree is in a directory of it.\<close>

definition tree_wf :: "file_tree \<Rightarrow> bool" where
  "tree_wf t \<longleftrightarrow> (\<forall>dir. finite {n. t (dir @ [n]) \<noteq> None}) \<and>
     (\<forall>dir n. t (dir @ [n]) \<noteq> None \<longrightarrow> dir = [] \<or> t dir = Some TDir)"

section \<open>What a call leaves alone\<close>

text \<open>Nothing but an absent entry is changed: every existing node stays.\<close>

definition only_adds :: "file_tree \<Rightarrow> file_tree \<Rightarrow> bool" where
  "only_adds t t' \<longleftrightarrow> (\<forall>q node. t q = Some node \<longrightarrow> t' q = Some node)"

lemma only_adds_refl [simp]: "only_adds t t"
  by (simp add: only_adds_def)

lemma only_adds_trans: "only_adds t t1 \<Longrightarrow> only_adds t1 t2 \<Longrightarrow> only_adds t t2"
  by (simp add: only_adds_def)

lemma fs_call_state: "fs_call env op p m t = (r, t') \<Longrightarrow> t' = t \<or> m t = (r, t')"
  by (auto simp: fs_call_def split: option.splits)

lemma add_entry_only_adds: "add_entry p node t = (r, t') \<Longrightarrow> only_adds t t'"
  by (auto simp: add_entry_def only_adds_def split: sum.splits if_splits)

lemma fs_mkdir_only_adds: "fs_mkdir env p t = (r, t') \<Longrightarrow> only_adds t t'"
  unfolding fs_mkdir_def by (drule fs_call_state) (auto dest: add_entry_only_adds)

lemma fs_symlink_only_adds: "fs_symlink env target p t = (r, t') \<Longrightarrow> only_adds t t'"
  unfolding fs_symlink_def by (drule fs_call_state) (auto dest: add_entry_only_adds split: if_splits)

lemma fs_create_dir_all_only_adds: "fs_create_dir_all env p t = (r, t') \<Longrightarrow> only_adds t t'"
proof (induction env p t arbitrary: r t' rule: fs_create_dir_all.induct)
  case (1 env p t)
  obtain m t1 where m: "fs_mkdir env p t = (m, t1)" by fastforce
  have a1: "only_adds t t1" using m by (rule fs_mkdir_only_adds)
  show ?case
  proof (cases "p \<noteq> [] \<and> m = Inl FsNotFound \<and> \<not> length p \<le> 1")
    case False
    then show ?thesis
      using 1(2) m a1 by (subst (asm) fs_create_dir_all.simps) (auto split: sum.splits fs_error.splits if_splits)
  next
    case True
    obtain r2 t2 where c: "fs_create_dir_all env (butlast p) t1 = (r2, t2)" by fastforce
    have a2: "only_adds t1 t2" using 1(1) m True c by fastforce
    obtain m3 t3 where m3: "fs_mkdir env p t2 = (m3, t3)" by fastforce
    have a3: "only_adds t2 t3" using m3 by (rule fs_mkdir_only_adds)
    have "t' = t2 \<or> t' = t3"
      using 1(2) m True c m3 by (subst (asm) fs_create_dir_all.simps) (auto split: sum.splits if_splits)
    then show ?thesis using a1 a2 a3 by (auto intro: only_adds_trans)
  qed
qed

section \<open>Paths without links on the way\<close>

text \<open>Every ancestor of a path, if it exists, is a directory and not a link.\<close>

definition plain_dirs :: "file_tree \<Rightarrow> string list \<Rightarrow> bool" where
  "plain_dirs t ps \<longleftrightarrow> (\<forall>q. prefix q ps \<and> q \<noteq> [] \<longrightarrow> t q = None \<or> t q = Some TDir)"

lemma plain_dirs_prefix: "plain_dirs t ps \<Longrightarrow> prefix qs ps \<Longrightarrow> plain_dirs t qs"
  unfolding plain_dirs_def by (meson prefix_order.order_trans)

lemma plain_dirs_removed:
  assumes "plain_dirs t ps" "\<And>q. t' q = t q \<or> t' q = None"
  shows "plain_dirs t' ps"
  using assms unfolding plain_dirs_def by metis

lemma dirs_prefix: "dirs t ps \<Longrightarrow> prefix qs ps \<Longrightarrow> dirs t qs"
proof -
  have "dirs t (qs @ rs) \<Longrightarrow> dirs t qs" for rs
  proof (induction rs rule: rev_induct)
    case (snoc r rs)
    then show ?case using dirs_snoc [of t "qs @ rs" r] by simp
  qed simp
  then show "dirs t ps \<Longrightarrow> prefix qs ps \<Longrightarrow> dirs t qs" by (auto simp: prefix_def)
qed

lemma dirs_plain: "dirs t ps \<Longrightarrow> plain_dirs t ps"
proof -
  assume d: "dirs t ps"
  have "t q = Some TDir" if "prefix q ps" "q \<noteq> []" for q
  proof -
    have "dirs t q" using d that(1) by (rule dirs_prefix)
    then show ?thesis using that(2) by (cases q rule: rev_cases) simp_all
  qed
  then show ?thesis unfolding plain_dirs_def by blast
qed

lemma dirs_back: "dirs t' ps \<Longrightarrow> (\<And>q. t' q = Some TDir \<Longrightarrow> t q = Some TDir) \<Longrightarrow> dirs t ps"
  unfolding dirs_def by blast

lemma only_adds_plain:
  assumes "only_adds t t'" "dirs t' ps"
  shows "plain_dirs t ps"
  unfolding plain_dirs_def
proof (intro allI impI)
  fix q assume "prefix q ps \<and> q \<noteq> []"
  then have q: "t' q = None \<or> t' q = Some TDir" using dirs_plain [OF assms(2)] unfolding plain_dirs_def by blast
  show "t q = None \<or> t q = Some TDir"
  proof (cases "t q")
    case (Some node)
    then have "t' q = Some node" using assms(1) unfolding only_adds_def by blast
    then show ?thesis using q Some by simp
  qed simp
qed

text \<open>A path that resolves still does so when entries are added and files are written.\<close>

lemma realpath_more:
  assumes "realpath t k cur cs = Inr names"
    and "\<And>q x. t q = Some x \<Longrightarrow> t' q = Some x \<or> (\<exists>a b. x = TFile a \<and> t' q = Some (TFile b))"
  shows "realpath t' k cur cs = Inr names"
  using assms
proof (induction t k cur cs rule: realpath.induct)
  case (5 t k cur n cs)
  note more = "5.prems"(2)
  obtain x where x: "t (cur @ [n]) = Some x" using "5.prems"(1) by (cases "t (cur @ [n])") simp_all
  show ?case
  proof (cases x)
    case (TFile s)
    then show ?thesis using "5.prems"(1) x more [OF x] by (cases "cs = []") auto
  next
    case TDir
    then have "t' (cur @ [n]) = Some TDir" using more [OF x] by auto
    then show ?thesis using 5 x TDir by auto
  next
    case (TLink tg)
    then have "t' (cur @ [n]) = Some (TLink tg)" using more [OF x] by auto
    then show ?thesis using 5 x TLink by (cases k) auto
  qed
qed auto

lemma dir_entry_more:
  assumes "dir_entry t p = Inr names"
    and "\<And>q x. t q = Some x \<Longrightarrow> t' q = Some x \<or> (\<exists>a b. x = TFile a \<and> t' q = Some (TFile b))"
  shows "dir_entry t' p = Inr names"
  using assms(1) realpath_more [OF _ assms(2)]
  by (auto simp: dir_entry_def split: if_splits component.splits sum.splits)

lemma fs_is_dir_dirs: "dirs t ps \<Longrightarrow> env OpExists (abs_path ps) = None \<Longrightarrow> fs_is_dir env (abs_path ps) t"
proof -
  assume d: "dirs t ps" "env OpExists (abs_path ps) = None"
  then have "resolved t ps" by (cases ps rule: rev_cases) (simp_all add: resolved_snoc, simp add: resolved_def)
  then show ?thesis using d by (cases ps rule: rev_cases) (simp_all add: fs_is_dir_def canonicalize_resolved)
qed

text \<open>Both depend on the ancestors only.\<close>

lemma dirs_same:
  assumes "dirs t ps" "\<And>q. prefix q ps \<Longrightarrow> t' q = t q"
  shows "dirs t' ps"
  using assms unfolding dirs_def by (simp add: take_is_prefix)

lemma plain_dirs_same:
  assumes "plain_dirs t ps" "\<And>q. prefix q ps \<Longrightarrow> t' q = t q"
  shows "plain_dirs t' ps"
  using assms unfolding plain_dirs_def by metis

lemma below_not_ancestor: "prefix q ps \<Longrightarrow> \<not> prefix (ps @ [n]) q"
  by (auto simp: prefix_def)

lemma realpath_plain:
  assumes "plain_dirs t (cur @ ps)" "dirs t cur"
  shows "realpath t k cur (map Normal ps @ [CurDir]) = (if dirs t (cur @ ps) then Inr (cur @ ps) else Inl FsNotFound)"
  using assms
proof (induction ps arbitrary: cur)
  case (Cons n ps)
  have "prefix (cur @ [n]) (cur @ n # ps)" by simp
  then have n: "t (cur @ [n]) = None \<or> t (cur @ [n]) = Some TDir"
    using Cons.prems(1) unfolding plain_dirs_def by blast
  show ?case
  proof (cases "t (cur @ [n])")
    case None
    then have "\<not> dirs t (cur @ n # ps)" using dirs_prefix [of t "cur @ n # ps" "cur @ [n]"] by auto
    then show ?thesis using None by simp
  next
    case (Some node)
    then have d: "dirs t (cur @ [n])" using n Cons.prems(2) by simp
    show ?thesis using Cons.IH [of "cur @ [n]"] Cons.prems(1) d Some n by simp
  qed
qed simp

lemma abs_path_snoc: "abs_path (ps @ [n]) \<noteq> []" "last (abs_path (ps @ [n])) = Normal n"
  "butlast (abs_path (ps @ [n])) = RootDir # map Normal ps"
  by (simp_all add: abs_path_def)

lemma lstat_plain:
  assumes "plain_dirs t ps"
  shows "lstat t [] (abs_path (ps @ [n])) =
    (if dirs t ps then (case t (ps @ [n]) of None \<Rightarrow> Inl FsNotFound | Some node \<Rightarrow> Inr node) else Inl FsNotFound)"
  using realpath_plain [of t "[]" ps MAX_LINKS] assms by (simp add: lstat_def abs_path_snoc)

lemma dir_entry_plain:
  assumes "plain_dirs t ps"
  shows "dir_entry t (abs_path (ps @ [n])) = (if dirs t ps then Inr (ps @ [n]) else Inl FsNotFound)"
  using realpath_plain [of t "[]" ps MAX_LINKS] assms by (simp add: dir_entry_def abs_path_snoc)

lemma add_entry_plain:
  assumes "plain_dirs t ps" "add_entry (abs_path (ps @ [n])) node t = (Inr u, t')"
  shows "dirs t ps \<and> t (ps @ [n]) = None \<and> t' = t(ps @ [n] \<mapsto> node)"
  using assms by (auto simp: add_entry_def dir_entry_plain split: if_splits)

lemma fs_call_Inr: "fs_call env op p m t = (Inr x, t') \<longleftrightarrow> env op p = None \<and> m t = (Inr x, t')"
  by (auto simp: fs_call_def split: option.splits)

lemma fs_unlink_plain:
  assumes "plain_dirs t ps" "fs_unlink env (abs_path (ps @ [n])) t = (Inr u, t')"
  shows "dirs t ps \<and> t' = t(ps @ [n] := None)"
  using assms
  by (auto simp: fs_unlink_def fs_call_Inr dir_entry_plain split: if_splits option.splits tree_node.splits)

text \<open>Making directories on a plain path keeps it plain and touches nothing else.\<close>

definition made_dirs :: "string list \<Rightarrow> file_tree \<Rightarrow> file_tree \<Rightarrow> bool" where
  "made_dirs ps t t' \<longleftrightarrow> (\<forall>q. t' q = t q \<or> prefix q ps \<and> t q = None \<and> t' q = Some TDir)"

lemma made_dirs_refl [simp]: "made_dirs ps t t"
  by (simp add: made_dirs_def)

lemma made_dirs_trans: "made_dirs ps t t1 \<Longrightarrow> made_dirs ps t1 t2 \<Longrightarrow> made_dirs ps t t2"
  unfolding made_dirs_def by metis

lemma made_dirs_prefix: "made_dirs qs t t' \<Longrightarrow> prefix qs ps \<Longrightarrow> made_dirs ps t t'"
  unfolding made_dirs_def by (meson prefix_order.order_trans)

lemma made_dirs_plain: "made_dirs qs t t' \<Longrightarrow> plain_dirs t ps \<Longrightarrow> plain_dirs t' ps"
  unfolding made_dirs_def plain_dirs_def by metis

lemma fs_mkdir_made:
  assumes "plain_dirs t (ps @ [n])" "fs_mkdir env (abs_path (ps @ [n])) t = (r, t')"
  shows "made_dirs (ps @ [n]) t t'"
proof (cases r)
  case (Inl e)
  then have "t' = t"
    using assms(2) by (auto simp: fs_mkdir_def fs_call_def add_entry_def split: option.splits sum.splits if_splits)
  then show ?thesis by simp
next
  case (Inr u)
  have "plain_dirs t ps" using assms(1) by (rule plain_dirs_prefix) simp
  then have "t (ps @ [n]) = None" "t' = t(ps @ [n] \<mapsto> TDir)"
    using add_entry_plain [of t ps n TDir u t'] assms(2) Inr by (auto simp: fs_mkdir_def fs_call_Inr)
  then show ?thesis by (simp add: made_dirs_def)
qed

lemma fs_create_dir_all_made:
  assumes "plain_dirs t ps" "fs_create_dir_all env (abs_path ps) t = (r, t')"
  shows "made_dirs ps t t'"
  using assms
proof (induction ps arbitrary: t r t' rule: rev_induct)
  case Nil
  have "fs_mkdir env [RootDir] t = (m, t1) \<Longrightarrow> t1 = t" for m t1
    by (auto simp: fs_mkdir_def fs_call_def add_entry_def dir_entry_def canonicalize_def split: option.splits sum.splits)
  then have "t' = t"
    using Nil(2) by (subst (asm) fs_create_dir_all.simps)
      (auto simp: abs_path_def split: sum.splits fs_error.splits if_splits prod.splits)
  then show ?case by simp
next
  case (snoc n ps)
  let ?p = "abs_path (ps @ [n])"
  have plain: "plain_dirs t ps" using snoc.prems(1) by (rule plain_dirs_prefix) simp
  obtain m t1 where m: "fs_mkdir env ?p t = (m, t1)" by fastforce
  have m1: "made_dirs (ps @ [n]) t t1" using fs_mkdir_made [OF snoc.prems(1) m] .
  show ?case
  proof (cases "m = Inl FsNotFound")
    case False
    then show ?thesis
      using snoc.prems(2) m m1 by (subst (asm) fs_create_dir_all.simps)
        (auto split: sum.splits fs_error.splits if_splits)
  next
    case True
    obtain r2 t2 where c: "fs_create_dir_all env (abs_path ps) t1 = (r2, t2)" by fastforce
    have c2: "made_dirs ps t1 t2" using snoc.IH [OF made_dirs_plain [OF m1 plain] c] .
    then have m2: "made_dirs (ps @ [n]) t1 t2" by (rule made_dirs_prefix) simp
    have plain2: "plain_dirs t2 (ps @ [n])"
      using made_dirs_plain [OF m2] made_dirs_plain [OF m1] snoc.prems(1) by blast
    obtain m3 t3 where k: "fs_mkdir env ?p t2 = (m3, t3)" by fastforce
    have m3: "made_dirs (ps @ [n]) t2 t3" using fs_mkdir_made [OF plain2 k] .
    have b: "butlast ?p = abs_path ps" "?p \<noteq> []" "\<not> length ?p \<le> 1" by (simp_all add: abs_path_def)
    have "t' = t2 \<or> t' = t3"
      using snoc.prems(2) m True c k b by (subst (asm) fs_create_dir_all.simps) (auto split: sum.splits if_splits)
    then show ?thesis using m1 m2 m3 made_dirs_trans by blast
  qed
qed

text \<open>When nothing is refused and the directories are there in the end, making them succeeded.\<close>

lemma fs_create_dir_all_works:
  assumes "\<And>op p. env op p = None" "dirs t' ps" "fs_create_dir_all env (abs_path ps) t = (r, t')"
  shows "r = Inr ()"
  using assms(2,3)
proof (induction ps arbitrary: t r t' rule: rev_induct)
  case Nil
  have "fs_mkdir env [RootDir] t = (Inl (FsOther ''Not an entry of a directory''), t)"
    using assms(1) by (simp add: fs_mkdir_def fs_call_def add_entry_def dir_entry_def canonicalize_def)
  then show ?case
    using Nil(2) fs_is_dir_dirs [of t "[]" env] assms(1) by (subst (asm) fs_create_dir_all.simps) (auto simp: abs_path_def)
next
  case (snoc n ps)
  let ?p = "abs_path (ps @ [n])"
  have isdir: "fs_is_dir env ?p t'" using fs_is_dir_dirs [OF snoc.prems(1)] assms(1) by simp
  obtain m t1 where m: "fs_mkdir env ?p t = (m, t1)" by fastforce
  have b: "butlast ?p = abs_path ps" "?p \<noteq> []" "\<not> length ?p \<le> 1" by (simp_all add: abs_path_def)
  show ?case
  proof (cases "m = Inl FsNotFound")
    case False
    then show ?thesis
      using snoc.prems(2) m isdir b by (subst (asm) fs_create_dir_all.simps) (auto split: sum.splits fs_error.splits if_splits)
  next
    case True
    obtain r2 t2 where c: "fs_create_dir_all env (abs_path ps) t1 = (r2, t2)" by fastforce
    obtain m3 t3 where k: "fs_mkdir env ?p t2 = (m3, t3)" by fastforce
    have "r2 = Inr ()" if "t' = t2" using snoc.IH [OF _ c] snoc.prems(1) that by simp
    then show ?thesis
      using snoc.prems(2) m True c k b isdir by (subst (asm) fs_create_dir_all.simps) (auto split: sum.splits if_splits)
  qed
qed

end
