(* ===== verification/File_Common.thy ===== *)
theory File_Common
  imports File_Host Primitive
begin

text \<open>
  What the file primitives of \<open>bosun-primitives/src\<close> (\<open>file_symlink\<close>, \<open>file_delete\<close>, \<open>file_content\<close>) share: the
  checks of a path, the wrapping of I/O errors, and the facts about calls on a path whose ancestors are
  no links.
\<close>

section \<open>Paths and errors\<close>

definition has_parent_dir_segment :: "string \<Rightarrow> bool" where
  "has_parent_dir_segment p \<longleftrightarrow> ParentDir \<in> set (path_components p)"

definition is_absolute :: "string \<Rightarrow> bool" where
  "is_absolute p \<longleftrightarrow> RootDir \<in> set (path_components p)"

text \<open>The source of an I/O error, as its text.\<close>

definition io_text :: "fs_error \<Rightarrow> string" where
  "io_text e = (case e of FsNotFound \<Rightarrow> ''No such file or directory'' | FsOther msg \<Rightarrow> msg)"

definition io_context :: "string \<Rightarrow> ('s, fs_error, 'a) prog \<Rightarrow> ('s, PrimitiveError, 'a) prog" where
  "io_context context = map_err (\<lambda>e. PeIo context (io_text e))"

text \<open>\<open>Path::parent\<close>: \<open>None\<close> for the root and the empty path.\<close>

definition path_parent :: "string \<Rightarrow> component list option" where
  "path_parent p = (let cs = path_components p in if cs = [] \<or> cs = [RootDir] then None else Some (butlast cs))"

text \<open>The text of an absolute path (with single slashes).\<close>

definition show_path :: "component list \<Rightarrow> string" where
  "show_path cs = (case cs of [RootDir] \<Rightarrow> ''/''
     | _ \<Rightarrow> concat (map (\<lambda>c. case c of Normal n \<Rightarrow> CHR ''/'' # n | ParentDir \<Rightarrow> ''/..'' | _ \<Rightarrow> []) cs))"

section \<open>Calls on a plain path\<close>

lemmas prog_runs = bindE_def map_err_def attempt_def io_context_def

lemma io_context_Inr: "io_context c m t = (Inr x, t') \<longleftrightarrow> m t = (Inr x, t')"
  by (auto simp: io_context_def map_err_def split: prod.splits sum.splits)

lemma os_path_components:
  assumes "os_path s = abs_path (ps @ [n])"
  shows "path_components s = abs_path (ps @ [n])" "path_parent s = Some (abs_path ps)"
proof -
  have "\<not> ends_open s"
  proof
    assume "ends_open s"
    then have "path_components s @ [CurDir] = abs_path (ps @ [n])"
      using assms by (auto simp: os_path_def abs_path_def split: if_splits)
    then have "last (path_components s @ [CurDir]) = Normal n" by (simp only: abs_path_snoc)
    then show False by simp
  qed
  then show c: "path_components s = abs_path (ps @ [n])"
    using assms by (auto simp: os_path_def abs_path_def split: if_splits)
  show "path_parent s = Some (abs_path ps)"
    unfolding path_parent_def c by (simp add: abs_path_def)
qed

lemma io_context_state: "io_context c m t = (r, t') \<Longrightarrow> \<exists>x. m t = (x, t')"
  by (auto simp: io_context_def map_err_def split: prod.splits sum.splits)

lemma fs_remove_dir_all_plain:
  assumes "plain_dirs t ps" "dirs t ps" "t (ps @ [n]) = Some TDir"
    and "fs_remove_dir_all env (abs_path (ps @ [n])) t = (Inr u, t')"
  shows "t' = without_tree (prefix (ps @ [n])) t"
proof -
  have "resolved t (ps @ [n])" using assms(2,3) by (simp add: resolved_snoc)
  then have c: "canonicalize t [] (abs_path (ps @ [n])) = Inr (ps @ [n])" by (rule canonicalize_resolved)
  have "filter (\<lambda>c. c \<noteq> CurDir) (abs_path (ps @ [n])) = abs_path (ps @ [n])"
    by (simp add: abs_path_def filter_map comp_def)
  then show ?thesis
    using assms(2-4) c dir_entry_plain [OF assms(1), of n] lstat_plain [OF assms(1), of n]
    by (simp add: fs_remove_dir_all_def fs_call_Inr)
qed

section \<open>Well-formed trees\<close>

lemma tree_wf_below:
  assumes "tree_wf t" "names \<noteq> []" "t names \<noteq> Some TDir" "strict_prefix names q"
  shows "t q = None"
proof -
  have "t (names @ r # rs) = None" for r rs
  proof (induction rs rule: rev_induct)
    case Nil
    then show ?case using assms(1-3) unfolding tree_wf_def by blast
  next
    case (snoc x xs)
    have "t ((names @ r # xs) @ [x]) \<noteq> None \<Longrightarrow> names @ r # xs = [] \<or> t (names @ r # xs) = Some TDir"
      using assms(1) unfolding tree_wf_def by blast
    then show ?case using snoc by (cases "t (names @ r # xs @ [x])") auto
  qed
  moreover obtain r rs where "q = names @ r # rs" using assms(4) by (auto elim: strict_prefixE')
  ultimately show ?thesis by simp
qed

lemma tree_wf_dirs: "tree_wf t \<Longrightarrow> t (ps @ [n]) \<noteq> None \<Longrightarrow> dirs t ps"
proof (induction ps arbitrary: n rule: rev_induct)
  case (snoc x xs)
  then have "t (xs @ [x]) = Some TDir" unfolding tree_wf_def by blast
  then show ?case using snoc.IH [of x] snoc.prems(1) by simp
qed simp

text \<open>A tree that is given as a list has finite directories.\<close>

lemma finite_entries: "finite {n. map_of xs (dir @ [n]) \<noteq> None}"
proof -
  have "(\<lambda>n. dir @ [n]) ` {n. map_of xs (dir @ [n]) \<noteq> None} \<subseteq> dom (map_of xs)" by auto
  then have "finite ((\<lambda>n. dir @ [n]) ` {n. map_of xs (dir @ [n]) \<noteq> None})"
    by (rule finite_subset) (rule finite_dom_map_of)
  then show ?thesis by (rule finite_imageD) (simp add: inj_on_def)
qed

section \<open>What changes around a path\<close>

text \<open>Outside of what is below the path, only missing ancestors of it were created.\<close>

definition only_at :: "string list \<Rightarrow> file_tree \<Rightarrow> file_tree \<Rightarrow> bool" where
  "only_at names t t' \<longleftrightarrow>
     (\<forall>q. prefix names q \<or> t' q = t q \<or> strict_prefix q names \<and> t q = None \<and> t' q = Some TDir)"

lemma only_at_below: "(\<And>q. \<not> prefix names q \<Longrightarrow> t' q = t q) \<Longrightarrow> only_at names t t'"
  by (auto simp: only_at_def)

lemma created_only_at:
  assumes "made_dirs ps t t1" "t' = t1(ps @ [n] \<mapsto> node)"
  shows "only_at (ps @ [n]) t t'"
  unfolding only_at_def
proof
  fix q
  have "strict_prefix q (ps @ [n])" if "prefix q ps" for q
    using that below_not_ancestor [OF that] by (auto intro: prefix_order.le_neq_trans)
  moreover have "prefix (ps @ [n]) q \<or> t' q = t1 q" using assms(2) by auto
  ultimately show "prefix (ps @ [n]) q \<or> t' q = t q \<or> strict_prefix q (ps @ [n]) \<and> t q = None \<and> t' q = Some TDir"
    using assms(1) unfolding made_dirs_def by metis
qed

end
