(* ===== verification/File_Symlink.thy ===== *)
theory File_Symlink
  imports File_Common Call_Args Orchestrator
begin

text \<open>
  \<open>bosun-primitives/src/file_symlink\<close>: the primitive \<open>file.symlink\<close> (\<open>spec.rs\<close>, \<open>plan.rs\<close>,
  \<open>apply.rs\<close>, \<open>mod.rs\<close>) over the file tree of \<open>File_Host\<close>.  Text of serde's errors is the parameter
  \<open>serde_error\<close>.
\<close>

section \<open>The specification\<close>

datatype SymlinkState = SlPresent | SlAbsent

record FileSymlinkSpec =
  sl_path :: string
  sl_target :: string
  sl_state :: SymlinkState
  sl_force :: bool

definition de_symlink_state :: "json \<Rightarrow> SymlinkState option" where
  "de_symlink_state = de_unit_variant (\<lambda>s.
     if s = ''present'' then Some SlPresent else if s = ''absent'' then Some SlAbsent else None)"

text \<open>The derived \<open>Deserialize\<close>: a map, or a sequence of the fields in order.\<close>

definition symlink_spec_of_json :: "json \<Rightarrow> FileSymlinkSpec option" where
  "symlink_spec_of_json v =
     (let make = (\<lambda>path target state force. case (path, target, state, force) of
            (Some p, Some t, Some s, Some f) \<Rightarrow> Some \<lparr>sl_path = p, sl_target = t, sl_state = s, sl_force = f\<rparr>
          | _ \<Rightarrow> None)
      in case v of
           JObject m \<Rightarrow> make (de_field de_string m ''path'') (de_field de_string m ''target'')
             (de_default_field de_symlink_state SlPresent m ''state'') (de_default_field de_bool False m ''force'')
         | JArray [p, t] \<Rightarrow> make (de_string p) (de_string t) (Some SlPresent) (Some False)
         | JArray [p, t, s] \<Rightarrow> make (de_string p) (de_string t) (de_symlink_state s) (Some False)
         | JArray [p, t, s, f] \<Rightarrow> make (de_string p) (de_string t) (de_symlink_state s) (de_bool f)
         | _ \<Rightarrow> None)"

definition symlink_validate :: "FileSymlinkSpec \<Rightarrow> PrimitiveError + unit" where
  "symlink_validate spec =
     (if CHR 0x00 \<in> set (sl_target spec) then Inl (InvalidPayload ''file.symlink.target contains NUL byte'')
      else if CHR 0x00 \<in> set (sl_path spec) then Inl (InvalidPayload ''file.symlink.path contains NUL byte'')
      else if \<not> is_absolute (sl_path spec)
      then Inl (InvalidPayload (''file.symlink.path must be absolute, got: '' @ sl_path spec))
      else if has_parent_dir_segment (sl_path spec)
      then Inl (InvalidPayload (''file.symlink.path contains '' @ [CHR 0x27] @ ''..'' @ [CHR 0x27] @ '' segment: '' @ sl_path spec))
      else Inr ())"

section \<open>Deciding\<close>

datatype SymlinkAction = SlNoChange | SlCreate | SlUpdate | SlDelete

definition decide_action_symlink :: "fs_env \<Rightarrow> FileSymlinkSpec \<Rightarrow> (file_tree, PrimitiveError, SymlinkAction) prog" where
  "decide_action_symlink env spec =
     (let path = sl_path spec
      in attempt (fs_lstat env (os_path path)) (\<lambda>r.
           case r of
             Inl FsNotFound \<Rightarrow> ret (case sl_state spec of SlPresent \<Rightarrow> SlCreate | SlAbsent \<Rightarrow> SlNoChange)
           | Inl e \<Rightarrow> throw (PeIo (''symlink_metadata '' @ path) (io_text e))
           | Inr node \<Rightarrow>
               (let is_symlink = (case node of TLink _ \<Rightarrow> True | _ \<Rightarrow> False)
                in case sl_state spec of
                     SlAbsent \<Rightarrow>
                       (if is_symlink then ret SlDelete
                        else throw (PeApply (''file.symlink: path '' @ path @ '' exists but is not a symlink; refusing to delete'')))
                   | SlPresent \<Rightarrow>
                       (if is_symlink
                        then bindE (io_context (''read_link '' @ path) (fs_read_link env (os_path path))) (\<lambda>current.
                               if path_components current = path_components (sl_target spec) then ret SlNoChange else ret SlUpdate)
                        else if sl_force spec then ret SlUpdate
                        else throw (PeApply (''file.symlink: path '' @ path @ '' exists but is not a symlink; use force=true to replace''))))))"

section \<open>Applying\<close>

definition ensure_parent_dir :: "fs_env \<Rightarrow> string \<Rightarrow> (file_tree, PrimitiveError, unit) prog" where
  "ensure_parent_dir env path = (\<lambda>t.
     case path_parent path of
       None \<Rightarrow> (Inr (), t)
     | Some parent \<Rightarrow>
         (if parent = [] \<or> fs_exists env parent t then (Inr (), t)
          else io_context (''create_dir_all '' @ show_path parent) (fs_create_dir_all env parent) t))"

definition create_symlink :: "fs_env \<Rightarrow> FileSymlinkSpec \<Rightarrow> (file_tree, PrimitiveError, ChangeReport) prog" where
  "create_symlink env spec =
     bindE (ensure_parent_dir env (sl_path spec)) (\<lambda>_.
     bindE (io_context (''symlink '' @ sl_path spec @ '' -> '' @ sl_target spec)
              (fs_symlink env (sl_target spec) (os_path (sl_path spec)))) (\<lambda>_.
     ret (report_changed (''created symlink '' @ sl_path spec @ '' -> '' @ sl_target spec))))"

definition replace_symlink :: "fs_env \<Rightarrow> FileSymlinkSpec \<Rightarrow> (file_tree, PrimitiveError, ChangeReport) prog" where
  "replace_symlink env spec =
     (let path = sl_path spec
      in bindE (io_context (''symlink_metadata '' @ path @ '' for update'') (fs_lstat env (os_path path))) (\<lambda>node.
         bindE (case node of
                  TDir \<Rightarrow>
                    (if \<not> sl_force spec
                     then throw (PeApply (''file.symlink: path '' @ path @ '' is a directory; use force=true to replace''))
                     else io_context (''remove_dir_all '' @ path @ '' for symlink replace'') (fs_remove_dir_all env (os_path path)))
                | _ \<Rightarrow> io_context (''remove_file '' @ path @ '' for symlink replace'') (fs_unlink env (os_path path))) (\<lambda>_.
         bindE (io_context (''symlink '' @ path @ '' -> '' @ sl_target spec @ '' after remove'')
                  (fs_symlink env (sl_target spec) (os_path path))) (\<lambda>_.
         ret (report_changed (''updated symlink '' @ path @ '' -> '' @ sl_target spec))))))"

definition delete_symlink :: "fs_env \<Rightarrow> FileSymlinkSpec \<Rightarrow> (file_tree, PrimitiveError, ChangeReport) prog" where
  "delete_symlink env spec =
     attempt (fs_unlink env (os_path (sl_path spec))) (\<lambda>r.
       case r of
         Inr _ \<Rightarrow> ret (report_changed (''deleted symlink '' @ sl_path spec))
       | Inl FsNotFound \<Rightarrow> ret report_no_change
       | Inl e \<Rightarrow> throw (PeIo (''remove_file '' @ sl_path spec @ '' (symlink)'') (io_text e)))"

text \<open>The start of both phases: the payload is parsed and validated.\<close>

definition symlink_spec :: "(json \<Rightarrow> string) \<Rightarrow> Resource \<Rightarrow> (file_tree, PrimitiveError, FileSymlinkSpec) prog" where
  "symlink_spec serde_error r =
     (case symlink_spec_of_json (res_payload r) of
        None \<Rightarrow> throw (InvalidPayload (''file.symlink payload: '' @ serde_error (res_payload r)))
      | Some spec \<Rightarrow> (case symlink_validate spec of Inl e \<Rightarrow> throw e | Inr _ \<Rightarrow> ret spec))"

definition symlink_apply ::
  "fs_env \<Rightarrow> (json \<Rightarrow> string) \<Rightarrow> Resource \<Rightarrow> Diff \<Rightarrow> (file_tree, PrimitiveError, ChangeReport) prog" where
  "symlink_apply env serde_error r d =
     (if is_no_change d then ret report_no_change
      else bindE (symlink_spec serde_error r) (\<lambda>spec.
           bindE (decide_action_symlink env spec) (\<lambda>act.
           case act of
             SlNoChange \<Rightarrow> ret report_no_change
           | SlCreate \<Rightarrow> create_symlink env spec
           | SlUpdate \<Rightarrow> replace_symlink env spec
           | SlDelete \<Rightarrow> delete_symlink env spec)))"

section \<open>The primitive\<close>

definition symlink_diff :: "Resource \<Rightarrow> FileSymlinkSpec \<Rightarrow> SymlinkAction \<Rightarrow> Diff" where
  "symlink_diff r spec act =
     (let path = (''path'', JString (sl_path spec))
      in case act of
           SlNoChange \<Rightarrow> NoChange
         | SlCreate \<Rightarrow> Add (''create symlink '' @ sl_path spec @ '' -> '' @ sl_target spec) (res_payload r)
         | SlUpdate \<Rightarrow> Update (JObject [path]) (JObject [path, (''target'', JString (sl_target spec))])
             (''update symlink '' @ sl_path spec @ '' -> '' @ sl_target spec)
         | SlDelete \<Rightarrow> Update (JObject [(''exists'', JBool True), path]) (JObject [(''exists'', JBool False), path])
             (''delete symlink '' @ sl_path spec))"

definition symlink_plan :: "fs_env \<Rightarrow> (json \<Rightarrow> string) \<Rightarrow> Resource \<Rightarrow> (file_tree, PrimitiveError, Diff) prog" where
  "symlink_plan env serde_error r =
     bindE (symlink_spec serde_error r) (\<lambda>spec.
     bindE (decide_action_symlink env spec) (\<lambda>act. ret (symlink_diff r spec act)))"

text \<open>\<open>build_payload\<close>; the argument errors are wrapped with the name of the primitive.\<close>

definition symlink_arg :: "CallArgsError + 'a \<Rightarrow> PrimitiveError + 'a" where
  "symlink_arg r = (case r of Inl e \<Rightarrow> Inl (InvalidPayload (''file.symlink: '' @ show_call_args_error e)) | Inr x \<Rightarrow> Inr x)"

definition symlink_build_payload :: "CallArgs \<Rightarrow> PrimitiveError + json" where
  "symlink_build_payload args =
     (case symlink_arg (required_str args ''path'') of Inl e \<Rightarrow> Inl e | Inr path \<Rightarrow>
     (case symlink_arg (required_str args ''target'') of Inl e \<Rightarrow> Inl e | Inr tgt \<Rightarrow>
     (case symlink_arg (optional_str args ''state'') of Inl e \<Rightarrow> Inl e | Inr state \<Rightarrow>
     (case symlink_arg (optional_bool args ''force'') of Inl e \<Rightarrow> Inl e | Inr force \<Rightarrow>
       Inr (JObject [(''force'', JBool (case force of None \<Rightarrow> False | Some b \<Rightarrow> b)), (''path'', JString path),
         (''state'', JString (case state of None \<Rightarrow> ''present'' | Some s \<Rightarrow> s)), (''target'', JString tgt)])))))"

definition FileSymlinkPrimitive :: "fs_env \<Rightarrow> (json \<Rightarrow> string) \<Rightarrow> file_tree primitive" where
  "FileSymlinkPrimitive env serde_error =
     host_primitive_of (symlink_plan env serde_error) (symlink_apply env serde_error)"

section \<open>What the calls do on a plain path\<close>

lemma fs_symlink_plain:
  assumes "plain_dirs t ps" "fs_symlink env text (abs_path (ps @ [n])) t = (Inr u, t')"
  shows "dirs t ps \<and> t (ps @ [n]) = None \<and> t' = t(ps @ [n] \<mapsto> TLink text)"
  using assms add_entry_plain [of t ps n "TLink text" u t']
  by (auto simp: fs_symlink_def fs_call_Inr split: if_splits)

lemma decide_state: "decide_action_symlink env spec t = (r, t') \<Longrightarrow> t' = t"
  by (auto simp: decide_action_symlink_def prog_runs fs_lstat_def fs_read_link_def fs_call_def Let_def
      split: option.splits sum.splits fs_error.splits tree_node.splits SymlinkState.splits if_splits)

text \<open>The decision from what is at the path.\<close>

lemma decide_Inr:
  assumes "decide_action_symlink env spec t = (Inr act, t')"
  shows "env OpLstat (os_path (sl_path spec)) = None" "act =
    (case (sl_state spec, lstat t [] (os_path (sl_path spec))) of
       (SlPresent, Inr (TLink current)) \<Rightarrow>
         (if path_components current = path_components (sl_target spec) then SlNoChange else SlUpdate)
     | (SlPresent, Inr _) \<Rightarrow> SlUpdate
     | (SlAbsent, Inr _) \<Rightarrow> SlDelete
     | (SlPresent, Inl _) \<Rightarrow> SlCreate
     | (SlAbsent, Inl _) \<Rightarrow> SlNoChange)"
    "(\<exists>text. lstat t [] (os_path (sl_path spec)) = Inr (TLink text)) \<or> lstat t [] (os_path (sl_path spec)) = Inl FsNotFound \<or>
      sl_state spec = SlPresent \<and> sl_force spec"
  using assms
  by (auto simp: decide_action_symlink_def prog_runs fs_lstat_def fs_read_link_def fs_call_def Let_def
      split: option.splits sum.splits fs_error.splits tree_node.splits SymlinkState.splits if_splits)

lemma decide_settled:
  assumes "env OpLstat (os_path (sl_path spec)) = None" "env OpReadLink (os_path (sl_path spec)) = None"
    and "case sl_state spec of
      SlPresent \<Rightarrow> \<exists>text. lstat t [] (os_path (sl_path spec)) = Inr (TLink text) \<and>
        path_components text = path_components (sl_target spec)
    | SlAbsent \<Rightarrow> lstat t [] (os_path (sl_path spec)) = Inl FsNotFound"
  shows "decide_action_symlink env spec t = (Inr SlNoChange, t)"
  using assms
  by (auto simp: decide_action_symlink_def prog_runs fs_lstat_def fs_read_link_def fs_call_def Let_def
      split: SymlinkState.splits)

lemma create_symlink_plain:
  assumes "os_path (sl_path spec) = abs_path (ps @ [n])" "plain_dirs t ps"
    and "create_symlink env spec t = (Inr report, t')"
  shows "\<exists>t1. made_dirs ps t t1 \<and> dirs t1 ps \<and> t1 (ps @ [n]) = None \<and> t' = t1(ps @ [n] \<mapsto> TLink (sl_target spec)) \<and>
    cr_changed report"
proof -
  obtain u t1 where e: "ensure_parent_dir env (sl_path spec) t = (Inr u, t1)"
    and l: "fs_symlink env (sl_target spec) (abs_path (ps @ [n])) t1 = (Inr (), t')" and "cr_changed report"
    using assms(1,3) by (auto simp: create_symlink_def bindE_eq_Inr io_context_Inr report_changed_def)
  have m: "made_dirs ps t t1"
  proof (cases "abs_path ps = [] \<or> fs_exists env (abs_path ps) t")
    case True
    then show ?thesis using e os_path_components(2) [OF assms(1)] by (auto simp: ensure_parent_dir_def)
  next
    case False
    then have "\<exists>r. fs_create_dir_all env (abs_path ps) t = (r, t1)"
      using e os_path_components(2) [OF assms(1)]
      by (auto simp: ensure_parent_dir_def io_context_Inr)
    then show ?thesis using fs_create_dir_all_made [OF assms(2)] by blast
  qed
  with fs_symlink_plain [OF made_dirs_plain [OF m assms(2)] l] \<open>cr_changed report\<close> show ?thesis by blast
qed

lemma replace_symlink_plain:
  assumes "os_path (sl_path spec) = abs_path (ps @ [n])" "plain_dirs t ps"
    and "replace_symlink env spec t = (Inr report, t')"
  shows "\<exists>t1. (t1 = t(ps @ [n] := None) \<or> t1 = without_tree (prefix (ps @ [n])) t) \<and> dirs t ps \<and>
    t' = t1(ps @ [n] \<mapsto> TLink (sl_target spec)) \<and> cr_changed report"
proof -
  let ?p = "abs_path (ps @ [n])"
  obtain node t0 where st: "fs_lstat env ?p t = (Inr node, t0)"
    using assms(1,3) by (auto simp: replace_symlink_def Let_def bindE_eq_Inr io_context_Inr)
  then have ls: "lstat t [] ?p = Inr node" "t0 = t" by (auto simp: fs_lstat_def fs_call_Inr)
  then have d: "dirs t ps" "t (ps @ [n]) = Some node"
    using lstat_plain [OF assms(2), of n] by (auto split: if_splits option.splits)
  obtain u t1 where rm: "(if node = TDir then fs_remove_dir_all env ?p else fs_unlink env ?p) t = (Inr u, t1)"
    and l: "fs_symlink env (sl_target spec) ?p t1 = (Inr (), t')" and c: "cr_changed report"
    using assms(1,3) st ls(2)
    by (auto simp: replace_symlink_def Let_def bindE_eq_Inr io_context_Inr report_changed_def split: if_splits tree_node.splits)
  have t1: "t1 = t(ps @ [n] := None) \<or> t1 = without_tree (prefix (ps @ [n])) t"
  proof (cases "node = TDir")
    case True
    then show ?thesis using fs_remove_dir_all_plain [OF assms(2) d(1)] d(2) rm by simp
  next
    case False
    then show ?thesis using fs_unlink_plain [OF assms(2), of env n u t1] rm by simp
  qed
  have "plain_dirs t1 ps" using assms(2) by (rule plain_dirs_removed) (use t1 in \<open>auto simp: without_tree_def split: if_splits\<close>)
  from fs_symlink_plain [OF this l] t1 d c show ?thesis by blast
qed

lemma delete_symlink_plain:
  assumes "os_path (sl_path spec) = abs_path (ps @ [n])" "plain_dirs t ps"
    and "delete_symlink env spec t = (Inr report, t')" "t (ps @ [n]) = Some node" "dirs t ps"
  shows "t' = t(ps @ [n] := None) \<and> cr_changed report"
proof -
  obtain r t1 where u: "fs_unlink env (abs_path (ps @ [n])) t = (r, t1)" by fastforce
  show ?thesis
  proof (cases r)
    case (Inr x)
    then show ?thesis
      using assms(1,3) u fs_unlink_plain [OF assms(2), of env n x t1]
      by (auto simp: delete_symlink_def prog_runs report_changed_def)
  next
    case (Inl e)
    have "e \<noteq> FsNotFound"
      using u Inl assms(4,5) dir_entry_plain [OF assms(2), of n]
      by (auto simp: fs_unlink_def fs_call_def split: option.splits tree_node.splits)
    then show ?thesis using assms(1,3) u Inl by (auto simp: delete_symlink_def prog_runs split: fs_error.splits)
  qed
qed

section \<open>Properties\<close>

text \<open>What is at the path when the resource has converged.\<close>

definition symlink_settled :: "FileSymlinkSpec \<Rightarrow> file_tree \<Rightarrow> bool" where
  "symlink_settled spec t \<longleftrightarrow>
     (case sl_state spec of
        SlPresent \<Rightarrow> \<exists>text. lstat t [] (os_path (sl_path spec)) = Inr (TLink text) \<and>
          path_components text = path_components (sl_target spec)
      | SlAbsent \<Rightarrow> lstat t [] (os_path (sl_path spec)) = Inl FsNotFound)"

lemma symlink_created:
  assumes "os_path (sl_path spec) = abs_path (ps @ [n])" "sl_state spec = SlPresent"
    and "plain_dirs t ps" "dirs t ps" "t' = t(ps @ [n] \<mapsto> TLink (sl_target spec))"
  shows "symlink_settled spec t'"
proof -
  have same: "t' q = t q" if "prefix q ps" for q
    using below_not_ancestor [OF that, of n] assms(5) by auto
  have "plain_dirs t' ps" "dirs t' ps"
    using plain_dirs_same [OF assms(3) same] dirs_same [OF assms(4) same] by blast+
  then show ?thesis
    using lstat_plain [of t' ps n] assms by (simp add: symlink_settled_def)
qed

text \<open>The three changes, one by one.\<close>

lemma symlink_create_step:
  assumes "os_path (sl_path spec) = abs_path (ps @ [n])" "plain_dirs t ps" "sl_state spec = SlPresent"
    and "create_symlink env spec t = (Inr report, t')"
  shows "symlink_settled spec t' \<and> only_at (ps @ [n]) t t' \<and> cr_changed report \<and> t' \<noteq> t"
proof -
  obtain t1 where t1: "made_dirs ps t t1" "dirs t1 ps" "t1 (ps @ [n]) = None"
      "t' = t1(ps @ [n] \<mapsto> TLink (sl_target spec))" "cr_changed report"
    using create_symlink_plain [OF assms(1,2,4)] by blast
  have "t (ps @ [n]) = None" using t1(1,3) unfolding made_dirs_def by metis
  then have "t' \<noteq> t" using t1(4) by (metis fun_upd_same option.distinct(1))
  then show ?thesis
    using created_only_at [OF t1(1,4)] t1(5)
      symlink_created [OF assms(1,3) made_dirs_plain [OF t1(1) assms(2)] t1(2,4)] by blast
qed

lemma symlink_update_step:
  assumes "os_path (sl_path spec) = abs_path (ps @ [n])" "plain_dirs t ps" "sl_state spec = SlPresent"
    and "t (ps @ [n]) \<noteq> Some (TLink (sl_target spec))"
    and "replace_symlink env spec t = (Inr report, t')"
  shows "symlink_settled spec t' \<and> only_at (ps @ [n]) t t' \<and> cr_changed report \<and> t' \<noteq> t"
proof -
  obtain t1 where t1: "t1 = t(ps @ [n] := None) \<or> t1 = without_tree (prefix (ps @ [n])) t" "dirs t ps"
      "t' = t1(ps @ [n] \<mapsto> TLink (sl_target spec))" "cr_changed report"
    using replace_symlink_plain [OF assms(1,2,5)] by blast
  have "t' (ps @ [n]) = Some (TLink (sl_target spec))" using t1(3) by simp
  then have "t' \<noteq> t" using assms(4) by auto
  moreover have same: "t1 q = t q" if "\<not> prefix (ps @ [n]) q" for q
    using t1(1)
  proof
    assume "t1 = t(ps @ [n] := None)"
    then show ?thesis using that by auto
  next
    assume "t1 = without_tree (prefix (ps @ [n])) t"
    then show ?thesis using that by (simp add: without_tree_def)
  qed
  have "only_at (ps @ [n]) t t'"
  proof (rule only_at_below)
    fix q assume "\<not> prefix (ps @ [n]) q"
    then show "t' q = t q" using t1(3) same [of q] by auto
  qed
  moreover have "plain_dirs t1 ps" using assms(2) by (rule plain_dirs_same) (rule same [OF below_not_ancestor])
  moreover have "dirs t1 ps" using t1(2) by (rule dirs_same) (rule same [OF below_not_ancestor])
  ultimately show ?thesis using symlink_created [OF assms(1,3) _ _ t1(3)] t1(4) by blast
qed

lemma symlink_delete_step:
  assumes "os_path (sl_path spec) = abs_path (ps @ [n])" "plain_dirs t ps" "sl_state spec = SlAbsent"
    and "lstat t [] (abs_path (ps @ [n])) = Inr node"
    and "delete_symlink env spec t = (Inr report, t')"
  shows "symlink_settled spec t' \<and> only_at (ps @ [n]) t t' \<and> cr_changed report \<and> t' \<noteq> t"
proof -
  have node: "t (ps @ [n]) = Some node" "dirs t ps"
    using assms(4) lstat_plain [OF assms(2), of n] by (auto split: if_splits option.splits)
  have t': "t' = t(ps @ [n] := None)" "cr_changed report"
    using delete_symlink_plain [OF assms(1,2,5) node] by blast+
  have "plain_dirs t' ps" using assms(2) by (rule plain_dirs_removed) (use t' in auto)
  then have "symlink_settled spec t'"
    using lstat_plain [of t' ps n] assms(1,3) t'(1) by (simp add: symlink_settled_def)
  moreover have "t' \<noteq> t" using t'(1) node(1) by (metis fun_upd_same option.distinct(1))
  moreover have "only_at (ps @ [n]) t t'" using t'(1) by (auto simp: only_at_def)
  ultimately show ?thesis using t'(2) by blast
qed

lemma symlink_apply_run:
  assumes "symlink_spec_of_json (res_payload r) = Some spec" "\<not> is_no_change d"
    and "symlink_apply env serde_error r d t = (Inr report, t')"
  obtains act where "symlink_validate spec = Inr ()" "decide_action_symlink env spec t = (Inr act, t)"
    "(case act of SlNoChange \<Rightarrow> ret report_no_change | SlCreate \<Rightarrow> create_symlink env spec
        | SlUpdate \<Rightarrow> replace_symlink env spec | SlDelete \<Rightarrow> delete_symlink env spec) t = (Inr report, t')"
proof -
  obtain sp t0 act t1 where sp: "symlink_spec serde_error r t = (Inr sp, t0)"
    and dec: "decide_action_symlink env sp t0 = (Inr act, t1)"
    and run: "(case act of SlNoChange \<Rightarrow> ret report_no_change | SlCreate \<Rightarrow> create_symlink env sp
        | SlUpdate \<Rightarrow> replace_symlink env sp | SlDelete \<Rightarrow> delete_symlink env sp) t1 = (Inr report, t')"
    using assms(2,3) unfolding symlink_apply_def by (auto simp: bindE_eq_Inr)
  have "sp = spec" "t0 = t" "symlink_validate spec = Inr ()"
    using sp assms(1) by (auto simp: symlink_spec_def split: sum.splits)
  then show ?thesis using that dec run decide_state [OF dec] by blast
qed

lemma file_symlink_run:
  assumes "symlink_spec_of_json (res_payload r) = Some spec"
    and "os_path (sl_path spec) = abs_path (ps @ [n])" "plain_dirs t ps"
    and "\<not> is_no_change d" "symlink_apply env serde_error r d t = (Inr report, t')"
    and "env OpReadLink (os_path (sl_path spec)) = None"
  shows "symlink_settled spec t' \<and> (cr_changed report \<longleftrightarrow> t' \<noteq> t) \<and> only_at (ps @ [n]) t t' \<and>
    symlink_plan env serde_error r t' = (Inr NoChange, t')"
proof -
  from assms(1,4,5) obtain act where v: "symlink_validate spec = Inr ()"
    and dec: "decide_action_symlink env spec t = (Inr act, t)"
    and run: "(case act of SlNoChange \<Rightarrow> ret report_no_change | SlCreate \<Rightarrow> create_symlink env spec
        | SlUpdate \<Rightarrow> replace_symlink env spec | SlDelete \<Rightarrow> delete_symlink env spec) t = (Inr report, t')"
    by (rule symlink_apply_run)
  let ?node = "lstat t [] (abs_path (ps @ [n]))"
  note act = decide_Inr(2) [OF dec, unfolded assms(2)]
  have result: "symlink_settled spec t' \<and> only_at (ps @ [n]) t t' \<and> (cr_changed report \<longleftrightarrow> t' \<noteq> t)"
  proof (cases act)
    case SlNoChange
    then have "t' = t" "report = report_no_change" using run by simp_all
    moreover have "symlink_settled spec t"
      using act SlNoChange decide_Inr(3) [OF dec, unfolded assms(2)] assms(2)
      by (cases "sl_state spec") (auto simp: symlink_settled_def split: sum.splits tree_node.splits if_splits)
    ultimately show ?thesis by (simp add: only_at_def report_no_change_def)
  next
    case SlCreate
    then have "sl_state spec = SlPresent" using act by (auto split: SymlinkState.splits sum.splits tree_node.splits if_splits)
    then show ?thesis
      using symlink_create_step [OF assms(2,3), of env report t'] run unfolding SlCreate SymlinkAction.case by blast
  next
    case SlUpdate
    then have pres: "sl_state spec = SlPresent" using act by (auto split: SymlinkState.splits sum.splits tree_node.splits if_splits)
    have "?node \<noteq> Inr (TLink (sl_target spec))" "\<exists>node. ?node = Inr node"
      using act SlUpdate pres by (auto split: sum.splits tree_node.splits if_splits)
    then have "t (ps @ [n]) \<noteq> Some (TLink (sl_target spec))"
      using lstat_plain [OF assms(3), of n] by (auto split: if_splits)
    then show ?thesis
      using symlink_update_step [OF assms(2,3) pres, of env report t'] run unfolding SlUpdate SymlinkAction.case by blast
  next
    case SlDelete
    then obtain node where "sl_state spec = SlAbsent" "?node = Inr node"
      using act by (auto split: SymlinkState.splits sum.splits tree_node.splits if_splits)
    then show ?thesis
      using symlink_delete_step [OF assms(2,3), of node env report t'] run unfolding SlDelete SymlinkAction.case by blast
  qed
  have "decide_action_symlink env spec t' = (Inr SlNoChange, t')"
    using decide_settled decide_Inr(1) [OF dec] assms(6) result unfolding symlink_settled_def by blast
  then have "symlink_plan env serde_error r t' = (Inr NoChange, t')"
    using assms(1) v by (simp add: symlink_plan_def symlink_spec_def bindE_def symlink_diff_def)
  then show ?thesis using result by blast
qed

text \<open>
  C23. \<open>file.symlink\<close> converges in one step: on a path without links among its ancestors, an apply that succeeds leaves the link with
  the wanted target there (or nothing, for \<open>absent\<close>), reports a change exactly when it changed
  the file system, touches nothing outside of the path but missing parent directories, and the next plan finds no change.
\<close>

theorem file_symlink_converges:
  assumes "symlink_spec_of_json (res_payload r) = Some spec"
    and "os_path (sl_path spec) = abs_path (ps @ [n])" "plain_dirs t ps"
    and "\<not> is_no_change d" "symlink_apply env serde_error r d t = (Inr report, t')"
    and "env OpReadLink (os_path (sl_path spec)) = None"
  shows "symlink_settled spec t' \<and> (cr_changed report \<longleftrightarrow> t' \<noteq> t) \<and> only_at (ps @ [n]) t t' \<and>
    symlink_plan env serde_error r t' = (Inr NoChange, t')"
  using assms by (rule file_symlink_run)

section \<open>The contract with the orchestrator\<close>

definition symlink_manageable :: "fs_env \<Rightarrow> Resource \<Rightarrow> file_tree \<Rightarrow> bool" where
  "symlink_manageable env r t \<longleftrightarrow>
     (\<exists>spec ps n. symlink_spec_of_json (res_payload r) = Some spec \<and> os_path (sl_path spec) = abs_path (ps @ [n]) \<and>
        plain_dirs t ps \<and> env OpReadLink (os_path (sl_path spec)) = None)"

lemma symlink_plan_reads: "symlink_plan env serde_error r t = (x, t') \<Longrightarrow> t' = t"
  by (auto simp: symlink_plan_def symlink_spec_def bindE_def dest: decide_state
      split: option.splits sum.splits prod.splits)

lemma symlink_reports_no_deferral:
  assumes "symlink_apply env serde_error r d t = (Inr report, t')"
  shows "\<not> cr_deferred report"
proof -
  have "create_symlink env spec t = (Inr report, t') \<Longrightarrow> \<not> cr_deferred report"
    "replace_symlink env spec t = (Inr report, t') \<Longrightarrow> \<not> cr_deferred report"
    "delete_symlink env spec t = (Inr report, t') \<Longrightarrow> \<not> cr_deferred report" for spec t
    by (auto simp: create_symlink_def replace_symlink_def delete_symlink_def bindE_eq_Inr attempt_def report_changed_def
        report_no_change_def Let_def split: prod.splits sum.splits fs_error.splits)
  note change = this
  show ?thesis
  proof (cases "is_no_change d")
    case True
    then show ?thesis using assms by (auto simp: symlink_apply_def report_no_change_def)
  next
    case False
    then obtain spec act t1 where "(case act of SlNoChange \<Rightarrow> ret report_no_change | SlCreate \<Rightarrow> create_symlink env spec
        | SlUpdate \<Rightarrow> replace_symlink env spec | SlDelete \<Rightarrow> delete_symlink env spec) t1 = (Inr report, t')"
      using assms unfolding symlink_apply_def by (auto simp: bindE_eq_Inr)
    then show ?thesis using change by (cases act) (auto simp: report_no_change_def)
  qed
qed

interpretation symlink_prim: converging_primitive "symlink_plan env serde_error" "symlink_apply env serde_error"
    "symlink_manageable env" for env serde_error
proof
  show "h' = h" if "symlink_plan env serde_error r h = (x, h')" for r h x h'
    using that by (rule symlink_plan_reads)
  show "symlink_plan env serde_error r h' = (Inr NoChange, h') \<and> (cr_changed rep \<longleftrightarrow> h' \<noteq> h) \<and> \<not> cr_deferred rep"
    if "symlink_manageable env r h" "\<not> is_no_change d" "symlink_apply env serde_error r d h = (Inr rep, h')" for r h d rep h'
    using that(1) file_symlink_run [OF _ _ _ that(2,3)] symlink_reports_no_deferral [OF that(3)]
    unfolding symlink_manageable_def by blast
qed

text \<open>
  C24. Applying a manifest twice is applying it once, for \<open>file.symlink\<close>: after a run that did not fail, the orchestrator
  reports no change for the same resource, leaves the host as it is, and the first run had reported a change exactly when
  the host was changed.
\<close>

theorem file_symlink_second_run:
  assumes "symlink_manageable env r (w_host w)" "\<And>k v. w_host (mark_dirty k v) = w_host v"
    and "run_primitive mark_dirty opts (FileSymlinkPrimitive env serde_error) r i st w = (st1, w1)"
    and "ro_outcome (last (rs_resources st1)) \<in> {OutChanged, OutNoChange}"
  shows "run_primitive mark_dirty opts (FileSymlinkPrimitive env serde_error) r i st2 w1 =
      (count_no_change (push_outcome i (res_kind r) OutNoChange [] st2), w1) \<and>
    (ro_outcome (last (rs_resources st1)) = OutChanged \<longleftrightarrow> w_host w1 \<noteq> w_host w)"
  using symlink_prim.second_run [OF assms(1), where mark_dirty = mark_dirty] assms(2-4)
  unfolding FileSymlinkPrimitive_def by blast

section \<open>What is never deleted\<close>

definition keeps_data :: "file_tree \<Rightarrow> file_tree \<Rightarrow> bool" where
  "keeps_data t t' \<longleftrightarrow> (\<forall>q node. t q = Some node \<and> (\<forall>text. node \<noteq> TLink text) \<longrightarrow> t' q = Some node)"

lemma only_adds_keeps_data: "only_adds t t' \<Longrightarrow> keeps_data t t'"
  by (simp add: only_adds_def keeps_data_def)

lemma keeps_data_trans: "keeps_data t t1 \<Longrightarrow> keeps_data t1 t2 \<Longrightarrow> keeps_data t t2"
  by (simp add: keeps_data_def)

lemma lstat_dir_entry: "lstat t [] p = Inr (TLink text) \<Longrightarrow> dir_entry t p = Inr names \<Longrightarrow> t names = Some (TLink text)"
  by (auto simp: lstat_def dir_entry_def split: if_splits component.splits sum.splits option.splits)

lemma unlink_link_keeps_data:
  assumes "lstat t [] p = Inr (TLink text)" "fs_unlink env p t = (r, t')"
  shows "keeps_data t t'"
  using assms lstat_dir_entry [OF assms(1)]
  by (auto simp: fs_unlink_def fs_call_def keeps_data_def split: option.splits sum.splits tree_node.splits)

lemma create_symlink_keeps_data: "create_symlink env spec t = (r, t') \<Longrightarrow> keeps_data t t'"
proof -
  assume run: "create_symlink env spec t = (r, t')"
  obtain x t1 where e: "ensure_parent_dir env (sl_path spec) t = (x, t1)" by fastforce
  have a1: "only_adds t t1"
    using e by (auto simp: ensure_parent_dir_def split: option.splits if_splits
        dest!: io_context_state intro: fs_create_dir_all_only_adds)
  obtain y t2 where l: "fs_symlink env (sl_target spec) (os_path (sl_path spec)) t1 = (y, t2)" by fastforce
  have a2: "only_adds t1 t2" using l by (rule fs_symlink_only_adds)
  have "t' = t1 \<or> t' = t2"
    using run e l by (auto simp: create_symlink_def bindE_def io_context_def map_err_def split: sum.splits)
  then show ?thesis using a1 a2 by (auto intro: only_adds_keeps_data only_adds_trans)
qed

lemma replace_symlink_keeps_data:
  assumes "lstat t [] (os_path (sl_path spec)) = Inr (TLink text)" "replace_symlink env spec t = (r, t')"
  shows "keeps_data t t'"
proof (cases "env OpLstat (os_path (sl_path spec))")
  case (Some msg)
  then have "t' = t"
    using assms(2) by (auto simp: replace_symlink_def Let_def bindE_def io_context_def map_err_def fs_lstat_def fs_call_def)
  then show ?thesis by (simp add: keeps_data_def)
next
  case None
  let ?p = "os_path (sl_path spec)"
  obtain x t1 where u: "fs_unlink env ?p t = (x, t1)" by fastforce
  have a1: "keeps_data t t1" using assms(1) u by (rule unlink_link_keeps_data)
  obtain y t2 where l: "fs_symlink env (sl_target spec) ?p t1 = (y, t2)" by fastforce
  have a2: "keeps_data t1 t2" using fs_symlink_only_adds [OF l] by (rule only_adds_keeps_data)
  have "t' = t1 \<or> t' = t2"
    using assms None u l
    by (auto simp: replace_symlink_def Let_def bindE_def io_context_def map_err_def fs_lstat_def fs_call_def split: sum.splits)
  then show ?thesis using a1 a2 keeps_data_trans by blast
qed

text \<open>
  Without \<open>force\<close> no data is lost: whatever the payload, the file tree and the failing calls, an apply of
  \<open>file.symlink\<close> with \<open>force\<close> off leaves every file and every directory as it was, also when it fails.
\<close>

theorem file_symlink_keeps_data:
  assumes "symlink_apply env serde_error r d t = (res, t')"
    and "\<And>spec. symlink_spec_of_json (res_payload r) = Some spec \<Longrightarrow> \<not> sl_force spec"
  shows "keeps_data t t'"
proof (cases "is_no_change d")
  case True
  then show ?thesis using assms(1) by (simp add: symlink_apply_def keeps_data_def)
next
  case False
  obtain x t0 where sp: "symlink_spec serde_error r t = (x, t0)" by fastforce
  have t0: "t0 = t" using sp by (auto simp: symlink_spec_def split: option.splits sum.splits)
  show ?thesis
  proof (cases x)
    case (Inl e)
    then show ?thesis using assms(1) False sp t0 by (simp add: symlink_apply_def bindE_def keeps_data_def)
  next
    case (Inr spec)
    then have force: "\<not> sl_force spec"
      using sp assms(2) by (auto simp: symlink_spec_def split: option.splits sum.splits)
    obtain y t1 where dec: "decide_action_symlink env spec t = (y, t1)" by fastforce
    have t1: "t1 = t" using dec by (rule decide_state)
    show ?thesis
    proof (cases y)
      case (Inl e)
      then show ?thesis using assms(1) False sp Inr t0 dec t1 by (simp add: symlink_apply_def bindE_def keeps_data_def)
    next
      case act: (Inr act)
      have run: "(case act of SlNoChange \<Rightarrow> ret report_no_change | SlCreate \<Rightarrow> create_symlink env spec
          | SlUpdate \<Rightarrow> replace_symlink env spec | SlDelete \<Rightarrow> delete_symlink env spec) t = (res, t')"
        using assms(1) False sp Inr t0 dec t1 act by (simp add: symlink_apply_def bindE_def)
      note seen = decide_Inr(2,3) [OF dec [unfolded act]]
      have link: "\<exists>text. lstat t [] (os_path (sl_path spec)) = Inr (TLink text)" if "act \<in> {SlUpdate, SlDelete}"
        using seen force that by (auto split: SymlinkState.splits if_splits)
      show ?thesis
      proof (cases act)
        case SlNoChange
        then show ?thesis using run by (simp add: keeps_data_def)
      next
        case SlCreate
        then show ?thesis using run create_symlink_keeps_data by simp
      next
        case SlUpdate
        then show ?thesis using run link replace_symlink_keeps_data by auto
      next
        case SlDelete
        then have "\<exists>z. fs_unlink env (os_path (sl_path spec)) t = (z, t')"
          using run by (auto simp: delete_symlink_def attempt_def split: prod.splits sum.splits fs_error.splits)
        then show ?thesis using link SlDelete unlink_link_keeps_data by blast
      qed
    qed
  qed
qed

section \<open>Examples\<close>

text \<open>\<open>/srv\<close> with a link to the directory \<open>/data\<close>, which holds one file.\<close>

definition link_tree :: file_tree where
  "link_tree = map_of [([''srv''], TDir), ([''srv'', ''l''], TLink ''/data''), ([''data''], TDir),
     ([''data'', ''f''], TFile ''precious'')]"

definition link_resource :: "string \<Rightarrow> bool \<Rightarrow> Resource" where
  "link_resource path force = \<lparr>res_id = ''file.symlink:x'', res_kind = ''file.symlink'', res_spec_version = 1,
     res_payload = JObject [(''force'', JBool force), (''path'', JString path), (''state'', JString ''present''), (''target'', JString ''/new'')],
     res_reload_on = [], res_restart_on = [], res_depends_on = []\<rparr>"

definition calm :: fs_env where
  "calm = (\<lambda>op p. None)"

lemmas symlink_eval = symlink_apply_def symlink_spec_def symlink_spec_of_json_def de_field_def de_default_field_def
  de_symlink_state_def symlink_validate_def is_absolute_def has_parent_dir_segment_def decide_action_symlink_def
  fs_lstat_def fs_read_link_def fs_call_def calm_def lstat_def os_path_def path_components_def ends_open_def component_of_def
  canonicalize_def MAX_LINKS_def link_tree_def link_resource_def is_no_change_def prog_runs Let_def

lemma link_update_run:
  "symlink_apply calm (\<lambda>_. []) (link_resource ''/srv/l'' False) (Add [] JNull) link_tree =
     (Inr (report_changed ''updated symlink /srv/l -> /new''), link_tree([''srv'', ''l''] \<mapsto> TLink ''/new''))"
  by (simp add: symlink_eval replace_symlink_def fs_unlink_def dir_entry_def fs_symlink_def add_entry_def)

lemma link_resource_spec:
  "symlink_spec_of_json (res_payload (link_resource path force)) =
     Some \<lparr>sl_path = path, sl_target = ''/new'', sl_state = SlPresent, sl_force = force\<rparr>"
  by (simp add: symlink_eval)

lemma link_path: "os_path ''/srv/l'' = abs_path ([''srv''] @ [''l''])"
  by (simp add: symlink_eval abs_path_def)

lemma link_plain: "plain_dirs link_tree [''srv'']"
  by (auto simp: plain_dirs_def link_tree_def prefix_Cons)

theorem file_symlink_converges_witness:
  "symlink_plan calm (\<lambda>_. []) (link_resource ''/srv/l'' False) (link_tree([''srv'', ''l''] \<mapsto> TLink ''/new'')) =
     (Inr NoChange, link_tree([''srv'', ''l''] \<mapsto> TLink ''/new''))"
  using file_symlink_converges [OF link_resource_spec _ link_plain _ link_update_run] link_path
  by (simp add: is_no_change_def calm_def)

theorem file_symlink_keeps_data_witness:
  "keeps_data link_tree (link_tree([''srv'', ''l''] \<mapsto> TLink ''/new''))"
  by (rule file_symlink_keeps_data [OF link_update_run]) (simp add: link_resource_spec)

definition link_world :: "file_tree world" where
  "link_world = \<lparr>w_ctx = apply_ctx_build, w_host = link_tree\<rparr>"

lemma link_first_run:
  "snd (run_primitive (\<lambda>_ w. w) sample_opts (FileSymlinkPrimitive calm (\<lambda>_. [])) (link_resource ''/srv/l'' False) ''x'' run_state_new link_world) =
     \<lparr>w_ctx = record_changed ''x'' apply_ctx_build, w_host = link_tree([''srv'', ''l''] \<mapsto> TLink ''/new'')\<rparr>"
  "ro_outcome (last (rs_resources (fst (run_primitive (\<lambda>_ w. w) sample_opts (FileSymlinkPrimitive calm (\<lambda>_. []))
     (link_resource ''/srv/l'' False) ''x'' run_state_new link_world)))) = OutChanged"
proof -
  let ?r = "link_resource ''/srv/l'' False"
  have p: "symlink_plan calm (\<lambda>_. []) ?r link_tree = (Inr (symlink_diff ?r
      \<lparr>sl_path = ''/srv/l'', sl_target = ''/new'', sl_state = SlPresent, sl_force = False\<rparr> SlUpdate), link_tree)"
    by (simp add: symlink_plan_def symlink_eval)
  have a: "symlink_apply calm (\<lambda>_. []) ?r d link_tree =
      (Inr (report_changed ''updated symlink /srv/l -> /new''), link_tree([''srv'', ''l''] \<mapsto> TLink ''/new''))"
    if "\<not> is_no_change d" for d
    using link_update_run that by (simp add: symlink_apply_def is_no_change_def)
  show "snd (run_primitive (\<lambda>_ w. w) sample_opts (FileSymlinkPrimitive calm (\<lambda>_. [])) ?r ''x'' run_state_new link_world) =
      \<lparr>w_ctx = record_changed ''x'' apply_ctx_build, w_host = link_tree([''srv'', ''l''] \<mapsto> TLink ''/new'')\<rparr>"
    "ro_outcome (last (rs_resources (fst (run_primitive (\<lambda>_ w. w) sample_opts (FileSymlinkPrimitive calm (\<lambda>_. []))
     ?r ''x'' run_state_new link_world)))) = OutChanged"
    by (simp_all add: run_primitive_def FileSymlinkPrimitive_def symlink_prim.plan_call symlink_prim.apply_call link_world_def p a
        symlink_diff_def is_no_change_def finish_apply_def report_changed_def outcome_simps Let_def)
qed

theorem file_symlink_second_run_witness:
  "run_primitive (\<lambda>_ w. w) sample_opts (FileSymlinkPrimitive calm (\<lambda>_. [])) (link_resource ''/srv/l'' False) ''x'' run_state_new
     \<lparr>w_ctx = record_changed ''x'' apply_ctx_build, w_host = link_tree([''srv'', ''l''] \<mapsto> TLink ''/new'')\<rparr> =
   (count_no_change (push_outcome ''x'' ''file.symlink'' OutNoChange [] run_state_new),
     \<lparr>w_ctx = record_changed ''x'' apply_ctx_build, w_host = link_tree([''srv'', ''l''] \<mapsto> TLink ''/new'')\<rparr>)"
proof -
  let ?r = "link_resource ''/srv/l'' False"
  let ?run = "run_primitive (\<lambda>_ w. w) sample_opts (FileSymlinkPrimitive calm (\<lambda>_. [])) ?r ''x'' run_state_new link_world"
  have m: "symlink_manageable calm ?r (w_host link_world)"
    unfolding symlink_manageable_def link_resource_spec using link_path link_plain
    by (auto simp: link_world_def calm_def intro!: exI [of _ "[''srv'']"] exI [of _ "''l''"])
  have "?run = (fst ?run, snd ?run)" by simp
  moreover have "res_kind ?r = ''file.symlink''" by (simp add: link_resource_def)
  ultimately show ?thesis
    using file_symlink_second_run [OF m, of "\<lambda>_ w. w" sample_opts "\<lambda>_. []" "''x''" run_state_new "fst ?run" "snd ?run" run_state_new]
    by (simp add: link_first_run)
qed

text \<open>
  A trailing slash turns \<open>force\<close> against the target of the link: for the path \<open>/srv/l/\<close>, where \<open>/srv/l\<close> is already a link to
  the directory \<open>/data\<close>, the validation accepts the path, the plan sees a directory, and the apply with \<open>force\<close> deletes the
  contents of \<open>/data\<close> and then fails, leaving the link as it was.
\<close>

theorem file_symlink_trailing_slash:
  "\<exists>e t'. symlink_apply calm (\<lambda>_. []) (link_resource ''/srv/l/'' True) (Add [] JNull) link_tree = (Inl e, t') \<and>
     link_tree [''data'', ''f''] = Some (TFile ''precious'') \<and> t' [''data'', ''f''] = None \<and>
     t' [''srv'', ''l''] = Some (TLink ''/data'')"
  by (simp add: symlink_eval replace_symlink_def fs_remove_dir_all_def dir_entry_def without_tree_def)

end
