(* ===== verification/Child_Process.thy ===== *)
theory Child_Process
  imports Pacer
begin

text \<open>
  Running a child process with a time limit, as \<open>validate.rs\<close>, \<open>dispatch.rs\<close> and
  \<open>health_check/cmd.rs\<close> do in the same polling loop; and the validate runner of
  \<open>bosun-core/src/validate.rs\<close>.

  The process calls of \<open>std::process\<close>, the clock and \<open>thread::sleep\<close> are the record \<open>proc_api\<close>
  over a world that contains the processes.  The loop ends because time passes, so it is a
  \<open>partial_function (option)\<close>, and that it returns is proved from \<open>proc_clock\<close>.
\<close>

section \<open>Processes\<close>

datatype ExitStatus = Exited int | Signaled

definition exit_success :: "ExitStatus \<Rightarrow> bool" where
  "exit_success st \<longleftrightarrow> st = Exited 0"

definition exit_code :: "ExitStatus \<Rightarrow> int option" where
  "exit_code st = (case st of Exited c \<Rightarrow> Some c | Signaled \<Rightarrow> None)"

text \<open>
  \<open>p_spawn\<close> starts a program with null input and output and a piped error stream; \<open>p_stderr\<close> reads that stream up to its
  end, or up to the given number of bytes.  The read waits until every process that has the stream has closed it, also one that the
  child left behind, and no limit applies to it: it is \<open>None\<close> when it does not return.  The texts on the left are those of the
  \<open>io::Error\<close>; a child that was killed can be waited for.
\<close>

record 'w proc_api =
  p_spawn :: "string \<Rightarrow> string list \<Rightarrow> 'w \<Rightarrow> (string + nat) \<times> 'w"
  p_try_wait :: "nat \<Rightarrow> 'w \<Rightarrow> (string + ExitStatus option) \<times> 'w"
  p_kill :: "nat \<Rightarrow> 'w \<Rightarrow> 'w"
  p_wait :: "nat \<Rightarrow> 'w \<Rightarrow> 'w"
  p_stderr :: "nat \<Rightarrow> nat \<Rightarrow> 'w \<Rightarrow> (string \<times> 'w) option"
  p_now :: "'w \<Rightarrow> nat"
  p_sleep :: "duration \<Rightarrow> 'w \<Rightarrow> 'w"

definition POLL_INTERVAL :: duration where
  "POLL_INTERVAL = 50000000"

datatype child_end = ChildEnded ExitStatus | ChildTimedOut | ChildWaitError string

text \<open>The loop over \<open>try_wait\<close>: a child that is still there after \<open>timeout\<close> is killed and reaped.\<close>

partial_function (option) await_child :: "'w proc_api \<Rightarrow> nat \<Rightarrow> nat \<Rightarrow> duration \<Rightarrow> 'w \<Rightarrow> (child_end \<times> 'w) option" where
  "await_child api child started timeout w =
     (case p_try_wait api child w of
        (Inr (Some status), w1) \<Rightarrow> Some (ChildEnded status, w1)
      | (Inr None, w1) \<Rightarrow>
          (if p_now api w1 - started \<ge> timeout
           then Some (ChildTimedOut, p_wait api child (p_kill api child w1))
           else await_child api child started timeout (p_sleep api POLL_INTERVAL w1))
      | (Inl e, w1) \<Rightarrow> Some (ChildWaitError e, w1))"

section \<open>The loop ends\<close>

text \<open>The clock does not run backwards, and a sleep does not return early.\<close>

definition proc_clock :: "'w proc_api \<Rightarrow> bool" where
  "proc_clock api \<longleftrightarrow>
     (\<forall>c w. p_now api w \<le> p_now api (snd (p_try_wait api c w))) \<and>
     (\<forall>d w. p_now api w + d \<le> p_now api (p_sleep api d w))"


text \<open>Nothing keeps the error stream open when the child is gone.\<close>

definition stderr_ends :: "'w proc_api \<Rightarrow> bool" where
  "stderr_ends api \<longleftrightarrow> (\<forall>child limit w. p_stderr api child limit w \<noteq> None)"

lemma stderr_endsE:
  assumes "stderr_ends api"
  obtains ex w' where "p_stderr api child limit w = Some (ex, w')"
  using assms unfolding stderr_ends_def by (metis option.exhaust prod.exhaust)

lemma await_child_ends:
  assumes "proc_clock api" "started \<le> p_now api w"
  shows "\<exists>r w'. await_child api child started timeout w = Some (r, w') \<and>
    (case r of ChildEnded status \<Rightarrow> \<exists>v. p_try_wait api child v = (Inr (Some status), w')
     | ChildTimedOut \<Rightarrow> \<exists>v. started + timeout \<le> p_now api v \<and> w' = p_wait api child (p_kill api child v)
     | ChildWaitError e \<Rightarrow> \<exists>v. p_try_wait api child v = (Inl e, w'))"
  using assms(2)
proof (induction "started + timeout - p_now api w" arbitrary: w rule: less_induct)
  case less
  obtain x w1 where tw: "p_try_wait api child w = (x, w1)" by fastforce
  have later: "p_now api w \<le> p_now api w1" using assms(1) tw unfolding proc_clock_def by (metis snd_conv)
  consider (error) e where "x = Inl e" | (ended) status where "x = Inr (Some status)"
    | (late) "x = Inr None" "p_now api w1 - started \<ge> timeout" | (again) "x = Inr None" "\<not> p_now api w1 - started \<ge> timeout"
    by (metis option.exhaust sum.exhaust)
  then show ?case
  proof cases
    case error
    then show ?thesis using tw by (subst await_child.simps) auto
  next
    case ended
    then show ?thesis using tw by (subst await_child.simps) auto
  next
    case late
    then have "started + timeout \<le> p_now api w1" using later less.prems by simp
    then show ?thesis using tw late by (subst await_child.simps) auto
  next
    case again
    let ?v = "p_sleep api POLL_INTERVAL w1"
    have "p_now api w1 + POLL_INTERVAL \<le> p_now api ?v" using assms(1) by (simp add: proc_clock_def)
    then have v: "p_now api w < p_now api ?v" using later by (simp add: POLL_INTERVAL_def)
    have "p_now api w < started + timeout" using again(2) later less.prems by simp
    then have "started + timeout - p_now api ?v < started + timeout - p_now api w" using v by simp
    from less(1) [OF this] less.prems v show ?thesis using tw again by (subst await_child.simps) auto
  qed
qed

section \<open>The validate runner\<close>

datatype ValidateError =
    VExitNonZero int string
  | VTimeout duration
  | VSpawn string

definition STDERR_EXCERPT_LIMIT :: nat where
  "STDERR_EXCERPT_LIMIT = 4096"

definition validate_run ::
  "'w proc_api \<Rightarrow> string list \<Rightarrow> duration \<Rightarrow> 'w \<Rightarrow> ((ValidateError + unit) \<times> 'w) option" where
  "validate_run api argv timeout w =
     (case argv of
        [] \<Rightarrow> Some (Inl (VSpawn ''validate runner: empty argv''), w)
      | cmd # rest \<Rightarrow>
          (case p_spawn api cmd rest w of
             (Inl e, w1) \<Rightarrow> Some (Inl (VSpawn e), w1)
           | (Inr child, w1) \<Rightarrow>
               Option.bind (await_child api child (p_now api w1) timeout w1) (\<lambda>(r, w2).
                 case r of
                   ChildEnded status \<Rightarrow>
                     Option.bind (p_stderr api child STDERR_EXCERPT_LIMIT w2) (\<lambda>(stderr_excerpt, w3).
                       let code = (case exit_code status of Some c \<Rightarrow> c | None \<Rightarrow> - 1)
                       in Some (if exit_success status then Inr () else Inl (VExitNonZero code stderr_excerpt), w3))
                 | ChildTimedOut \<Rightarrow> Some (Inl (VTimeout timeout), w2)
                 | ChildWaitError e \<Rightarrow> Some (Inl (VSpawn e), w2))))"

text \<open>\<open>str::replace\<close>: the occurrences of a text that is not empty, from the left.\<close>

function replace_all :: "string \<Rightarrow> string \<Rightarrow> string \<Rightarrow> string" where
  "replace_all pat by_text s =
     (if pat = [] \<or> s = [] then s
      else if take (length pat) s = pat then by_text @ replace_all pat by_text (drop (length pat) s)
      else hd s # replace_all pat by_text (tl s))"
  by pat_completeness auto
termination
  by (relation "measure (\<lambda>(pat, by_text, s). length s)") auto

declare replace_all.simps [simp del]

definition substitute_new_path :: "string list \<Rightarrow> string \<Rightarrow> string list" where
  "substitute_new_path argv new_path = map (replace_all ''{new_path}'' new_path) argv"

text \<open>
  A validator whose error stream ends cannot hang an apply, and only its success counts: the run returns; it is accepted only if the
  program was started and exited with code zero; a program that is still running after the limit
  is killed and reaped; and a program that exits with another code or by a signal is a failure.
\<close>

theorem validate_run_reliable:
  assumes "proc_clock api" "stderr_ends api"
  shows "\<exists>r w'. validate_run api argv timeout w = Some (r, w') \<and>
    (case r of
       Inr _ \<Rightarrow> \<exists>cmd rest child w1 v w2. argv = cmd # rest \<and> p_spawn api cmd rest w = (Inr child, w1) \<and>
         p_try_wait api child v = (Inr (Some (Exited 0)), w2)
     | Inl (VTimeout d) \<Rightarrow> d = timeout \<and> (\<exists>child v w1. p_spawn api (hd argv) (tl argv) w = (Inr child, w1) \<and>
         p_now api w1 + timeout \<le> p_now api v \<and> w' = p_wait api child (p_kill api child v))
     | Inl (VExitNonZero code excerpt) \<Rightarrow> code \<noteq> 0
     | Inl (VSpawn e) \<Rightarrow> True)"
proof (cases argv)
  case Nil
  then show ?thesis by (simp add: validate_run_def)
next
  case (Cons cmd rest)
  obtain x w1 where sp: "p_spawn api cmd rest w = (x, w1)" by fastforce
  show ?thesis
  proof (cases x)
    case (Inl e)
    then show ?thesis using sp Cons by (simp add: validate_run_def)
  next
    case (Inr child)
    from await_child_ends [OF assms(1), of "p_now api w1" w1 child timeout] obtain r w2
      where aw: "await_child api child (p_now api w1) timeout w1 = Some (r, w2)"
        and r: "case r of ChildEnded status \<Rightarrow> \<exists>v. p_try_wait api child v = (Inr (Some status), w2)
          | ChildTimedOut \<Rightarrow> \<exists>v. p_now api w1 + timeout \<le> p_now api v \<and> w2 = p_wait api child (p_kill api child v)
          | ChildWaitError e \<Rightarrow> \<exists>v. p_try_wait api child v = (Inl e, w2)" by blast
    show ?thesis
    proof (cases r)
      case (ChildEnded status)
      obtain ex w3 where ex: "p_stderr api child STDERR_EXCERPT_LIMIT w2 = Some (ex, w3)" using assms(2) by (rule stderr_endsE)
      show ?thesis
      proof (cases status)
        case (Exited c)
        then show ?thesis using sp Inr Cons aw r ChildEnded ex
          by (cases "c = 0") (auto simp: validate_run_def exit_success_def exit_code_def)
      next
        case Signaled
        then show ?thesis using sp Inr Cons aw ChildEnded ex
          by (auto simp: validate_run_def exit_success_def exit_code_def)
      qed
    next
      case ChildTimedOut
      then show ?thesis using sp Inr Cons aw r by (auto simp: validate_run_def)
    next
      case (ChildWaitError e)
      then show ?thesis using sp Inr Cons aw by (simp add: validate_run_def)
    qed
  qed
qed

text \<open>A world that is only a clock, and a program that never ends.\<close>

definition stuck_proc :: "nat proc_api" where
  "stuck_proc = \<lparr>p_spawn = (\<lambda>_ _ w. (Inr 1, w)), p_try_wait = (\<lambda>_ w. (Inr None, w)), p_kill = (\<lambda>_ w. w),
     p_wait = (\<lambda>_ w. w), p_stderr = (\<lambda>_ _ w. Some ([], w)), p_now = (\<lambda>w. w), p_sleep = (\<lambda>d w. w + d)\<rparr>"

theorem validate_run_reliable_witness:
  "\<exists>w'. validate_run stuck_proc [''nginx'', ''-t''] 60000000 0 = Some (Inl (VTimeout 60000000), w')"
proof -
  have "proc_clock stuck_proc" "stderr_ends stuck_proc" by (simp_all add: proc_clock_def stderr_ends_def stuck_proc_def)
  from validate_run_reliable [OF this, of "[''nginx'', ''-t'']" 60000000 0] show ?thesis
    by (simp add: validate_run_def stuck_proc_def await_child.simps POLL_INTERVAL_def)
qed

end
