(* ===== verification/Std_Fmt.thy ===== *)
theory Std_Fmt
  imports Pacer
begin

text \<open>
  The formatting of the standard library that messages of the program use: the \<open>Debug\<close> form of a
  text, of a list of texts and of a \<open>Duration\<close>, and \<open>Duration::as_secs\<close>.  A text is its bytes in
  UTF-8.  The \<open>Debug\<close> form of a text escapes the quote, the backslash and the control characters of ASCII; a byte of a
  character beyond ASCII is copied, as the standard library does for printable characters.
\<close>

definition hex_lower :: "nat \<Rightarrow> string" where
  "hex_lower n = (if n < 16 then [''0123456789abcdef'' ! n] else [''0123456789abcdef'' ! (n div 16), ''0123456789abcdef'' ! (n mod 16)])"

definition debug_char :: "char \<Rightarrow> string" where
  "debug_char c =
     (if c = CHR ''\<newline>'' then [CHR 0x5C, CHR ''n'']
      else if c = CHR 0x0D then [CHR 0x5C, CHR ''r'']
      else if c = CHR 0x09 then [CHR 0x5C, CHR ''t'']
      else if c = CHR 0x00 then [CHR 0x5C, CHR ''0'']
      else if c = CHR 0x22 then [CHR 0x5C, CHR 0x22]
      else if c = CHR 0x5C then [CHR 0x5C, CHR 0x5C]
      else if (of_char c :: nat) < 32 \<or> c = CHR 0x7F then [CHR 0x5C, CHR ''u'', CHR 0x7B] @ hex_lower (of_char c) @ [CHR 0x7D]
      else [c])"

definition debug_str :: "string \<Rightarrow> string" where
  "debug_str s = [CHR 0x22] @ concat (map debug_char s) @ [CHR 0x22]"

definition debug_str_list :: "string list \<Rightarrow> string" where
  "debug_str_list xs = ''['' @ join_with '', '' (map debug_str xs) @ '']''"

text \<open>The digits after the point, without the zeros at the end; \<open>scale\<close> is the weight of the next digit.\<close>

fun decimal_digits :: "nat \<Rightarrow> nat \<Rightarrow> nat \<Rightarrow> string" where
  "decimal_digits 0 frac scale = []"
| "decimal_digits (Suc n) frac scale =
     (if frac = 0 then [] else show_nat (frac div scale) @ decimal_digits n (frac mod scale) (scale div 10))"

definition fmt_decimal :: "nat \<Rightarrow> nat \<Rightarrow> nat \<Rightarrow> string \<Rightarrow> string" where
  "fmt_decimal whole frac scale unit_suffix =
     show_nat whole @ (if frac = 0 then [] else ''.'' @ decimal_digits 9 frac scale) @ unit_suffix"

definition debug_duration :: "duration \<Rightarrow> string" where
  "debug_duration d =
     (if d \<ge> 1000000000 then fmt_decimal (d div 1000000000) (d mod 1000000000) 100000000 ''s''
      else if d \<ge> 1000000 then fmt_decimal (d div 1000000) (d mod 1000000) 100000 ''ms''
      else if d \<ge> 1000 then fmt_decimal (d div 1000) (d mod 1000) 100 [CHR 0xC2, CHR 0xB5, CHR ''s'']
      else fmt_decimal d 0 1 ''ns'')"

definition as_secs :: "duration \<Rightarrow> nat" where
  "as_secs d = d div 1000000000"

definition from_secs :: "nat \<Rightarrow> duration" where
  "from_secs n = n * 1000000000"

end
