(* ===== verification/Systemd_Client.thy ===== *)
theory Systemd_Client
  imports Std_Fmt
begin

text \<open>
  \<open>bosun-systemd-client\<close>: the client of systemd's manager on the system bus (\<open>manager.rs\<close>), the classification
  of its errors (\<open>error.rs\<close>), the snapshot of a unit (\<open>types.rs\<close>) and the wait for the end of a job
  (\<open>job_watch.rs\<close>).  The blocking facade (\<open>facade.rs\<close>) drives these functions one at a time, so they
  are programs over a world that contains the bus.

  The bus is the record \<open>sd_bus\<close>: the methods and properties of systemd that the client calls through
  \<open>zbus\<close>, the stream of \<open>JobRemoved\<close> signals and the clock.
\<close>

section \<open>Errors\<close>

text \<open>The variants of \<open>zbus::Error\<close> that the client tells apart, each with its text.\<close>

datatype ZbusError =
    MethodError string string
  | ZAddress string
  | ZInputOutput string
  | ZHandshake string
  | ZOther string

definition zbus_text :: "ZbusError \<Rightarrow> string" where
  "zbus_text e = (case e of MethodError name s \<Rightarrow> s | ZAddress s \<Rightarrow> s | ZInputOutput s \<Rightarrow> s | ZHandshake s \<Rightarrow> s | ZOther s \<Rightarrow> s)"

datatype SystemdError =
    BusUnavailable string
  | Dbus ZbusError
  | NoSuchUnit string
  | AuthorizationDenied string string
  | JobFailed string string string
  | SdRestartNotObserved string
  | SdTimeout duration
  | SdIo string

definition show_systemd_error :: "SystemdError \<Rightarrow> string" where
  "show_systemd_error e =
     (case e of
        BusUnavailable reason \<Rightarrow> ''system bus unavailable: '' @ reason
      | Dbus err \<Rightarrow> ''dbus error: '' @ zbus_text err
      | NoSuchUnit unit \<Rightarrow> ''no such unit: '' @ unit
      | AuthorizationDenied action unit \<Rightarrow> ''authorization denied for '' @ action @ '' on '' @ unit
      | JobFailed job result active_state \<Rightarrow>
          ''job '' @ job @ '' failed: result='' @ result @ '', active_state='' @ active_state
      | SdRestartNotObserved unit \<Rightarrow> ''restart of '' @ unit @ '' did not change InvocationID''
      | SdTimeout d \<Rightarrow> ''timed out after '' @ debug_duration d @ '' waiting for systemd job''
      | SdIo err \<Rightarrow> ''i/o error: '' @ err)"

definition is_bus_unavailable :: "ZbusError \<Rightarrow> bool" where
  "is_bus_unavailable err = (case err of ZAddress _ \<Rightarrow> True | ZInputOutput _ \<Rightarrow> True | ZHandshake _ \<Rightarrow> True | _ \<Rightarrow> False)"

definition from_zbus :: "string \<Rightarrow> string \<Rightarrow> ZbusError \<Rightarrow> SystemdError" where
  "from_zbus action unit err =
     (let rest = (if is_bus_unavailable err then BusUnavailable (zbus_text err) else Dbus err)
      in case err of
           MethodError n _ \<Rightarrow>
             (if n = ''org.freedesktop.systemd1.NoSuchUnit'' then NoSuchUnit unit
              else if n = ''org.freedesktop.DBus.Error.AccessDenied'' then AuthorizationDenied action unit
              else rest)
         | _ \<Rightarrow> rest)"

section \<open>The bus\<close>

datatype job_method = StartUnit | StopUnit | RestartUnit | ReloadUnit | ReloadOrRestartUnit

record JobEvent =
  ev_job_path :: string
  ev_result :: string
  ev_unit :: string

text \<open>
  What waiting for the next signal gives, with the deadline of \<open>tokio::time::timeout\<close>: a signal,
  a signal whose arguments do not decode, the end of the stream, or that the deadline has passed.
\<close>

datatype next_signal = Signal JobEvent | BadSignal | StreamEnd | DeadlinePassed

record 'w sd_bus =
  bus_connect :: "('w, ZbusError, unit) prog"
  bus_manager_proxy :: "('w, ZbusError, unit) prog"
  bus_reload :: "('w, ZbusError, unit) prog"
  bus_get_unit :: "string \<Rightarrow> ('w, ZbusError, string) prog"
  bus_job_call :: "job_method \<Rightarrow> string \<Rightarrow> string \<Rightarrow> ('w, ZbusError, string) prog"
  bus_enable_unit_files :: "string list \<Rightarrow> bool \<Rightarrow> bool \<Rightarrow> ('w, ZbusError, unit) prog"
  bus_disable_unit_files :: "string list \<Rightarrow> bool \<Rightarrow> ('w, ZbusError, unit) prog"
  bus_get_unit_file_state :: "string \<Rightarrow> ('w, ZbusError, string) prog"
  bus_unit_proxy :: "string \<Rightarrow> ('w, ZbusError, unit) prog"
  bus_need_daemon_reload :: "string \<Rightarrow> ('w, ZbusError, bool) prog"
  bus_active_state :: "string \<Rightarrow> ('w, ZbusError, string) prog"
  bus_sub_state :: "string \<Rightarrow> ('w, ZbusError, string) prog"
  bus_invocation_id :: "string \<Rightarrow> ('w, ZbusError, string) prog"
  bus_service_proxy :: "string \<Rightarrow> ('w, ZbusError, unit) prog"
  bus_exec_main_start_timestamp :: "string \<Rightarrow> ('w, ZbusError, u64) prog"
  bus_receive_job_removed :: "('w, ZbusError, unit) prog"
  bus_next_signal :: "nat \<Rightarrow> 'w \<Rightarrow> next_signal \<times> 'w"
  bus_now :: "'w \<Rightarrow> nat"

section \<open>The manager\<close>

definition JOB_MODE_REPLACE :: string where
  "JOB_MODE_REPLACE = ''replace''"

definition classify_connect_error :: "ZbusError \<Rightarrow> SystemdError" where
  "classify_connect_error err = BusUnavailable (zbus_text err)"

definition connect_system :: "'w sd_bus \<Rightarrow> ('w, SystemdError, unit) prog" where
  "connect_system bus =
     bindE (map_err classify_connect_error (bus_connect bus)) (\<lambda>_.
     map_err (\<lambda>err. if is_bus_unavailable err then BusUnavailable (zbus_text err) else Dbus err)
       (bus_manager_proxy bus))"

definition sd_daemon_reload :: "'w sd_bus \<Rightarrow> ('w, SystemdError, unit) prog" where
  "sd_daemon_reload bus = map_err (from_zbus ''daemon_reload'' []) (bus_reload bus)"

definition needs_daemon_reload :: "'w sd_bus \<Rightarrow> string \<Rightarrow> ('w, SystemdError, bool) prog" where
  "needs_daemon_reload bus unit_name =
     attempt (map_err (from_zbus ''needs_daemon_reload'' unit_name) (bus_get_unit bus unit_name)) (\<lambda>r. case r of
       Inl (NoSuchUnit _) \<Rightarrow> ret False
     | Inl mapped \<Rightarrow> throw mapped
     | Inr unit_path \<Rightarrow>
         bindE (map_err (from_zbus ''needs_daemon_reload'' unit_name) (bus_unit_proxy bus unit_path)) (\<lambda>_.
         map_err (from_zbus ''needs_daemon_reload'' unit_name) (bus_need_daemon_reload bus unit_path)))"

definition job_call :: "'w sd_bus \<Rightarrow> job_method \<Rightarrow> string \<Rightarrow> string \<Rightarrow> ('w, SystemdError, string) prog" where
  "job_call bus meth action name = map_err (from_zbus action name) (bus_job_call bus meth name JOB_MODE_REPLACE)"

definition start_unit :: "'w sd_bus \<Rightarrow> string \<Rightarrow> ('w, SystemdError, string) prog" where
  "start_unit bus name = job_call bus StartUnit ''start_unit'' name"

definition stop_unit :: "'w sd_bus \<Rightarrow> string \<Rightarrow> ('w, SystemdError, string) prog" where
  "stop_unit bus name = job_call bus StopUnit ''stop_unit'' name"

definition restart_unit :: "'w sd_bus \<Rightarrow> string \<Rightarrow> ('w, SystemdError, string) prog" where
  "restart_unit bus name = job_call bus RestartUnit ''restart_unit'' name"

definition reload_unit :: "'w sd_bus \<Rightarrow> string \<Rightarrow> ('w, SystemdError, string) prog" where
  "reload_unit bus name = job_call bus ReloadUnit ''reload_unit'' name"

definition reload_or_restart_unit :: "'w sd_bus \<Rightarrow> string \<Rightarrow> ('w, SystemdError, string) prog" where
  "reload_or_restart_unit bus name = job_call bus ReloadOrRestartUnit ''reload_or_restart_unit'' name"

definition enable_unit :: "'w sd_bus \<Rightarrow> string \<Rightarrow> ('w, SystemdError, unit) prog" where
  "enable_unit bus name = map_err (from_zbus ''enable_unit'' name) (bus_enable_unit_files bus [name] False True)"

definition is_unit_enabled :: "'w sd_bus \<Rightarrow> string \<Rightarrow> ('w, SystemdError, bool) prog" where
  "is_unit_enabled bus name =
     attempt (map_err (from_zbus ''is_unit_enabled'' name) (bus_get_unit_file_state bus name)) (\<lambda>r. case r of
       Inr state \<Rightarrow> ret (state \<in> set [''enabled'', ''enabled-runtime'', ''static'', ''alias''])
     | Inl (NoSuchUnit _) \<Rightarrow> ret False
     | Inl mapped \<Rightarrow> throw mapped)"

definition disable_unit :: "'w sd_bus \<Rightarrow> string \<Rightarrow> ('w, SystemdError, unit) prog" where
  "disable_unit bus name = map_err (from_zbus ''disable_unit'' name) (bus_disable_unit_files bus [name] False)"

section \<open>The state of a unit\<close>

record UnitInfo =
  ui_name :: string
  ui_active_state :: string
  ui_sub_state :: string
  ui_invocation_id :: string
  ui_exec_main_start_timestamp :: "u64 option"

definition HEX :: string where
  "HEX = ''0123456789abcdef''"

definition render_invocation_id :: "string \<Rightarrow> string" where
  "render_invocation_id bytes =
     (if length bytes \<noteq> 16 then []
      else concat (map (\<lambda>b. [HEX ! (of_char b div 16), HEX ! (of_char b mod 16)]) bytes))"

text \<open>A method error while reading a property of the service interface means that there is none.\<close>

definition service_timestamp :: "'w sd_bus \<Rightarrow> string \<Rightarrow> string \<Rightarrow> ('w, SystemdError, u64 option) prog" where
  "service_timestamp bus unit_path name =
     attempt (bus_service_proxy bus unit_path) (\<lambda>r. case r of
       Inr _ \<Rightarrow>
         attempt (bus_exec_main_start_timestamp bus unit_path) (\<lambda>r2. case r2 of
           Inr v \<Rightarrow> ret (Some v)
         | Inl (MethodError _ _) \<Rightarrow> ret None
         | Inl other \<Rightarrow> throw (from_zbus ''unit_info'' name other))
     | Inl (MethodError _ _) \<Rightarrow> ret None
     | Inl other \<Rightarrow> throw (from_zbus ''unit_info'' name other))"

definition unit_info :: "'w sd_bus \<Rightarrow> string \<Rightarrow> ('w, SystemdError, UnitInfo) prog" where
  "unit_info bus name =
     (let mapped = (\<lambda>err. from_zbus ''unit_info'' name err) in
      bindE (map_err mapped (bus_get_unit bus name)) (\<lambda>unit_path.
      bindE (map_err mapped (bus_unit_proxy bus unit_path)) (\<lambda>_.
      bindE (map_err mapped (bus_active_state bus unit_path)) (\<lambda>active_state.
      bindE (map_err mapped (bus_sub_state bus unit_path)) (\<lambda>sub_state.
      bindE (map_err mapped (bus_invocation_id bus unit_path)) (\<lambda>invocation_bytes.
      bindE (service_timestamp bus unit_path name) (\<lambda>timestamp.
      ret \<lparr>ui_name = name, ui_active_state = active_state, ui_sub_state = sub_state,
           ui_invocation_id = render_invocation_id invocation_bytes,
           ui_exec_main_start_timestamp = timestamp\<rparr>)))))))"

section \<open>Waiting for a job\<close>

partial_function (option) wait_for_job_match ::
  "'w sd_bus \<Rightarrow> string \<Rightarrow> duration \<Rightarrow> nat \<Rightarrow> 'w \<Rightarrow> ((SystemdError + JobEvent) \<times> 'w) option" where
  "wait_for_job_match bus target_job_path timeout deadline w =
     (case bus_next_signal bus deadline w of
        (Signal ev, w') \<Rightarrow>
          (if ev_job_path ev = target_job_path then Some (Inr ev, w')
           else wait_for_job_match bus target_job_path timeout deadline w')
      | (BadSignal, w') \<Rightarrow> wait_for_job_match bus target_job_path timeout deadline w'
      | (StreamEnd, w') \<Rightarrow> Some (Inl (SdTimeout timeout), w')
      | (DeadlinePassed, w') \<Rightarrow> Some (Inl (SdTimeout timeout), w'))"

text \<open>The judgement of a finished job: its result, and then the state of its unit.\<close>

record JobResult =
  jr_result :: string
  jr_active_state :: string

definition judge_job :: "string \<Rightarrow> JobEvent \<Rightarrow> string \<Rightarrow> SystemdError + JobResult" where
  "judge_job target_path event active_state =
     (if ev_result event \<noteq> ''done'' then Inl (JobFailed target_path (ev_result event) active_state)
      else if active_state = ''failed'' then Inl (JobFailed target_path (ev_result event) active_state)
      else Inr \<lparr>jr_result = ev_result event, jr_active_state = active_state\<rparr>)"

definition wait_for_job ::
  "'w sd_bus \<Rightarrow> string \<Rightarrow> string \<Rightarrow> duration \<Rightarrow> 'w \<Rightarrow> ((SystemdError + JobResult) \<times> 'w) option" where
  "wait_for_job bus handle unit_name timeout w =
     (case map_err (from_zbus ''wait_for_job'' unit_name) (bus_receive_job_removed bus) w of
        (Inl e, w1) \<Rightarrow> Some (Inl e, w1)
      | (Inr _, w1) \<Rightarrow>
          Option.bind (wait_for_job_match bus handle timeout (bus_now bus w1 + timeout) w1) (\<lambda>(r, w2).
            case r of
              Inl e \<Rightarrow> Some (Inl e, w2)
            | Inr event \<Rightarrow>
                (case unit_info bus unit_name w2 of
                   (Inr info, w3) \<Rightarrow> Some (judge_job handle event (ui_active_state info), w3)
                 | (Inl (NoSuchUnit _), w3) \<Rightarrow> Some (judge_job handle event [], w3)
                 | (Inl err, w3) \<Rightarrow> Some (Inl err, w3))))"

section \<open>The wait ends\<close>

text \<open>
  \<open>tokio::time::timeout\<close> cuts the stream: after finitely many signals the stream is over or the
  deadline has passed.
\<close>

fun after_signals :: "'w sd_bus \<Rightarrow> nat \<Rightarrow> nat \<Rightarrow> 'w \<Rightarrow> 'w" where
  "after_signals bus deadline 0 w = w"
| "after_signals bus deadline (Suc n) w = after_signals bus deadline n (snd (bus_next_signal bus deadline w))"

definition stream_ends :: "'w sd_bus \<Rightarrow> bool" where
  "stream_ends bus \<longleftrightarrow> (\<forall>deadline w. \<exists>n.
     fst (bus_next_signal bus deadline (after_signals bus deadline n w)) \<in> {StreamEnd, DeadlinePassed})"

text \<open>From the world \<open>w\<close> on, the stream brings the event of a job, after some other signals.\<close>

definition job_event_seen :: "'w sd_bus \<Rightarrow> string \<Rightarrow> JobEvent \<Rightarrow> 'w \<Rightarrow> 'w \<Rightarrow> bool" where
  "job_event_seen bus job_path ev w v \<longleftrightarrow>
     ev_job_path ev = job_path \<and>
     (\<exists>deadline n. bus_next_signal bus deadline (after_signals bus deadline n w) = (Signal ev, v))"

lemma wait_for_job_match_ends:
  assumes "fst (bus_next_signal bus deadline (after_signals bus deadline n w)) \<in> {StreamEnd, DeadlinePassed}"
  shows "\<exists>r w'. wait_for_job_match bus p timeout deadline w = Some (r, w') \<and>
    (case r of Inl e \<Rightarrow> e = SdTimeout timeout
     | Inr ev \<Rightarrow> ev_job_path ev = p \<and> (\<exists>n. bus_next_signal bus deadline (after_signals bus deadline n w) = (Signal ev, w')))"
  using assms
proof (induction n arbitrary: w)
  case 0
  then show ?case by (subst wait_for_job_match.simps) (auto split: prod.splits next_signal.splits)
next
  case (Suc n)
  obtain sg v where sg: "bus_next_signal bus deadline w = (sg, v)" by fastforce
  with Suc.prems obtain r w' where r: "wait_for_job_match bus p timeout deadline v = Some (r, w')"
    and ev: "case r of Inl e \<Rightarrow> e = SdTimeout timeout
     | Inr ev \<Rightarrow> ev_job_path ev = p \<and> (\<exists>n. bus_next_signal bus deadline (after_signals bus deadline n v) = (Signal ev, w'))"
    using Suc.IH [of v] by auto
  have later: "\<exists>m. bus_next_signal bus deadline (after_signals bus deadline m w) = (Signal e, w')"
    if "bus_next_signal bus deadline (after_signals bus deadline n v) = (Signal e, w')" for e n
    using that sg by (intro exI [of _ "Suc n"]) simp
  have now_seen: "\<exists>m. bus_next_signal bus deadline (after_signals bus deadline m w) = (Signal e, v)" if "sg = Signal e" for e
    using that sg by (intro exI [of _ 0]) simp
  show ?case using sg r ev later now_seen
    by (subst wait_for_job_match.simps) (auto split: next_signal.splits sum.splits)
qed

lemma judge_job_Inr:
  "judge_job p ev active = Inr jr \<longleftrightarrow>
     ev_result ev = ''done'' \<and> active \<noteq> ''failed'' \<and> jr = \<lparr>jr_result = ''done'', jr_active_state = active\<rparr>"
  by (auto simp: judge_job_def)

text \<open>
  A job is confirmed when systemd, from the subscription on, has announced its end with the result \<open>done\<close> and the unit, asked
  afterwards, is not in the state \<open>failed\<close> (or is no longer loaded).
\<close>

definition job_confirmed :: "'w sd_bus \<Rightarrow> string \<Rightarrow> string \<Rightarrow> string \<Rightarrow> 'w \<Rightarrow> bool" where
  "job_confirmed bus job_path unit_name active_state w \<longleftrightarrow>
     active_state \<noteq> ''failed'' \<and>
     (\<exists>ev v. job_event_seen bus job_path ev (snd (bus_receive_job_removed bus w)) v \<and> ev_result ev = ''done'' \<and>
        (case fst (unit_info bus unit_name v) of
           Inr info \<Rightarrow> ui_active_state info = active_state
         | Inl e \<Rightarrow> (\<exists>u. e = NoSuchUnit u)))"

lemma job_confirmedI:
  assumes "job_event_seen bus p ev (snd (bus_receive_job_removed bus w)) v" "ev_result ev = ''done''" "active \<noteq> ''failed''"
    "case fst (unit_info bus unit_name v) of Inr info \<Rightarrow> ui_active_state info = active | Inl e \<Rightarrow> (\<exists>u. e = NoSuchUnit u)"
  shows "job_confirmed bus p unit_name active w"
  using assms unfolding job_confirmed_def by blast

lemma wait_for_job_ends:
  assumes "stream_ends bus"
  shows "\<exists>r w'. wait_for_job bus p unit_name timeout w = Some (r, w') \<and>
    (\<forall>jr. r = Inr jr \<longrightarrow> job_confirmed bus p unit_name (jr_active_state jr) w)"
proof -
  obtain s w1 where s: "map_err (from_zbus ''wait_for_job'' unit_name) (bus_receive_job_removed bus) w = (s, w1)"
    by fastforce
  show ?thesis
  proof (cases s)
    case (Inl e)
    then show ?thesis using s by (simp add: wait_for_job_def)
  next
    case (Inr u)
    obtain n where "fst (bus_next_signal bus (bus_now bus w1 + timeout) (after_signals bus (bus_now bus w1 + timeout) n w1))
        \<in> {StreamEnd, DeadlinePassed}"
      using assms unfolding stream_ends_def by blast
    from wait_for_job_match_ends [OF this, of p timeout] obtain r w2
      where m: "wait_for_job_match bus p timeout (bus_now bus w1 + timeout) w1 = Some (r, w2)"
        and r: "case r of Inl e \<Rightarrow> e = SdTimeout timeout | Inr ev \<Rightarrow> ev_job_path ev = p \<and>
          (\<exists>n. bus_next_signal bus (bus_now bus w1 + timeout) (after_signals bus (bus_now bus w1 + timeout) n w1) = (Signal ev, w2))"
      by blast
    have w1: "snd (bus_receive_job_removed bus w) = w1" using s by (auto simp: map_err_def split: prod.splits sum.splits)
    obtain i w3 where i: "unit_info bus unit_name w2 = (i, w3)" by fastforce
    show ?thesis
    proof (cases r)
      case (Inl e)
      then show ?thesis using s Inr m by (simp add: wait_for_job_def)
    next
      case (Inr ev)
      with r w1 have ev: "job_event_seen bus p ev (snd (bus_receive_job_removed bus w)) w2"
        unfolding job_event_seen_def by auto
      from s \<open>s = Inr u\<close> m Inr i have run: "wait_for_job bus p unit_name timeout w =
        (case i of Inr info \<Rightarrow> Some (judge_job p ev (ui_active_state info), w3)
         | Inl (NoSuchUnit _) \<Rightarrow> Some (judge_job p ev [], w3) | Inl err \<Rightarrow> Some (Inl err, w3))"
        by (simp add: wait_for_job_def split: sum.splits)
      show ?thesis using run ev i by (cases i) (auto simp: judge_job_Inr intro: job_confirmedI split: SystemdError.splits)
    qed
  qed
qed

end
