(* ===== verification/Handles.thy ===== *)
theory Handles
  imports Runr_Client Systemd_Client
begin

text \<open>
  \<open>bosun-handles/src/lib.rs\<close>: the traits \<open>RunrHandle\<close> and \<open>SystemdHandle\<close> through which the
  primitives and the replay cycle reach the two init systems, as records of operations over a
  world, and their implementations by the HTTP client and by the client of the system bus.
\<close>

section \<open>Errors\<close>

definition show_runr_error :: "RunrError \<Rightarrow> string" where
  "show_runr_error e =
     (case e of
        Unavailable base_url source \<Rightarrow> ''runr unavailable at '' @ base_url @ '': '' @ source
      | ApiError status body \<Rightarrow> ''runr API error: status='' @ show_nat (unat status) @ '', body='' @ body
      | BadResponse s \<Rightarrow> ''runr returned invalid JSON: '' @ s
      | UnitNotFound kind name \<Rightarrow> ''runr '' @ kind @ '' not found: '' @ name
      | RestartNotObserved unit \<Rightarrow> ''restart of '' @ unit @ '' did not produce observed restart increment''
      | StartNotObserved unit last_state \<Rightarrow>
          ''start of '' @ unit @ '' did not reach Running state in time (last='' @ last_state @ '')''
      | ServiceStartFailed unit \<Rightarrow> ''start of '' @ unit @ '' resulted in Failed state''
      | RunrIo err \<Rightarrow> ''i/o error: '' @ err)"

section \<open>The traits\<close>

record 'w RunrHandle =
  rh_base_url :: string
  rh_daemon_reload :: "('w, RunrError, ActionAck) prog"
  rh_service_start :: "string \<Rightarrow> bool \<Rightarrow> ('w, RunrError, ActionAck) prog"
  rh_service_stop :: "string \<Rightarrow> bool \<Rightarrow> string option \<Rightarrow> ('w, RunrError, ActionAck) prog"
  rh_service_restart :: "string \<Rightarrow> ('w, RunrError, ActionAck) prog"
  rh_service_reload :: "string \<Rightarrow> ('w, RunrError, ActionAck) prog"
  rh_timer_start :: "string \<Rightarrow> ('w, RunrError, ActionAck) prog"
  rh_timer_stop :: "string \<Rightarrow> ('w, RunrError, ActionAck) prog"
  rh_timer_enable :: "string \<Rightarrow> bool \<Rightarrow> ('w, RunrError, ActionAck) prog"
  rh_timer_disable :: "string \<Rightarrow> bool \<Rightarrow> ('w, RunrError, ActionAck) prog"
  rh_service_statuses :: "('w, RunrError, ServiceStatus list) prog"
  rh_timer_statuses :: "('w, RunrError, TimerStatus list) prog"
  rh_verify_restart :: "string \<Rightarrow> ServiceStatus \<Rightarrow> duration \<Rightarrow> duration \<Rightarrow> ('w, RunrError, ServiceStatus) prog"
  rh_verify_start :: "string \<Rightarrow> duration \<Rightarrow> duration \<Rightarrow> ('w, RunrError, ServiceStatus) prog"

record 'w SystemdHandle =
  sh_daemon_reload :: "('w, SystemdError, unit) prog"
  sh_needs_daemon_reload :: "string \<Rightarrow> ('w, SystemdError, bool) prog"
  sh_start_unit :: "string \<Rightarrow> ('w, SystemdError, unit) prog"
  sh_stop_unit :: "string \<Rightarrow> ('w, SystemdError, unit) prog"
  sh_restart_unit :: "string \<Rightarrow> ('w, SystemdError, unit) prog"
  sh_reload_unit :: "string \<Rightarrow> ('w, SystemdError, unit) prog"
  sh_enable_unit :: "string \<Rightarrow> ('w, SystemdError, unit) prog"
  sh_is_unit_enabled :: "string \<Rightarrow> ('w, SystemdError, bool) prog"
  sh_disable_unit :: "string \<Rightarrow> ('w, SystemdError, unit) prog"
  sh_unit_info :: "string \<Rightarrow> ('w, SystemdError, UnitInfo) prog"

section \<open>The HTTP client is a handle\<close>

text \<open>
  \<open>impl RunrHandle for Client\<close>.  The two polling loops return under the clock assumption of
  \<open>Runr_Client\<close>; of a loop that never returns, \<open>finished\<close> says nothing.
\<close>

definition finished :: "('s \<Rightarrow> (('e + 'a) \<times> 's) option) \<Rightarrow> ('s, 'e, 'a) prog" where
  "finished m = (\<lambda>s. the (m s))"

lemma finished_Some: "m s = Some x \<Longrightarrow> finished m s = x"
  by (simp add: finished_def)

definition client_handle :: "'w runr_net \<Rightarrow> runr_client \<Rightarrow> 'w RunrHandle" where
  "client_handle net c =
     \<lparr>rh_base_url = client_base_url c,
      rh_daemon_reload = daemon_reload net c,
      rh_service_start = service_start net c,
      rh_service_stop = service_stop net c,
      rh_service_restart = service_restart net c,
      rh_service_reload = service_reload net c,
      rh_timer_start = timer_start net c,
      rh_timer_stop = timer_stop net c,
      rh_timer_enable = timer_enable net c,
      rh_timer_disable = timer_disable net c,
      rh_service_statuses = service_statuses net c,
      rh_timer_statuses = timer_statuses net c,
      rh_verify_restart = (\<lambda>name before poll_interval poll_total.
        finished (verify_restart net c name before poll_interval poll_total)),
      rh_verify_start = (\<lambda>name poll_interval poll_total.
        finished (verify_start net c name poll_interval poll_total))\<rparr>"

lemma client_handle_simps [simp]:
  "rh_daemon_reload (client_handle net c) = daemon_reload net c"
  "rh_service_start (client_handle net c) = service_start net c"
  "rh_service_stop (client_handle net c) = service_stop net c"
  "rh_service_restart (client_handle net c) = service_restart net c"
  "rh_service_reload (client_handle net c) = service_reload net c"
  "rh_service_statuses (client_handle net c) = service_statuses net c"
  by (simp_all add: client_handle_def)

lemma client_verify_start:
  assumes "clock_ok net" "0 < poll_interval"
    and "rh_verify_start (client_handle net c) name poll_interval poll_total w = (Inr st, w')"
  shows "verify_start net c name poll_interval poll_total w = Some (Inr st, w')"
    "st_name st = name" "st_state st = RUNNING_STATE"
proof -
  have "''Unknown'' \<noteq> RUNNING_STATE" by (simp add: RUNNING_STATE_def)
  from verify_start_loop_ends [OF assms(1,2) this, of c name "net_now net w + poll_total" w] obtain r v
    where r: "verify_start net c name poll_interval poll_total w = Some (r, v)"
      and ends: "case r of Inr current \<Rightarrow> st_name current = name \<and> st_state current = RUNNING_STATE
        | Inl e \<Rightarrow> status_error net c e \<or> e = ServiceStartFailed name \<or>
          (\<exists>s. e = StartNotObserved name s \<and> s \<noteq> RUNNING_STATE) \<and> net_now net w + poll_total \<le> net_now net v"
    unfolding verify_start_def by blast
  have "r = Inr st" "v = w'" using assms(3) r by (simp_all add: client_handle_def finished_def)
  then show "verify_start net c name poll_interval poll_total w = Some (Inr st, w')" "st_name st = name" "st_state st = RUNNING_STATE"
    using r ends by simp_all
qed

section \<open>The bus client is a handle\<close>

text \<open>
  \<open>impl SystemdHandle for BlockingSystemdManager\<close>: a call that starts a job waits for its end.
\<close>

definition JOB_WAIT_BUDGET :: duration where
  "JOB_WAIT_BUDGET = from_secs 120"

definition run_job :: "'w sd_bus \<Rightarrow> string \<Rightarrow> ('w, SystemdError, string) prog \<Rightarrow> ('w, SystemdError, unit) prog" where
  "run_job bus name issue =
     bindE issue (\<lambda>handle.
     bindE (finished (wait_for_job bus handle name JOB_WAIT_BUDGET)) (\<lambda>_. ret ()))"

definition manager_handle :: "'w sd_bus \<Rightarrow> 'w SystemdHandle" where
  "manager_handle bus =
     \<lparr>sh_daemon_reload = sd_daemon_reload bus,
      sh_needs_daemon_reload = needs_daemon_reload bus,
      sh_start_unit = (\<lambda>name. run_job bus name (start_unit bus name)),
      sh_stop_unit = (\<lambda>name. run_job bus name (stop_unit bus name)),
      sh_restart_unit = (\<lambda>name. run_job bus name (restart_unit bus name)),
      sh_reload_unit = (\<lambda>name. run_job bus name (reload_unit bus name)),
      sh_enable_unit = enable_unit bus,
      sh_is_unit_enabled = is_unit_enabled bus,
      sh_disable_unit = disable_unit bus,
      sh_unit_info = unit_info bus\<rparr>"

lemma run_job_Inr:
  assumes "stream_ends bus" "run_job bus name issue w = (Inr (), w')"
  shows "\<exists>job w1 active. issue w = (Inr job, w1) \<and> job_confirmed bus job name active w1"
proof -
  from assms(2) obtain job w1 where job: "issue w = (Inr job, w1)"
    and rest: "bindE (finished (wait_for_job bus job name JOB_WAIT_BUDGET)) (\<lambda>_. ret ()) w1 = (Inr (), w')"
    unfolding run_job_def bindE_eq_Inr by blast
  from wait_for_job_ends [OF assms(1), of job name JOB_WAIT_BUDGET w1] obtain r w2
    where wait: "wait_for_job bus job name JOB_WAIT_BUDGET w1 = Some (r, w2)"
      and r: "\<forall>jr. r = Inr jr \<longrightarrow> job_confirmed bus job name (jr_active_state jr) w1" by blast
  have "finished (wait_for_job bus job name JOB_WAIT_BUDGET) w1 = (r, w2)" using wait by (rule finished_Some)
  with rest obtain jr where "r = Inr jr" unfolding bindE_eq_Inr by auto
  with job r show ?thesis by blast
qed

text \<open>
  A unit operation on systemd that reports success really took place: the manager accepted the call and
  named a job, systemd afterwards announced that very job as \<open>done\<close>, and the unit asked afterwards was not
  failed, which a \<open>done\<close> alone does not promise (Debian bug 996911).
\<close>

theorem systemd_job_confirmed:
  assumes "stream_ends bus"
    and "(op, meth, action) \<in> set [(sh_start_unit, StartUnit, ''start_unit''), (sh_stop_unit, StopUnit, ''stop_unit''),
      (sh_restart_unit, RestartUnit, ''restart_unit''), (sh_reload_unit, ReloadUnit, ''reload_unit'')]"
    and "op (manager_handle bus) name w = (Inr (), w')"
  shows "\<exists>job w1 active. bus_job_call bus meth name ''replace'' w = (Inr job, w1) \<and> job_confirmed bus job name active w1"
proof -
  have "run_job bus name (job_call bus meth action name) w = (Inr (), w')"
    using assms(2,3)
    by (auto simp: manager_handle_def start_unit_def stop_unit_def restart_unit_def reload_unit_def)
  from run_job_Inr [OF assms(1) this] show ?thesis
    by (auto simp: job_call_def map_err_def JOB_MODE_REPLACE_def split: prod.splits sum.splits)
qed

text \<open>A bus on which a job ends before the first signal is waited for; the world counts the signals.\<close>

definition sample_bus :: "nat sd_bus" where
  "sample_bus =
     \<lparr>bus_connect = ret (), bus_manager_proxy = ret (), bus_reload = ret (),
      bus_get_unit = (\<lambda>name. ret name),
      bus_job_call = (\<lambda>meth name mode. ret ''/job/7''),
      bus_enable_unit_files = (\<lambda>names runtime force. ret ()),
      bus_disable_unit_files = (\<lambda>names runtime. ret ()),
      bus_get_unit_file_state = (\<lambda>name. ret ''enabled''),
      bus_unit_proxy = (\<lambda>path. ret ()), bus_need_daemon_reload = (\<lambda>path. ret False),
      bus_active_state = (\<lambda>path. ret ''active''), bus_sub_state = (\<lambda>path. ret ''running''),
      bus_invocation_id = (\<lambda>path. ret []), bus_service_proxy = (\<lambda>path. ret ()),
      bus_exec_main_start_timestamp = (\<lambda>path. ret 0), bus_receive_job_removed = ret (),
      bus_next_signal = (\<lambda>deadline w.
        (if w = 0 then Signal \<lparr>ev_job_path = ''/job/7'', ev_result = ''done'', ev_unit = ''pg.service''\<rparr>
         else DeadlinePassed, Suc w)),
      bus_now = (\<lambda>w. w)\<rparr>"

lemma sample_bus_ends: "stream_ends sample_bus"
  unfolding stream_ends_def
proof (intro allI)
  fix deadline w
  show "\<exists>n. fst (bus_next_signal sample_bus deadline (after_signals sample_bus deadline n w)) \<in> {StreamEnd, DeadlinePassed}"
    by (rule exI [of _ 1]) (simp add: sample_bus_def)
qed

lemma sample_bus_restart: "sh_restart_unit (manager_handle sample_bus) ''pg.service'' 0 = (Inr (), 1)"
proof -
  have "wait_for_job_match sample_bus ''/job/7'' JOB_WAIT_BUDGET (0 + JOB_WAIT_BUDGET) 0 =
      Some (Inr \<lparr>ev_job_path = ''/job/7'', ev_result = ''done'', ev_unit = ''pg.service''\<rparr>, 1)"
    by (subst wait_for_job_match.simps) (simp add: sample_bus_def)
  then have "wait_for_job sample_bus ''/job/7'' ''pg.service'' JOB_WAIT_BUDGET 0 =
      Some (Inr \<lparr>jr_result = ''done'', jr_active_state = ''active''\<rparr>, 1)"
    by (simp add: wait_for_job_def sample_bus_def map_err_def ret_def unit_info_def service_timestamp_def bindE_def
        attempt_def judge_job_def)
  then show ?thesis
    by (simp add: manager_handle_def run_job_def restart_unit_def job_call_def bindE_def map_err_def sample_bus_def
        ret_def finished_def)
qed

theorem systemd_job_confirmed_witness:
  "\<exists>job w1 active. bus_job_call sample_bus RestartUnit ''pg.service'' ''replace'' 0 = (Inr job, w1) \<and>
     job_confirmed sample_bus job ''pg.service'' active w1"
  using systemd_job_confirmed [of sample_bus sh_restart_unit RestartUnit "''restart_unit''" "''pg.service''" 0 1]
    sample_bus_ends sample_bus_restart by simp

end
