(* ===== verification/Dispatch.thy ===== *)
theory Dispatch
  imports Defer_Replay Handles Child_Process Primitive
begin

text \<open>
  \<open>bosun-primitives/src/dispatch.rs\<close>: the production client that carries out an entry of the
  defer journal, through systemd, through runr or as a local command.

  The theorems state which request an entry becomes and how its answer is classified, and, with
  \<open>Defer_Replay\<close>, what one replay cycle then does to the entry.
\<close>

section \<open>The client\<close>

record 'w RealDispatchClient =
  dc_runr :: "'w RunrHandle option"
  dc_systemd :: "'w SystemdHandle option"

definition COMMAND_DISPATCH_TIMEOUT :: duration where
  "COMMAND_DISPATCH_TIMEOUT = from_secs 60"

definition COMMAND_EXCERPT_LIMIT :: nat where
  "COMMAND_EXCERPT_LIMIT = 256"

definition INIT_SYSTEMD :: string where
  "INIT_SYSTEMD = ''systemd''"

definition INIT_RUNR :: string where
  "INIT_RUNR = ''runr''"

definition map_runr_result :: "RunrError + 'a \<Rightarrow> DispatchError + unit" where
  "map_runr_result result =
     (case result of
        Inr _ \<Rightarrow> Inr ()
      | Inl (Unavailable base_url source) \<Rightarrow> Inl ClientUnavailable
      | Inl other \<Rightarrow> Inl (ActionFailed (show_runr_error other)))"

definition map_systemd_result :: "SystemdError + unit \<Rightarrow> DispatchError + unit" where
  "map_systemd_result result =
     (case result of
        Inr _ \<Rightarrow> Inr ()
      | Inl (BusUnavailable reason) \<Rightarrow> Inl ClientUnavailable
      | Inl other \<Rightarrow> Inl (ActionFailed (show_systemd_error other)))"

definition with_result :: "('e + 'a \<Rightarrow> 'f + 'b) \<Rightarrow> ('w, 'e, 'a) prog \<Rightarrow> ('w, 'f, 'b) prog" where
  "with_result f m = (\<lambda>w. case m w of (r, w') \<Rightarrow> (f r, w'))"

definition dispatch_systemd :: "'w RealDispatchClient \<Rightarrow> 'w dispatch_client" where
  "dispatch_systemd dc entry =
     (case dc_systemd dc of
        None \<Rightarrow> throw ClientUnavailable
      | Some handle \<Rightarrow>
          (let unit_name = entry_target entry
           in case entry_action entry of
                Start \<Rightarrow> with_result map_systemd_result (sh_start_unit handle unit_name)
              | Stop \<Rightarrow> with_result map_systemd_result (sh_stop_unit handle unit_name)
              | Restart \<Rightarrow> with_result map_systemd_result (sh_restart_unit handle unit_name)
              | Reload \<Rightarrow> with_result map_systemd_result (sh_reload_unit handle unit_name)
              | ReloadOrRestart \<Rightarrow> with_result map_systemd_result (sh_restart_unit handle unit_name)
              | DaemonReload \<Rightarrow> with_result map_systemd_result (sh_daemon_reload handle)
              | Command argv \<Rightarrow> throw (ActionFailed
                  (''command action with init_system=systemd is invalid for entry '' @ entry_id entry))))"

definition dispatch_runr :: "'w RealDispatchClient \<Rightarrow> 'w dispatch_client" where
  "dispatch_runr dc entry =
     (case dc_runr dc of
        None \<Rightarrow> throw ClientUnavailable
      | Some handle \<Rightarrow>
          (let unit_name = entry_target entry
           in case entry_action entry of
                Start \<Rightarrow> with_result map_runr_result (rh_service_start handle unit_name True)
              | Stop \<Rightarrow> with_result map_runr_result (rh_service_stop handle unit_name False None)
              | Restart \<Rightarrow> with_result map_runr_result (rh_service_restart handle unit_name)
              | Reload \<Rightarrow> with_result map_runr_result (rh_service_reload handle unit_name)
              | ReloadOrRestart \<Rightarrow> with_result map_runr_result (rh_service_restart handle unit_name)
              | DaemonReload \<Rightarrow> with_result map_runr_result (rh_daemon_reload handle)
              | Command argv \<Rightarrow> throw (ActionFailed
                  (''command action with init_system=runr is invalid for entry '' @ entry_id entry))))"

definition run_with_timeout ::
  "'w proc_api \<Rightarrow> string \<Rightarrow> string list \<Rightarrow> duration \<Rightarrow> 'w \<Rightarrow> ((DispatchError + unit) \<times> 'w) option" where
  "run_with_timeout api program args timeout w =
     (case p_spawn api program args w of
        (Inl e, w1) \<Rightarrow> Some (Inl (ActionFailed (''failed to spawn command '' @ program @ '': '' @ e)), w1)
      | (Inr child, w1) \<Rightarrow>
          Option.bind (await_child api child (p_now api w1) timeout w1) (\<lambda>(r, w2).
            case r of
              ChildEnded status \<Rightarrow>
                (if exit_success status then Some (Inr (), w2)
                 else Option.bind (p_stderr api child COMMAND_EXCERPT_LIMIT w2) (\<lambda>(stderr_excerpt, w3).
                        let code = (case exit_code status of Some c \<Rightarrow> show_int c | None \<Rightarrow> ''signal'')
                        in Some (Inl (ActionFailed (''command '' @ program @ '' exited with '' @ code @ '': '' @ stderr_excerpt)), w3)))
            | ChildTimedOut \<Rightarrow>
                Some (Inl (ActionFailed (''command '' @ program @ '' timed out after '' @ show_nat (as_secs timeout) @ ''s'')), w2)
            | ChildWaitError e \<Rightarrow>
                Some (Inl (ActionFailed (''try_wait error for command '' @ program @ '': '' @ e)), w2)))"

definition dispatch_command :: "'w proc_api \<Rightarrow> 'w dispatch_client" where
  "dispatch_command api entry =
     (case entry_action entry of
        Command argv \<Rightarrow>
          (case argv of
             [] \<Rightarrow> throw (ActionFailed (''command argv is empty for entry '' @ entry_id entry))
           | program # args \<Rightarrow> finished (run_with_timeout api program args COMMAND_DISPATCH_TIMEOUT))
      | other \<Rightarrow> throw (ActionFailed (''expected Command action for entry '' @ entry_id entry @ '', got '' @
          debug_str (filename_slug other))))"

definition is_command :: "DeferAction \<Rightarrow> bool" where
  "is_command act = (case act of Command _ \<Rightarrow> True | _ \<Rightarrow> False)"

definition real_dispatch :: "'w proc_api \<Rightarrow> 'w RealDispatchClient \<Rightarrow> 'w dispatch_client" where
  "real_dispatch api dc entry =
     (if is_command (entry_action entry) then dispatch_command api entry
      else if entry_init_system entry = INIT_SYSTEMD then dispatch_systemd dc entry
      else if entry_init_system entry = INIT_RUNR then dispatch_runr dc entry
      else throw (ActionFailed (''unsupported init_system '' @ debug_str (entry_init_system entry) @
        '' for entry '' @ entry_id entry)))"

section \<open>Requests to runr\<close>

text \<open>The one request that an entry for a unit of runr becomes.\<close>

definition runr_request :: "runr_client \<Rightarrow> DeferEntry \<Rightarrow> http_request option" where
  "runr_request c entry =
     (let post = (\<lambda>path body. Some (HttpPost (client_base_url c @ path) [(''Content-Type'', ''application/json'')] body));
          path = unit_path ''services'' (entry_target entry);
          restart = post (path ''restart'')
            (JObject [(''start'', JObject [(''idempotent'', JBool True)]), (''stop'', JObject [(''force'', JBool False)])])
      in case entry_action entry of
           Start \<Rightarrow> post (path ''start'') (JObject [(''idempotent'', JBool True)])
         | Stop \<Rightarrow> post (path ''stop'') (JObject [(''force'', JBool False)])
         | Restart \<Rightarrow> restart
         | Reload \<Rightarrow> post (path ''reload'') (JObject [])
         | ReloadOrRestart \<Rightarrow> restart
         | DaemonReload \<Rightarrow> post ''/api/v1/units/reload'' (JObject [])
         | Command argv \<Rightarrow> None)"

text \<open>Success is an answer that decodes; \<open>ClientUnavailable\<close> is a transport error and nothing else.\<close>

definition runr_outcome :: "'w runr_net \<Rightarrow> ureq_error + response_body \<Rightarrow> DispatchError + unit \<Rightarrow> bool" where
  "runr_outcome net answer result =
     (case answer of
        Inl (UreqTransport t) \<Rightarrow> result = Inl ClientUnavailable
      | Inl (UreqStatus status body) \<Rightarrow> (\<exists>msg. result = Inl (ActionFailed msg))
      | Inr (Inl e) \<Rightarrow> (\<exists>msg. result = Inl (ActionFailed msg))
      | Inr (Inr body) \<Rightarrow>
          (case net_de_ack net body of
             Inr ack \<Rightarrow> result = Inr ()
           | Inl err \<Rightarrow> (\<exists>msg. result = Inl (ActionFailed msg))))"

lemma post_json_outcome:
  assumes "net_call net (HttpPost (client_base_url c @ path) [(''Content-Type'', ''application/json'')] body) w = (answer, w')"
  shows "\<exists>result. with_result map_runr_result (post_json net c (net_de_ack net) path body lookup) w = (result, w') \<and>
    runr_outcome net answer result"
  using assms
  by (cases answer; cases "projl answer"; cases "projr answer"; cases lookup)
    (auto simp: with_result_def post_json_def map_runr_result_def from_ureq_def parse_json_def runr_outcome_def Let_def
      split: sum.splits prod.splits bool.splits RunrError.splits)

lemma dispatch_runr_run:
  assumes "dc_runr dc = Some (client_handle net c)" "entry_init_system entry = ''runr''"
    and "runr_request c entry = Some request" "net_call net request w = (answer, w')"
  shows "\<exists>result. real_dispatch api dc entry w = (result, w') \<and> runr_outcome net answer result"
proof -
  have "\<not> is_command (entry_action entry)"
    using assms(3) by (auto simp: is_command_def runr_request_def Let_def split: DeferAction.splits)
  then have run: "real_dispatch api dc entry = dispatch_runr dc entry"
    using assms(2) by (simp add: real_dispatch_def INIT_RUNR_def INIT_SYSTEMD_def)
  note defs = dispatch_runr_def runr_request_def service_start_def service_stop_def service_restart_def service_reload_def
    daemon_reload_def start_options_def stop_options_def empty_body_def
  show ?thesis
    using assms(1,3,4) unfolding run
    by (cases "entry_action entry") (auto simp: defs Let_def intro: post_json_outcome)
qed

text \<open>
  C20. An entry for runr becomes exactly one request, the one its action names for its unit, with the options the
  code fixes (an idempotent start, a stop without force; a reload-or-restart is a restart), and its
  answer decides the outcome: an acknowledgement is success, a failed transport means that the
  backend is unavailable, and every other answer is a failed attempt.
\<close>

theorem dispatch_runr_exact:
  assumes "dc_runr dc = Some (client_handle net c)" "entry_init_system entry = ''runr''"
    and "runr_request c entry = Some request" "net_call net request w = (answer, w')"
  shows "\<exists>result. real_dispatch api dc entry w = (result, w') \<and> runr_outcome net answer result"
  using assms by (rule dispatch_runr_run)

section \<open>Local commands\<close>

text \<open>
  A deferred command whose error stream ends cannot hang the replay: with a clock that moves, running it returns.  It succeeds only if
  the program was started and exited with code zero; a program that is still there after sixty
  seconds is killed and reaped; and no outcome of a command is \<open>ClientUnavailable\<close>, so a
  command that keeps failing uses up its attempts.
\<close>

theorem dispatch_command_bounded:
  assumes "proc_clock api" "entry_action entry = Command (program # args)" "stderr_ends api"
  shows "\<exists>r w'. run_with_timeout api program args (from_secs 60) w = Some (r, w') \<and>
    real_dispatch api dc entry w = (r, w') \<and> r \<noteq> Inl ClientUnavailable \<and>
    (case p_spawn api program args w of
       (Inl e, w1) \<Rightarrow> r \<noteq> Inr () \<and> w' = w1
     | (Inr child, w1) \<Rightarrow>
         r = Inr () \<and> (\<exists>v. p_try_wait api child v = (Inr (Some (Exited 0)), w')) \<or>
         r \<noteq> Inr () \<and> (\<exists>v x w2. p_try_wait api child v = (x, w2) \<and> x \<notin> {Inr None, Inr (Some (Exited 0))}) \<or>
         r \<noteq> Inr () \<and> (\<exists>v. p_now api w1 + from_secs 60 \<le> p_now api v \<and> w' = p_wait api child (p_kill api child v)))"
proof -
  obtain x w1 where sp: "p_spawn api program args w = (x, w1)" by fastforce
  have run: "real_dispatch api dc entry w = the (run_with_timeout api program args (from_secs 60) w)"
    using assms(2) by (simp add: real_dispatch_def is_command_def dispatch_command_def finished_def COMMAND_DISPATCH_TIMEOUT_def)
  show ?thesis
  proof (cases x)
    case (Inl e)
    then show ?thesis using sp unfolding run by (simp add: run_with_timeout_def)
  next
    case (Inr child)
    from await_child_ends [OF assms(1), of "p_now api w1" w1 child "from_secs 60"] obtain r w2
      where aw: "await_child api child (p_now api w1) (from_secs 60) w1 = Some (r, w2)"
        and r: "case r of ChildEnded status \<Rightarrow> \<exists>v. p_try_wait api child v = (Inr (Some status), w2)
          | ChildTimedOut \<Rightarrow> \<exists>v. p_now api w1 + from_secs 60 \<le> p_now api v \<and> w2 = p_wait api child (p_kill api child v)
          | ChildWaitError e \<Rightarrow> \<exists>v. p_try_wait api child v = (Inl e, w2)" by blast
    obtain ex w3 where ex: "p_stderr api child COMMAND_EXCERPT_LIMIT w2 = Some (ex, w3)" using assms(3) by (rule stderr_endsE)
    show ?thesis
    proof (cases r)
      case (ChildEnded status)
      then obtain v where v: "p_try_wait api child v = (Inr (Some status), w2)" using r by auto
      show ?thesis
      proof (cases "status = Exited 0")
        case True
        then show ?thesis using sp Inr aw v ChildEnded unfolding run
          by (auto simp: run_with_timeout_def exit_success_def)
      next
        case False
        then have "\<exists>v x w2. p_try_wait api child v = (x, w2) \<and> x \<notin> {Inr None, Inr (Some (Exited 0))}"
          using v by (intro exI [of _ v] exI [of _ "Inr (Some status)"] exI [of _ w2]) simp
        then show ?thesis using sp Inr aw ChildEnded ex False unfolding run
          by (simp add: run_with_timeout_def exit_success_def)
      qed
    next
      case ChildTimedOut
      then show ?thesis using sp Inr aw r unfolding run by (auto simp: run_with_timeout_def)
    next
      case (ChildWaitError e)
      then obtain v where v: "p_try_wait api child v = (Inl e, w2)" using r by auto
      then have "\<exists>v x w2. p_try_wait api child v = (x, w2) \<and> x \<notin> {Inr None, Inr (Some (Exited 0))}"
        by (intro exI [of _ v] exI [of _ "Inl e"] exI [of _ w2]) simp
      then show ?thesis using sp Inr aw ChildWaitError unfolding run by (simp add: run_with_timeout_def)
    qed
  qed
qed

section \<open>A replay cycle with this client\<close>

text \<open>What it means that the backend of an entry cannot be reached.\<close>

definition backend_down :: "'w RealDispatchClient \<Rightarrow> DeferEntry \<Rightarrow> bool" where
  "backend_down dc e \<longleftrightarrow>
     entry_init_system e = ''systemd'' \<and>
       (case dc_systemd dc of
          None \<Rightarrow> True
        | Some h \<Rightarrow> (\<forall>op \<in> {sh_start_unit, sh_stop_unit, sh_restart_unit, sh_reload_unit, \<lambda>h _. sh_daemon_reload h}.
            \<forall>name w. \<exists>reason. fst (op h name w) = Inl (BusUnavailable reason))) \<or>
     entry_init_system e = ''runr'' \<and>
       (case dc_runr dc of
          None \<Rightarrow> True
        | Some h \<Rightarrow> (\<forall>op \<in> {\<lambda>h name. rh_service_start h name True, \<lambda>h name. rh_service_stop h name False None,
              rh_service_restart, rh_service_reload, \<lambda>h _. rh_daemon_reload h}.
            \<forall>name w. \<exists>url reason. fst (op h name w) = Inl (Unavailable url reason)))"

lemma with_result_fst: "fst (with_result f m w) = f (fst (m w))"
  by (simp add: with_result_def split: prod.splits)

lemma backend_down_unavailable:
  assumes "backend_down dc e" "\<not> is_command (entry_action e)"
  shows "fst (real_dispatch api dc e w) = Inl ClientUnavailable"
proof -
  have sd: "map_systemd_result r = Inl ClientUnavailable" if "\<exists>reason. r = Inl (BusUnavailable reason)" for r
    using that by (auto simp: map_systemd_result_def)
  have rn: "map_runr_result r = Inl ClientUnavailable" if "\<exists>url reason. r = Inl (Unavailable url reason)" for r :: "RunrError + ActionAck"
    using that by (auto simp: map_runr_result_def)
  consider (sd) "entry_init_system e = ''systemd''" | (rn) "entry_init_system e = ''runr''"
    using assms(1) unfolding backend_down_def by blast
  then show ?thesis
  proof cases
    case sd
    then show ?thesis using assms \<open>\<And>r. _ \<Longrightarrow> map_systemd_result r = _\<close>
      by (cases "dc_systemd dc"; cases "entry_action e")
        (auto simp: backend_down_def real_dispatch_def INIT_SYSTEMD_def dispatch_systemd_def is_command_def with_result_fst)
  next
    case rn
    then show ?thesis using assms \<open>\<And>r. _ \<Longrightarrow> map_runr_result r = _\<close>
      by (cases "dc_runr dc"; cases "entry_action e")
        (auto simp: backend_down_def real_dispatch_def INIT_SYSTEMD_def INIT_RUNR_def dispatch_runr_def is_command_def with_result_fst)
  qed
qed

text \<open>
  C19. An outage of an init system costs no deferred request an attempt.  Whatever else happens in the cycle
  (other entries, failing file system calls, cancellation), a service request whose backend is
  missing or unreachable is in the journal afterwards exactly as it was.
\<close>

theorem outage_costs_no_attempt:
  assumes "store_inv C s" "jmap C s n = Some e" "backend_down dc e" "\<not> is_command (entry_action e)"
    and "replay_with_health_check env C J (real_dispatch api dc) runner cancelled (s, w) = (r, s', w')"
  shows "jmap C s' n = Some e"
proof -
  have down: "fst (real_dispatch api dc e v) = Inl ClientUnavailable" for v
    using backend_down_unavailable [OF assms(3,4)] .
  have "\<not> counts_at (real_dispatch api dc) runner e v" for v unfolding counts_at_def
    using down [of v] by (auto simp: prod_eq_iff)
  moreover have "\<not> drops_at (real_dispatch api dc) runner e v" for v unfolding drops_at_def
    using down [of v] calculation [of v] by (auto simp: prod_eq_iff)
  ultimately show ?thesis using replay_causes [OF assms(1,5)] assms(2) by (metis option.inject)
qed

section \<open>Witnesses\<close>

definition no_backends :: "'w RealDispatchClient" where
  "no_backends = \<lparr>dc_runr = None, dc_systemd = None\<rparr>"

theorem outage_costs_no_attempt_witness:
  "jmap sample_codec (fst (snd (replay_with_health_check quiet_env sample_codec sample_journal
     (real_dispatch stuck_proc no_backends) NoopHealthCheckRunner (\<lambda>_. False)
     (fs_of sample_codec [nginx Restart], 0)))) (entry_filename (nginx Restart)) = Some (nginx Restart)"
proof -
  obtain r s' w' where run: "replay_with_health_check quiet_env sample_codec sample_journal
      (real_dispatch stuck_proc no_backends) NoopHealthCheckRunner (\<lambda>_. False)
      (fs_of sample_codec [nginx Restart], 0) = (r, s', w')" by (metis prod.exhaust)
  have "jmap sample_codec s' (entry_filename (nginx Restart)) = Some (nginx Restart)"
    by (rule outage_costs_no_attempt [OF store_inv_sample _ _ _ run])
      (auto simp: backend_down_def no_backends_def is_command_def sample_entry_def)
  then show ?thesis using run by simp
qed

theorem dispatch_command_bounded_witness:
  "\<exists>r w'. real_dispatch stuck_proc no_backends (nginx (Command [''sleep'', ''1000''])) 0 = (r, w') \<and>
     r \<noteq> Inr () \<and> r \<noteq> Inl ClientUnavailable"
proof -
  have p: "proc_clock stuck_proc" "stderr_ends stuck_proc" by (simp_all add: proc_clock_def stderr_ends_def stuck_proc_def)
  from dispatch_command_bounded [OF p(1) _ p(2), of "nginx (Command [''sleep'', ''1000''])" "''sleep''" "[''1000'']" 0 no_backends]
  show ?thesis by (auto simp: sample_entry_def stuck_proc_def)
qed

theorem dispatch_runr_exact_witness:
  "\<exists>msg. real_dispatch stuck_proc (no_backends\<lparr>dc_runr := Some (client_handle sample_net (client_new []))\<rparr>)
     ((nginx Restart)\<lparr>entry_init_system := ''runr''\<rparr>) 0 = (Inl (ActionFailed msg), 0)"
proof -
  let ?e = "(nginx Restart)\<lparr>entry_init_system := ''runr''\<rparr>"
  obtain rq where rq: "runr_request (client_new []) ?e = Some rq"
    by (simp add: runr_request_def Let_def sample_entry_def)
  have "net_call sample_net rq 0 = (Inr (Inr ''old''), 0)" by (simp add: sample_net_def)
  from dispatch_runr_exact [OF _ _ rq this, of "no_backends\<lparr>dc_runr := Some (client_handle sample_net (client_new []))\<rparr>" stuck_proc]
  show ?thesis by (auto simp: runr_outcome_def sample_net_def)
qed

end
