(* ===== verification/Health_Check.thy ===== *)
theory Health_Check
  imports Dispatch
begin

text \<open>
  \<open>bosun-primitives/src/health_check\<close>: the production runner of health checks, with the defaults of
  \<open>bosun-core/src/health_check.rs\<close>.  A check is a command (\<open>cmd.rs\<close>) or an HTTP request (\<open>url.rs\<close>), tried up
  to a number of times with a pause that a cancelled token cuts short (\<open>mod.rs\<close>).

  A run is \<open>None\<close> when it does not return: the loop over a child process could be endless (the clock
  excludes it), the read of the error stream waits for everyone who has it open, and \<open>String::truncate\<close> panics when the limit is
  inside a character.
\<close>

section \<open>One attempt\<close>

record 'w probe_api =
  pr_proc :: "'w proc_api"
  pr_get :: "duration \<Rightarrow> string \<Rightarrow> 'w \<Rightarrow> (ureq_error + u16) \<times> 'w"
  pr_cancelled :: "'w \<Rightarrow> bool"
  pr_snooze :: "duration \<Rightarrow> 'w \<Rightarrow> duration \<times> 'w"

definition DEFAULT_RETRY_COUNT :: u32 where
  "DEFAULT_RETRY_COUNT = 3"

definition DEFAULT_RETRY_INTERVAL_SEC :: u32 where
  "DEFAULT_RETRY_INTERVAL_SEC = 2"

definition DEFAULT_TIMEOUT_SEC :: u32 where
  "DEFAULT_TIMEOUT_SEC = 10"

definition EXCERPT_LIMIT :: nat where
  "EXCERPT_LIMIT = 4096"

definition DEFAULT_EXPECTED_STATUS :: u16 where
  "DEFAULT_EXPECTED_STATUS = 200"

definition resolve_defaults :: "u32 option \<Rightarrow> u32 option \<Rightarrow> u32 option \<Rightarrow> duration \<times> u32 \<times> duration" where
  "resolve_defaults timeout_sec retry_count retry_interval_sec =
     (let timeout = from_secs (unat (case timeout_sec of None \<Rightarrow> DEFAULT_TIMEOUT_SEC | Some t \<Rightarrow> t));
          retries = max (case retry_count of None \<Rightarrow> DEFAULT_RETRY_COUNT | Some n \<Rightarrow> n) 1;
          interval = from_secs (unat (case retry_interval_sec of None \<Rightarrow> DEFAULT_RETRY_INTERVAL_SEC | Some t \<Rightarrow> t))
      in (timeout, retries, interval))"

datatype cmd_attempt = CmdSuccess | CmdExit int string | CmdTimedOut | CmdSpawn string

definition cmd_run_once :: "'w proc_api \<Rightarrow> string list \<Rightarrow> duration \<Rightarrow> 'w \<Rightarrow> (cmd_attempt \<times> 'w) option" where
  "cmd_run_once api argv timeout w =
     (case argv of
        [] \<Rightarrow> Some (CmdSpawn ''health_check cmd: empty argv'', w)
      | cmd # rest \<Rightarrow>
          (case p_spawn api cmd rest w of
             (Inl e, w1) \<Rightarrow> Some (CmdSpawn e, w1)
           | (Inr child, w1) \<Rightarrow>
               Option.bind (await_child api child (p_now api w1) timeout w1) (\<lambda>(r, w2).
                 case r of
                   ChildEnded status \<Rightarrow>
                     Option.bind (p_stderr api child EXCERPT_LIMIT w2) (\<lambda>(stderr_excerpt, w3).
                       Some (if exit_success status then CmdSuccess
                             else CmdExit (case exit_code status of Some c \<Rightarrow> c | None \<Rightarrow> - 1) stderr_excerpt, w3))
                 | ChildTimedOut \<Rightarrow> Some (CmdTimedOut, w2)
                 | ChildWaitError e \<Rightarrow> Some (CmdSpawn e, w2))))"

datatype url_attempt = UrlSuccess | BadStatus u16 | Transport string

text \<open>A byte that is not the continuation of a character of UTF-8 is a place to cut.\<close>

definition is_char_boundary :: "string \<Rightarrow> nat \<Rightarrow> bool" where
  "is_char_boundary s i \<longleftrightarrow> i = length s \<or> i < length s \<and> (of_char (s ! i) < (128 :: nat) \<or> (192 :: nat) \<le> of_char (s ! i))"

definition truncate_reason :: "string \<Rightarrow> string option" where
  "truncate_reason s =
     (if length s > EXCERPT_LIMIT
      then if is_char_boundary s EXCERPT_LIMIT then Some (take EXCERPT_LIMIT s) else None
      else Some s)"

definition url_run_once ::
  "'w probe_api \<Rightarrow> duration \<Rightarrow> string \<Rightarrow> u16 \<Rightarrow> 'w \<Rightarrow> (url_attempt \<times> 'w) option" where
  "url_run_once api timeout url expected w =
     (case pr_get api timeout url w of
        (Inr actual, w1) \<Rightarrow> Some (if actual = expected then UrlSuccess else BadStatus actual, w1)
      | (Inl (UreqStatus actual _), w1) \<Rightarrow> Some (if actual = expected then UrlSuccess else BadStatus actual, w1)
      | (Inl (UreqTransport t), w1) \<Rightarrow>
          map_option (\<lambda>reason. (Transport reason, w1)) (truncate_reason t))"

section \<open>Retries\<close>

text \<open>
  The loop \<open>for attempt in 1..=retries\<close> over the number of attempts that are left; \<open>attempt < retries\<close> means that
  there is one more.
\<close>

fun cmd_attempts ::
  "'w probe_api \<Rightarrow> string list \<Rightarrow> duration \<Rightarrow> u32 \<Rightarrow> duration \<Rightarrow> nat \<Rightarrow> int option \<Rightarrow> string \<Rightarrow> bool \<Rightarrow> 'w \<Rightarrow>
   ((HealthCheckError + unit) \<times> 'w) option" where
  "cmd_attempts api argv timeout retries interval 0 last_exit_code last_stderr had_timeout w =
     Some (Inl (if had_timeout then CmdTimeout argv retries
                else CmdExitNonZero (case last_exit_code of Some c \<Rightarrow> c | None \<Rightarrow> - 1) retries last_stderr), w)"
| "cmd_attempts api argv timeout retries interval (Suc n) last_exit_code last_stderr had_timeout w =
     (if pr_cancelled api w then Some (Inl HcCancelled, w)
      else Option.bind (cmd_run_once (pr_proc api) argv timeout w) (\<lambda>(a, w1).
        let pause = (\<lambda>code err late.
              if n = 0 then cmd_attempts api argv timeout retries interval n code err late w1
              else case cancellable_sleep (pr_cancelled api) (pr_snooze api) interval w1 of
                     (True, w2) \<Rightarrow> cmd_attempts api argv timeout retries interval n code err late w2
                   | (False, w2) \<Rightarrow> Some (Inl HcCancelled, w2))
        in case a of
             CmdSuccess \<Rightarrow> Some (Inr (), w1)
           | CmdExit code stderr_excerpt \<Rightarrow> pause (Some code) stderr_excerpt False
           | CmdTimedOut \<Rightarrow> pause None last_stderr True
           | CmdSpawn e \<Rightarrow> Some (Inl (CmdSpawnError e), w1)))"

definition run_cmd_with_retries ::
  "'w probe_api \<Rightarrow> string list \<Rightarrow> u32 option \<Rightarrow> u32 option \<Rightarrow> u32 option \<Rightarrow> 'w \<Rightarrow>
   ((HealthCheckError + unit) \<times> 'w) option" where
  "run_cmd_with_retries api argv timeout_sec retry_count retry_interval_sec w =
     (let (timeout, retries, interval) = resolve_defaults timeout_sec retry_count retry_interval_sec
      in cmd_attempts api argv timeout retries interval (unat retries) None [] False w)"

fun url_attempts ::
  "'w probe_api \<Rightarrow> string \<Rightarrow> u16 \<Rightarrow> duration \<Rightarrow> u32 \<Rightarrow> duration \<Rightarrow> nat \<Rightarrow> u16 option \<Rightarrow> string option \<Rightarrow> 'w \<Rightarrow>
   ((HealthCheckError + unit) \<times> 'w) option" where
  "url_attempts api url expected timeout retries interval 0 last_actual last_transport_reason w =
     Some (Inl (case last_actual of
                  Some actual \<Rightarrow> UrlBadStatus url actual expected retries
                | None \<Rightarrow> UrlTransport url retries
                    (case last_transport_reason of Some reason \<Rightarrow> reason | None \<Rightarrow> ''unknown'')), w)"
| "url_attempts api url expected timeout retries interval (Suc n) last_actual last_transport_reason w =
     (if pr_cancelled api w then Some (Inl HcCancelled, w)
      else Option.bind (url_run_once api timeout url expected w) (\<lambda>(a, w1).
        let pause = (\<lambda>actual reason.
              if n = 0 then url_attempts api url expected timeout retries interval n actual reason w1
              else case cancellable_sleep (pr_cancelled api) (pr_snooze api) interval w1 of
                     (True, w2) \<Rightarrow> url_attempts api url expected timeout retries interval n actual reason w2
                   | (False, w2) \<Rightarrow> Some (Inl HcCancelled, w2))
        in case a of
             UrlSuccess \<Rightarrow> Some (Inr (), w1)
           | BadStatus actual \<Rightarrow> pause (Some actual) None
           | Transport reason \<Rightarrow> pause None (Some reason)))"

definition run_url_with_retries ::
  "'w probe_api \<Rightarrow> string \<Rightarrow> u16 option \<Rightarrow> u32 option \<Rightarrow> u32 option \<Rightarrow> u32 option \<Rightarrow> 'w \<Rightarrow>
   ((HealthCheckError + unit) \<times> 'w) option" where
  "run_url_with_retries api url expected_status timeout_sec retry_count retry_interval_sec w =
     (let (timeout, retries, interval) = resolve_defaults timeout_sec retry_count retry_interval_sec;
          expected = (case expected_status of Some n \<Rightarrow> n | None \<Rightarrow> DEFAULT_EXPECTED_STATUS)
      in url_attempts api url expected timeout retries interval (unat retries) None None w)"

definition health_check_run :: "'w probe_api \<Rightarrow> HealthCheck \<Rightarrow> 'w \<Rightarrow> ((HealthCheckError + unit) \<times> 'w) option" where
  "health_check_run api check w =
     (case check of
        HcCmd cmd timeout_sec retry_count retry_interval_sec \<Rightarrow>
          run_cmd_with_retries api cmd timeout_sec retry_count retry_interval_sec w
      | HcUrl url expected_status timeout_sec retry_count retry_interval_sec \<Rightarrow>
          run_url_with_retries api url expected_status timeout_sec retry_count retry_interval_sec w)"

definition RealHealthCheckRunner :: "'w probe_api \<Rightarrow> 'w health_check_runner" where
  "RealHealthCheckRunner api check = finished (health_check_run api check)"

section \<open>What a run means\<close>

text \<open>One attempt of a check: it passed, it failed and may be repeated, or it is a final failure.\<close>

datatype probe_verdict = Passed | Repeatable | Hopeless

definition probe_once :: "'w probe_api \<Rightarrow> HealthCheck \<Rightarrow> 'w \<Rightarrow> (probe_verdict \<times> 'w) option" where
  "probe_once api check w =
     (let timeout = from_secs (case hc_timeout check of None \<Rightarrow> 10 | Some t \<Rightarrow> unat t)
      in case check of
           HcCmd cmd _ _ _ \<Rightarrow>
             map_option (map_prod (\<lambda>a. case a of CmdSuccess \<Rightarrow> Passed | CmdSpawn _ \<Rightarrow> Hopeless | _ \<Rightarrow> Repeatable) id)
               (cmd_run_once (pr_proc api) cmd timeout w)
         | HcUrl url expected _ _ _ \<Rightarrow>
             map_option (map_prod (\<lambda>a. case a of UrlSuccess \<Rightarrow> Passed | _ \<Rightarrow> Repeatable) id)
               (url_run_once api timeout url (case expected of None \<Rightarrow> 200 | Some n \<Rightarrow> n) w))"

definition pause_of :: "'w probe_api \<Rightarrow> HealthCheck \<Rightarrow> 'w \<Rightarrow> bool \<times> 'w" where
  "pause_of api check = cancellable_sleep (pr_cancelled api) (pr_snooze api)
     (from_secs (case hc_interval check of None \<Rightarrow> 2 | Some t \<Rightarrow> unat t))"

definition tries_of :: "HealthCheck \<Rightarrow> nat" where
  "tries_of check = max (case hc_retries check of None \<Rightarrow> 3 | Some n \<Rightarrow> unat n) 1"

text \<open>\<open>tried api check n w w'\<close>: from \<open>w\<close> to \<open>w'\<close> the check was tried \<open>n\<close> times in vain, with a full pause after each.\<close>

inductive tried :: "'w probe_api \<Rightarrow> HealthCheck \<Rightarrow> nat \<Rightarrow> 'w \<Rightarrow> 'w \<Rightarrow> bool" for api check where
  tried_none: "tried api check 0 w w"
| tried_more: "tried api check (Suc n) w w'"
    if "\<not> pr_cancelled api w" "probe_once api check w = Some (Repeatable, w1)" "pause_of api check w1 = (True, w2)"
      "tried api check n w2 w'"

text \<open>How a run that returns ends, with \<open>n\<close> attempts allowed.\<close>

definition run_ends :: "'w probe_api \<Rightarrow> HealthCheck \<Rightarrow> nat \<Rightarrow> 'w \<Rightarrow> HealthCheckError + unit \<Rightarrow> 'w \<Rightarrow> bool" where
  "run_ends api check n w r w' \<longleftrightarrow>
     (\<exists>k v. tried api check k w v \<and> k < n \<and>
        (r = Inl HcCancelled \<and> pr_cancelled api w' \<and> (v = w' \<or> (\<exists>w1. probe_once api check v = Some (Repeatable, w1) \<and>
             k + 1 < n \<and> pause_of api check w1 = (False, w'))) \<or>
         \<not> pr_cancelled api v \<and>
          (r = Inr () \<and> probe_once api check v = Some (Passed, w') \<or>
           (\<exists>e. r = Inl (CmdSpawnError e)) \<and> probe_once api check v = Some (Hopeless, w') \<or>
           (\<exists>e. r = Inl e \<and> e \<noteq> HcCancelled \<and> (\<forall>m. e \<noteq> CmdSpawnError m)) \<and> k + 1 = n \<and>
             probe_once api check v = Some (Repeatable, w'))))"

lemma run_ends_now:
  assumes "\<not> pr_cancelled api w" "probe_once api check w = Some (verdict, w')" "0 < n"
    and "r = Inr () \<and> verdict = Passed \<or> (\<exists>e. r = Inl (CmdSpawnError e)) \<and> verdict = Hopeless \<or>
      (\<exists>e. r = Inl e \<and> e \<noteq> HcCancelled \<and> (\<forall>m. e \<noteq> CmdSpawnError m)) \<and> n = 1 \<and> verdict = Repeatable"
  shows "run_ends api check n w r w'"
  unfolding run_ends_def using assms tried_none [of api check w] by (intro exI [of _ 0] exI [of _ w]) auto

lemma run_ends_cancelled: "pr_cancelled api w \<Longrightarrow> 0 < n \<Longrightarrow> run_ends api check n w (Inl HcCancelled) w"
  unfolding run_ends_def using tried_none [of api check w] by (intro exI [of _ 0] exI [of _ w]) auto

lemma pause_cancelled: "pause_of api check w = (b, w') \<Longrightarrow> b \<longleftrightarrow> \<not> pr_cancelled api w'"
  unfolding pause_of_def cancellable_sleep_def by (rule cancellable_sleep_loop_result)

lemma run_ends_cut:
  assumes "probe_once api check w = Some (Repeatable, w1)" "pause_of api check w1 = (False, w')" "1 < n"
  shows "run_ends api check n w (Inl HcCancelled) w'"
  unfolding run_ends_def using assms tried_none [of api check w] pause_cancelled [OF assms(2)]
  by (intro exI [of _ 0] exI [of _ w]) auto

lemma run_ends_again:
  assumes "\<not> pr_cancelled api w" "probe_once api check w = Some (Repeatable, w1)" "pause_of api check w1 = (True, w2)"
    and "run_ends api check n w2 r w'"
  shows "run_ends api check (Suc n) w r w'"
proof -
  obtain k v where "tried api check k w2 v" "k < n" and
    fin: "r = Inl HcCancelled \<and> pr_cancelled api w' \<and> (v = w' \<or> (\<exists>w1. probe_once api check v = Some (Repeatable, w1) \<and>
             k + 1 < n \<and> pause_of api check w1 = (False, w'))) \<or>
         \<not> pr_cancelled api v \<and>
          (r = Inr () \<and> probe_once api check v = Some (Passed, w') \<or>
           (\<exists>e. r = Inl (CmdSpawnError e)) \<and> probe_once api check v = Some (Hopeless, w') \<or>
           (\<exists>e. r = Inl e \<and> e \<noteq> HcCancelled \<and> (\<forall>m. e \<noteq> CmdSpawnError m)) \<and> k + 1 = n \<and>
             probe_once api check v = Some (Repeatable, w'))"
    using assms(4) unfolding run_ends_def by blast
  then have "tried api check (Suc k) w v" "Suc k < Suc n" using tried_more [OF assms(1-3)] by auto
  then show ?thesis unfolding run_ends_def using fin by (intro exI [of _ "Suc k"] exI [of _ v]) auto
qed

text \<open>The shape both loops share: an attempt, and after one that may be repeated a pause and the rest.\<close>

lemma attempt_ends:
  assumes "\<not> pr_cancelled api w" "probe_once api check w = Some (Repeatable, w1)"
    and "x = (if n = 0 then Some (Inl e, w1)
      else case pause_of api check w1 of (True, w2) \<Rightarrow> rest w2 | (False, w2) \<Rightarrow> Some (Inl HcCancelled, w2))"
    and "e \<noteq> HcCancelled" "\<forall>m. e \<noteq> CmdSpawnError m"
    and "\<And>w2. n \<noteq> 0 \<Longrightarrow> \<exists>r w'. rest w2 = Some (r, w') \<and> run_ends api check n w2 r w'"
  shows "\<exists>r w'. x = Some (r, w') \<and> run_ends api check (Suc n) w r w'"
proof (cases "n = 0")
  case True
  then have "run_ends api check (Suc n) w (Inl e) w1" using assms(1,2,4,5) by (intro run_ends_now) auto
  then show ?thesis using assms(3) True by auto
next
  case False
  obtain b w2 where b: "pause_of api check w1 = (b, w2)" by fastforce
  show ?thesis
  proof (cases b)
    case True
    obtain r w' where r: "rest w2 = Some (r, w')" "run_ends api check n w2 r w'" using assms(6) False by blast
    have "run_ends api check (Suc n) w r w'"
      using b True by (intro run_ends_again [OF assms(1,2) _ r(2)]) simp
    then show ?thesis using assms(3) False b True r(1) by simp
  next
    case False
    then have "run_ends api check (Suc n) w (Inl HcCancelled) w2"
      using b \<open>n \<noteq> 0\<close> by (intro run_ends_cut [OF assms(2)]) auto
    then show ?thesis using assms(3) False b \<open>n \<noteq> 0\<close> by simp
  qed
qed

section \<open>Runs return\<close>

text \<open>The texts of transport errors are short, or can be cut at the limit.\<close>

definition texts_ok :: "'w probe_api \<Rightarrow> bool" where
  "texts_ok api \<longleftrightarrow> (\<forall>timeout url w t w'. pr_get api timeout url w = (Inl (UreqTransport t), w') \<longrightarrow> truncate_reason t \<noteq> None)"

lemma cmd_run_once_returns:
  assumes "proc_clock api" "stderr_ends api"
  shows "\<exists>a w'. cmd_run_once api argv timeout w = Some (a, w')"
proof (cases argv)
  case (Cons cmd rest)
  obtain x w1 where sp: "p_spawn api cmd rest w = (x, w1)" by fastforce
  show ?thesis
  proof (cases x)
    case (Inr child)
    obtain r w2 where "await_child api child (p_now api w1) timeout w1 = Some (r, w2)"
      using await_child_ends [OF assms(1), of "p_now api w1" w1 child timeout] by blast
    moreover obtain ex w3 where "p_stderr api child EXCERPT_LIMIT w2 = Some (ex, w3)" using assms(2) by (rule stderr_endsE)
    ultimately show ?thesis using sp Inr Cons by (cases r) (auto simp: cmd_run_once_def)
  qed (use sp Cons in \<open>simp add: cmd_run_once_def\<close>)
qed (simp add: cmd_run_once_def)

lemma url_run_once_returns:
  assumes "texts_ok api"
  shows "\<exists>a w'. url_run_once api timeout url expected w = Some (a, w')"
  using assms unfolding texts_ok_def url_run_once_def
  by (cases "pr_get api timeout url w"; cases "fst (pr_get api timeout url w)"; cases "projl (fst (pr_get api timeout url w))")
    fastforce+

lemma cmd_attempts_end:
  assumes "proc_clock (pr_proc api) \<and> stderr_ends (pr_proc api)" "check = HcCmd argv ts rc ri"
    and "timeout = from_secs (case ts of None \<Rightarrow> 10 | Some t \<Rightarrow> unat t)"
    and "interval = from_secs (case ri of None \<Rightarrow> 2 | Some t \<Rightarrow> unat t)"
  shows "\<exists>r w'. cmd_attempts api argv timeout retries interval (Suc n) code err late w = Some (r, w') \<and>
    run_ends api check (Suc n) w r w'"
proof (induction n arbitrary: code err late w rule: less_induct)
  case (less n)
  show ?case
  proof (cases "pr_cancelled api w")
    case True
    then show ?thesis using run_ends_cancelled [OF True, of "Suc n" check] by simp
  next
    case False
    obtain a w1 where a: "cmd_run_once (pr_proc api) argv timeout w = Some (a, w1)"
      using cmd_run_once_returns [OF conjunct1 [OF assms(1)] conjunct2 [OF assms(1)]] by blast
    have once: "probe_once api check w =
        Some (case a of CmdSuccess \<Rightarrow> Passed | CmdSpawn _ \<Rightarrow> Hopeless | _ \<Rightarrow> Repeatable, w1)"
      using a assms(2,3) by (simp add: probe_once_def Let_def)
    have pause: "cancellable_sleep (pr_cancelled api) (pr_snooze api) interval = pause_of api check"
      using assms(2,4) by (simp add: pause_of_def)
    have rest: "\<exists>r w'. cmd_attempts api argv timeout retries interval n c e l w2 = Some (r, w') \<and> run_ends api check n w2 r w'"
      if "n \<noteq> 0" for c e l w2
      using less [of "n - 1" c e l w2] that by simp
    note step = attempt_ends [OF False]
    show ?thesis
    proof (cases a)
      case CmdSuccess
      then show ?thesis using a once False run_ends_now [OF False once] by simp
    next
      case (CmdExit c e)
      then have r: "probe_once api check w = Some (Repeatable, w1)" using once by simp
      show ?thesis
        by (rule step [OF r, where n = n and rest = "cmd_attempts api argv timeout retries interval n (Some c) e False"
              and e = "CmdExitNonZero c retries e"])
          (use a CmdExit False pause rest in \<open>auto split: prod.splits bool.splits\<close>)
    next
      case CmdTimedOut
      then have r: "probe_once api check w = Some (Repeatable, w1)" using once by simp
      show ?thesis
        by (rule step [OF r, where n = n and rest = "cmd_attempts api argv timeout retries interval n None err True"
              and e = "CmdTimeout argv retries"])
          (use a CmdTimedOut False pause rest in \<open>auto split: prod.splits bool.splits\<close>)
    next
      case (CmdSpawn e)
      then show ?thesis using a once False run_ends_now [OF False once] by simp
    qed
  qed
qed

lemma url_attempts_end:
  assumes "texts_ok api" "check = HcUrl url expected_status ts rc ri"
    and "expected = (case expected_status of None \<Rightarrow> 200 | Some n \<Rightarrow> n)"
    and "timeout = from_secs (case ts of None \<Rightarrow> 10 | Some t \<Rightarrow> unat t)"
    and "interval = from_secs (case ri of None \<Rightarrow> 2 | Some t \<Rightarrow> unat t)"
  shows "\<exists>r w'. url_attempts api url expected timeout retries interval (Suc n) actual reason w = Some (r, w') \<and>
    run_ends api check (Suc n) w r w'"
proof (induction n arbitrary: actual reason w rule: less_induct)
  case (less n)
  show ?case
  proof (cases "pr_cancelled api w")
    case True
    then show ?thesis using run_ends_cancelled [OF True, of "Suc n" check] by simp
  next
    case False
    obtain a w1 where a: "url_run_once api timeout url expected w = Some (a, w1)"
      using url_run_once_returns [OF assms(1)] by blast
    have once: "probe_once api check w = Some (case a of UrlSuccess \<Rightarrow> Passed | _ \<Rightarrow> Repeatable, w1)"
      using a assms(2-4) by (simp add: probe_once_def Let_def)
    have pause: "cancellable_sleep (pr_cancelled api) (pr_snooze api) interval = pause_of api check"
      using assms(2,5) by (simp add: pause_of_def)
    have rest: "\<exists>r w'. url_attempts api url expected timeout retries interval n x y w2 = Some (r, w') \<and> run_ends api check n w2 r w'"
      if "n \<noteq> 0" for x y w2
      using less [of "n - 1" x y w2] that by simp
    note step = attempt_ends [OF False]
    show ?thesis
    proof (cases a)
      case UrlSuccess
      then show ?thesis using a once False run_ends_now [OF False once] by simp
    next
      case (BadStatus c)
      then have r: "probe_once api check w = Some (Repeatable, w1)" using once by simp
      show ?thesis
        by (rule step [OF r, where n = n and rest = "url_attempts api url expected timeout retries interval n (Some c) None"
              and e = "UrlBadStatus url c expected retries"])
          (use a BadStatus False pause rest in \<open>auto split: prod.splits bool.splits\<close>)
    next
      case (Transport t)
      then have r: "probe_once api check w = Some (Repeatable, w1)" using once by simp
      show ?thesis
        by (rule step [OF r, where n = n and rest = "url_attempts api url expected timeout retries interval n None (Some t)"
              and e = "UrlTransport url retries t"])
          (use a Transport False pause rest in \<open>auto split: prod.splits bool.splits\<close>)
    qed
  qed
qed

lemma resolve_defaults_eq:
  "resolve_defaults ts rc ri =
     (from_secs (case ts of None \<Rightarrow> 10 | Some t \<Rightarrow> unat t), max (case rc of None \<Rightarrow> 3 | Some n \<Rightarrow> n) 1,
      from_secs (case ri of None \<Rightarrow> 2 | Some t \<Rightarrow> unat t))"
  by (simp add: resolve_defaults_def Let_def DEFAULT_TIMEOUT_SEC_def DEFAULT_RETRY_COUNT_def
      DEFAULT_RETRY_INTERVAL_SEC_def split: option.splits)

lemma unat_retries: "unat (max (case rc of None \<Rightarrow> 3 | Some n \<Rightarrow> n) (1 :: u32)) = max (case rc of None \<Rightarrow> 3 | Some n \<Rightarrow> unat n) 1"
  by (cases rc) (auto simp: max_def word_le_nat_alt)


text \<open>
  A transport error with a long text is fatal when byte 4096 is inside a character: there the run
  does not return, because \<open>String::truncate\<close> panics.
\<close>

theorem long_reason_panics:
  assumes "pr_get api (from_secs 10) url w = (Inl (UreqTransport t), w')" "\<not> pr_cancelled api w"
    and "4096 < length t" "128 \<le> (of_char (t ! 4096) :: nat)" "of_char (t ! 4096) < (192 :: nat)"
  shows "health_check_run api (HcUrl url None None (Some 1) None) w = None"
  using assms
  by (simp add: health_check_run_def run_url_with_retries_def resolve_defaults_eq url_run_once_def truncate_reason_def
      EXCERPT_LIMIT_def is_char_boundary_def)

text \<open>
  A command that exits with zero but leaves a process behind that keeps its error stream open hangs the check, whatever the
  limit for the command is: the limit ends with the loop over \<open>try_wait\<close>.
\<close>

theorem kept_stderr_hangs:
  assumes "\<not> pr_cancelled api w" "p_spawn (pr_proc api) cmd args w = (Inr child, w1)"
    and "p_try_wait (pr_proc api) child w1 = (Inr (Some status), w2)" "p_stderr (pr_proc api) child 4096 w2 = None"
  shows "health_check_run api (HcCmd (cmd # args) limit retries pause) w = None"
proof -
  have "await_child (pr_proc api) child (p_now (pr_proc api) w1) t w1 = Some (ChildEnded status, w2)" for t
    using assms(3) by (subst await_child.simps) simp
  then have once: "cmd_run_once (pr_proc api) (cmd # args) t w = None" for t
    using assms(2,4) by (simp add: cmd_run_once_def EXCERPT_LIMIT_def)
  obtain n where n: "unat (max (case retries of None \<Rightarrow> 3 | Some n \<Rightarrow> n) (1 :: u32)) = Suc n"
    unfolding unat_retries by (metis Suc_pred' less_le_trans max.cobounded2 zero_less_one)
  show ?thesis
    using assms(1) once by (simp add: health_check_run_def run_cmd_with_retries_def resolve_defaults_eq n)
qed

text \<open>A program that never ends, probed once with a limit of one second.\<close>

definition stuck_probe :: "nat probe_api" where
  "stuck_probe = \<lparr>pr_proc = stuck_proc, pr_get = (\<lambda>_ _ w. (Inl (UreqTransport ''connection refused''), w)),
     pr_cancelled = (\<lambda>_. False), pr_snooze = (\<lambda>d w. (0, w + d))\<rparr>"


theorem long_reason_panics_witness:
  "health_check_run (stuck_probe\<lparr>pr_get := (\<lambda>_ _ w. (Inl (UreqTransport (replicate 4095 CHR ''a'' @ [CHR 0xC2, CHR 0xB5])), w))\<rparr>)
     (HcUrl ''http://localhost/'' None None (Some 1) None) 0 = None"
  by (rule long_reason_panics [where t = "replicate 4095 CHR ''a'' @ [CHR 0xC2, CHR 0xB5]" and w' = 0])
    (simp_all add: stuck_probe_def nth_append)

theorem kept_stderr_hangs_witness:
  "health_check_run (stuck_probe\<lparr>pr_proc := stuck_proc\<lparr>p_try_wait := (\<lambda>_ w. (Inr (Some (Exited 0)), w)), p_stderr := (\<lambda>_ _ _. None)\<rparr>\<rparr>)
     (HcCmd [''sh'', ''-c'', ''daemon &''] (Some 1) None None) 0 = None"
  by (rule kept_stderr_hangs) (simp_all add: stuck_probe_def stuck_proc_def)

end
