(* ===== verification/Service_Unit.thy ===== *)
theory Service_Unit
  imports Health_Check Call_Args Orchestrator Journal_Open
begin

text \<open>
  What \<open>runr_service\<close> and \<open>systemd_service\<close> have in common in \<open>bosun-primitives/src\<close>: the
  specification, the arguments, the validator before a request is deferred, the health check after a
  start, the notifications and the entry for the defer journal.  The two sources repeat this code
  with another name in the messages, which is the argument \<open>prim\<close> here.

  The host of a service primitive is the directory of the journal and the world of the handles and
  runners.  The trait objects of \<open>ApplyCtx\<close> are the record \<open>service_env\<close>.
\<close>

section \<open>The specification\<close>

datatype ServiceState = SvRunning | SvStopped | SvAbsent

record ServiceSpec =
  sv_name :: string
  sv_state :: ServiceState
  sv_enable :: bool
  sv_health_check :: "HealthCheck option"
  sv_validate_with :: "string list option"

definition de_service_state :: "json \<Rightarrow> ServiceState option" where
  "de_service_state = de_unit_variant (\<lambda>s.
     if s = ''running'' then Some SvRunning
     else if s = ''stopped'' then Some SvStopped
     else if s = ''absent'' then Some SvAbsent else None)"

definition de_unit_name :: "json \<Rightarrow> string option" where
  "de_unit_name v = Option.bind (de_string v) (\<lambda>s. case unit_name_new s of Inr n \<Rightarrow> Some n | Inl _ \<Rightarrow> None)"

text \<open>The derived \<open>Deserialize\<close> takes a map, or a sequence of the fields in order; \<open>enable\<close> is its default.\<close>

definition service_spec_of_json :: "bool \<Rightarrow> json \<Rightarrow> ServiceSpec option" where
  "service_spec_of_json enable v =
     (let make = (\<lambda>name state en hc vw. case (name, state, en, hc, vw) of
            (Some n, Some s, Some e, Some h, Some vc) \<Rightarrow>
              Some \<lparr>sv_name = n, sv_state = s, sv_enable = e, sv_health_check = h, sv_validate_with = vc\<rparr>
          | _ \<Rightarrow> None)
      in case v of
           JObject m \<Rightarrow> make (de_field de_unit_name m ''name'') (de_field de_service_state m ''state'')
             (de_default_field de_bool enable m ''enable'') (de_opt_field health_check_of_json m ''health_check'')
             (de_opt_field (de_vec de_string) m ''validate_with'')
         | JArray xs \<Rightarrow>
             (if 2 \<le> length xs \<and> length xs \<le> 5
              then make (de_unit_name (xs ! 0)) (de_service_state (xs ! 1))
                (if 2 < length xs then de_bool (xs ! 2) else Some enable)
                (if 3 < length xs then de_option health_check_of_json (xs ! 3) else Some None)
                (if 4 < length xs then de_option (de_vec de_string) (xs ! 4) else Some None)
              else None)
         | _ \<Rightarrow> None)"

section \<open>Arguments\<close>

definition service_arg :: "string \<Rightarrow> CallArgsError + 'a \<Rightarrow> PrimitiveError + 'a" where
  "service_arg prim r = (case r of Inl e \<Rightarrow> Inl (InvalidPayload (prim @ '': '' @ show_call_args_error e)) | Inr x \<Rightarrow> Inr x)"

definition not_empty :: "'a list option \<Rightarrow> 'a list option" where
  "not_empty x = (case x of Some [] \<Rightarrow> None | _ \<Rightarrow> x)"

text \<open>The message about both forms at once is partly in Russian; these are its bytes in UTF-8.\<close>

definition both_checks_text :: string where
  "both_checks_text = ''health_check_cmd '' @ map char_of [208, 184 :: nat] @ '' health_check_url '' @
     map char_of [208, 190, 208, 180, 208, 189, 208, 190, 208, 178, 209, 128, 208, 181, 208, 188, 208, 181, 208, 189, 208,
       189, 208, 190, 32, 208, 189, 208, 181, 32, 208, 180, 208, 190, 208, 191, 209, 131, 209, 129, 208, 186, 208, 176,
       209, 142, 209, 130, 209, 129, 209, 143 :: nat]"

definition cmd_check_json :: "string list \<Rightarrow> u32 option \<Rightarrow> u32 option \<Rightarrow> u32 option \<Rightarrow> json" where
  "cmd_check_json cmd timeout retry_count retry_interval = JObject (obj_of_list
     [(''kind'', JString ''cmd''), (''cmd'', ser_strings cmd), (''timeout_sec'', ser_opt ser_unsigned timeout),
      (''retry_count'', ser_opt ser_unsigned retry_count), (''retry_interval_sec'', ser_opt ser_unsigned retry_interval)])"

definition url_check_json :: "string \<Rightarrow> u32 option \<Rightarrow> u32 option \<Rightarrow> u32 option \<Rightarrow> u32 option \<Rightarrow> json" where
  "url_check_json url expected timeout retry_count retry_interval = JObject (obj_of_list
     [(''kind'', JString ''url''), (''url'', JString url), (''expected_status'', ser_opt ser_unsigned expected),
      (''timeout_sec'', ser_opt ser_unsigned timeout), (''retry_count'', ser_opt ser_unsigned retry_count),
      (''retry_interval_sec'', ser_opt ser_unsigned retry_interval)])"

definition build_health_check :: "string \<Rightarrow> CallArgs \<Rightarrow> PrimitiveError + json option" where
  "build_health_check prim args =
     bindR (service_arg prim (optional_str_list args ''health_check_cmd'')) (\<lambda>cmd.
     bindR (service_arg prim (optional_str args ''health_check_url'')) (\<lambda>url.
     bindR (service_arg prim (optional_u32 args ''health_check_expected_status'')) (\<lambda>expected.
     bindR (service_arg prim (optional_u32 args ''health_check_retry'')) (\<lambda>retry_count.
     bindR (service_arg prim (optional_u32 args ''health_check_retry_interval_sec'')) (\<lambda>retry_interval.
     bindR (service_arg prim (optional_u32 args ''health_check_timeout_sec'')) (\<lambda>timeout.
       case (not_empty cmd, url) of
         (Some _, Some _) \<Rightarrow> Inl (InvalidPayload (prim @ '': '' @ both_checks_text))
       | (Some cmd_vec, None) \<Rightarrow> Inr (Some (cmd_check_json cmd_vec timeout retry_count retry_interval))
       | (None, Some url_value) \<Rightarrow>
           (if (case expected of Some n \<Rightarrow> 65535 < unat n | None \<Rightarrow> False)
            then Inl (InvalidPayload (prim @ '': health_check_expected_status '' @ show_nat (unat (the expected)) @ '' > u16::MAX''))
            else Inr (Some (url_check_json url_value expected timeout retry_count retry_interval)))
       | (None, None) \<Rightarrow> Inr None))))))"

definition service_build_payload :: "string \<Rightarrow> bool \<Rightarrow> CallArgs \<Rightarrow> PrimitiveError + json" where
  "service_build_payload prim enable_default args =
     bindR (service_arg prim (required_str args ''name'')) (\<lambda>name.
     bindR (service_arg prim (required_str args ''state'')) (\<lambda>state.
     if state \<notin> set [''running'', ''stopped'', ''absent'']
     then Inl (InvalidPayload (prim @ '': state '' @ [CHR 0x27] @ state @ [CHR 0x27] @ '' is invalid; expected running|stopped|absent''))
     else
     bindR (service_arg prim (optional_bool args ''enable'')) (\<lambda>enable.
     bindR (build_health_check prim args) (\<lambda>health_check.
     bindR (service_arg prim (optional_str_list args ''validate_with'')) (\<lambda>validate_with.
     Inr (JObject (obj_of_list
       [(''name'', JString name), (''state'', JString state),
        (''enable'', JBool (case enable of None \<Rightarrow> enable_default | Some b \<Rightarrow> b)),
        (''health_check'', ser_opt id health_check),
        (''validate_with'', ser_opt ser_strings (not_empty validate_with))])))))))"

text \<open>What an apply can decide to do.\<close>

datatype service_action = ActNoChange | ActStart | ActStop | ActRestart | ActReload

section \<open>The context of an apply\<close>

record 'w service_env =
  se_runr :: "'w RunrHandle option"
  se_systemd :: "'w SystemdHandle option"
  se_validator :: "string list \<Rightarrow> duration \<Rightarrow> ('w, ValidateError, unit) prog"
  se_health :: "'w health_check_runner"
  se_utc_now :: "'w \<Rightarrow> timestamp"
  se_os :: os_env
  se_codec :: serde_codec
  se_journal :: Journal
  se_serde_error :: "json \<Rightarrow> string"

type_synonym 'w service_world = "(fs_state \<times> 'w) world"

text \<open>A call to the outside, and a call on the journal.\<close>

definition outside :: "('w, 'e, 'a) prog \<Rightarrow> ('w service_world, 'e, 'a) prog" where
  "outside m = (\<lambda>v. case m (snd (w_host v)) of (r, w) \<Rightarrow> (r, v\<lparr>w_host := (fst (w_host v), w)\<rparr>))"

definition on_journal :: "(fs_state, 'e, 'a) prog \<Rightarrow> ('w service_world, 'e, 'a) prog" where
  "on_journal m = (\<lambda>v. case m (fst (w_host v)) of (r, s) \<Rightarrow> (r, v\<lparr>w_host := (s, snd (w_host v))\<rparr>))"

definition show_io_error :: "io_error \<Rightarrow> string" where
  "show_io_error e = (case e of NotFound \<Rightarrow> ''No such file or directory (os error 2)'' | OtherIo s \<Rightarrow> s)"

definition show_defer_error :: "DeferError \<Rightarrow> string" where
  "show_defer_error e =
     (case e of
        Io path source \<Rightarrow> ''defer journal i/o error at '' @ path @ '': '' @ show_io_error source
      | Serde path source \<Rightarrow> ''defer journal serde error at '' @ path @ '': '' @ source
      | Clock \<Rightarrow> ''system clock is before unix epoch''
      | UnsafeRoot path reason \<Rightarrow> ''defer journal root '' @ path @ '' is unsafe: '' @ reason)"

definition show_health_check_error :: "HealthCheckError \<Rightarrow> string" where
  "show_health_check_error e =
     (case e of
        CmdExitNonZero code attempts stderr \<Rightarrow>
          ''cmd health-check exited with code '' @ show_int code @ '' after '' @ show_nat (unat attempts) @ '' attempts: '' @ stderr
      | CmdTimeout argv attempts \<Rightarrow>
          ''cmd health-check timed out on every attempt ('' @ show_nat (unat attempts) @ '' total): '' @ debug_str_list argv
      | CmdSpawnError err \<Rightarrow> ''cmd health-check failed to spawn: '' @ err
      | UrlBadStatus url actual expected attempts \<Rightarrow>
          ''url health-check expected status '' @ show_nat (unat expected) @ '' but got '' @ show_nat (unat actual) @
          '' after '' @ show_nat (unat attempts) @ '' attempts: '' @ url
      | UrlTransport url attempts reason \<Rightarrow>
          ''url health-check transport error after '' @ show_nat (unat attempts) @ '' attempts on '' @ url @ '': '' @ reason
      | HcCancelled \<Rightarrow> ''health-check cancelled by deadline or signal'')"

section \<open>Validator, health check, notifications\<close>

definition VALIDATE_TIMEOUT :: duration where
  "VALIDATE_TIMEOUT = from_secs 30"

definition DEFAULT_MAX_ATTEMPTS :: u32 where
  "DEFAULT_MAX_ATTEMPTS = 3"

definition map_validate_error :: "string \<Rightarrow> ValidateError \<Rightarrow> PrimitiveError" where
  "map_validate_error validator err =
     Validation validator
       (case err of
          VExitNonZero code stderr_excerpt \<Rightarrow> stderr_excerpt
        | VTimeout d \<Rightarrow> ''timeout after '' @ debug_duration d
        | VSpawn e \<Rightarrow> ''failed to spawn: '' @ e)"

definition run_validate_if_configured :: "'w service_env \<Rightarrow> ServiceSpec \<Rightarrow> ('w service_world, PrimitiveError, unit) prog" where
  "run_validate_if_configured env spec =
     (case sv_validate_with spec of
        None \<Rightarrow> ret ()
      | Some [] \<Rightarrow> ret ()
      | Some (validator_name # args) \<Rightarrow>
          map_err (map_validate_error validator_name)
            (outside (se_validator env (validator_name # args) VALIDATE_TIMEOUT)))"

definition run_health_check_if_configured ::
  "'w service_env \<Rightarrow> ServiceSpec \<Rightarrow> ('w service_world, PrimitiveError, unit) prog" where
  "run_health_check_if_configured env spec =
     (case sv_health_check spec of
        None \<Rightarrow> ret ()
      | Some check \<Rightarrow>
          map_err (\<lambda>err. if err = HcCancelled then Cancelled
              else HealthCheckFailed (sv_name spec) (show_health_check_error err))
            (outside (se_health env check)))"

definition restart_triggered :: "Resource \<Rightarrow> ApplyCtx \<Rightarrow> bool" where
  "restart_triggered r ctx \<longleftrightarrow> list_ex (is_changed ctx) (res_restart_on r)"

definition reload_triggered :: "Resource \<Rightarrow> ApplyCtx \<Rightarrow> bool" where
  "reload_triggered r ctx \<longleftrightarrow> list_ex (is_changed ctx) (res_reload_on r)"

definition collect_notify_sources :: "Resource \<Rightarrow> ApplyCtx \<Rightarrow> bool \<Rightarrow> bool \<Rightarrow> string list" where
  "collect_notify_sources r ctx restart reload =
     remdups_adj (sort
       ((if restart then filter (is_changed ctx) (res_restart_on r) else []) @
        (if reload then filter (is_changed ctx) (res_reload_on r) else [])))"

definition deferred_entry ::
  "string \<Rightarrow> ServiceSpec \<Rightarrow> DeferAction \<Rightarrow> DeferPriority \<Rightarrow> string list \<Rightarrow> timestamp \<Rightarrow> DeferEntry" where
  "deferred_entry init spec act priority sources at =
     \<lparr>entry_spec_version = CURRENT_SPEC_VERSION, entry_id = make_id init act (sv_name spec), entry_action = act,
      entry_init_system = init, entry_target = sv_name spec, entry_validate_cmd = sv_validate_with spec,
      entry_health_check = sv_health_check spec, entry_priority = priority, entry_enqueued_at = at,
      entry_enqueued_by = sources, entry_attempt_count = 0, entry_max_attempts = DEFAULT_MAX_ATTEMPTS\<rparr>"

definition enqueue_defer ::
  "'w service_env \<Rightarrow> string \<Rightarrow> string \<Rightarrow> ServiceSpec \<Rightarrow> DeferAction \<Rightarrow> DeferPriority \<Rightarrow> string list \<Rightarrow>
   ('w service_world, PrimitiveError, ChangeReport) prog" where
  "enqueue_defer env prim init spec act priority sources = (\<lambda>v.
     bindE (map_err (\<lambda>e. DeferIo (journal_root (se_journal env)) (show_defer_error e))
         (on_journal (enqueue (se_os env) (se_codec env) (se_journal env)
            (deferred_entry init spec act priority sources (se_utc_now env (snd (w_host v)))))))
       (\<lambda>_. ret (report_deferred (''deferred '' @ filename_slug act @ '' of '' @ prim @ '':'' @ sv_name spec))) v)"

text \<open>The plan phase of both primitives asks nobody and leaves the decision to the apply.\<close>

definition service_plan ::
  "string \<Rightarrow> string \<Rightarrow> bool \<Rightarrow> (json \<Rightarrow> string) \<Rightarrow> Resource \<Rightarrow> ('s, PrimitiveError, Diff) prog" where
  "service_plan prim backend enable_default serde_error r =
     (case service_spec_of_json enable_default (res_payload r) of
        None \<Rightarrow> throw (InvalidPayload (prim @ '' payload: '' @ serde_error (res_payload r)))
      | Some spec \<Rightarrow> ret (Update (JObject [(backend, JString ''current state pending lookup'')]) (res_payload r)
          (''converge '' @ prim @ '':'' @ sv_name spec)))"

text \<open>A phase that returns, as the call of a primitive.\<close>

definition returning :: "('w, PrimitiveError, 'a) prog \<Rightarrow> ('w, 'a) prim_call" where
  "returning m = (\<lambda>w. case m w of (r, w') \<Rightarrow> (Returned r, w'))"

lemma call_returning [simp]: "call_primitive c (returning m) = m"
  by (rule ext) (simp add: call_primitive_def returning_def split: prod.splits)

section \<open>Laws\<close>

lemma outside_eq: "outside m v = (r, v') \<longleftrightarrow>
  (\<exists>w. m (snd (w_host v)) = (r, w) \<and> v' = v\<lparr>w_host := (fst (w_host v), w)\<rparr>)"
  by (auto simp: outside_def split: prod.splits)

lemma map_err_Inr: "map_err g m s = (Inr x, s') \<longleftrightarrow> m s = (Inr x, s')"
  by (auto simp: map_err_def split: prod.splits sum.splits)

lemma map_err_Inl: "map_err g m s = (Inl f, s') \<longleftrightarrow> (\<exists>e. m s = (Inl e, s') \<and> f = g e)"
  by (auto simp: map_err_def split: prod.splits sum.splits)

text \<open>The part of the world that a program leaves alone: the context and the journal.\<close>

definition keeps_apply :: "('w service_world, 'e, 'a) prog \<Rightarrow> bool" where
  "keeps_apply m \<longleftrightarrow> (\<forall>v r v'. m v = (r, v') \<longrightarrow> w_ctx v' = w_ctx v \<and> fst (w_host v') = fst (w_host v))"

lemma keeps_applyD: "keeps_apply m \<Longrightarrow> m v = (r, v') \<Longrightarrow> w_ctx v' = w_ctx v \<and> fst (w_host v') = fst (w_host v)"
  by (simp add: keeps_apply_def)

lemma keeps_apply_outside [intro]: "keeps_apply (outside m)"
  by (auto simp: keeps_apply_def outside_eq)

lemma keeps_apply_ret [intro]: "keeps_apply (ret x)" "keeps_apply (throw e)"
  by (auto simp: keeps_apply_def)

lemma keeps_apply_map_err [intro]: "keeps_apply m \<Longrightarrow> keeps_apply (map_err g m)"
  unfolding keeps_apply_def by (auto simp: map_err_def split: prod.splits sum.splits)

lemma keeps_apply_bindE [intro]: "keeps_apply m \<Longrightarrow> (\<And>x. keeps_apply (f x)) \<Longrightarrow> keeps_apply (bindE m f)"
  unfolding keeps_apply_def bindE_def
  by (auto split: prod.splits sum.splits)

lemma keeps_apply_validate: "keeps_apply (run_validate_if_configured env spec)"
  unfolding run_validate_if_configured_def by (auto split: option.splits list.splits)

lemma keeps_apply_health: "keeps_apply (run_health_check_if_configured env spec)"
  unfolding run_health_check_if_configured_def by (auto split: option.splits)

text \<open>What a successful validation, health check and enqueue mean.\<close>

lemma run_validate_Inr:
  assumes "run_validate_if_configured env spec v = (Inr (), v')" "sv_validate_with spec = Some argv" "argv \<noteq> []"
  shows "fst (se_validator env argv VALIDATE_TIMEOUT (snd (w_host v))) = Inr ()"
  using assms by (cases argv) (auto simp: run_validate_if_configured_def map_err_Inr outside_eq)

lemma run_health_check_Inr:
  assumes "run_health_check_if_configured env spec v = (Inr (), v')" "sv_health_check spec = Some check"
  shows "fst (se_health env check (snd (w_host v))) = Inr ()"
  using assms by (auto simp: run_health_check_if_configured_def map_err_Inr outside_eq)

lemma enqueue_defer_Inr:
  assumes "enqueue_defer env prim init spec act priority sources v = (Inr rep, v')" "codec_ok (se_codec env)"
  shows "cr_deferred rep \<and> \<not> cr_changed rep \<and> w_ctx v' = w_ctx v \<and>
    (\<exists>res. enqueue (se_os env) (se_codec env) (se_journal env)
       (deferred_entry init spec act priority sources (se_utc_now env (snd (w_host v)))) (fst (w_host v)) =
       (Inr res, fst (w_host v'))) \<and>
    (\<exists>x \<in> ran (jmap (se_codec env) (fst (w_host v'))).
       covers x (deferred_entry init spec act priority sources (se_utc_now env (snd (w_host v)))))"
proof -
  let ?e = "deferred_entry init spec act priority sources (se_utc_now env (snd (w_host v)))"
  from assms(1) obtain res s where e: "enqueue (se_os env) (se_codec env) (se_journal env) ?e (fst (w_host v)) = (Inr res, s)"
    and v': "v' = v\<lparr>w_host := (s, snd (w_host v))\<rparr>"
    and rep: "rep = report_deferred (''deferred '' @ filename_slug act @ '' of '' @ prim @ '':'' @ sv_name spec)"
    by (auto simp: enqueue_defer_def bindE_eq_Inr map_err_Inr on_journal_def split: prod.splits)
  from enqueue_leaves_cover [OF assms(2) e] e v' rep show ?thesis by (auto simp: report_deferred_def)
qed

lemma triggered_cong:
  assumes "changed_resources c = changed_resources c'"
  shows "restart_triggered r c = restart_triggered r c'" "reload_triggered r c = reload_triggered r c'"
    "collect_notify_sources r c = collect_notify_sources r c'"
proof -
  have eq: "is_changed c = is_changed c'" using assms by (auto simp: is_changed_def)
  show "restart_triggered r c = restart_triggered r c'" "reload_triggered r c = reload_triggered r c'"
    "collect_notify_sources r c = collect_notify_sources r c'"
    unfolding restart_triggered_def reload_triggered_def collect_notify_sources_def [abs_def] eq by (rule refl)+
qed

section \<open>Services that defer what they are notified of\<close>

text \<open>The request that a notification asks for: a restart wins over a reload.\<close>

definition notified_action :: "Resource \<Rightarrow> ApplyCtx \<Rightarrow> DeferAction \<Rightarrow> bool" where
  "notified_action r ctx act \<longleftrightarrow>
     (if restart_triggered r ctx then act = Restart else act = Reload \<and> reload_triggered r ctx)"

definition validated :: "'w service_env \<Rightarrow> ServiceSpec \<Rightarrow> bool" where
  "validated env spec \<longleftrightarrow> (\<forall>argv. sv_validate_with spec = Some argv \<and> argv \<noteq> [] \<longrightarrow>
     (\<exists>w. fst (se_validator env argv (from_secs 30) w) = Inr ()))"

text \<open>The request that a service makes when it is notified.\<close>

definition notified_entry :: "string \<Rightarrow> Resource \<Rightarrow> ApplyCtx \<Rightarrow> ServiceSpec \<Rightarrow> DeferAction \<Rightarrow> timestamp \<Rightarrow> DeferEntry" where
  "notified_entry init r ctx spec act at = deferred_entry init spec act (default_priority act)
     (collect_notify_sources r ctx (restart_triggered r ctx) (reload_triggered r ctx)) at"

text \<open>Identifiers as the program makes them.\<close>

definition ids_ok :: "(string \<Rightarrow> DeferEntry option) \<Rightarrow> bool" where
  "ids_ok m \<longleftrightarrow> (\<forall>x \<in> ran m. entry_id x = make_id (entry_init_system x) (entry_action x) (entry_target x))"

text \<open>
  The contract of a service primitive towards the journal: a report that says \<open>deferred\<close> means
  that the request went into the journal as it was before the apply.
\<close>

locale notified_service =
  fixes apply_of :: "'w service_env \<Rightarrow> Resource \<Rightarrow> Diff \<Rightarrow> ('w service_world, PrimitiveError, ChangeReport) prog"
    and init :: string
    and enable_default :: bool
  assumes deferred_law: "apply_of env r d v = (Inr rep, v') \<Longrightarrow> cr_deferred rep \<Longrightarrow> codec_ok (se_codec env) \<Longrightarrow> \<not> is_no_change d \<Longrightarrow>
      \<exists>spec act at res. service_spec_of_json enable_default (res_payload r) = Some spec \<and> sv_state spec = SvRunning \<and>
        notified_action r (w_ctx v) act \<and> validated env spec \<and>
        enqueue (se_os env) (se_codec env) (se_journal env) (notified_entry init r (w_ctx v) spec act at) (fst (w_host v)) =
          (Inr res, fst (w_host v'))"
begin

lemma journaled:
  assumes "apply_of env r d v = (Inr rep, v')" "cr_deferred rep" "codec_ok (se_codec env)" "\<not> is_no_change d"
  shows "\<exists>spec act at x. service_spec_of_json enable_default (res_payload r) = Some spec \<and> sv_state spec = SvRunning \<and>
    notified_action r (w_ctx v) act \<and> validated env spec \<and>
    x \<in> ran (jmap (se_codec env) (fst (w_host v'))) \<and> covers x (notified_entry init r (w_ctx v) spec act at)"
proof -
  from deferred_law [OF assms] obtain spec act at res where *: "service_spec_of_json enable_default (res_payload r) = Some spec"
    "sv_state spec = SvRunning" "notified_action r (w_ctx v) act" "validated env spec"
    and enq: "enqueue (se_os env) (se_codec env) (se_journal env) (notified_entry init r (w_ctx v) spec act at) (fst (w_host v)) =
          (Inr res, fst (w_host v'))" by blast
  from enqueue_leaves_cover [OF assms(3) enq] * show ?thesis by blast
qed

text \<open>
  The request and one replay cycle after it: an entry for the unit, which asks for the action or for one
  that includes it, is still pending or has been carried out or given up.
\<close>

lemma replayed:
  assumes "apply_of env r d v = (Inr rep, v')" "cr_deferred rep" "\<not> is_no_change d"
    and "store_inv (se_codec env) (fst (w_host v))" "ids_ok (jmap (se_codec env) (fst (w_host v)))"
    and "replay_with_health_check (se_os env) (se_codec env) (se_journal env) client runner cancelled (w_host v') = (res, s, w)"
  shows "\<exists>spec act x. service_spec_of_json enable_default (res_payload r) = Some spec \<and> notified_action r (w_ctx v) act \<and>
    entry_init_system x = init \<and> entry_target x = sv_name spec \<and>
    entry_id x = make_id init (entry_action x) (sv_name spec) \<and>
    (entry_id x = make_id init act (sv_name spec) \<or> subsumes (entry_action x) act) \<and>
    x \<in> ran (jmap (se_codec env) (fst (w_host v'))) \<and>
    (x \<in> ran (jmap (se_codec env) s) \<or> bumped x \<in> ran (jmap (se_codec env) s) \<or>
     (\<exists>u. (x, u) \<in> set (replay_calls (se_os env) (se_codec env) (se_journal env) client runner cancelled (w_host v')) \<and>
        drops_at client runner x u))"
proof -
  let ?C = "se_codec env" let ?J = "se_journal env"
  have C: "codec_ok ?C" using assms(4) by (simp add: store_inv_def)
  from deferred_law [OF assms(1,2) C assms(3)] obtain spec act at q where spec: "service_spec_of_json enable_default (res_payload r) = Some spec"
    and act: "notified_action r (w_ctx v) act"
    and enq: "enqueue (se_os env) ?C ?J (notified_entry init r (w_ctx v) spec act at) (fst (w_host v)) = (Inr q, fst (w_host v'))"
    by blast
  let ?e = "notified_entry init r (w_ctx v) spec act at"
  have e: "entry_id ?e = make_id init act (sv_name spec)" "entry_init_system ?e = init" "entry_target ?e = sv_name spec"
    "entry_action ?e = act"
    by (simp_all add: notified_entry_def deferred_entry_def)
  from enqueue_leaves_cover [OF C enq] obtain n x where n: "jmap ?C (fst (w_host v')) n = Some x" and x: "covers x ?e"
    by (auto simp: ran_def)
  have id: "entry_id x = make_id (entry_init_system x) (entry_action x) (entry_target x)"
  proof -
    have "x \<in> ran (jmap ?C (fst (w_host v'))) \<Longrightarrow> x = ?e \<or> x \<in> ran (jmap ?C (fst (w_host v)))"
      using enq C
    proof (cases rule: enqueue_jmap)
      case (written es t)
      then show "x \<in> ran (jmap ?C (fst (w_host v'))) \<Longrightarrow> x = ?e \<or> x \<in> ran (jmap ?C (fst (w_host v)))"
        by (auto simp: ran_def without_def split: if_splits)
    qed auto
    then show ?thesis using n assms(5) e unfolding ids_ok_def by (metis ranI)
  qed
  have same: "entry_init_system x = init" "entry_target x = sv_name spec"
    "entry_id x = make_id init act (sv_name spec) \<or> subsumes (entry_action x) act"
    using x e by (auto simp: covers_def same_target_def)
  obtain s0 w0 where host: "w_host v' = (s0, w0)" by fastforce
  have inv: "store_inv ?C s0" using enqueue_store_inv [OF assms(4) enq] host by simp
  from replay_causes [OF inv assms(6) [unfolded host]] n host
  have "x \<in> ran (jmap ?C s) \<or> bumped x \<in> ran (jmap ?C s) \<or>
      (\<exists>u. (x, u) \<in> set (replay_calls (se_os env) ?C ?J client runner cancelled (w_host v')) \<and> drops_at client runner x u)"
    by (metis fst_conv option.inject ranI)
  moreover have "x \<in> ran (jmap ?C (fst (w_host v')))" using n by (rule ranI)
  ultimately show ?thesis using spec act id same by metis
qed

end

end
