(* ===== verification/Runr_Service.thy ===== *)
theory Runr_Service
  imports Service_Unit
begin

text \<open>
  \<open>bosun-primitives/src/runr_service\<close>: the primitive \<open>runr.service\<close> (\<open>plan.rs\<close>, \<open>apply.rs\<close>,
  \<open>mod.rs\<close>).  A service that has to be started or stopped is handled at once through the runr
  handle; a restart or a reload asked for by a notification goes to the defer journal.
\<close>

section \<open>Deciding\<close>

definition decide_action_runr :: "ServiceSpec \<Rightarrow> ServiceStatus option \<Rightarrow> bool \<Rightarrow> bool \<Rightarrow> service_action" where
  "decide_action_runr spec current restart reload =
     (let is_running = (case current of None \<Rightarrow> False | Some s \<Rightarrow> st_state s = RUNNING_STATE)
      in case sv_state spec of
           SvRunning \<Rightarrow>
             (if is_running
              then if restart then ActRestart else if reload then ActReload else ActNoChange
              else ActStart)
         | _ \<Rightarrow> if is_running then ActStop else ActNoChange)"

section \<open>Applying\<close>

definition VERIFY_POLL_INTERVAL :: duration where
  "VERIFY_POLL_INTERVAL = 200000000"

definition VERIFY_POLL_TOTAL :: duration where
  "VERIFY_POLL_TOTAL = from_secs 15"

definition INIT_SYSTEM_RUNR :: string where
  "INIT_SYSTEM_RUNR = ''runr''"

definition map_runr_error :: "string \<Rightarrow> string \<Rightarrow> RunrError \<Rightarrow> PrimitiveError" where
  "map_runr_error handle_url op err =
     (case err of
        Unavailable base_url source \<Rightarrow> RunrUnavailable base_url (op @ '': '' @ source)
      | UnitNotFound kind name \<Rightarrow> PeApply (''runr '' @ kind @ '' not found: '' @ name @ '' (during '' @ op @ '')'')
      | ApiError status body \<Rightarrow>
          PeApply (''runr API error during '' @ op @ '': status='' @ show_nat (unat status) @ '', body='' @ body)
      | BadResponse msg \<Rightarrow> PeApply (''runr returned invalid JSON during '' @ op @ '': '' @ msg)
      | RestartNotObserved unit \<Rightarrow> PeApply (''runr restart of '' @ unit @ '' not observed (op='' @ op @ '')'')
      | StartNotObserved unit last_state \<Rightarrow>
          PeApply (''runr start of '' @ unit @ '' did not reach Running (last='' @ last_state @ '', op='' @ op @ '')'')
      | ServiceStartFailed unit \<Rightarrow> PeApply (''runr '' @ unit @ '' entered Failed after start (op='' @ op @ '')'')
      | RunrIo e \<Rightarrow> RunrUnavailable handle_url (op @ '': i/o error: '' @ e))"

text \<open>One \<open>daemon_reload\<close> per run; the flag is taken back when runr is unavailable, and only then.\<close>

definition throttled_daemon_reload :: "'w RunrHandle \<Rightarrow> ('w service_world, PrimitiveError, unit) prog" where
  "throttled_daemon_reload runr = (\<lambda>v.
     if runr_daemon_reload_done (w_ctx v) then (Inr (), v)
     else (case outside (rh_daemon_reload runr) (v\<lparr>w_ctx := (w_ctx v)\<lparr>runr_daemon_reload_done := True\<rparr>\<rparr>) of
             (Inr _, v') \<Rightarrow> (Inr (), v')
           | (Inl (Unavailable base_url source), v') \<Rightarrow>
               (Inl (RunrUnavailable base_url (''daemon_reload: '' @ source)),
                v'\<lparr>w_ctx := (w_ctx v')\<lparr>runr_daemon_reload_done := False\<rparr>\<rparr>)
           | (Inl other, v') \<Rightarrow> (Inl (PeApply (''runr.daemon_reload failed: '' @ show_runr_error other)), v')))"

definition execute_start_runr :: "'w RunrHandle \<Rightarrow> ServiceSpec \<Rightarrow> ('w service_world, PrimitiveError, ChangeReport) prog" where
  "execute_start_runr runr spec =
     bindE (map_err (map_runr_error (rh_base_url runr) ''service_start'')
       (outside (rh_service_start runr (sv_name spec) True))) (\<lambda>_.
     bindE (map_err (map_runr_error (rh_base_url runr) ''verify_start'')
       (outside (rh_verify_start runr (sv_name spec) VERIFY_POLL_INTERVAL VERIFY_POLL_TOTAL))) (\<lambda>_.
     ret (report_changed (''started runr.service:'' @ sv_name spec))))"

definition execute_stop_runr :: "'w RunrHandle \<Rightarrow> ServiceSpec \<Rightarrow> ('w service_world, PrimitiveError, ChangeReport) prog" where
  "execute_stop_runr runr spec =
     bindE (map_err (map_runr_error (rh_base_url runr) ''service_stop'')
       (outside (rh_service_stop runr (sv_name spec) False None))) (\<lambda>_.
     ret (report_changed (''stopped runr.service:'' @ sv_name spec)))"

text \<open>The action that was decided; a validator that fails keeps the request out of the journal.\<close>

definition perform_runr ::
  "'w service_env \<Rightarrow> 'w RunrHandle \<Rightarrow> ServiceSpec \<Rightarrow> service_action \<Rightarrow> string list \<Rightarrow>
   ('w service_world, PrimitiveError, ChangeReport) prog" where
  "perform_runr env runr spec act sources =
     (case act of
        ActNoChange \<Rightarrow> ret report_no_change
      | ActStart \<Rightarrow>
          bindE (execute_start_runr runr spec) (\<lambda>report.
          bindE (run_health_check_if_configured env spec) (\<lambda>_. ret report))
      | ActStop \<Rightarrow> execute_stop_runr runr spec
      | ActRestart \<Rightarrow>
          bindE (run_validate_if_configured env spec) (\<lambda>_.
          enqueue_defer env ''runr.service'' INIT_SYSTEM_RUNR spec Restart PRestart sources)
      | ActReload \<Rightarrow>
          bindE (run_validate_if_configured env spec) (\<lambda>_.
          enqueue_defer env ''runr.service'' INIT_SYSTEM_RUNR spec Reload PReload sources))"

text \<open>From a fresh snapshot of the services: the notifications, the decision and the action.\<close>

definition converge_runr ::
  "'w service_env \<Rightarrow> 'w RunrHandle \<Rightarrow> ServiceSpec \<Rightarrow> Resource \<Rightarrow> ServiceStatus list \<Rightarrow>
   ('w service_world, PrimitiveError, ChangeReport) prog" where
  "converge_runr env runr spec r statuses = (\<lambda>v.
     let current = find (\<lambda>s. st_name s = sv_name spec) statuses;
         restart = restart_triggered r (w_ctx v);
         reload = reload_triggered r (w_ctx v);
         act = decide_action_runr spec current restart reload
     in perform_runr env runr spec act (collect_notify_sources r (w_ctx v) restart reload) v)"

definition runr_service_apply ::
  "'w service_env \<Rightarrow> Resource \<Rightarrow> Diff \<Rightarrow> ('w service_world, PrimitiveError, ChangeReport) prog" where
  "runr_service_apply env r diff =
     (if is_no_change diff then ret report_no_change
      else case service_spec_of_json False (res_payload r) of
             None \<Rightarrow> throw (InvalidPayload (''runr.service payload: '' @ se_serde_error env (res_payload r)))
           | Some spec \<Rightarrow>
               (case se_runr env of
                  None \<Rightarrow> throw (RunrUnavailable ''n/a'' ''runr client not initialized in ApplyCtx'')
                | Some runr \<Rightarrow>
                    bindE (throttled_daemon_reload runr) (\<lambda>_.
                    bindE (map_err (map_runr_error (rh_base_url runr) ''service_statuses'')
                      (outside (rh_service_statuses runr))) (\<lambda>statuses.
                    converge_runr env runr spec r statuses))))"

definition RunrServicePrimitive :: "'w service_env \<Rightarrow> (fs_state \<times> 'w) primitive" where
  "RunrServicePrimitive env =
     \<lparr>prim_plan = (\<lambda>r. returning (service_plan ''runr.service'' ''runr'' False (se_serde_error env) r)),
      prim_apply = (\<lambda>r d. returning (runr_service_apply env r d))\<rparr>"

section \<open>What an apply did\<close>

lemma throttled_daemon_reload_keeps:
  assumes "throttled_daemon_reload runr v = (r, v')"
  shows "changed_resources (w_ctx v') = changed_resources (w_ctx v) \<and> fst (w_host v') = fst (w_host v)"
proof -
  obtain x w where o: "rh_daemon_reload runr (snd (w_host v)) = (x, w)" by fastforce
  show ?thesis
    using assms o
    by (cases x; cases "projl x") (auto simp: throttled_daemon_reload_def outside_def split: if_splits)
qed

text \<open>The stages of an apply that got to the decision.\<close>

lemma runr_service_apply_stages:
  assumes "runr_service_apply env r d v = (Inr rep, v')" "\<not> is_no_change d"
  obtains spec runr statuses v1 v2 where
    "service_spec_of_json False (res_payload r) = Some spec" "se_runr env = Some runr"
    "throttled_daemon_reload runr v = (Inr (), v1)"
    "rh_service_statuses runr (snd (w_host v1)) = (Inr statuses, snd (w_host v2))"
    "changed_resources (w_ctx v2) = changed_resources (w_ctx v)" "fst (w_host v2) = fst (w_host v)"
    "perform_runr env runr spec (decide_action_runr spec (find (\<lambda>s. st_name s = sv_name spec) statuses)
        (restart_triggered r (w_ctx v)) (reload_triggered r (w_ctx v)))
        (collect_notify_sources r (w_ctx v) (restart_triggered r (w_ctx v)) (reload_triggered r (w_ctx v))) v2 =
       (Inr rep, v')"
proof -
  obtain spec where spec: "service_spec_of_json False (res_payload r) = Some spec"
    using assms by (cases "service_spec_of_json False (res_payload r)") (simp_all add: runr_service_apply_def)
  obtain runr where runr: "se_runr env = Some runr"
    using assms spec by (cases "se_runr env") (simp_all add: runr_service_apply_def)
  have "bindE (throttled_daemon_reload runr) (\<lambda>_.
      bindE (map_err (map_runr_error (rh_base_url runr) ''service_statuses'') (outside (rh_service_statuses runr)))
        (converge_runr env runr spec r)) v = (Inr rep, v')"
    using assms spec runr by (simp add: runr_service_apply_def)
  then have "\<exists>u v1. throttled_daemon_reload runr v = (Inr u, v1) \<and> (\<exists>statuses v2.
      outside (rh_service_statuses runr) v1 = (Inr statuses, v2) \<and> converge_runr env runr spec r statuses v2 = (Inr rep, v'))"
    unfolding bindE_eq_Inr map_err_Inr .
  then obtain v1 v2 statuses where reload: "throttled_daemon_reload runr v = (Inr (), v1)"
    and st: "outside (rh_service_statuses runr) v1 = (Inr statuses, v2)"
    and run: "converge_runr env runr spec r statuses v2 = (Inr rep, v')"
    by (metis old.unit.exhaust)
  have ctx: "changed_resources (w_ctx v2) = changed_resources (w_ctx v)" "fst (w_host v2) = fst (w_host v)"
    using throttled_daemon_reload_keeps [OF reload] keeps_applyD [OF keeps_apply_outside st] by simp_all
  have "rh_service_statuses runr (snd (w_host v1)) = (Inr statuses, snd (w_host v2))"
    using st by (auto simp: outside_eq)
  then show ?thesis
    by (rule that [OF spec runr reload _ ctx run [unfolded converge_runr_def Let_def triggered_cong [OF ctx(1)]]])
qed

lemma execute_start_Inr:
  assumes "execute_start_runr runr spec v = (Inr rep, v')"
  shows "\<exists>ack status w1 w2. rh_service_start runr (sv_name spec) True (snd (w_host v)) = (Inr ack, w1) \<and>
    rh_verify_start runr (sv_name spec) VERIFY_POLL_INTERVAL VERIFY_POLL_TOTAL w1 = (Inr status, w2) \<and>
    v' = v\<lparr>w_host := (fst (w_host v), w2)\<rparr> \<and> rep = report_changed (''started runr.service:'' @ sv_name spec)"
  using assms unfolding execute_start_runr_def bindE_eq_Inr map_err_Inr outside_eq by auto

lemma perform_runr_report:
  assumes "perform_runr env runr spec act sources v = (Inr rep, v')" "codec_ok (se_codec env)"
  shows "(cr_deferred rep \<longleftrightarrow> act \<in> {ActRestart, ActReload}) \<and> (cr_changed rep \<longleftrightarrow> act \<in> {ActStart, ActStop})"
proof (cases act)
  case ActNoChange
  then show ?thesis using assms by (auto simp: perform_runr_def report_no_change_def)
next
  case ActStart
  then obtain v1 where "execute_start_runr runr spec v = (Inr rep, v1)"
    using assms unfolding perform_runr_def by (auto simp: bindE_eq_Inr)
  from execute_start_Inr [OF this] ActStart show ?thesis by (auto simp: report_changed_def)
next
  case ActStop
  then show ?thesis
    using assms by (auto simp: perform_runr_def execute_stop_runr_def bindE_eq_Inr report_changed_def)
next
  case ActRestart
  then obtain v1 where "enqueue_defer env ''runr.service'' INIT_SYSTEM_RUNR spec Restart PRestart sources v1 = (Inr rep, v')"
    using assms unfolding perform_runr_def by (auto simp: bindE_eq_Inr)
  from enqueue_defer_Inr [OF this assms(2)] ActRestart show ?thesis by simp
next
  case ActReload
  then obtain v1 where "enqueue_defer env ''runr.service'' INIT_SYSTEM_RUNR spec Reload PReload sources v1 = (Inr rep, v')"
    using assms unfolding perform_runr_def by (auto simp: bindE_eq_Inr)
  from enqueue_defer_Inr [OF this assms(2)] ActReload show ?thesis by simp
qed

lemma runr_deferred_law:
  assumes "runr_service_apply env r d v = (Inr rep, v')" "cr_deferred rep" "codec_ok (se_codec env)" "\<not> is_no_change d"
  shows "\<exists>spec act at res. service_spec_of_json False (res_payload r) = Some spec \<and> sv_state spec = SvRunning \<and>
    notified_action r (w_ctx v) act \<and> validated env spec \<and>
    enqueue (se_os env) (se_codec env) (se_journal env) (notified_entry ''runr'' r (w_ctx v) spec act at) (fst (w_host v)) =
      (Inr res, fst (w_host v'))"
proof -
  let ?src = "collect_notify_sources r (w_ctx v) (restart_triggered r (w_ctx v)) (reload_triggered r (w_ctx v))"
  from assms(1,4) obtain spec runr statuses v1 v2 where spec: "service_spec_of_json False (res_payload r) = Some spec"
    and "se_runr env = Some runr" "throttled_daemon_reload runr v = (Inr (), v1)"
    "rh_service_statuses runr (snd (w_host v1)) = (Inr statuses, snd (w_host v2))"
    "changed_resources (w_ctx v2) = changed_resources (w_ctx v)" and v2: "fst (w_host v2) = fst (w_host v)"
    and run: "perform_runr env runr spec (decide_action_runr spec (find (\<lambda>s. st_name s = sv_name spec) statuses)
        (restart_triggered r (w_ctx v)) (reload_triggered r (w_ctx v))) ?src v2 = (Inr rep, v')"
    by (rule runr_service_apply_stages)
  define decided where "decided = decide_action_runr spec (find (\<lambda>s. st_name s = sv_name spec) statuses)
        (restart_triggered r (w_ctx v)) (reload_triggered r (w_ctx v))"
  have "decided \<in> {ActRestart, ActReload}"
    using perform_runr_report [OF run assms(3)] assms(2) unfolding decided_def by blast
  then obtain act where act: "(decided, act) \<in> {(ActRestart, Restart), (ActReload, Reload)}"
    and why: "sv_state spec = SvRunning" "notified_action r (w_ctx v) act"
    unfolding decided_def notified_action_def
    by (auto simp: decide_action_runr_def Let_def split: ServiceState.splits if_splits option.splits)
  from run act obtain v3 where valid: "run_validate_if_configured env spec v2 = (Inr (), v3)"
    and enq: "enqueue_defer env ''runr.service'' INIT_SYSTEM_RUNR spec act (default_priority act) ?src v3 = (Inr rep, v')"
    unfolding decided_def [symmetric] by (auto simp: perform_runr_def bindE_eq_Inr)
  have "fst (w_host v3) = fst (w_host v)" using keeps_applyD [OF keeps_apply_validate valid] v2 by simp
  moreover from enqueue_defer_Inr [OF enq assms(3)] obtain at res where
    "enqueue (se_os env) (se_codec env) (se_journal env) (notified_entry ''runr'' r (w_ctx v) spec act at) (fst (w_host v3)) =
      (Inr res, fst (w_host v'))"
    unfolding INIT_SYSTEM_RUNR_def notified_entry_def by blast
  moreover have "validated env spec"
    using run_validate_Inr [OF valid] unfolding VALIDATE_TIMEOUT_def validated_def by blast
  ultimately show ?thesis using spec why by metis
qed

interpretation runr_svc: notified_service runr_service_apply "''runr''" False
  by unfold_locales (rule runr_deferred_law)

text \<open>
  C13. A service request that is reported as deferred is in the journal.  When \<open>runr.service\<close> reports
  \<open>deferred\<close>, the service should be running, something it is notified by had changed, its validator (if any)
  had passed, and the journal holds an entry for this very unit that restarts it (when a restart was
  asked for) or at least reloads it.
\<close>

theorem runr_deferred_is_journaled:
  assumes "runr_service_apply env r d v = (Inr rep, v')" "cr_deferred rep" "codec_ok (se_codec env)" "\<not> is_no_change d"
  shows "\<exists>spec act at x. service_spec_of_json False (res_payload r) = Some spec \<and> sv_state spec = SvRunning \<and>
    notified_action r (w_ctx v) act \<and> validated env spec \<and>
    x \<in> ran (jmap (se_codec env) (fst (w_host v'))) \<and> covers x (notified_entry ''runr'' r (w_ctx v) spec act at)"
  using assms by (rule runr_svc.journaled)

text \<open>
  C14. A service that is reported as started is up.  When \<open>runr.service\<close>, through the HTTP client, reports a
  change for a service that should be running, the daemon has accepted the start, has
  afterwards reported the unit in the state \<open>Running\<close>, and its health check (if any) passed after that.
\<close>

theorem runr_started_is_running:
  assumes "runr_service_apply env r d v = (Inr rep, v')" "cr_changed rep" "codec_ok (se_codec env)" "\<not> is_no_change d"
    and "se_runr env = Some (client_handle net c)" "clock_ok net"
    and "service_spec_of_json False (res_payload r) = Some spec" "sv_state spec = SvRunning"
  shows "\<exists>w1 w2 w3 ack st. service_start net c (sv_name spec) True w1 = (Inr ack, w2) \<and>
    verify_start net c (sv_name spec) (200 * 1000000) (from_secs 15) w2 = Some (Inr st, w3) \<and>
    st_name st = sv_name spec \<and> st_state st = ''Running'' \<and>
    (\<forall>check. sv_health_check spec = Some check \<longrightarrow> fst (se_health env check w3) = Inr ())"
proof -
  from assms(1,4) obtain spec' runr statuses v1 v2 where spec: "service_spec_of_json False (res_payload r) = Some spec'"
    "se_runr env = Some runr"
    and run: "perform_runr env runr spec' (decide_action_runr spec' (find (\<lambda>s. st_name s = sv_name spec') statuses)
        (restart_triggered r (w_ctx v)) (reload_triggered r (w_ctx v)))
        (collect_notify_sources r (w_ctx v) (restart_triggered r (w_ctx v)) (reload_triggered r (w_ctx v))) v2 = (Inr rep, v')"
    by (rule runr_service_apply_stages)
  have eq: "spec' = spec" "runr = client_handle net c" using spec assms(5,7) by auto
  have "decide_action_runr spec (find (\<lambda>s. st_name s = sv_name spec) statuses)
      (restart_triggered r (w_ctx v)) (reload_triggered r (w_ctx v)) = ActStart"
    using perform_runr_report [OF run assms(3)] assms(2,8) unfolding eq
    by (auto simp: decide_action_runr_def Let_def split: if_splits)
  with run eq obtain v3 where start: "execute_start_runr (client_handle net c) spec v2 = (Inr rep, v3)"
    and hc: "run_health_check_if_configured env spec v3 = (Inr (), v')"
    by (auto simp: perform_runr_def bindE_eq_Inr)
  from execute_start_Inr [OF start] obtain ack st w1 w2 where
    s: "service_start net c (sv_name spec) True (snd (w_host v2)) = (Inr ack, w1)"
    and vs: "rh_verify_start (client_handle net c) (sv_name spec) VERIFY_POLL_INTERVAL VERIFY_POLL_TOTAL w1 = (Inr st, w2)"
    and v3: "snd (w_host v3) = w2" by auto
  have "0 < VERIFY_POLL_INTERVAL" by (simp add: VERIFY_POLL_INTERVAL_def)
  note up = client_verify_start [OF assms(6) this vs]
  have "VERIFY_POLL_INTERVAL = 200 * 1000000" "VERIFY_POLL_TOTAL = from_secs 15"
    by (simp_all add: VERIFY_POLL_INTERVAL_def VERIFY_POLL_TOTAL_def)
  then show ?thesis using s up run_health_check_Inr [OF hc] v3 unfolding RUNNING_STATE_def by metis
qed

section \<open>Two gaps\<close>

definition runr_unreachable :: "'w service_env \<Rightarrow> bool" where
  "runr_unreachable env \<longleftrightarrow>
     (case se_runr env of
        None \<Rightarrow> True
      | Some runr \<Rightarrow>
          (\<forall>w. \<exists>url reason. fst (rh_daemon_reload runr w) = Inl (Unavailable url reason)) \<and>
          (\<forall>w. \<exists>url reason. fst (rh_service_statuses runr w) = Inl (Unavailable url reason)))"

lemma runr_unreachable_apply:
  assumes "runr_unreachable env" "service_spec_of_json False (res_payload r) = Some spec" "\<not> is_no_change d"
  shows "\<exists>url reason v'. runr_service_apply env r d v = (Inl (RunrUnavailable url reason), v') \<and>
    fst (w_host v') = fst (w_host v)"
proof (cases "se_runr env")
  case None
  then show ?thesis using assms(2,3) by (simp add: runr_service_apply_def throw_def)
next
  case (Some runr)
  have down: "\<exists>url reason. fst (rh_daemon_reload runr w) = Inl (Unavailable url reason)"
    "\<exists>url reason. fst (rh_service_statuses runr w) = Inl (Unavailable url reason)" for w
    using assms(1) Some unfolding runr_unreachable_def by simp_all
  have run: "runr_service_apply env r d v = bindE (throttled_daemon_reload runr) (\<lambda>_.
      bindE (map_err (map_runr_error (rh_base_url runr) ''service_statuses'') (outside (rh_service_statuses runr)))
        (converge_runr env runr spec r)) v"
    using assms(2,3) Some by (simp add: runr_service_apply_def)
  show ?thesis
  proof (cases "runr_daemon_reload_done (w_ctx v)")
    case True
    then have "throttled_daemon_reload runr v = (Inr (), v)" by (simp add: throttled_daemon_reload_def)
    moreover obtain url reason w where "rh_service_statuses runr (snd (w_host v)) = (Inl (Unavailable url reason), w)"
      using down(2) [of "snd (w_host v)"] by (metis prod.collapse)
    ultimately show ?thesis unfolding run
      by (simp add: bindE_def map_err_def outside_def map_runr_error_def)
  next
    case False
    moreover obtain url reason w where "rh_daemon_reload runr (snd (w_host v)) = (Inl (Unavailable url reason), w)"
      using down(1) [of "snd (w_host v)"] by (metis prod.collapse)
    ultimately show ?thesis unfolding run
      by (simp add: bindE_def throttled_daemon_reload_def outside_def)
  qed
qed

text \<open>
  C22. A notification that arrives while runr is unreachable is lost.  The apply of a service whose configuration
  has just changed then returns an error that the orchestrator counts as deferred, but nothing is
  written to the journal; and the next run, in which the configuration is in place and nothing has
  changed, finds the service running, reports no change and defers nothing either.  The service
  keeps running with its old configuration.
\<close>

theorem runr_outage_loses_restart:
  assumes "service_spec_of_json False (res_payload r) = Some spec" "sv_state spec = SvRunning"
    and "\<not> is_no_change d" "runr_unreachable env" "restart_triggered r (w_ctx v)"
    and "\<not> is_no_change d'" "runr_service_apply env' r d' u = (Inr rep, u')" "codec_ok (se_codec env')"
    and "changed_resources (w_ctx u) \<inter> (set (res_restart_on r) \<union> set (res_reload_on r)) = {}"
    and "\<And>runr w sts w'. se_runr env' = Some runr \<Longrightarrow> rh_service_statuses runr w = (Inr sts, w') \<Longrightarrow>
      \<exists>st. find (\<lambda>s. st_name s = sv_name spec) sts = Some st \<and> st_state st = ''Running''"
  shows "(\<exists>e v'. runr_service_apply env r d v = (Inl e, v') \<and> is_deferrable e \<and> fst (w_host v') = fst (w_host v)) \<and>
    rep = report_no_change \<and> fst (w_host u') = fst (w_host u)"
proof -
  from assms(7,6) obtain spec' runr statuses u1 u2 where spec: "service_spec_of_json False (res_payload r) = Some spec'"
    and runr: "se_runr env' = Some runr" and "throttled_daemon_reload runr u = (Inr (), u1)"
    and st: "rh_service_statuses runr (snd (w_host u1)) = (Inr statuses, snd (w_host u2))"
    and "changed_resources (w_ctx u2) = changed_resources (w_ctx u)" and u2: "fst (w_host u2) = fst (w_host u)"
    and run: "perform_runr env' runr spec' (decide_action_runr spec' (find (\<lambda>s. st_name s = sv_name spec') statuses)
        (restart_triggered r (w_ctx u)) (reload_triggered r (w_ctx u)))
        (collect_notify_sources r (w_ctx u) (restart_triggered r (w_ctx u)) (reload_triggered r (w_ctx u))) u2 = (Inr rep, u')"
    by (rule runr_service_apply_stages)
  have quiet: "\<not> restart_triggered r (w_ctx u)" "\<not> reload_triggered r (w_ctx u)"
    using assms(9) by (auto simp: restart_triggered_def reload_triggered_def list_ex_iff is_changed_def)
  obtain st where "find (\<lambda>s. st_name s = sv_name spec) statuses = Some st" "st_state st = ''Running''"
    using assms(10) [OF runr st] by blast
  then have "decide_action_runr spec' (find (\<lambda>s. st_name s = sv_name spec') statuses)
      (restart_triggered r (w_ctx u)) (reload_triggered r (w_ctx u)) = ActNoChange"
    using spec assms(1,2) quiet by (simp add: decide_action_runr_def RUNNING_STATE_def)
  then have "rep = report_no_change" "u' = u2" using run by (simp_all add: perform_runr_def)
  moreover have "is_deferrable (RunrUnavailable url reason)" for url reason by (simp add: is_deferrable_def)
  then have "\<exists>e v'. runr_service_apply env r d v = (Inl e, v') \<and> is_deferrable e \<and> fst (w_host v') = fst (w_host v)"
    using runr_unreachable_apply [OF assms(4,1,3), of v] by blast
  ultimately show ?thesis using u2 by blast
qed

text \<open>
  The flag of the throttle is taken back only for an unavailable runr: after any other error of \<open>daemon_reload\<close> no
  service of the run asks for it again.
\<close>

lemma reload_error_silences_later:
  assumes "throttled_daemon_reload runr v = (Inl e, v')" "\<not> is_deferrable e"
    and "runr_daemon_reload_done (w_ctx u) = runr_daemon_reload_done (w_ctx v')"
  shows "throttled_daemon_reload runr u = (Inr (), u)"
proof -
  obtain x w where o: "rh_daemon_reload runr (snd (w_host v)) = (x, w)" by fastforce
  have "runr_daemon_reload_done (w_ctx v')"
    using assms(1,2) o
    by (cases x; cases "projl x") (auto simp: throttled_daemon_reload_def outside_def is_deferrable_def split: if_splits)
  then show ?thesis using assms(3) by (simp add: throttled_daemon_reload_def)
qed

section \<open>Witnesses\<close>

text \<open>
  A daemon that knows the service \<open>pg\<close> and shows it running from the \<open>k\<close>-th request on, and a
  resource for that service which is restarted when its configuration file changes.
\<close>

definition svc_net :: "nat \<Rightarrow> nat runr_net" where
  "svc_net k = \<lparr>net_call = (\<lambda>rq w. (Inr (Inr (if w < k then ''down'' else ''up'')), Suc w)), net_now = (\<lambda>w. w),
     net_sleep = (\<lambda>d w. w + d), net_de_ack = (\<lambda>_. Inr \<lparr>ack_action_id = [], ack_accepted_at = [], ack_message = None\<rparr>),
     net_de_statuses = (\<lambda>body. Inr [\<lparr>st_name = ''pg'', st_state = (if body = ''up'' then ''Running'' else ''Stopped''),
       st_restarts = 0, st_pid = None\<rparr>]), net_de_timers = (\<lambda>_. Inr [])\<rparr>"

definition svc_env :: "nat RunrHandle option \<Rightarrow> nat service_env" where
  "svc_env runr = \<lparr>se_runr = runr, se_systemd = None, se_validator = (\<lambda>_ _. ret ()), se_health = NoopHealthCheckRunner,
     se_utc_now = (\<lambda>_. 0), se_os = quiet_env, se_codec = sample_codec, se_journal = sample_journal,
     se_serde_error = (\<lambda>_. [])\<rparr>"

definition pg_spec :: ServiceSpec where
  "pg_spec = \<lparr>sv_name = ''pg'', sv_state = SvRunning, sv_enable = False, sv_health_check = None, sv_validate_with = None\<rparr>"

definition pg_service :: Resource where
  "pg_service = \<lparr>res_id = ''runr.service:pg'', res_kind = ''runr.service'', res_spec_version = 1,
     res_payload = JObject [(''name'', JString ''pg''), (''state'', JString ''running'')],
     res_reload_on = [], res_restart_on = [''file.content:/etc/pg.conf''], res_depends_on = []\<rparr>"

definition svc_world :: "ResourceId set \<Rightarrow> nat service_world" where
  "svc_world changed = \<lparr>w_ctx = apply_ctx_build\<lparr>changed_resources := changed\<rparr>, w_host = (fs_of sample_codec [], 0)\<rparr>"

definition some_diff :: Diff where
  "some_diff = Update JNull JNull []"

lemma pg_service_spec: "service_spec_of_json False (res_payload pg_service) = Some pg_spec"
proof -
  have "unit_name_new ''pg'' = Inr ''pg''" by code_simp
  then show ?thesis
    by (simp add: service_spec_of_json_def pg_service_def pg_spec_def Let_def de_field_def de_default_field_def
        de_opt_field_def de_unit_name_def de_service_state_def)
qed

lemma svc_fields [simp]:
  "res_restart_on pg_service = [''file.content:/etc/pg.conf'']" "res_reload_on pg_service = []"
  "se_runr (svc_env runr) = runr" "se_validator (svc_env runr) argv t = ret ()" "se_health (svc_env runr) = NoopHealthCheckRunner"
  "se_utc_now (svc_env runr) w = 0" "se_os (svc_env runr) = quiet_env" "se_codec (svc_env runr) = sample_codec"
  "se_journal (svc_env runr) = sample_journal" "codec_ok sample_codec" "is_no_change some_diff = False"
  "sv_name pg_spec = ''pg''" "sv_state pg_spec = SvRunning" "sv_health_check pg_spec = None" "sv_validate_with pg_spec = None"
  by (simp_all add: pg_service_def svc_env_def sample_codec_ok some_diff_def is_no_change_def pg_spec_def)

lemmas svc_run = runr_service_apply_def pg_service_spec throttled_daemon_reload_def
  converge_runr_def outside_def bindE_def map_err_def apply_ctx_build_def svc_world_def daemon_reload_def
  service_statuses_def post_json_def get_json_def parse_json_def svc_net_def Let_def decide_action_runr_def
  RUNNING_STATE_def restart_triggered_def reload_triggered_def is_changed_def

lemma svc_deferred_run:
  "\<exists>rep v'. runr_service_apply (svc_env (Some (client_handle (svc_net 0) (client_new [])))) pg_service some_diff
     (svc_world {''file.content:/etc/pg.conf''}) = (Inr rep, v') \<and> cr_deferred rep"
proof -
  have "entry_filename (deferred_entry ''runr'' pg_spec Restart PRestart [''file.content:/etc/pg.conf''] 0) =
      ''0r-runr.restart:pg.deferred''"
    by (simp add: entry_filename_def deferred_entry_def make_id_def pg_spec_def)
  then have "CHR ''/'' \<notin> set (entry_filename (deferred_entry ''runr'' pg_spec Restart PRestart [''file.content:/etc/pg.conf''] 0))"
    by simp
  from enqueue_ok [OF quiet_env_quiet(1) this, of sample_codec sample_journal "fs_of sample_codec []"]
  obtain res s' where "enqueue quiet_env sample_codec sample_journal
      (deferred_entry ''runr'' pg_spec Restart PRestart [''file.content:/etc/pg.conf''] 0) (fs_of sample_codec []) = (Inr res, s')"
    by blast
  then show ?thesis
    by (simp add: svc_run perform_runr_def run_validate_if_configured_def enqueue_defer_def on_journal_def
        collect_notify_sources_def INIT_SYSTEM_RUNR_def report_deferred_def)
qed

theorem runr_deferred_is_journaled_witness:
  "\<exists>rep v' x at. runr_service_apply (svc_env (Some (client_handle (svc_net 0) (client_new [])))) pg_service some_diff
     (svc_world {''file.content:/etc/pg.conf''}) = (Inr rep, v') \<and>
   x \<in> ran (jmap sample_codec (fst (w_host v'))) \<and>
   covers x (notified_entry ''runr'' pg_service (w_ctx (svc_world {''file.content:/etc/pg.conf''})) pg_spec Restart at)"
proof -
  obtain rep v' where run: "runr_service_apply (svc_env (Some (client_handle (svc_net 0) (client_new [])))) pg_service some_diff
     (svc_world {''file.content:/etc/pg.conf''}) = (Inr rep, v')" "cr_deferred rep"
    using svc_deferred_run by blast
  have restart: "notified_action pg_service (w_ctx (svc_world {''file.content:/etc/pg.conf''})) act \<longleftrightarrow> act = Restart" for act
    by (simp add: notified_action_def restart_triggered_def is_changed_def svc_world_def)
  from runr_deferred_is_journaled [OF run] show ?thesis
    using run pg_service_spec by (auto simp: restart)
qed

lemma svc_started_run:
  "\<exists>rep v'. runr_service_apply (svc_env (Some (client_handle (svc_net 3) (client_new [])))) pg_service some_diff
     (svc_world {}) = (Inr rep, v') \<and> cr_changed rep"
proof -
  have "verify_start (svc_net 3) (client_new []) ''pg'' VERIFY_POLL_INTERVAL VERIFY_POLL_TOTAL (Suc (Suc (Suc 0))) =
      Some (Inr \<lparr>st_name = ''pg'', st_state = ''Running'', st_restarts = 0, st_pid = None\<rparr>, Suc (Suc (Suc (Suc 0))))"
    unfolding verify_start_def
    by (subst verify_start_loop.simps)
      (simp add: service_statuses_def get_json_def parse_json_def svc_net_def start_verdict_def RUNNING_STATE_def)
  then show ?thesis
    by (simp add: svc_run perform_runr_def execute_start_runr_def run_health_check_if_configured_def service_start_def
        client_handle_def finished_def report_changed_def)
qed

theorem runr_started_is_running_witness:
  "\<exists>w2 w3 st. verify_start (svc_net 3) (client_new []) ''pg'' (200 * 1000000) (from_secs 15) w2 = Some (Inr st, w3) \<and>
     st_name st = ''pg'' \<and> st_state st = ''Running''"
proof -
  obtain rep v' where run: "runr_service_apply (svc_env (Some (client_handle (svc_net 3) (client_new [])))) pg_service some_diff
     (svc_world {}) = (Inr rep, v')" "cr_changed rep"
    using svc_started_run by blast
  have "codec_ok (se_codec (svc_env (Some (client_handle (svc_net 3) (client_new [])))))" "\<not> is_no_change some_diff"
    "se_runr (svc_env (Some (client_handle (svc_net 3) (client_new [])))) = Some (client_handle (svc_net 3) (client_new []))"
    "clock_ok (svc_net 3)"
    by (simp_all add: clock_ok_def svc_net_def)
  from runr_started_is_running [OF run this pg_service_spec] show ?thesis by auto
qed

lemma svc_settled_run:
  "runr_service_apply (svc_env (Some (client_handle (svc_net 0) (client_new [])))) pg_service some_diff (svc_world {}) =
     (Inr report_no_change, (svc_world {})\<lparr>w_ctx := apply_ctx_build\<lparr>runr_daemon_reload_done := True\<rparr>,
        w_host := (fs_of sample_codec [], 2)\<rparr>)"
  by (simp add: svc_run perform_runr_def)

theorem runr_outage_loses_restart_witness:
  "\<exists>e v'. runr_service_apply (svc_env None) pg_service some_diff (svc_world {''file.content:/etc/pg.conf''}) = (Inl e, v') \<and>
     is_deferrable e \<and> jmap sample_codec (fst (w_host v')) = jmap sample_codec (fs_of sample_codec [])"
proof -
  have "runr_unreachable (svc_env None)" "sv_state pg_spec = SvRunning" "\<not> is_no_change some_diff"
    "restart_triggered pg_service (w_ctx (svc_world {''file.content:/etc/pg.conf''}))"
    "codec_ok (se_codec (svc_env (Some (client_handle (svc_net 0) (client_new [])))))"
    by (simp_all add: runr_unreachable_def restart_triggered_def svc_world_def is_changed_def)
  moreover have "\<exists>st. find (\<lambda>s. st_name s = sv_name pg_spec) sts = Some st \<and> st_state st = ''Running''"
    if "se_runr (svc_env (Some (client_handle (svc_net 0) (client_new [])))) = Some runr"
      "rh_service_statuses runr w = (Inr sts, w')" for runr w sts w'
    using that by (auto simp: service_statuses_def get_json_def parse_json_def svc_net_def)
  ultimately show ?thesis
    using runr_outage_loses_restart [OF pg_service_spec, of some_diff "svc_env None" "svc_world {''file.content:/etc/pg.conf''}"
        some_diff "svc_env (Some (client_handle (svc_net 0) (client_new [])))" "svc_world {}"]
      svc_settled_run by (auto simp: svc_world_def apply_ctx_build_def)
qed

end
