(* ===== verification/Systemd_Service.thy ===== *)
theory Systemd_Service
  imports Service_Unit
begin

text \<open>
  \<open>bosun-primitives/src/systemd_service\<close>: the primitive \<open>systemd.service\<close> (\<open>plan.rs\<close>, \<open>apply.rs\<close>, \<open>mod.rs\<close>), with
  the same division as \<open>runr.service\<close>: starts and stops at once through the bus, restarts and reloads
  through the defer journal.
\<close>

section \<open>Deciding\<close>

definition ACTIVE_STATE :: string where
  "ACTIVE_STATE = ''active''"

definition decide_action_systemd :: "ServiceSpec \<Rightarrow> UnitInfo option \<Rightarrow> bool \<Rightarrow> bool \<Rightarrow> service_action" where
  "decide_action_systemd spec current restart reload =
     (let is_active = (case current of None \<Rightarrow> False | Some u \<Rightarrow> ui_active_state u = ACTIVE_STATE)
      in case sv_state spec of
           SvRunning \<Rightarrow>
             (if is_active
              then if restart then ActRestart else if reload then ActReload else ActNoChange
              else ActStart)
         | _ \<Rightarrow> if is_active then ActStop else ActNoChange)"

section \<open>Applying\<close>

definition INIT_SYSTEM_SYSTEMD :: string where
  "INIT_SYSTEM_SYSTEMD = ''systemd''"

definition map_systemd_error :: "string \<Rightarrow> SystemdError \<Rightarrow> PrimitiveError" where
  "map_systemd_error op err =
     (case err of
        BusUnavailable reason \<Rightarrow> SystemdUnavailable (op @ '': bus unavailable: '' @ reason)
      | Dbus e \<Rightarrow> SystemdUnavailable (op @ '': dbus error: '' @ zbus_text e)
      | NoSuchUnit name \<Rightarrow> PeApply (''systemd unit not found: '' @ name @ '' (during '' @ op @ '')'')
      | AuthorizationDenied action unit \<Rightarrow>
          PeApply (''authorization denied for '' @ action @ '' on '' @ unit @ '' (during '' @ op @
            ''); run as root or add a polkit rule'')
      | JobFailed job result active_state \<Rightarrow>
          PeApply (''systemd job '' @ job @ '' failed during '' @ op @ '': result='' @ result @ '', active_state='' @ active_state)
      | SdRestartNotObserved unit \<Rightarrow> PeApply (''restart of '' @ unit @ '' not observed (op='' @ op @ '')'')
      | SdTimeout d \<Rightarrow> SystemdUnavailable (op @ '': timeout after '' @ debug_duration d @ '' waiting for job'')
      | SdIo e \<Rightarrow> PeIo (''systemd '' @ op) e)"

text \<open>One \<open>daemon_reload\<close> per run, when systemd says that the unit needs it; any error takes the flag back.\<close>

definition reload_if_needed :: "'w SystemdHandle \<Rightarrow> ServiceSpec \<Rightarrow> ('w service_world, PrimitiveError, unit) prog" where
  "reload_if_needed systemd spec = (\<lambda>v.
     if systemd_daemon_reload_done (w_ctx v) then (Inr (), v)
     else (case outside (sh_needs_daemon_reload systemd (sv_name spec)) v of
             (Inl e, v1) \<Rightarrow> (Inl (map_systemd_error ''needs_daemon_reload'' e), v1)
           | (Inr False, v1) \<Rightarrow> (Inr (), v1)
           | (Inr True, v1) \<Rightarrow>
               (if systemd_daemon_reload_done (w_ctx v1) then (Inr (), v1)
                else case outside (sh_daemon_reload systemd)
                       (v1\<lparr>w_ctx := (w_ctx v1)\<lparr>systemd_daemon_reload_done := True\<rparr>\<rparr>) of
                       (Inr _, v2) \<Rightarrow> (Inr (), v2)
                     | (Inl e, v2) \<Rightarrow> (Inl (map_systemd_error ''daemon_reload'' e),
                         v2\<lparr>w_ctx := (w_ctx v2)\<lparr>systemd_daemon_reload_done := False\<rparr>\<rparr>))))"

definition enable_if_asked :: "'w SystemdHandle \<Rightarrow> ServiceSpec \<Rightarrow> ('w service_world, PrimitiveError, unit) prog" where
  "enable_if_asked systemd spec =
     (if sv_enable spec
      then bindE (map_err (map_systemd_error ''is_unit_enabled'') (outside (sh_is_unit_enabled systemd (sv_name spec))))
        (\<lambda>already_enabled.
         if already_enabled then ret ()
         else map_err (map_systemd_error ''enable_unit'') (outside (sh_enable_unit systemd (sv_name spec))))
      else ret ())"

definition unit_before :: "'w SystemdHandle \<Rightarrow> ServiceSpec \<Rightarrow> ('w service_world, PrimitiveError, UnitInfo option) prog" where
  "unit_before systemd spec =
     attempt (outside (sh_unit_info systemd (sv_name spec))) (\<lambda>r. case r of
       Inr info \<Rightarrow> ret (Some info)
     | Inl (NoSuchUnit _) \<Rightarrow> ret None
     | Inl e \<Rightarrow> throw (map_systemd_error ''unit_info'' e))"

definition verify_invocation_change :: "UnitInfo option \<Rightarrow> UnitInfo \<Rightarrow> ServiceSpec \<Rightarrow> PrimitiveError + unit" where
  "verify_invocation_change before after spec =
     (case before of
        None \<Rightarrow> Inr ()
      | Some b \<Rightarrow>
          (if ui_invocation_id b = [] then Inr ()
           else if ui_invocation_id after \<noteq> [] \<and> ui_invocation_id after = ui_invocation_id b
           then Inl (PeApply (''systemd.service:'' @ sv_name spec @ '': restart not observed (InvocationID unchanged: '' @
             ui_invocation_id b @ '')''))
           else Inr ()))"

definition execute_start_systemd ::
  "'w SystemdHandle \<Rightarrow> ServiceSpec \<Rightarrow> UnitInfo option \<Rightarrow> ('w service_world, PrimitiveError, ChangeReport) prog" where
  "execute_start_systemd systemd spec before =
     bindE (map_err (map_systemd_error ''start_unit'') (outside (sh_start_unit systemd (sv_name spec)))) (\<lambda>_.
     bindE (map_err (map_systemd_error ''unit_info'') (outside (sh_unit_info systemd (sv_name spec)))) (\<lambda>after v.
     case verify_invocation_change before after spec of
       Inl e \<Rightarrow> (Inl e, v)
     | Inr _ \<Rightarrow> (Inr (report_changed (''started systemd.service:'' @ sv_name spec)), v)))"

definition execute_stop_systemd :: "'w SystemdHandle \<Rightarrow> ServiceSpec \<Rightarrow> ('w service_world, PrimitiveError, ChangeReport) prog" where
  "execute_stop_systemd systemd spec =
     bindE (map_err (map_systemd_error ''stop_unit'') (outside (sh_stop_unit systemd (sv_name spec)))) (\<lambda>_.
     ret (report_changed (''stopped systemd.service:'' @ sv_name spec)))"

definition perform_systemd ::
  "'w service_env \<Rightarrow> 'w SystemdHandle \<Rightarrow> ServiceSpec \<Rightarrow> UnitInfo option \<Rightarrow> service_action \<Rightarrow> string list \<Rightarrow>
   ('w service_world, PrimitiveError, ChangeReport) prog" where
  "perform_systemd env systemd spec before act sources =
     (case act of
        ActNoChange \<Rightarrow> ret report_no_change
      | ActStart \<Rightarrow>
          bindE (execute_start_systemd systemd spec before) (\<lambda>report.
          bindE (run_health_check_if_configured env spec) (\<lambda>_. ret report))
      | ActStop \<Rightarrow> execute_stop_systemd systemd spec
      | ActRestart \<Rightarrow>
          bindE (run_validate_if_configured env spec) (\<lambda>_.
          enqueue_defer env ''systemd.service'' INIT_SYSTEM_SYSTEMD spec Restart PRestart sources)
      | ActReload \<Rightarrow>
          bindE (run_validate_if_configured env spec) (\<lambda>_.
          enqueue_defer env ''systemd.service'' INIT_SYSTEM_SYSTEMD spec Reload PReload sources))"

definition converge_systemd ::
  "'w service_env \<Rightarrow> 'w SystemdHandle \<Rightarrow> ServiceSpec \<Rightarrow> Resource \<Rightarrow> UnitInfo option \<Rightarrow>
   ('w service_world, PrimitiveError, ChangeReport) prog" where
  "converge_systemd env systemd spec r before = (\<lambda>v.
     let restart = restart_triggered r (w_ctx v);
         reload = reload_triggered r (w_ctx v);
         act = decide_action_systemd spec before restart reload
     in perform_systemd env systemd spec before act (collect_notify_sources r (w_ctx v) restart reload) v)"

definition systemd_service_apply ::
  "'w service_env \<Rightarrow> Resource \<Rightarrow> Diff \<Rightarrow> ('w service_world, PrimitiveError, ChangeReport) prog" where
  "systemd_service_apply env r diff =
     (if is_no_change diff then ret report_no_change
      else case service_spec_of_json True (res_payload r) of
             None \<Rightarrow> throw (InvalidPayload (''systemd.service payload: '' @ se_serde_error env (res_payload r)))
           | Some spec \<Rightarrow>
               (case se_systemd env of
                  None \<Rightarrow> throw (SystemdUnavailable ''systemd client not initialized in ApplyCtx'')
                | Some systemd \<Rightarrow>
                    bindE (reload_if_needed systemd spec) (\<lambda>_.
                    bindE (enable_if_asked systemd spec) (\<lambda>_.
                    bindE (unit_before systemd spec) (\<lambda>before.
                    converge_systemd env systemd spec r before)))))"

definition SystemdServicePrimitive :: "'w service_env \<Rightarrow> (fs_state \<times> 'w) primitive" where
  "SystemdServicePrimitive env =
     \<lparr>prim_plan = (\<lambda>r. returning (service_plan ''systemd.service'' ''systemd'' True (se_serde_error env) r)),
      prim_apply = (\<lambda>r d. returning (systemd_service_apply env r d))\<rparr>"

section \<open>What an apply did\<close>

lemma reload_if_needed_keeps:
  assumes "reload_if_needed systemd spec v = (r, v')"
  shows "changed_resources (w_ctx v') = changed_resources (w_ctx v) \<and> fst (w_host v') = fst (w_host v)"
proof -
  obtain x w where o: "sh_needs_daemon_reload systemd (sv_name spec) (snd (w_host v)) = (x, w)" by fastforce
  obtain y w2 where p: "sh_daemon_reload systemd w = (y, w2)" by fastforce
  show ?thesis
    using assms o p
    by (cases x; cases "projr x"; cases y) (auto simp: reload_if_needed_def outside_def split: if_splits)
qed

lemma keeps_apply_enable: "keeps_apply (enable_if_asked systemd spec)"
  unfolding enable_if_asked_def by (auto intro!: keeps_apply_bindE keeps_apply_map_err)

lemma keeps_apply_attempt: "keeps_apply m \<Longrightarrow> (\<And>x. keeps_apply (f x)) \<Longrightarrow> keeps_apply (attempt m f)"
  unfolding keeps_apply_def attempt_def by (auto split: prod.splits)

lemma keeps_apply_unit_before: "keeps_apply (unit_before systemd spec)"
  unfolding unit_before_def
  by (rule keeps_apply_attempt) (auto split: sum.splits SystemdError.splits)

lemma unit_before_Inr:
  assumes "unit_before systemd spec v = (Inr before, v')"
  shows "\<exists>x. sh_unit_info systemd (sv_name spec) (snd (w_host v)) = (x, snd (w_host v')) \<and> (\<forall>b. x = Inr b \<longrightarrow> before = Some b)"
proof -
  obtain x w where x: "sh_unit_info systemd (sv_name spec) (snd (w_host v)) = (x, w)" by fastforce
  then have "snd (w_host v') = w \<and> (\<forall>b. x = Inr b \<longrightarrow> before = Some b)"
    using assms by (cases x; cases "projl x") (auto simp: unit_before_def attempt_def outside_def)
  then show ?thesis using x by simp
qed

lemma systemd_service_apply_stages:
  assumes "systemd_service_apply env r d v = (Inr rep, v')" "\<not> is_no_change d"
  obtains spec systemd before v2 where
    "service_spec_of_json True (res_payload r) = Some spec" "se_systemd env = Some systemd"
    "\<exists>v1. unit_before systemd spec v1 = (Inr before, v2)"
    "changed_resources (w_ctx v2) = changed_resources (w_ctx v)" "fst (w_host v2) = fst (w_host v)"
    "perform_systemd env systemd spec before (decide_action_systemd spec before
        (restart_triggered r (w_ctx v)) (reload_triggered r (w_ctx v)))
        (collect_notify_sources r (w_ctx v) (restart_triggered r (w_ctx v)) (reload_triggered r (w_ctx v))) v2 =
       (Inr rep, v')"
proof -
  obtain spec where spec: "service_spec_of_json True (res_payload r) = Some spec"
    using assms by (cases "service_spec_of_json True (res_payload r)") (simp_all add: systemd_service_apply_def)
  obtain systemd where systemd: "se_systemd env = Some systemd"
    using assms spec by (cases "se_systemd env") (simp_all add: systemd_service_apply_def)
  have "bindE (reload_if_needed systemd spec) (\<lambda>_. bindE (enable_if_asked systemd spec) (\<lambda>_.
      bindE (unit_before systemd spec) (converge_systemd env systemd spec r))) v = (Inr rep, v')"
    using assms spec systemd by (simp add: systemd_service_apply_def)
  then have "\<exists>u v0. reload_if_needed systemd spec v = (Inr u, v0) \<and> (\<exists>u v1. enable_if_asked systemd spec v0 = (Inr u, v1) \<and>
      (\<exists>before v2. unit_before systemd spec v1 = (Inr before, v2) \<and> converge_systemd env systemd spec r before v2 = (Inr rep, v')))"
    unfolding bindE_eq_Inr .
  then obtain u u' v0 v1 v2 before where reload: "reload_if_needed systemd spec v = (Inr u, v0)"
    and en: "enable_if_asked systemd spec v0 = (Inr u', v1)" and before: "unit_before systemd spec v1 = (Inr before, v2)"
    and run: "converge_systemd env systemd spec r before v2 = (Inr rep, v')" by metis
  have ctx: "changed_resources (w_ctx v2) = changed_resources (w_ctx v)" "fst (w_host v2) = fst (w_host v)"
    using reload_if_needed_keeps [OF reload] keeps_applyD [OF keeps_apply_enable en]
      keeps_applyD [OF keeps_apply_unit_before before] by simp_all
  show ?thesis
    by (rule that [OF spec systemd _ ctx
          run [unfolded converge_systemd_def Let_def triggered_cong [OF ctx(1)]]]) (use before in blast)
qed

lemma execute_start_systemd_Inr:
  assumes "execute_start_systemd systemd spec before v = (Inr rep, v')"
  shows "\<exists>w1 w2 after. sh_start_unit systemd (sv_name spec) (snd (w_host v)) = (Inr (), w1) \<and>
    sh_unit_info systemd (sv_name spec) w1 = (Inr after, w2) \<and> verify_invocation_change before after spec = Inr () \<and>
    v' = v\<lparr>w_host := (fst (w_host v), w2)\<rparr> \<and> cr_changed rep \<and> \<not> cr_deferred rep"
proof -
  from assms obtain u v1 after v2 where o: "outside (sh_start_unit systemd (sv_name spec)) v = (Inr u, v1)"
    "outside (sh_unit_info systemd (sv_name spec)) v1 = (Inr after, v2)"
    and fin: "(case verify_invocation_change before after spec of
        Inl e \<Rightarrow> (Inl e, v2) | Inr _ \<Rightarrow> (Inr (report_changed (''started systemd.service:'' @ sv_name spec)), v2)) = (Inr rep, v')"
    unfolding execute_start_systemd_def bindE_eq_Inr map_err_Inr by blast
  have "verify_invocation_change before after spec = Inr () \<and> v' = v2 \<and> cr_changed rep \<and> \<not> cr_deferred rep"
    using fin by (cases "verify_invocation_change before after spec") (auto simp: report_changed_def)
  then show ?thesis using o by (auto simp: outside_eq)
qed

lemma perform_systemd_report:
  assumes "perform_systemd env systemd spec before act sources v = (Inr rep, v')" "codec_ok (se_codec env)"
  shows "(cr_deferred rep \<longleftrightarrow> act \<in> {ActRestart, ActReload}) \<and> (cr_changed rep \<longleftrightarrow> act \<in> {ActStart, ActStop})"
proof (cases act)
  case ActNoChange
  then show ?thesis using assms by (auto simp: perform_systemd_def report_no_change_def)
next
  case ActStart
  then obtain v1 where "execute_start_systemd systemd spec before v = (Inr rep, v1)"
    using assms unfolding perform_systemd_def by (auto simp: bindE_eq_Inr)
  from execute_start_systemd_Inr [OF this] ActStart show ?thesis by auto
next
  case ActStop
  then show ?thesis
    using assms by (auto simp: perform_systemd_def execute_stop_systemd_def bindE_eq_Inr report_changed_def)
next
  case ActRestart
  then obtain v1 where "enqueue_defer env ''systemd.service'' INIT_SYSTEM_SYSTEMD spec Restart PRestart sources v1 = (Inr rep, v')"
    using assms unfolding perform_systemd_def by (auto simp: bindE_eq_Inr)
  from enqueue_defer_Inr [OF this assms(2)] ActRestart show ?thesis by simp
next
  case ActReload
  then obtain v1 where "enqueue_defer env ''systemd.service'' INIT_SYSTEM_SYSTEMD spec Reload PReload sources v1 = (Inr rep, v')"
    using assms unfolding perform_systemd_def by (auto simp: bindE_eq_Inr)
  from enqueue_defer_Inr [OF this assms(2)] ActReload show ?thesis by simp
qed

lemma systemd_deferred_law:
  assumes "systemd_service_apply env r d v = (Inr rep, v')" "cr_deferred rep" "codec_ok (se_codec env)" "\<not> is_no_change d"
  shows "\<exists>spec act at res. service_spec_of_json True (res_payload r) = Some spec \<and> sv_state spec = SvRunning \<and>
    notified_action r (w_ctx v) act \<and> validated env spec \<and>
    enqueue (se_os env) (se_codec env) (se_journal env) (notified_entry ''systemd'' r (w_ctx v) spec act at) (fst (w_host v)) =
      (Inr res, fst (w_host v'))"
proof -
  let ?src = "collect_notify_sources r (w_ctx v) (restart_triggered r (w_ctx v)) (reload_triggered r (w_ctx v))"
  from assms(1,4) obtain spec systemd before v2 where spec: "service_spec_of_json True (res_payload r) = Some spec"
    and "se_systemd env = Some systemd" "\<exists>v1. unit_before systemd spec v1 = (Inr before, v2)"
    "changed_resources (w_ctx v2) = changed_resources (w_ctx v)" and v2: "fst (w_host v2) = fst (w_host v)"
    and run: "perform_systemd env systemd spec before (decide_action_systemd spec before
        (restart_triggered r (w_ctx v)) (reload_triggered r (w_ctx v))) ?src v2 = (Inr rep, v')"
    by (rule systemd_service_apply_stages)
  define decided where "decided = decide_action_systemd spec before (restart_triggered r (w_ctx v)) (reload_triggered r (w_ctx v))"
  have "decided \<in> {ActRestart, ActReload}"
    using perform_systemd_report [OF run assms(3)] assms(2) unfolding decided_def by blast
  then obtain act where act: "(decided, act) \<in> {(ActRestart, Restart), (ActReload, Reload)}"
    and why: "sv_state spec = SvRunning" "notified_action r (w_ctx v) act"
    unfolding decided_def notified_action_def
    by (auto simp: decide_action_systemd_def Let_def split: ServiceState.splits if_splits option.splits)
  from run act obtain v3 where valid: "run_validate_if_configured env spec v2 = (Inr (), v3)"
    and enq: "enqueue_defer env ''systemd.service'' INIT_SYSTEM_SYSTEMD spec act (default_priority act) ?src v3 = (Inr rep, v')"
    unfolding decided_def [symmetric] by (auto simp: perform_systemd_def bindE_eq_Inr)
  have "fst (w_host v3) = fst (w_host v)" using keeps_applyD [OF keeps_apply_validate valid] v2 by simp
  moreover from enqueue_defer_Inr [OF enq assms(3)] obtain at res where
    "enqueue (se_os env) (se_codec env) (se_journal env) (notified_entry ''systemd'' r (w_ctx v) spec act at) (fst (w_host v3)) =
      (Inr res, fst (w_host v'))"
    unfolding INIT_SYSTEM_SYSTEMD_def notified_entry_def by blast
  moreover have "validated env spec"
    using run_validate_Inr [OF valid] unfolding VALIDATE_TIMEOUT_def validated_def by blast
  ultimately show ?thesis using spec why by metis
qed

interpretation systemd_svc: notified_service systemd_service_apply "''systemd''" True
  by unfold_locales (rule systemd_deferred_law)

text \<open>
  C15. A unit that \<open>systemd.service\<close> reports as started has been started: through the client of the bus,
  systemd accepted the start and confirmed its job, the unit was not active before, and asked afterwards it does not show the
  invocation it had before, if it had one (it may show none at all), and the health check, if any, passed after that.
\<close>

theorem systemd_started_is_confirmed:
  assumes "systemd_service_apply env r d v = (Inr rep, v')" "cr_changed rep" "codec_ok (se_codec env)" "\<not> is_no_change d"
    and "se_systemd env = Some (manager_handle bus)" "stream_ends bus"
    and "service_spec_of_json True (res_payload r) = Some spec" "sv_state spec = SvRunning"
  shows "\<exists>w w0 w1 w2 w3 job active before after. unit_info bus (sv_name spec) w = (before, w0) \<and>
    bus_job_call bus StartUnit (sv_name spec) ''replace'' w0 = (Inr job, w1) \<and>
    job_confirmed bus job (sv_name spec) active w1 \<and>
    unit_info bus (sv_name spec) w2 = (Inr after, w3) \<and>
    (\<forall>b. before = Inr b \<longrightarrow> ui_active_state b \<noteq> ''active'' \<and>
       (ui_invocation_id b = [] \<or> ui_invocation_id after \<noteq> ui_invocation_id b)) \<and>
    (\<forall>check. sv_health_check spec = Some check \<longrightarrow> fst (se_health env check w3) = Inr ())"
proof -
  from assms(1,4) obtain spec' systemd before v2 where spec: "service_spec_of_json True (res_payload r) = Some spec'"
    "se_systemd env = Some systemd" and ub: "\<exists>v1. unit_before systemd spec' v1 = (Inr before, v2)"
    and "changed_resources (w_ctx v2) = changed_resources (w_ctx v)" "fst (w_host v2) = fst (w_host v)"
    and run: "perform_systemd env systemd spec' before (decide_action_systemd spec' before
        (restart_triggered r (w_ctx v)) (reload_triggered r (w_ctx v)))
        (collect_notify_sources r (w_ctx v) (restart_triggered r (w_ctx v)) (reload_triggered r (w_ctx v))) v2 = (Inr rep, v')"
    by (rule systemd_service_apply_stages)
  have eq: "spec' = spec" "systemd = manager_handle bus" using spec assms(5,7) by auto
  have act: "decide_action_systemd spec before (restart_triggered r (w_ctx v)) (reload_triggered r (w_ctx v)) = ActStart"
    using perform_systemd_report [OF run assms(3)] assms(2,8) unfolding eq
    by (auto simp: decide_action_systemd_def Let_def split: if_splits)
  with run eq obtain v3 where start: "execute_start_systemd (manager_handle bus) spec before v2 = (Inr rep, v3)"
    and hc: "run_health_check_if_configured env spec v3 = (Inr (), v')"
    by (auto simp: perform_systemd_def bindE_eq_Inr)
  from execute_start_systemd_Inr [OF start] obtain w1 w2 after where
    s: "sh_start_unit (manager_handle bus) (sv_name spec) (snd (w_host v2)) = (Inr (), w1)"
    and info: "sh_unit_info (manager_handle bus) (sv_name spec) w1 = (Inr after, w2)"
    and ver: "verify_invocation_change before after spec = Inr ()"
    and v3: "snd (w_host v3) = w2" by auto
  obtain w x where x: "unit_info bus (sv_name spec) w = (x, snd (w_host v2))" "\<And>b. x = Inr b \<Longrightarrow> before = Some b"
    using ub unit_before_Inr unfolding eq by (fastforce simp: manager_handle_def)
  have "\<exists>job wa active. start_unit bus (sv_name spec) (snd (w_host v2)) = (Inr job, wa) \<and> job_confirmed bus job (sv_name spec) active wa"
    using s by (intro run_job_Inr [OF assms(6)]) (simp add: manager_handle_def)
  then obtain job wa active where "bus_job_call bus StartUnit (sv_name spec) ''replace'' (snd (w_host v2)) = (Inr job, wa)"
    "job_confirmed bus job (sv_name spec) active wa"
    by (auto simp: start_unit_def job_call_def map_err_Inr JOB_MODE_REPLACE_def)
  moreover have "unit_info bus (sv_name spec) w1 = (Inr after, w2)" using info by (simp add: manager_handle_def)
  moreover have "ui_active_state b \<noteq> ''active'' \<and>
      (ui_invocation_id b = [] \<or> ui_invocation_id after \<noteq> ui_invocation_id b)" if "x = Inr b" for b
    using x(2) [OF that] act ver assms(8)
    by (auto simp: decide_action_systemd_def ACTIVE_STATE_def verify_invocation_change_def Let_def split: if_splits)
  moreover have "fst (se_health env check w2) = Inr ()" if "sv_health_check spec = Some check" for check
    using run_health_check_Inr [OF hc that] v3 by simp
  ultimately show ?thesis using x(1)
    by (intro exI [of _ w] exI [of _ "snd (w_host v2)"] exI [of _ wa] exI [of _ w1] exI [of _ w2] exI [of _ job]
        exI [of _ active] exI [of _ x] exI [of _ after]) blast
qed

text \<open>A bus on which the unit \<open>pg\<close> is inactive until its start job is over.\<close>

definition idle_bus :: "nat sd_bus" where
  "idle_bus = sample_bus\<lparr>bus_active_state := (\<lambda>path w. (Inr (if w = 0 then ''inactive'' else ''active''), w))\<rparr>"

definition idle_env :: "nat service_env" where
  "idle_env = \<lparr>se_runr = None, se_systemd = Some (manager_handle idle_bus), se_validator = (\<lambda>_ _. ret ()),
     se_health = NoopHealthCheckRunner, se_utc_now = (\<lambda>_. 0), se_os = quiet_env, se_codec = sample_codec,
     se_journal = sample_journal, se_serde_error = (\<lambda>_. [])\<rparr>"

definition pg_unit :: ServiceSpec where
  "pg_unit = \<lparr>sv_name = ''pg'', sv_state = SvRunning, sv_enable = True, sv_health_check = None, sv_validate_with = None\<rparr>"

definition pg_unit_service :: Resource where
  "pg_unit_service = \<lparr>res_id = ''systemd.service:pg'', res_kind = ''systemd.service'', res_spec_version = 1,
     res_payload = JObject [(''name'', JString ''pg''), (''state'', JString ''running'')],
     res_reload_on = [], res_restart_on = [], res_depends_on = []\<rparr>"

lemma pg_unit_spec: "service_spec_of_json True (res_payload pg_unit_service) = Some pg_unit"
proof -
  have "unit_name_new ''pg'' = Inr ''pg''" by code_simp
  then show ?thesis
    by (simp add: service_spec_of_json_def pg_unit_service_def pg_unit_def Let_def de_field_def de_default_field_def
        de_opt_field_def de_unit_name_def de_service_state_def)
qed

lemma idle_bus_calls:
  "stream_ends idle_bus"
  "needs_daemon_reload idle_bus n w = (Inr False, w)"
  "is_unit_enabled idle_bus n w = (Inr True, w)"
  "unit_info idle_bus n w = (Inr \<lparr>ui_name = n, ui_active_state = (if w = 0 then ''inactive'' else ''active''),
     ui_sub_state = ''running'', ui_invocation_id = [], ui_exec_main_start_timestamp = Some 0\<rparr>, w)"
  "run_job idle_bus n (start_unit idle_bus n) 0 = (Inr (), 1)"
proof -
  have sig: "bus_next_signal idle_bus = bus_next_signal sample_bus" by (simp add: idle_bus_def)
  have fields: "bus_receive_job_removed idle_bus = ret ()" "bus_now idle_bus = (\<lambda>w. w)"
    "bus_job_call idle_bus = (\<lambda>meth name mode. ret ''/job/7'')"
    by (simp_all add: idle_bus_def sample_bus_def)
  have "after_signals idle_bus dl k w = after_signals sample_bus dl k w" for dl k w
    by (induction k arbitrary: w) (simp_all add: sig)
  then show "stream_ends idle_bus" using sample_bus_ends by (simp add: stream_ends_def sig)
  show "needs_daemon_reload idle_bus n w = (Inr False, w)" "is_unit_enabled idle_bus n w = (Inr True, w)"
    by (simp_all add: needs_daemon_reload_def is_unit_enabled_def idle_bus_def sample_bus_def attempt_def map_err_def bindE_def)
  show info: "unit_info idle_bus n w = (Inr \<lparr>ui_name = n, ui_active_state = (if w = 0 then ''inactive'' else ''active''),
     ui_sub_state = ''running'', ui_invocation_id = [], ui_exec_main_start_timestamp = Some 0\<rparr>, w)" for n w
    by (simp add: unit_info_def service_timestamp_def idle_bus_def sample_bus_def attempt_def map_err_def bindE_def Let_def
        render_invocation_id_def)
  have "wait_for_job_match idle_bus ''/job/7'' JOB_WAIT_BUDGET (0 + JOB_WAIT_BUDGET) 0 =
      Some (Inr \<lparr>ev_job_path = ''/job/7'', ev_result = ''done'', ev_unit = ''pg.service''\<rparr>, 1)"
    by (subst wait_for_job_match.simps) (simp add: sig, simp add: sample_bus_def)
  then have "wait_for_job idle_bus ''/job/7'' n JOB_WAIT_BUDGET 0 =
      Some (Inr \<lparr>jr_result = ''done'', jr_active_state = ''active''\<rparr>, 1)"
    by (simp add: wait_for_job_def info judge_job_def map_err_def fields)
  then show "run_job idle_bus n (start_unit idle_bus n) 0 = (Inr (), 1)"
    by (simp add: run_job_def start_unit_def job_call_def bindE_def map_err_def finished_def fields)
qed

lemma idle_started_run:
  "\<exists>rep v'. systemd_service_apply idle_env pg_unit_service (Update JNull JNull [])
     \<lparr>w_ctx = apply_ctx_build, w_host = (fs_of sample_codec [], 0)\<rparr> = (Inr rep, v') \<and> cr_changed rep"
proof -
  have fields: "se_systemd idle_env = Some (manager_handle idle_bus)" "sv_name pg_unit = ''pg''" "sv_enable pg_unit"
    "sv_health_check pg_unit = None" "sv_state pg_unit = SvRunning"
    by (simp_all add: idle_env_def pg_unit_def)
  show ?thesis
    by (simp add: systemd_service_apply_def is_no_change_def pg_unit_spec fields bindE_def reload_if_needed_def outside_def
        manager_handle_def idle_bus_calls enable_if_asked_def map_err_def unit_before_def attempt_def converge_systemd_def
        Let_def decide_action_systemd_def ACTIVE_STATE_def perform_systemd_def execute_start_systemd_def
        verify_invocation_change_def run_health_check_if_configured_def apply_ctx_build_def report_changed_def)
qed

theorem systemd_started_is_confirmed_witness:
  "\<exists>w0 w1 job active. bus_job_call idle_bus StartUnit ''pg'' ''replace'' w0 = (Inr job, w1) \<and>
     job_confirmed idle_bus job ''pg'' active w1"
proof -
  obtain rep v' where run: "systemd_service_apply idle_env pg_unit_service (Update JNull JNull [])
     \<lparr>w_ctx = apply_ctx_build, w_host = (fs_of sample_codec [], 0)\<rparr> = (Inr rep, v')" "cr_changed rep"
    using idle_started_run by blast
  have "codec_ok (se_codec idle_env)" "\<not> is_no_change (Update JNull JNull [])"
    "se_systemd idle_env = Some (manager_handle idle_bus)" "sv_state pg_unit = SvRunning" "sv_name pg_unit = ''pg''"
    by (simp_all add: idle_env_def sample_codec_ok is_no_change_def pg_unit_def)
  then show ?thesis
    using systemd_started_is_confirmed [OF run _ _ _ idle_bus_calls(1) pg_unit_spec] by auto
qed

end
