(* ===== verification/File_Delete.thy ===== *)
theory File_Delete
  imports File_Common Call_Args Orchestrator
begin

text \<open>
  \<open>bosun-primitives/src/file_delete\<close>: the primitive \<open>file.delete\<close> (\<open>spec.rs\<close>, \<open>plan.rs\<close>, \<open>apply.rs\<close>,
  \<open>mod.rs\<close>) over the file tree of \<open>File_Host\<close>.
\<close>

section \<open>The specification\<close>

record FileDeleteSpec =
  dl_path :: string
  dl_recursive :: bool
  dl_follow_symlinks :: bool

text \<open>The derived \<open>Deserialize\<close>: a map, or a sequence of the fields in order.\<close>

definition delete_spec_of_json :: "json \<Rightarrow> FileDeleteSpec option" where
  "delete_spec_of_json v =
     (let make = (\<lambda>path recursive follow. case (path, recursive, follow) of
            (Some p, Some r, Some f) \<Rightarrow> Some \<lparr>dl_path = p, dl_recursive = r, dl_follow_symlinks = f\<rparr>
          | _ \<Rightarrow> None)
      in case v of
           JObject m \<Rightarrow> make (de_field de_string m ''path'') (de_default_field de_bool False m ''recursive'')
             (de_default_field de_bool False m ''follow_symlinks'')
         | JArray [p] \<Rightarrow> make (de_string p) (Some False) (Some False)
         | JArray [p, r] \<Rightarrow> make (de_string p) (de_bool r) (Some False)
         | JArray [p, r, f] \<Rightarrow> make (de_string p) (de_bool r) (de_bool f)
         | _ \<Rightarrow> None)"

definition delete_validate :: "FileDeleteSpec \<Rightarrow> PrimitiveError + unit" where
  "delete_validate spec =
     (if CHR 0x00 \<in> set (dl_path spec) then Inl (InvalidPayload ''file.delete.path contains NUL byte'')
      else if \<not> is_absolute (dl_path spec)
      then Inl (InvalidPayload (''file.delete.path must be absolute, got: '' @ dl_path spec))
      else if has_parent_dir_segment (dl_path spec)
      then Inl (InvalidPayload (''file.delete.path contains '' @ [CHR 0x27] @ ''..'' @ [CHR 0x27] @ '' segment: '' @ dl_path spec))
      else Inr ())"

section \<open>Deciding and deleting\<close>

datatype DeleteAction = DlNoChange | DlFile | DlDir

definition decide_action_delete :: "fs_env \<Rightarrow> string \<Rightarrow> (file_tree, PrimitiveError, DeleteAction) prog" where
  "decide_action_delete env path =
     attempt (fs_lstat env (os_path path)) (\<lambda>r.
       case r of
         Inl FsNotFound \<Rightarrow> ret DlNoChange
       | Inl e \<Rightarrow> throw (PeIo (''symlink_metadata '' @ path) (io_text e))
       | Inr node \<Rightarrow> ret (if node = TDir then DlDir else DlFile))"

definition remove_file :: "fs_env \<Rightarrow> FileDeleteSpec \<Rightarrow> (file_tree, PrimitiveError, ChangeReport) prog" where
  "remove_file env spec =
     attempt (fs_unlink env (os_path (dl_path spec))) (\<lambda>r.
       case r of
         Inr _ \<Rightarrow> ret (report_changed (''deleted '' @ dl_path spec))
       | Inl FsNotFound \<Rightarrow> ret report_no_change
       | Inl e \<Rightarrow> throw (PeIo (''remove_file '' @ dl_path spec) (io_text e)))"

definition is_empty_dir :: "fs_env \<Rightarrow> dir_lister \<Rightarrow> string \<Rightarrow> (file_tree, PrimitiveError, bool) prog" where
  "is_empty_dir env lister path =
     attempt (fs_read_dir env lister (os_path path)) (\<lambda>r.
       case r of
         Inr names \<Rightarrow> ret (names = [])
       | Inl FsNotFound \<Rightarrow> ret True
       | Inl e \<Rightarrow> throw (PeIo (''read_dir '' @ path) (io_text e)))"

definition remove_directory :: "fs_env \<Rightarrow> dir_lister \<Rightarrow> FileDeleteSpec \<Rightarrow> (file_tree, PrimitiveError, ChangeReport) prog" where
  "remove_directory env lister spec =
     bindE (if dl_recursive spec then ret True else is_empty_dir env lister (dl_path spec)) (\<lambda>allowed.
     if \<not> allowed
     then throw (PeApply (''refusing to delete non-empty directory '' @ dl_path spec @ '' without recursive=true''))
     else attempt (fs_remove_dir_all env (os_path (dl_path spec))) (\<lambda>r.
       case r of
         Inr _ \<Rightarrow> ret (report_changed (''deleted directory '' @ dl_path spec))
       | Inl FsNotFound \<Rightarrow> ret report_no_change
       | Inl e \<Rightarrow> throw (PeIo (''remove_dir_all '' @ dl_path spec) (io_text e))))"

text \<open>The start of both phases.\<close>

definition delete_spec :: "(json \<Rightarrow> string) \<Rightarrow> Resource \<Rightarrow> (file_tree, PrimitiveError, FileDeleteSpec) prog" where
  "delete_spec serde_error r =
     (case delete_spec_of_json (res_payload r) of
        None \<Rightarrow> throw (InvalidPayload (''file.delete payload: '' @ serde_error (res_payload r)))
      | Some spec \<Rightarrow> (case delete_validate spec of Inl e \<Rightarrow> throw e | Inr _ \<Rightarrow> ret spec))"

definition delete_apply ::
  "fs_env \<Rightarrow> dir_lister \<Rightarrow> (json \<Rightarrow> string) \<Rightarrow> Resource \<Rightarrow> Diff \<Rightarrow> (file_tree, PrimitiveError, ChangeReport) prog" where
  "delete_apply env lister serde_error r d =
     (if is_no_change d then ret report_no_change
      else bindE (delete_spec serde_error r) (\<lambda>spec.
           bindE (decide_action_delete env (dl_path spec)) (\<lambda>act.
           case act of
             DlNoChange \<Rightarrow> ret report_no_change
           | DlFile \<Rightarrow> remove_file env spec
           | DlDir \<Rightarrow> remove_directory env lister spec)))"

definition delete_diff :: "FileDeleteSpec \<Rightarrow> DeleteAction \<Rightarrow> Diff" where
  "delete_diff spec act =
     (if act = DlNoChange then NoChange
      else Update (JObject [(''exists'', JBool True), (''path'', JString (dl_path spec))])
             (JObject [(''exists'', JBool False), (''path'', JString (dl_path spec))]) (''delete '' @ dl_path spec))"

definition delete_plan :: "fs_env \<Rightarrow> (json \<Rightarrow> string) \<Rightarrow> Resource \<Rightarrow> (file_tree, PrimitiveError, Diff) prog" where
  "delete_plan env serde_error r =
     bindE (delete_spec serde_error r) (\<lambda>spec.
     bindE (decide_action_delete env (dl_path spec)) (\<lambda>act. ret (delete_diff spec act)))"

definition delete_arg :: "CallArgsError + 'a \<Rightarrow> PrimitiveError + 'a" where
  "delete_arg r = (case r of Inl e \<Rightarrow> Inl (InvalidPayload (''file.delete: '' @ show_call_args_error e)) | Inr x \<Rightarrow> Inr x)"

definition delete_build_payload :: "CallArgs \<Rightarrow> PrimitiveError + json" where
  "delete_build_payload args =
     bindR (delete_arg (required_str args ''path'')) (\<lambda>path.
     bindR (delete_arg (optional_bool args ''recursive'')) (\<lambda>recursive.
     bindR (delete_arg (optional_bool args ''follow_symlinks'')) (\<lambda>follow.
     Inr (JObject (obj_of_list
       [(''path'', JString path), (''recursive'', JBool (case recursive of None \<Rightarrow> False | Some b \<Rightarrow> b)),
        (''follow_symlinks'', JBool (case follow of None \<Rightarrow> False | Some b \<Rightarrow> b))])))))"

definition FileDeletePrimitive :: "fs_env \<Rightarrow> dir_lister \<Rightarrow> (json \<Rightarrow> string) \<Rightarrow> file_tree primitive" where
  "FileDeletePrimitive env lister serde_error =
     host_primitive_of (delete_plan env serde_error) (delete_apply env lister serde_error)"

section \<open>What a run does\<close>

lemma without_tree_leaf:
  assumes "tree_wf t" "names \<noteq> []" "t names \<noteq> Some TDir"
  shows "without_tree (prefix names) t = t(names := None)"
  using tree_wf_below [OF assms] unfolding without_tree_def strict_prefix_def by auto

text \<open>A directory without entries has nothing below it.\<close>

lemma empty_dir_below:
  assumes "tree_wf t" "\<And>n. t (dir @ [n]) = None" "strict_prefix dir q"
  shows "t q = None"
proof -
  obtain r rs where q: "q = (dir @ [r]) @ rs" using assms(3) by (auto elim: strict_prefixE')
  show ?thesis
  proof (cases "rs = []")
    case True
    then show ?thesis using assms(2) q by simp
  next
    case False
    then have "strict_prefix (dir @ [r]) q" using q by (auto simp: strict_prefix_def)
    then show ?thesis using tree_wf_below [OF assms(1), of "dir @ [r]" q] assms(2) by simp
  qed
qed

lemma delete_decide:
  assumes "decide_action_delete env path t = (Inr act, t')"
  shows "t' = t" "env OpLstat (os_path path) = None"
    "act = (case lstat t [] (os_path path) of Inl _ \<Rightarrow> DlNoChange | Inr node \<Rightarrow> if node = TDir then DlDir else DlFile)"
    "lstat t [] (os_path path) = Inl e \<Longrightarrow> e = FsNotFound"
  using assms
  by (auto simp: decide_action_delete_def prog_runs fs_lstat_def fs_call_def split: option.splits sum.splits fs_error.splits)

lemma delete_decide_state: "decide_action_delete env path t = (r, t') \<Longrightarrow> t' = t"
  by (auto simp: decide_action_delete_def prog_runs fs_lstat_def fs_call_def split: option.splits sum.splits fs_error.splits)

lemma delete_spec_state: "delete_spec serde_error r t = (x, t') \<Longrightarrow> t' = t"
  by (auto simp: delete_spec_def split: option.splits sum.splits)

lemma is_empty_dir_state: "is_empty_dir env lister path t = (x, t') \<Longrightarrow> t' = t"
  by (auto simp: is_empty_dir_def fs_read_dir_def fs_call_def prog_runs split: option.splits sum.splits fs_error.splits if_splits)

lemma is_empty_dir_True:
  assumes "is_empty_dir env lister path t = (Inr True, t')" "lists_dirs lister" "tree_wf t"
    and "canonicalize t [] (os_path path) = Inr dir"
  shows "t (dir @ [n]) = None" "dir = [] \<or> t dir = Some TDir"
proof -
  have e: "lister t dir = []" "dir = [] \<or> t dir = Some TDir"
    using assms(1,4)
    by (auto simp: is_empty_dir_def fs_read_dir_def fs_call_def prog_runs split: option.splits fs_error.splits if_splits)
  show "dir = [] \<or> t dir = Some TDir" by (rule e(2))
  have "set (lister t dir) = {n. t (dir @ [n]) \<noteq> None}"
    using assms(2,3) unfolding lists_dirs_def tree_wf_def by blast
  then show "t (dir @ [n]) = None" using e(1) by auto
qed

text \<open>The stages of an apply that does something.\<close>

lemma delete_apply_stages:
  assumes "delete_apply env lister serde_error r d t = (res, t')" "t' \<noteq> t \<or> (\<exists>rep. res = Inr rep \<and> \<not> is_no_change d)"
  obtains spec act where "delete_spec_of_json (res_payload r) = Some spec" "delete_validate spec = Inr ()"
    "decide_action_delete env (dl_path spec) t = (Inr act, t)"
    "(case act of DlNoChange \<Rightarrow> ret report_no_change | DlFile \<Rightarrow> remove_file env spec
        | DlDir \<Rightarrow> remove_directory env lister spec) t = (res, t')"
proof -
  have nc: "\<not> is_no_change d" using assms by (auto simp: delete_apply_def)
  obtain x t0 where sp: "delete_spec serde_error r t = (x, t0)" by fastforce
  have t0: "t0 = t" using sp by (rule delete_spec_state)
  show ?thesis
  proof (cases x)
    case (Inl e)
    then show ?thesis using assms nc sp t0 by (auto simp: delete_apply_def bindE_def)
  next
    case (Inr spec)
    obtain y t1 where dec: "decide_action_delete env (dl_path spec) t = (y, t1)" by fastforce
    have t1: "t1 = t" using dec by (rule delete_decide_state)
    show ?thesis
    proof (cases y)
      case (Inl e)
      then show ?thesis using assms nc sp Inr t0 dec t1 by (auto simp: delete_apply_def bindE_def)
    next
      case act: (Inr act)
      have "delete_spec_of_json (res_payload r) = Some spec" "delete_validate spec = Inr ()"
        using sp Inr by (auto simp: delete_spec_def split: option.splits sum.splits)
      moreover have "(case act of DlNoChange \<Rightarrow> ret report_no_change | DlFile \<Rightarrow> remove_file env spec
        | DlDir \<Rightarrow> remove_directory env lister spec) t = (res, t')"
        using assms(1) nc sp Inr t0 dec t1 act by (simp add: delete_apply_def bindE_def)
      ultimately show ?thesis using that dec t1 act by blast
    qed
  qed
qed

lemma remove_file_run:
  assumes "remove_file env spec t = (res, t')"
  obtains x where "fs_unlink env (os_path (dl_path spec)) t = (x, t')"
    "res = (case x of Inr _ \<Rightarrow> Inr (report_changed (''deleted '' @ dl_path spec)) | Inl FsNotFound \<Rightarrow> Inr report_no_change
       | Inl e \<Rightarrow> Inl (PeIo (''remove_file '' @ dl_path spec) (io_text e)))"
  using assms by (auto simp: remove_file_def attempt_def split: prod.splits sum.splits fs_error.splits)

lemma remove_directory_run:
  assumes "remove_directory env lister spec t = (res, t')"
  shows "t' = t \<and> (\<exists>e. res = Inl e) \<or>
    (\<exists>x. fs_remove_dir_all env (os_path (dl_path spec)) t = (x, t') \<and>
       (dl_recursive spec \<or> is_empty_dir env lister (dl_path spec) t = (Inr True, t)) \<and>
       res = (case x of Inr _ \<Rightarrow> Inr (report_changed (''deleted directory '' @ dl_path spec)) | Inl FsNotFound \<Rightarrow> Inr report_no_change
       | Inl e \<Rightarrow> Inl (PeIo (''remove_dir_all '' @ dl_path spec) (io_text e))))"
proof -
  obtain y t1 where al: "(if dl_recursive spec then ret True else is_empty_dir env lister (dl_path spec)) t = (y, t1)" by fastforce
  have t1: "t1 = t" using al is_empty_dir_state by (auto split: if_splits)
  show ?thesis
    using assms al t1
    by (auto simp: remove_directory_def bindE_def attempt_def split: prod.splits sum.splits fs_error.splits if_splits)
qed

lemma fs_unlink_one:
  assumes "fs_unlink env p t = (x, t')"
  shows "t' = t \<or> (\<exists>names node. t names = Some node \<and> node \<noteq> TDir \<and> t' = t(names := None))"
  using assms by (auto simp: fs_unlink_def fs_call_def split: option.splits sum.splits tree_node.splits)

lemma fs_remove_dir_all_empty:
  assumes "fs_remove_dir_all env p t = (x, t')" "lstat t [] p = Inr TDir" "tree_wf t"
    and "\<And>dir. canonicalize t [] p = Inr dir \<Longrightarrow> (\<forall>n. t (dir @ [n]) = None) \<and> (dir = [] \<or> t dir = Some TDir)"
  shows "t' = t \<or> (\<exists>names. t names = Some TDir \<and> (\<forall>n. t (names @ [n]) = None) \<and> t' = t(names := None))"
proof (cases "t' = t")
  case False
  then obtain dir where dir: "canonicalize t [] p = Inr dir"
    and t': "t' = (if dir_entry t (filter (\<lambda>c. c \<noteq> CurDir) p) = Inr dir then without_tree (prefix dir) t
      else without_tree (strict_prefix dir) t)"
    using assms(1,2) by (auto simp: fs_remove_dir_all_def fs_call_def split: option.splits sum.splits if_splits)
  have e: "t (dir @ [n]) = None" "dir = [] \<or> t dir = Some TDir" for n using assms(4) [OF dir] by auto
  note below = empty_dir_below [OF assms(3) e(1)]
  have "without_tree (strict_prefix dir) t = t" using below by (auto simp: without_tree_def)
  with False t' have de: "dir_entry t (filter (\<lambda>c. c \<noteq> CurDir) p) = Inr dir" "t' = without_tree (prefix dir) t"
    by (auto split: if_splits)
  then have "dir \<noteq> []" by (auto simp: dir_entry_def split: if_splits component.splits sum.splits)
  moreover have "without_tree (prefix dir) t = t(dir := None)"
    using below by (auto simp: without_tree_def strict_prefix_def)
  ultimately show ?thesis using e de(2) by auto
qed simp

text \<open>
  Without \<open>recursive\<close>, \<open>file.delete\<close> removes at most one entry, and never a directory that has any: whatever the
  path (also one through links, or with a slash at its end), and whatever call the system
  refuses, the tree afterwards is the tree before, or the tree before without one file, link or empty directory.
\<close>

theorem file_delete_spares:
  assumes "delete_apply env lister serde_error r d t = (res, t')"
    and "\<And>spec. delete_spec_of_json (res_payload r) = Some spec \<Longrightarrow> \<not> dl_recursive spec"
    and "tree_wf t" "lists_dirs lister"
  shows "t' = t \<or> (\<exists>names node. t names = Some node \<and> (node = TDir \<longrightarrow> (\<forall>n. t (names @ [n]) = None)) \<and> t' = t(names := None))"
proof (cases "t' = t")
  case False
  then have "t' \<noteq> t \<or> (\<exists>rep. res = Inr rep \<and> \<not> is_no_change d)" by simp
  with assms(1) obtain spec act where sp: "delete_spec_of_json (res_payload r) = Some spec" "delete_validate spec = Inr ()"
    and dec: "decide_action_delete env (dl_path spec) t = (Inr act, t)"
    and run: "(case act of DlNoChange \<Rightarrow> ret report_no_change | DlFile \<Rightarrow> remove_file env spec
        | DlDir \<Rightarrow> remove_directory env lister spec) t = (res, t')"
    by (rule delete_apply_stages)
  show ?thesis
  proof (cases act)
    case DlNoChange
    then show ?thesis using run False by simp
  next
    case DlFile
    then have "remove_file env spec t = (res, t')" using run by simp
    then obtain x where "fs_unlink env (os_path (dl_path spec)) t = (x, t')" by (rule remove_file_run)
    from fs_unlink_one [OF this] show ?thesis using False by blast
  next
    case DlDir
    then have "remove_directory env lister spec t = (res, t')" using run by simp
    from remove_directory_run [OF this] False assms(2) [OF sp(1)] obtain x where
      rm: "fs_remove_dir_all env (os_path (dl_path spec)) t = (x, t')"
      and em: "is_empty_dir env lister (dl_path spec) t = (Inr True, t)" by blast
    have dir: "lstat t [] (os_path (dl_path spec)) = Inr TDir"
      using delete_decide(3) [OF dec] DlDir by (auto split: sum.splits if_splits)
    have "t' = t \<or> (\<exists>names. t names = Some TDir \<and> (\<forall>n. t (names @ [n]) = None) \<and> t' = t(names := None))"
      by (rule fs_remove_dir_all_empty [OF rm dir assms(3)]) (use is_empty_dir_True [OF em assms(4,3)] in blast)
    then show ?thesis by blast
  qed
qed simp

section \<open>Converging\<close>

definition delete_manageable :: "Resource \<Rightarrow> file_tree \<Rightarrow> bool" where
  "delete_manageable r t \<longleftrightarrow> tree_wf t \<and>
     (\<exists>spec ps n. delete_spec_of_json (res_payload r) = Some spec \<and> os_path (dl_path spec) = abs_path (ps @ [n]) \<and> plain_dirs t ps)"

text \<open>An apply that succeeds on a plain path removes exactly what is at the path and below.\<close>

lemma delete_run:
  assumes "delete_spec_of_json (res_payload r) = Some spec" "os_path (dl_path spec) = abs_path (ps @ [n])"
    and "plain_dirs t ps" "tree_wf t" "\<not> is_no_change d"
    and "delete_apply env lister serde_error r d t = (Inr rep, t')"
  shows "t' = without_tree (prefix (ps @ [n])) t \<and> (cr_changed rep \<longleftrightarrow> t (ps @ [n]) \<noteq> None) \<and> \<not> cr_deferred rep \<and>
    delete_plan env serde_error r t' = (Inr NoChange, t')"
proof -
  have "t' \<noteq> t \<or> (\<exists>rep'. Inr rep = (Inr rep' :: PrimitiveError + ChangeReport) \<and> \<not> is_no_change d)" using assms(5) by blast
  with assms(6) obtain sp act where sp: "delete_spec_of_json (res_payload r) = Some sp" "delete_validate sp = Inr ()"
    and dec: "decide_action_delete env (dl_path sp) t = (Inr act, t)"
    and run: "(case act of DlNoChange \<Rightarrow> ret report_no_change | DlFile \<Rightarrow> remove_file env sp
        | DlDir \<Rightarrow> remove_directory env lister sp) t = (Inr rep, t')"
    by (rule delete_apply_stages)
  have spec: "sp = spec" using sp(1) assms(1) by simp
  let ?p = "abs_path (ps @ [n])"
  note see = delete_decide(3,4) [OF dec, unfolded spec assms(2)]
  note ls = lstat_plain [OF assms(3), of n]
  note absent = tree_wf_dirs [OF assms(4), of ps n]
  have result: "t' = without_tree (prefix (ps @ [n])) t \<and> (cr_changed rep \<longleftrightarrow> t (ps @ [n]) \<noteq> None) \<and> \<not> cr_deferred rep"
  proof (cases act)
    case DlNoChange
    then have "t (ps @ [n]) = None" using see ls absent by (auto split: sum.splits option.splits if_splits)
    then show ?thesis
      using run DlNoChange without_tree_leaf [OF assms(4), of "ps @ [n]"] by (auto simp: report_no_change_def fun_upd_idem)
  next
    case DlFile
    then obtain node where node: "t (ps @ [n]) = Some node" "node \<noteq> TDir" "dirs t ps"
      using see ls by (auto split: sum.splits option.splits if_splits)
    from DlFile run spec have "remove_file env spec t = (Inr rep, t')" by simp
    then obtain x where u: "fs_unlink env ?p t = (x, t')" and rep: "Inr rep = (case x of
         Inr _ \<Rightarrow> Inr (report_changed (''deleted '' @ dl_path spec)) | Inl FsNotFound \<Rightarrow> Inr report_no_change
       | Inl e \<Rightarrow> Inl (PeIo (''remove_file '' @ dl_path spec) (io_text e)))"
      using assms(2) by (auto elim: remove_file_run)
    have "x = Inr ()" using u rep node dir_entry_plain [OF assms(3), of n]
      by (auto simp: fs_unlink_def fs_call_def split: option.splits tree_node.splits)
    then show ?thesis
      using fs_unlink_plain [OF assms(3), of env n "()" t'] u rep node without_tree_leaf [OF assms(4), of "ps @ [n]"]
      by (auto simp: report_changed_def)
  next
    case DlDir
    then have node: "t (ps @ [n]) = Some TDir" "dirs t ps"
      using see ls by (auto split: sum.splits option.splits if_splits)
    from DlDir run spec have "remove_directory env lister spec t = (Inr rep, t')" by simp
    from remove_directory_run [OF this] assms(2) obtain x where rm: "fs_remove_dir_all env ?p t = (x, t')"
      and rep: "Inr rep = (case x of
         Inr _ \<Rightarrow> Inr (report_changed (''deleted directory '' @ dl_path spec)) | Inl FsNotFound \<Rightarrow> Inr report_no_change
       | Inl e \<Rightarrow> Inl (PeIo (''remove_dir_all '' @ dl_path spec) (io_text e)))" by auto
    have c: "canonicalize t [] ?p = Inr (ps @ [n])"
      using node by (intro canonicalize_resolved) (simp add: resolved_snoc)
    have "x \<noteq> Inl FsNotFound" using rm c ls node
      by (auto simp: fs_remove_dir_all_def fs_call_def split: option.splits if_splits)
    then have "x = Inr ()" using rep by (auto split: sum.splits fs_error.splits)
    then show ?thesis
      using fs_remove_dir_all_plain [OF assms(3) node(2,1), of env "()" t'] rm rep node by (auto simp: report_changed_def)
  qed
  have "plain_dirs t' ps" using assms(3) by (rule plain_dirs_removed) (use result in \<open>auto simp: without_tree_def\<close>)
  then have "lstat t' [] ?p = Inl FsNotFound"
    using lstat_plain [of t' ps n] result by (auto simp: without_tree_def)
  then have "decide_action_delete env (dl_path spec) t' = (Inr DlNoChange, t')"
    using delete_decide(2) [OF dec] spec assms(2)
    by (simp add: decide_action_delete_def prog_runs fs_lstat_def fs_call_def)
  then have "delete_plan env serde_error r t' = (Inr NoChange, t')"
    using sp spec by (simp add: delete_plan_def delete_spec_def bindE_def delete_diff_def)
  then show ?thesis using result by blast
qed

lemma delete_plan_reads: "delete_plan env serde_error r t = (x, t') \<Longrightarrow> t' = t"
  by (auto simp: delete_plan_def bindE_def dest: delete_spec_state delete_decide_state split: prod.splits sum.splits)

interpretation delete_prim: converging_primitive "delete_plan env serde_error" "delete_apply env lister serde_error"
    delete_manageable for env lister serde_error
proof
  show "h' = h" if "delete_plan env serde_error r h = (x, h')" for r h x h'
    using that by (rule delete_plan_reads)
  show "delete_plan env serde_error r h' = (Inr NoChange, h') \<and> (cr_changed rep \<longleftrightarrow> h' \<noteq> h) \<and> \<not> cr_deferred rep"
    if m: "delete_manageable r h" "\<not> is_no_change d" "delete_apply env lister serde_error r d h = (Inr rep, h')" for r h d rep h'
  proof -
    obtain spec ps n where s: "tree_wf h" "delete_spec_of_json (res_payload r) = Some spec"
        "os_path (dl_path spec) = abs_path (ps @ [n])" "plain_dirs h ps"
      using m(1) unfolding delete_manageable_def by blast
    note run = delete_run [OF s(2-4,1) m(2,3)]
    have "h' \<noteq> h \<longleftrightarrow> h (ps @ [n]) \<noteq> None"
    proof (cases "h (ps @ [n])")
      case None
      then show ?thesis using run without_tree_leaf [OF s(1), of "ps @ [n]"] by (simp add: fun_upd_idem)
    next
      case (Some node)
      then have "h' (ps @ [n]) \<noteq> h (ps @ [n])" using run by (simp add: without_tree_def)
      then show ?thesis using Some by auto
    qed
    then show ?thesis using run by blast
  qed
qed

text \<open>
  C33. \<open>file.delete\<close> deletes what is at the path, all of it and nothing else: on a path without links among its
  ancestors, after an apply that succeeds the tree is the old one without the path and what is below it; a link goes and its target
  stays; the report says changed exactly when there was something, and the next plan finds no change.
\<close>

theorem file_delete_exact:
  assumes "delete_spec_of_json (res_payload r) = Some spec" "os_path (dl_path spec) = abs_path (ps @ [n])"
    and "plain_dirs t ps" "tree_wf t" "\<not> is_no_change d"
    and "delete_apply env lister serde_error r d t = (Inr rep, t')"
  shows "t' = without_tree (prefix (ps @ [n])) t \<and> (cr_changed rep \<longleftrightarrow> t (ps @ [n]) \<noteq> None) \<and>
    delete_plan env serde_error r t' = (Inr NoChange, t')"
  using delete_run [OF assms] by blast

section \<open>Examples\<close>

definition delete_resource :: "string \<Rightarrow> bool \<Rightarrow> Resource" where
  "delete_resource path recursive = \<lparr>res_id = ''file.delete:x'', res_kind = ''file.delete'', res_spec_version = 1,
     res_payload = JObject [(''follow_symlinks'', JBool False), (''path'', JString path), (''recursive'', JBool recursive)],
     res_reload_on = [], res_restart_on = [], res_depends_on = []\<rparr>"

definition quiet_fs :: fs_env where
  "quiet_fs = (\<lambda>op p. None)"

text \<open>\<open>/srv\<close> with a link to the directory \<open>/data\<close>, which holds one file.\<close>

definition delete_tree :: file_tree where
  "delete_tree = map_of [([''srv''], TDir), ([''srv'', ''l''], TLink ''/data''), ([''data''], TDir),
     ([''data'', ''f''], TFile ''precious'')]"

definition delete_lister :: dir_lister where
  "delete_lister t dir = sorted_list_of_set {n. t (dir @ [n]) \<noteq> None}"

lemma delete_lister_lists: "lists_dirs delete_lister"
  by (simp add: lists_dirs_def delete_lister_def)

lemma delete_tree_wf: "tree_wf delete_tree"
proof -
  have fin: "finite {n. delete_tree (dir @ [n]) \<noteq> None}" for dir unfolding delete_tree_def by (rule finite_entries)
  have up: "dir = [] \<or> delete_tree dir = Some TDir" if "delete_tree (dir @ [n]) \<noteq> None" for dir n
    using that by (auto simp: delete_tree_def append_eq_Cons_conv split: if_splits)
  show ?thesis unfolding tree_wf_def using fin up by blast
qed

lemmas delete_eval = delete_apply_def delete_spec_def delete_spec_of_json_def de_field_def de_default_field_def
  delete_validate_def is_absolute_def has_parent_dir_segment_def decide_action_delete_def
  fs_lstat_def fs_call_def quiet_fs_def lstat_def os_path_def path_components_def ends_open_def component_of_def
  canonicalize_def MAX_LINKS_def delete_tree_def delete_resource_def is_no_change_def prog_runs Let_def

lemma delete_resource_spec:
  "delete_spec_of_json (res_payload (delete_resource path recursive)) =
     Some \<lparr>dl_path = path, dl_recursive = recursive, dl_follow_symlinks = False\<rparr>"
  by (simp add: delete_eval)

lemma delete_link_run:
  "delete_apply quiet_fs delete_lister (\<lambda>_. []) (delete_resource ''/srv/l'' False) (Add [] JNull) delete_tree =
     (Inr (report_changed ''deleted /srv/l''), delete_tree([''srv'', ''l''] := None))"
  by (simp add: delete_eval remove_file_def fs_unlink_def dir_entry_def)

theorem file_delete_spares_witness:
  "\<exists>names node. delete_tree names = Some node \<and> delete_tree([''srv'', ''l''] := None) = delete_tree(names := None) \<and>
     (node = TDir \<longrightarrow> (\<forall>n. delete_tree (names @ [n]) = None))"
proof -
  have "delete_tree([''srv'', ''l''] := None) \<noteq> delete_tree"
    by (rule notI, drule fun_cong [of _ _ "[''srv'', ''l'']"]) (simp add: delete_tree_def)
  then show ?thesis
    using file_delete_spares [OF delete_link_run _ delete_tree_wf delete_lister_lists] by (auto simp: delete_resource_spec)
qed

theorem file_delete_exact_witness:
  "delete_tree([''srv'', ''l''] := None) = without_tree (prefix [''srv'', ''l'']) delete_tree \<and>
   delete_plan quiet_fs (\<lambda>_. []) (delete_resource ''/srv/l'' False) (delete_tree([''srv'', ''l''] := None)) =
     (Inr NoChange, delete_tree([''srv'', ''l''] := None))"
proof -
  have p: "os_path ''/srv/l'' = abs_path ([''srv''] @ [''l''])" by (simp add: delete_eval abs_path_def)
  have pl: "plain_dirs delete_tree [''srv'']" by (auto simp: plain_dirs_def delete_tree_def prefix_Cons)
  have "delete_tree([''srv'', ''l''] := None) = without_tree (prefix ([''srv''] @ [''l''])) delete_tree \<and>
      (cr_changed (report_changed ''deleted /srv/l'') \<longleftrightarrow> delete_tree ([''srv''] @ [''l'']) \<noteq> None) \<and>
      delete_plan quiet_fs (\<lambda>_. []) (delete_resource ''/srv/l'' False) (delete_tree([''srv'', ''l''] := None)) =
        (Inr NoChange, delete_tree([''srv'', ''l''] := None))"
    by (rule file_delete_exact [OF delete_resource_spec _ pl delete_tree_wf _ delete_link_run])
      (use p in \<open>simp_all add: is_no_change_def\<close>)
  then show ?thesis unfolding append_Cons append_Nil by blast
qed

text \<open>
  A slash behind a link makes \<open>recursive\<close> delete the contents of the directory the link points to, although the
  specification says that a link is removed and never its target; the apply then fails.
\<close>

lemma file_delete_trailing_slash:
  "\<exists>e t'. delete_apply quiet_fs delete_lister (\<lambda>_. []) (delete_resource ''/srv/l/'' True) (Add [] JNull) delete_tree = (Inl e, t') \<and>
     delete_tree [''data'', ''f''] = Some (TFile ''precious'') \<and> t' [''data'', ''f''] = None \<and>
     t' [''srv'', ''l''] = Some (TLink ''/data'')"
  by (simp add: delete_eval remove_directory_def fs_remove_dir_all_def dir_entry_def without_tree_def)

end
