(* ===== verification/File_Attr.thy ===== *)
theory File_Attr
  imports File_Common
begin

text \<open>
  A host whose files have a mode and an owner, for the primitives that write files: the calls of \<open>std::fs\<close>, of the
  crate \<open>tempfile\<close> and of \<open>libc\<close> that \<open>file_content\<close> uses, and
  \<open>file_content/chown.rs\<close>.  The host also carries the \<open>SensitiveStore\<close> of \<open>bosun-core/src/sensitive.rs\<close>, with the
  contents to write, and the world outside, which a validator may change.

  As in \<open>File_Host\<close>, any call may be refused; the environment also has what the system chooses: the order of a
  directory listing, the name of a temporary file, the group of a new file, how much of a write arrives before it
  fails, and the user database.
\<close>

record file_attr =
  fa_mode :: u32
  fa_uid :: u32
  fa_gid :: u32

record 'w file_host =
  fh_tree :: file_tree
  fh_attr :: "string list \<Rightarrow> file_attr"
  fh_sensitive :: "string \<Rightarrow> string option"
  fh_outside :: 'w

datatype nss_result = NssErrno nat | NssUnknown | NssId u32

record host_env =
  he_fs :: fs_env
  he_lister :: dir_lister
  he_temp_name :: "file_tree \<Rightarrow> component list \<Rightarrow> string"
  he_written :: "component list \<Rightarrow> nat option"
  he_euid :: u32
  he_new_gid :: "string list \<Rightarrow> u32"
  he_passwd :: "string \<Rightarrow> nss_result"
  he_group :: "string \<Rightarrow> nss_result"

section \<open>Calls\<close>

text \<open>A call on the tree alone.\<close>

definition on_tree :: "(file_tree, 'e, 'a) prog \<Rightarrow> ('w file_host, 'e, 'a) prog" where
  "on_tree m = (\<lambda>h. case m (fh_tree h) of (r, t) \<Rightarrow> (r, h\<lparr>fh_tree := t\<rparr>))"

definition set_file :: "string list \<Rightarrow> string \<Rightarrow> file_attr \<Rightarrow> 'w file_host \<Rightarrow> 'w file_host" where
  "set_file names body attr h =
     h\<lparr>fh_tree := (fh_tree h)(names \<mapsto> TFile body), fh_attr := (fh_attr h)(names := attr)\<rparr>"

text \<open>\<open>symlink_metadata\<close> and \<open>metadata\<close>; only a file's attributes are looked at.\<close>

definition host_lstat :: "host_env \<Rightarrow> component list \<Rightarrow> ('w file_host, fs_error, tree_node \<times> file_attr) prog" where
  "host_lstat env p = fs_call (he_fs env) OpLstat p (\<lambda>h.
     (case lstat (fh_tree h) [] p of
        Inl e \<Rightarrow> Inl e
      | Inr node \<Rightarrow> Inr (node, fh_attr h (case dir_entry (fh_tree h) p of Inr names \<Rightarrow> names | Inl _ \<Rightarrow> [])), h))"

definition host_stat :: "host_env \<Rightarrow> component list \<Rightarrow> ('w file_host, fs_error, file_attr) prog" where
  "host_stat env p = fs_call (he_fs env) OpStat p (\<lambda>h.
     (case canonicalize (fh_tree h) [] p of Inl e \<Rightarrow> Inl e | Inr names \<Rightarrow> Inr (fh_attr h names), h))"

definition host_read :: "host_env \<Rightarrow> component list \<Rightarrow> ('w file_host, fs_error, string) prog" where
  "host_read env p = fs_call (he_fs env) OpRead p (\<lambda>h.
     (case canonicalize (fh_tree h) [] p of
        Inl e \<Rightarrow> Inl e
      | Inr names \<Rightarrow> (case fh_tree h names of Some (TFile s) \<Rightarrow> Inr s | _ \<Rightarrow> Inl (FsOther ''Is a directory'')), h))"

text \<open>\<open>NamedTempFile::new_in\<close>: an empty file of mode 0600, under a name that must be free.\<close>

definition temp_path :: "host_env \<Rightarrow> component list \<Rightarrow> 'w file_host \<Rightarrow> component list" where
  "temp_path env parent h = parent @ [Normal (he_temp_name env (fh_tree h) parent)]"

definition new_attr :: "host_env \<Rightarrow> string list \<Rightarrow> file_attr" where
  "new_attr env names = \<lparr>fa_mode = 384, fa_uid = he_euid env, fa_gid = he_new_gid env (butlast names)\<rparr>"

definition host_temp :: "host_env \<Rightarrow> component list \<Rightarrow> ('w file_host, fs_error, component list) prog" where
  "host_temp env parent = fs_call (he_fs env) OpTemp parent (\<lambda>h.
     (case dir_entry (fh_tree h) (temp_path env parent h) of
        Inl e \<Rightarrow> (Inl e, h)
      | Inr names \<Rightarrow>
          (if fh_tree h names = None then (Inr (temp_path env parent h), set_file names [] (new_attr env names) h)
           else (Inl (FsOther ''File exists''), h))))"

text \<open>\<open>write_all\<close> and \<open>sync_all\<close> on the open temporary file.\<close>

definition host_write :: "host_env \<Rightarrow> component list \<Rightarrow> string \<Rightarrow> ('w file_host, fs_error, unit) prog" where
  "host_write env p body = (\<lambda>h.
     case dir_entry (fh_tree h) p of
       Inl e \<Rightarrow> (Inl e, h)
     | Inr names \<Rightarrow>
         (case he_fs env OpWrite p of
            None \<Rightarrow> (Inr (), set_file names body (fh_attr h names) h)
          | Some msg \<Rightarrow>
              (Inl (FsOther msg), set_file names (take (case he_written env p of None \<Rightarrow> 0 | Some n \<Rightarrow> n) body) (fh_attr h names) h)))"

definition host_sync :: "host_env \<Rightarrow> component list \<Rightarrow> ('w file_host, fs_error, unit) prog" where
  "host_sync env p = fs_call (he_fs env) OpSync p (ret ())"

definition host_chmod :: "host_env \<Rightarrow> component list \<Rightarrow> u32 \<Rightarrow> ('w file_host, fs_error, unit) prog" where
  "host_chmod env p mode = fs_call (he_fs env) OpChmod p (\<lambda>h.
     case canonicalize (fh_tree h) [] p of
       Inl e \<Rightarrow> (Inl e, h)
     | Inr names \<Rightarrow> (Inr (), h\<lparr>fh_attr := (fh_attr h)(names := (fh_attr h names)\<lparr>fa_mode := mode\<rparr>)\<rparr>))"

text \<open>
  \<open>chown(2)\<close> on a file: Linux takes the set-user-ID bit away, and the set-group-ID bit of a file that
  its group may execute, also when root calls it.
\<close>

definition chown_mode :: "u32 \<Rightarrow> u32" where
  "chown_mode mode =
     (let m = and mode (not 0x800) in if and mode 8 = 0 then m else and m (not 0x400))"

definition host_chown :: "host_env \<Rightarrow> component list \<Rightarrow> u32 \<Rightarrow> u32 \<Rightarrow> ('w file_host, fs_error, unit) prog" where
  "host_chown env p uid gid = fs_call (he_fs env) OpChown p (\<lambda>h.
     case canonicalize (fh_tree h) [] p of
       Inl e \<Rightarrow> (Inl e, h)
     | Inr names \<Rightarrow>
         (Inr (), h\<lparr>fh_attr := (fh_attr h)(names :=
            \<lparr>fa_mode = chown_mode (fa_mode (fh_attr h names)), fa_uid = uid, fa_gid = gid\<rparr>)\<rparr>))"

text \<open>
  \<open>rename(2)\<close> of a file, which replaces what is at the new place unless that is a directory.  No caller here renames a
  directory or a link.
\<close>

definition host_rename :: "host_env \<Rightarrow> component list \<Rightarrow> component list \<Rightarrow> ('w file_host, fs_error, unit) prog" where
  "host_rename env p q = fs_call (he_fs env) OpRename q (\<lambda>h.
     case dir_entry (fh_tree h) p of
       Inl e \<Rightarrow> (Inl e, h)
     | Inr a \<Rightarrow>
         (case fh_tree h a of
            None \<Rightarrow> (Inl FsNotFound, h)
          | Some node \<Rightarrow>
              (case dir_entry (fh_tree h) q of
                 Inl e \<Rightarrow> (Inl e, h)
               | Inr b \<Rightarrow>
                   (if fh_tree h b = Some TDir then (Inl (FsOther ''Is a directory''), h)
                    else (Inr (), h\<lparr>fh_tree := (fh_tree h)(a := None, b := Some node),
                           fh_attr := (fh_attr h)(b := fh_attr h a)\<rparr>)))))"

text \<open>The entry that \<open>open\<close> with \<open>O_CREAT\<close> opens or creates: a link at the end is followed, also to a missing file.\<close>

fun open_target :: "file_tree \<Rightarrow> nat \<Rightarrow> component list \<Rightarrow> fs_error + string list" where
  "open_target t 0 p = Inl (FsOther ''Too many levels of symbolic links'')"
| "open_target t (Suc k) p =
     (case dir_entry t p of
        Inl e \<Rightarrow> Inl e
      | Inr names \<Rightarrow>
          (case t names of
             Some (TLink text) \<Rightarrow>
               open_target t k (if RootDir \<in> set (path_components text) then os_path text else abs_path (butlast names) @ os_path text)
           | _ \<Rightarrow> Inr names))"

text \<open>
  \<open>std::fs::copy\<close>: the source is read through links, the destination is opened for writing and truncated, and gets the
  mode of the source.  A copy that is refused may have come as far as \<open>he_written\<close> says.
\<close>

definition host_copy :: "host_env \<Rightarrow> component list \<Rightarrow> component list \<Rightarrow> ('w file_host, fs_error, unit) prog" where
  "host_copy env p q = (\<lambda>h.
     case canonicalize (fh_tree h) [] p of
       Inl e \<Rightarrow> (Inl e, h)
     | Inr a \<Rightarrow>
         (case fh_tree h a of
            Some (TFile body) \<Rightarrow>
              (case open_target (fh_tree h) (Suc MAX_LINKS) q of
                 Inl e \<Rightarrow> (Inl e, h)
               | Inr b \<Rightarrow>
                   (if fh_tree h b = Some TDir then (Inl (FsOther ''Is a directory''), h)
                    else
                      (let old = (if fh_tree h b = None then new_attr env b else fh_attr h b);
                           attr = old\<lparr>fa_mode := fa_mode (fh_attr h a)\<rparr>
                       in case he_fs env OpCopy q of
                            None \<Rightarrow> (Inr (), set_file b body attr h)
                          | Some msg \<Rightarrow>
                              (Inl (FsOther msg),
                               case he_written env q of None \<Rightarrow> h | Some n \<Rightarrow> set_file b (take n body) old h))))
          | _ \<Rightarrow> (Inl (FsOther ''the source path is neither a regular file nor a symlink to a regular file''), h)))"

section \<open>Owners\<close>

definition nul_position :: "string \<Rightarrow> string" where
  "nul_position s = ''nul byte found in provided data at position: '' @ show_nat (length (takeWhile (\<lambda>c. c \<noteq> CHR 0x00) s))"

definition quoted :: "string \<Rightarrow> string" where
  "quoted s = [CHR 0x27] @ s @ [CHR 0x27]"

definition resolve_owner :: "host_env \<Rightarrow> string \<Rightarrow> PrimitiveError + u32" where
  "resolve_owner env name =
     (if CHR 0x00 \<in> set name
      then Inl (InvalidPayload (''owner '' @ quoted name @ '' contains nul byte: '' @ nul_position name))
      else case he_passwd env name of
        NssErrno rc \<Rightarrow> Inl (InvalidPayload (''getpwnam_r('' @ quoted name @ '') failed: errno '' @ show_nat rc))
      | NssUnknown \<Rightarrow> Inl (InvalidPayload (''unknown user '' @ quoted name))
      | NssId uid \<Rightarrow> Inr uid)"

definition resolve_group :: "host_env \<Rightarrow> string \<Rightarrow> PrimitiveError + u32" where
  "resolve_group env name =
     (if CHR 0x00 \<in> set name
      then Inl (InvalidPayload (''group '' @ quoted name @ '' contains nul byte: '' @ nul_position name))
      else case he_group env name of
        NssErrno rc \<Rightarrow> Inl (InvalidPayload (''getgrnam_r('' @ quoted name @ '') failed: errno '' @ show_nat rc))
      | NssUnknown \<Rightarrow> Inl (InvalidPayload (''unknown group '' @ quoted name))
      | NssId gid \<Rightarrow> Inr gid)"

definition show_ids :: "u32 \<Rightarrow> u32 \<Rightarrow> string" where
  "show_ids uid gid = ''uid='' @ show_nat (unat uid) @ '' gid='' @ show_nat (unat gid)"

definition chown_if_needed :: "host_env \<Rightarrow> component list \<Rightarrow> u32 \<Rightarrow> u32 \<Rightarrow> bool \<Rightarrow> ('w file_host, PrimitiveError, unit) prog" where
  "chown_if_needed env path want_uid want_gid is_root =
     bindE (io_context (''stat '' @ show_path path @ '' for chown'') (host_stat env path)) (\<lambda>meta.
     if fa_uid meta = want_uid \<and> fa_gid meta = want_gid then ret ()
     else if \<not> is_root then throw (ChownNotPermitted (show_ids want_uid want_gid) (show_ids (fa_uid meta) (fa_gid meta)))
     else io_context (''chown '' @ show_path path @ '' to '' @ show_ids want_uid want_gid) (host_chown env path want_uid want_gid))"

section \<open>Contents to write\<close>

definition sensitive_put :: "string \<Rightarrow> string \<Rightarrow> 'w file_host \<Rightarrow> 'w file_host" where
  "sensitive_put i v h = h\<lparr>fh_sensitive := (fh_sensitive h)(i \<mapsto> v)\<rparr>"

definition sensitive_take :: "string \<Rightarrow> 'w file_host \<Rightarrow> string option \<times> 'w file_host" where
  "sensitive_take i h = (fh_sensitive h i, h\<lparr>fh_sensitive := (fh_sensitive h)(i := None)\<rparr>)"

section \<open>A file in a directory without links on its way\<close>

lemma io_context_Inl: "io_context c m h = (Inl e, h') \<longleftrightarrow> (\<exists>e0. m h = (Inl e0, h') \<and> e = PeIo c (io_text e0))"
  by (auto simp: io_context_def map_err_def split: prod.splits sum.splits)

lemmas io_context_run = io_context_Inr io_context_Inl

lemma set_file_fields [simp]:
  "fh_tree (set_file q b a h) = (fh_tree h)(q \<mapsto> TFile b)" "fh_attr (set_file q b a h) = (fh_attr h)(q := a)"
  "fh_sensitive (set_file q b a h) = fh_sensitive h" "fh_outside (set_file q b a h) = fh_outside h"
  by (simp_all add: set_file_def)

lemma set_file_set_file [simp]: "set_file q b a (set_file q b' a' h) = set_file q b a h"
  by (simp add: set_file_def)

lemma set_attr_set_file [simp]: "(set_file q b a h)\<lparr>fh_attr := (fh_attr h)(q := a')\<rparr> = set_file q b a' h"
  by (simp add: set_file_def)

text \<open>Writing entries of a directory leaves the way to it alone.\<close>

lemma plain_dirs_entry: "plain_dirs t ps \<Longrightarrow> plain_dirs (t(ps @ [n] := x)) ps"
  by (rule plain_dirs_same) (use below_not_ancestor in force)+

lemma dirs_entry: "dirs t ps \<Longrightarrow> dirs (t(ps @ [n] := x)) ps"
  by (rule dirs_same) (use below_not_ancestor in force)+

lemma canonicalize_file:
  assumes "dirs t ps" "t (ps @ [n]) = Some (TFile b)"
  shows "canonicalize t [] (abs_path (ps @ [n])) = Inr (ps @ [n])"
  using assms by (intro canonicalize_resolved) (simp add: resolved_snoc)

lemma host_temp_plain:
  assumes "plain_dirs (fh_tree h) ps" "host_temp env (abs_path ps) h = (Inr tmp, h')"
  obtains nm where "nm = he_temp_name env (fh_tree h) (abs_path ps)" "tmp = abs_path (ps @ [nm])" "dirs (fh_tree h) ps"
    "fh_tree h (ps @ [nm]) = None" "h' = set_file (ps @ [nm]) [] (new_attr env (ps @ [nm])) h"
proof -
  let ?nm = "he_temp_name env (fh_tree h) (abs_path ps)"
  have "temp_path env (abs_path ps) h = abs_path (ps @ [?nm])" by (simp add: temp_path_def abs_path_def)
  then show ?thesis
    using that [of ?nm] assms dir_entry_plain [OF assms(1), of ?nm]
    by (auto simp: host_temp_def fs_call_Inr split: if_splits)
qed

lemma host_temp_fail: "host_temp env parent h = (Inl e, h') \<Longrightarrow> h' = h"
  by (auto simp: host_temp_def fs_call_def split: option.splits sum.splits if_splits)

text \<open>The calls on a file that is there already.\<close>

lemma canonicalize_at:
  "dirs (fh_tree h) ps \<Longrightarrow> canonicalize ((fh_tree h)(ps @ [n] \<mapsto> TFile b)) [] (abs_path (ps @ [n])) = Inr (ps @ [n])"
  using canonicalize_file [OF dirs_entry] by simp

lemma host_write_at:
  assumes "plain_dirs (fh_tree h) ps" "dirs (fh_tree h) ps"
    and "host_write env (abs_path (ps @ [n])) body (set_file (ps @ [n]) b a h) = (r, h')"
  shows "\<exists>b'. h' = set_file (ps @ [n]) b' a h \<and> (r = Inr () \<longrightarrow> b' = body)"
  using assms(3) dir_entry_plain [OF plain_dirs_entry [OF assms(1)], of n "Some (TFile b)" n] dirs_entry [OF assms(2), of n "Some (TFile b)"]
  by (auto simp: host_write_def split: option.splits)

lemma host_sync_at: "host_sync env p (set_file q b a h) = (r, h') \<Longrightarrow> h' = set_file q b a h"
  by (auto simp: host_sync_def fs_call_def split: option.splits)

lemma host_chmod_at:
  assumes "dirs (fh_tree h) ps" "host_chmod env (abs_path (ps @ [n])) m (set_file (ps @ [n]) b a h) = (r, h')"
  shows "\<exists>a'. h' = set_file (ps @ [n]) b a' h \<and> (r = Inr () \<longrightarrow> a' = a\<lparr>fa_mode := m\<rparr>)"
  using assms(2) canonicalize_at [OF assms(1), of n b] by (auto simp: host_chmod_def fs_call_def split: option.splits)

lemma host_stat_at:
  assumes "dirs (fh_tree h) ps" "host_stat env (abs_path (ps @ [n])) (set_file (ps @ [n]) b a h) = (r, h')"
  shows "h' = set_file (ps @ [n]) b a h \<and> (\<forall>m. r = Inr m \<longrightarrow> m = a)"
  using assms(2) canonicalize_at [OF assms(1), of n b] by (auto simp: host_stat_def fs_call_def split: option.splits)

lemma host_chown_at:
  assumes "dirs (fh_tree h) ps" "host_chown env (abs_path (ps @ [n])) u g (set_file (ps @ [n]) b a h) = (r, h')"
  shows "\<exists>a'. h' = set_file (ps @ [n]) b a' h \<and> (r = Inr () \<longrightarrow> a' = \<lparr>fa_mode = chown_mode (fa_mode a), fa_uid = u, fa_gid = g\<rparr>)"
  using assms(2) canonicalize_at [OF assms(1), of n b] by (auto simp: host_chown_def fs_call_def split: option.splits)

text \<open>The attributes after \<open>chown_if_needed\<close>.\<close>

definition owned_by :: "u32 \<Rightarrow> u32 \<Rightarrow> file_attr \<Rightarrow> file_attr" where
  "owned_by uid gid a =
     (if fa_uid a = uid \<and> fa_gid a = gid then a else \<lparr>fa_mode = chown_mode (fa_mode a), fa_uid = uid, fa_gid = gid\<rparr>)"

lemma chown_if_needed_at:
  assumes "plain_dirs (fh_tree h) ps" "dirs (fh_tree h) ps"
    and "chown_if_needed env (abs_path (ps @ [n])) u g root (set_file (ps @ [n]) b a h) = (r, h')"
  shows "\<exists>a'. h' = set_file (ps @ [n]) b a' h \<and> (r = Inr () \<longrightarrow> a' = owned_by u g a)"
proof -
  obtain x h1 where st: "host_stat env (abs_path (ps @ [n])) (set_file (ps @ [n]) b a h) = (x, h1)" by fastforce
  note st' = host_stat_at [OF assms(2) st]
  obtain y h2 where co: "host_chown env (abs_path (ps @ [n])) u g (set_file (ps @ [n]) b a h) = (y, h2)" by fastforce
  from host_chown_at [OF assms(2) co] obtain a' where
    co': "h2 = set_file (ps @ [n]) b a' h" "y = Inr () \<longrightarrow> a' = \<lparr>fa_mode = chown_mode (fa_mode a), fa_uid = u, fa_gid = g\<rparr>" by blast
  show ?thesis
  proof (cases x)
    case (Inl e)
    then show ?thesis using assms(3) st st' by (auto simp: chown_if_needed_def bindE_def io_context_def map_err_def)
  next
    case (Inr m)
    then have "m = a" using st' by simp
    then show ?thesis
      using assms(3) st st' Inr co co'
      by (cases y) (auto simp: chown_if_needed_def bindE_def io_context_def map_err_def owned_by_def split: if_splits)
  qed
qed

end
