(* ===== verification/Digest.thy ===== *)
theory Digest
  imports Bosun_Prelude
begin

text \<open>
  \<open>bosun-core/src/digest.rs\<close>: the digest of a text in hexadecimal.  SHA-256 itself, of the crate \<open>sha2\<close>, is a parameter.
\<close>

definition hex_nibble :: "8 word \<Rightarrow> char" where
  "hex_nibble n = (if unat n \<le> 9 then char_of (48 + unat n) else if unat n \<le> 15 then char_of (97 + (unat n - 10)) else CHR ''0'')"

definition sha256_hex :: "(string \<Rightarrow> 8 word list) \<Rightarrow> string \<Rightarrow> string" where
  "sha256_hex digest bytes = concat (map (\<lambda>b. [hex_nibble (drop_bit 4 b), hex_nibble (and b 0xF)]) (digest bytes))"

end
