(* ===== verification/File_Content.thy ===== *)
theory File_Content
  imports File_Attr Service_Unit Digest
begin

text \<open>
  \<open>bosun-primitives/src/file_content\<close>: the primitive \<open>file.content\<close> (\<open>spec.rs\<close>, \<open>plan.rs\<close>, \<open>backup.rs\<close>,
  \<open>apply.rs\<close>, \<open>mod.rs\<close>) over the host of \<open>File_Attr\<close>.  The SHA-256 function, the validator, the clock of the backup names and the text of serde's errors are parameters.
\<close>

section \<open>The specification\<close>

record FileContentSpec =
  fc_path :: string
  fc_mode :: u32
  fc_owner :: "string option"
  fc_group :: "string option"
  fc_sha256 :: string
  fc_size :: u64
  fc_validate_with :: "string list option"

definition default_mode :: u32 where
  "default_mode = 0x1A4"

text \<open>The derived \<open>Deserialize\<close>: a map, or a sequence of the fields in order.\<close>

definition content_spec_of_json :: "json \<Rightarrow> FileContentSpec option" where
  "content_spec_of_json v =
     (let make = (\<lambda>path mode owner group sha size vw. case (path, mode, owner, group, sha, size, vw) of
            (Some p, Some m, Some ow, Some g, Some s, Some n, Some vc) \<Rightarrow>
              Some \<lparr>fc_path = p, fc_mode = m, fc_owner = ow, fc_group = g, fc_sha256 = s, fc_size = n, fc_validate_with = vc\<rparr>
          | _ \<Rightarrow> None)
      in case v of
           JObject m \<Rightarrow> make (de_field de_string m ''path'') (de_default_field de_unsigned default_mode m ''mode'')
             (de_opt_field de_string m ''owner'') (de_opt_field de_string m ''group'')
             (de_field de_string m ''content_sha256'') (de_field de_unsigned m ''content_size'')
             (de_opt_field (de_vec de_string) m ''validate_with'')
         | JArray (p # md # ow # g # s # n # rest) \<Rightarrow>
             (if length rest \<le> 1
              then make (de_string p) (de_unsigned md) (de_option de_string ow) (de_option de_string g) (de_string s) (de_unsigned n)
                (case rest of [] \<Rightarrow> Some None | vw # _ \<Rightarrow> de_option (de_vec de_string) vw)
              else None)
         | _ \<Rightarrow> None)"

definition content_validate :: "FileContentSpec \<Rightarrow> PrimitiveError + unit" where
  "content_validate spec =
     (if CHR 0x00 \<in> set (fc_path spec) then Inl (InvalidPayload ''file.content.path contains NUL byte'')
      else if \<not> is_absolute (fc_path spec)
      then Inl (InvalidPayload (''file.content.path must be absolute, got: '' @ fc_path spec))
      else if has_parent_dir_segment (fc_path spec)
      then Inl (InvalidPayload (''file.content.path contains '' @ quoted ''..'' @ '' segment: '' @ fc_path spec))
      else Inr ())"

section \<open>The context\<close>

record 'w content_env =
  ce_host :: host_env
  ce_digest :: "string \<Rightarrow> 8 word list"
  ce_validator :: "string list \<Rightarrow> duration \<Rightarrow> ('w file_host, ValidateError, unit) prog"
  ce_utc :: "'w \<Rightarrow> string"
  ce_backup_root :: string
  ce_serde_error :: "json \<Rightarrow> string"

section \<open>Comparing\<close>

record FileObservation =
  ob_sha256 :: string
  ob_size :: u64
  ob_mode :: u32
  ob_uid :: u32
  ob_gid :: u32

definition mode_bits :: "u32 \<Rightarrow> u32" where
  "mode_bits m = and m 0xFFF"

definition observe_existing :: "'w content_env \<Rightarrow> string \<Rightarrow> file_attr \<Rightarrow> ('w file_host, PrimitiveError, FileObservation) prog" where
  "observe_existing env path meta =
     bindE (io_context (''read '' @ path @ '' for plan'') (host_read (ce_host env) (os_path path))) (\<lambda>bytes.
     ret \<lparr>ob_sha256 = sha256_hex (ce_digest env) bytes, ob_size = of_nat (length bytes), ob_mode = mode_bits (fa_mode meta),
       ob_uid = fa_uid meta, ob_gid = fa_gid meta\<rparr>)"

definition owner_matches :: "(string \<Rightarrow> PrimitiveError + u32) \<Rightarrow> string option \<Rightarrow> u32 \<Rightarrow> PrimitiveError + bool" where
  "owner_matches resolve name actual =
     (case name of None \<Rightarrow> Inr True | Some n \<Rightarrow> bindR (resolve n) (\<lambda>want. Inr (actual = want)))"

definition matches_spec :: "'w content_env \<Rightarrow> FileContentSpec \<Rightarrow> FileObservation \<Rightarrow> PrimitiveError + bool" where
  "matches_spec env spec obs =
     (if ob_sha256 obs \<noteq> fc_sha256 spec \<or> ob_size obs \<noteq> fc_size spec then Inr False
      else if mode_bits (ob_mode obs) \<noteq> mode_bits (fc_mode spec) then Inr False
      else bindR (owner_matches (resolve_owner (ce_host env)) (fc_owner spec) (ob_uid obs)) (\<lambda>ok.
           if \<not> ok then Inr False
           else owner_matches (resolve_group (ce_host env)) (fc_group spec) (ob_gid obs)))"

definition of_result :: "'e + 'a \<Rightarrow> ('s, 'e, 'a) prog" where
  "of_result r = (\<lambda>s. (r, s))"

text \<open>What both phases do first: refuse what is not a regular file.\<close>

definition existing_file :: "string \<Rightarrow> tree_node \<times> file_attr \<Rightarrow> PrimitiveError + file_attr" where
  "existing_file path node =
     (case node of
        (TLink _, _) \<Rightarrow> Inl InvalidTarget
      | (TDir, _) \<Rightarrow> Inl (InvalidPayload (''target '' @ path @ '' exists but is not a regular file''))
      | (TFile _, meta) \<Rightarrow> Inr meta)"

definition content_spec :: "'w content_env \<Rightarrow> Resource \<Rightarrow> ('w file_host, PrimitiveError, FileContentSpec) prog" where
  "content_spec env r =
     (case content_spec_of_json (res_payload r) of
        None \<Rightarrow> throw (InvalidPayload (''file.content payload: '' @ ce_serde_error env (res_payload r)))
      | Some spec \<Rightarrow> (case content_validate spec of Inl e \<Rightarrow> throw e | Inr _ \<Rightarrow> ret spec))"

section \<open>Backups\<close>

definition KEEP_BACKUPS :: nat where
  "KEEP_BACKUPS = 5"

definition file_name :: "component list \<Rightarrow> string option" where
  "file_name cs = (if cs = [] then None else case last cs of Normal n \<Rightarrow> Some n | _ \<Rightarrow> None)"

text \<open>\<open>{backup_root}{target}.{ts}\<close>, and the text before the last dot, with the dot.\<close>

definition build_backup_path :: "string \<Rightarrow> string \<Rightarrow> string \<Rightarrow> PrimitiveError + component list" where
  "build_backup_path backup_root path ts =
     (let rel = (case path_components path of RootDir # cs \<Rightarrow> cs | cs \<Rightarrow> cs);
          out = path_components backup_root @ rel
      in case file_name out of
           None \<Rightarrow> Inl (InvalidPayload (''cannot build backup path: target '' @ path @ '' has no file_name''))
         | Some n \<Rightarrow> Inr (butlast out @ [Normal (n @ ''.'' @ ts)]))"

definition stem_with_dot :: "string \<Rightarrow> string option" where
  "stem_with_dot name =
     (if CHR ''.'' \<in> set name then Some (rev (dropWhile (\<lambda>c. c \<noteq> CHR ''.'') (rev name))) else None)"

fun remove_backups :: "'w content_env \<Rightarrow> component list \<Rightarrow> string list \<Rightarrow> ('w file_host, PrimitiveError, unit) prog" where
  "remove_backups env parent [] = ret ()"
| "remove_backups env parent (name # names) =
     bindE (io_context (''remove_file '' @ show_path (parent @ [Normal name]))
              (on_tree (fs_unlink (he_fs (ce_host env)) (parent @ [Normal name])))) (\<lambda>_.
     remove_backups env parent names)"

definition rotate_backups :: "'w content_env \<Rightarrow> component list \<Rightarrow> nat \<Rightarrow> ('w file_host, PrimitiveError, unit) prog" where
  "rotate_backups env new_backup keep_last =
     (let parent = butlast new_backup
      in case Option.bind (file_name new_backup) stem_with_dot of
           None \<Rightarrow> ret ()
         | Some stem \<Rightarrow>
             bindE (io_context (''read_dir '' @ show_path parent)
                      (on_tree (fs_read_dir (he_fs (ce_host env)) (he_lister (ce_host env)) parent))) (\<lambda>names.
             (let siblings = sort (filter (prefix stem) names)
              in remove_backups env parent (take (length siblings - keep_last) siblings))))"

definition backup_with_rotation :: "'w content_env \<Rightarrow> string \<Rightarrow> nat \<Rightarrow> ('w file_host, PrimitiveError, component list) prog" where
  "backup_with_rotation env path keep_last = (\<lambda>h.
     bindE (of_result (build_backup_path (ce_backup_root env) path (ce_utc env (fh_outside h)))) (\<lambda>backup_path.
     bindE (io_context (''create_dir_all '' @ show_path (butlast backup_path))
              (on_tree (fs_create_dir_all (he_fs (ce_host env)) (butlast backup_path)))) (\<lambda>_.
     bindE (io_context (''copy '' @ path @ '' -> '' @ show_path backup_path)
              (host_copy (ce_host env) (os_path path) backup_path)) (\<lambda>_.
     bindE (rotate_backups env backup_path keep_last) (\<lambda>_.
     ret backup_path)))) h)"

section \<open>Writing\<close>

text \<open>
  Between the creation of the temporary file and its rename: contents, \<open>fsync\<close>, mode and owner.  The owner is the one the
  specification names, else the one of the file that is replaced, else the one the new file has.
\<close>

definition wanted_id :: "(string \<Rightarrow> PrimitiveError + u32) \<Rightarrow> string option \<Rightarrow> u32 option \<Rightarrow> PrimitiveError + u32 option" where
  "wanted_id resolve name existing =
     (case name of Some n \<Rightarrow> bindR (resolve n) (\<lambda>i. Inr (Some i)) | None \<Rightarrow> Inr existing)"

definition fill_temp ::
  "'w content_env \<Rightarrow> FileContentSpec \<Rightarrow> string \<Rightarrow> (u32 \<times> u32) option \<Rightarrow> component list \<Rightarrow> component list \<Rightarrow>
   ('w file_host, PrimitiveError, unit) prog" where
  "fill_temp env spec body existing parent tmp =
     bindE (io_context (''write to tempfile in '' @ show_path parent) (host_write (ce_host env) tmp body)) (\<lambda>_.
     bindE (io_context (''sync_all on tempfile in '' @ show_path parent) (host_sync (ce_host env) tmp)) (\<lambda>_.
     bindE (io_context (''chmod tempfile '' @ show_path tmp) (host_chmod (ce_host env) tmp (mode_bits (fc_mode spec)))) (\<lambda>_.
     bindE (of_result (wanted_id (resolve_owner (ce_host env)) (fc_owner spec) (map_option fst existing))) (\<lambda>want_uid.
     bindE (of_result (wanted_id (resolve_group (ce_host env)) (fc_group spec) (map_option snd existing))) (\<lambda>want_gid.
     if want_uid = None \<and> want_gid = None then ret ()
     else
     bindE (case want_uid of Some u \<Rightarrow> ret u
            | None \<Rightarrow> bindE (io_context (''stat '' @ show_path tmp @ '' for uid'') (host_stat (ce_host env) tmp)) (\<lambda>m. ret (fa_uid m))) (\<lambda>uid.
     bindE (case want_gid of Some g \<Rightarrow> ret g
            | None \<Rightarrow> bindE (io_context (''stat '' @ show_path tmp @ '' for gid'') (host_stat (ce_host env) tmp)) (\<lambda>m. ret (fa_gid m))) (\<lambda>gid.
     chown_if_needed (ce_host env) tmp uid gid (he_euid (ce_host env) = 0))))))))"

text \<open>An early return drops the temporary file: it is removed, and an error of the removal is ignored.\<close>

definition dropping_temp :: "'w content_env \<Rightarrow> component list \<Rightarrow> ('w file_host, 'e, 'a) prog \<Rightarrow> ('w file_host, 'e, 'a) prog" where
  "dropping_temp env tmp m = (\<lambda>h.
     case m h of
       (Inr x, h1) \<Rightarrow> (Inr x, h1)
     | (Inl e, h1) \<Rightarrow> (Inl e, snd (on_tree (fs_unlink (he_fs (ce_host env)) tmp) h1)))"

definition write_via_temp ::
  "'w content_env \<Rightarrow> string \<Rightarrow> FileContentSpec \<Rightarrow> string \<Rightarrow> (u32 \<times> u32) option \<Rightarrow> component list \<Rightarrow> component list \<Rightarrow> string \<Rightarrow>
   ('w file_host, PrimitiveError, unit) prog" where
  "write_via_temp env context spec body existing parent dest dest_text =
     bindE (io_context context (host_temp (ce_host env) parent)) (\<lambda>tmp.
     dropping_temp env tmp
       (bindE (fill_temp env spec body existing parent tmp) (\<lambda>_.
        io_context (''persist tempfile to '' @ dest_text) (host_rename (ce_host env) tmp dest))))"

definition no_parent_error :: "string \<Rightarrow> PrimitiveError" where
  "no_parent_error path = InvalidPayload (''target '' @ path @ '' has no parent directory'')"

definition make_parent :: "'w content_env \<Rightarrow> component list \<Rightarrow> ('w file_host, PrimitiveError, unit) prog" where
  "make_parent env parent = (\<lambda>h.
     (if fs_exists (he_fs (ce_host env)) parent (fh_tree h) then ret ()
      else io_context (''create_dir_all '' @ show_path parent) (on_tree (fs_create_dir_all (he_fs (ce_host env)) parent))) h)"

definition write_atomic ::
  "'w content_env \<Rightarrow> FileContentSpec \<Rightarrow> string \<Rightarrow> (u32 \<times> u32) option \<Rightarrow> ('w file_host, PrimitiveError, unit) prog" where
  "write_atomic env spec body existing =
     (case path_parent (fc_path spec) of
        None \<Rightarrow> throw (no_parent_error (fc_path spec))
      | Some parent \<Rightarrow>
          bindE (make_parent env parent) (\<lambda>_.
          write_via_temp env (''tempfile in '' @ show_path parent) spec body existing parent (os_path (fc_path spec)) (fc_path spec)))"

definition new_path_for :: "string \<Rightarrow> component list" where
  "new_path_for path =
     (let name = (case file_name (path_components path) of Some n \<Rightarrow> n | None \<Rightarrow> []) @ ''.new''
      in case path_parent path of Some parent \<Rightarrow> parent @ [Normal name] | None \<Rightarrow> [Normal name])"

definition write_to_new_path ::
  "'w content_env \<Rightarrow> FileContentSpec \<Rightarrow> string \<Rightarrow> (u32 \<times> u32) option \<Rightarrow> ('w file_host, PrimitiveError, unit) prog" where
  "write_to_new_path env spec body existing =
     (case path_parent (fc_path spec) of
        None \<Rightarrow> throw (no_parent_error (fc_path spec))
      | Some parent \<Rightarrow>
          write_via_temp env (''tempfile in '' @ show_path parent @ '' (validate flow)'') spec body existing parent
            (new_path_for (fc_path spec)) (show_path (new_path_for (fc_path spec))))"

definition write_with_validation ::
  "'w content_env \<Rightarrow> FileContentSpec \<Rightarrow> string \<Rightarrow> (u32 \<times> u32) option \<Rightarrow> string list \<Rightarrow> bool \<Rightarrow>
   ('w file_host, PrimitiveError, unit) prog" where
  "write_with_validation env spec body existing argv is_update =
     (case path_parent (fc_path spec) of
        None \<Rightarrow> throw (no_parent_error (fc_path spec))
      | Some parent \<Rightarrow>
          (let new_path = new_path_for (fc_path spec);
               real_argv = substitute_new_path argv (show_path new_path);
               validator_name = (case real_argv of a # _ \<Rightarrow> a | [] \<Rightarrow> ''<empty>'')
           in
          bindE (make_parent env parent) (\<lambda>_.
          bindE (write_to_new_path env spec body existing) (\<lambda>_.
          bindE (map_err (map_validate_error validator_name) (ce_validator env real_argv VALIDATE_TIMEOUT)) (\<lambda>_.
          bindE (if is_update then bindE (backup_with_rotation env (fc_path spec) KEEP_BACKUPS) (\<lambda>_. ret ()) else ret ()) (\<lambda>_.
          io_context (''rename '' @ show_path new_path @ '' -> '' @ fc_path spec)
            (host_rename (ce_host env) new_path (os_path (fc_path spec)))))))))"

section \<open>Applying\<close>

text \<open>What is at the path, if anything; and whether it is as wanted.\<close>

definition observe_target :: "'w content_env \<Rightarrow> FileContentSpec \<Rightarrow> string \<Rightarrow> ('w file_host, PrimitiveError, file_attr option) prog" where
  "observe_target env spec suffix_text =
     attempt (host_lstat (ce_host env) (os_path (fc_path spec))) (\<lambda>r.
       case r of
         Inl FsNotFound \<Rightarrow> ret None
       | Inl e \<Rightarrow> throw (PeIo (''symlink_metadata '' @ fc_path spec @ suffix_text) (io_text e))
       | Inr node \<Rightarrow> bindE (of_result (existing_file (fc_path spec) node)) (\<lambda>meta. ret (Some meta)))"

definition content_settled :: "'w content_env \<Rightarrow> FileContentSpec \<Rightarrow> file_attr option \<Rightarrow> ('w file_host, PrimitiveError, bool) prog" where
  "content_settled env spec observed =
     (case observed of
        None \<Rightarrow> ret False
      | Some meta \<Rightarrow>
          bindE (observe_existing env (fc_path spec) meta) (\<lambda>obs.
          of_result (matches_spec env spec obs)))"

definition write_content ::
  "'w content_env \<Rightarrow> FileContentSpec \<Rightarrow> string \<Rightarrow> file_attr option \<Rightarrow> ('w file_host, PrimitiveError, unit) prog" where
  "write_content env spec body observed =
     (let existing = map_option (\<lambda>m. (fa_uid m, fa_gid m)) observed
      in case fc_validate_with spec of
           None \<Rightarrow>
             bindE (if observed \<noteq> None then bindE (backup_with_rotation env (fc_path spec) KEEP_BACKUPS) (\<lambda>_. ret ()) else ret ()) (\<lambda>_.
             write_atomic env spec body existing)
         | Some [] \<Rightarrow> throw (InvalidPayload ''file.content.validate_with is empty; remove the field or list a command'')
         | Some argv \<Rightarrow> write_with_validation env spec body existing argv (observed \<noteq> None))"

definition content_apply :: "'w content_env \<Rightarrow> Resource \<Rightarrow> Diff \<Rightarrow> ('w file_host, PrimitiveError, ChangeReport) prog" where
  "content_apply env r d =
     bindE (content_spec env r) (\<lambda>spec h0.
       case sensitive_take (res_id r) h0 of
         (None, h) \<Rightarrow> (Inl (InvalidPayload ''sensitive contents not in store for file.content''), h)
       | (Some body, h) \<Rightarrow>
           (if sha256_hex (ce_digest env) body \<noteq> fc_sha256 spec
            then (Inl (InvalidPayload (''sensitive contents sha256 mismatch: store has '' @ sha256_hex (ce_digest env) body @
                    '', payload has '' @ fc_sha256 spec)), h)
            else
              bindE (observe_target env spec '' in apply'') (\<lambda>observed.
              bindE (content_settled env spec observed) (\<lambda>settled.
              if settled then ret report_no_change
              else bindE (write_content env spec body observed) (\<lambda>_.
                   ret (report_changed (''wrote '' @ fc_path spec @ '' (sha256='' @ fc_sha256 spec @ '')''))))) h))"

section \<open>Planning\<close>

fun show_oct :: "nat \<Rightarrow> string" where
  "show_oct n = (if n < 8 then [''01234567'' ! n] else show_oct (n div 8) @ [''01234567'' ! (n mod 8)])"

declare show_oct.simps [simp del]

definition content_update_diff :: "'w content_env \<Rightarrow> FileContentSpec \<Rightarrow> file_attr \<Rightarrow> FileObservation \<Rightarrow> Diff" where
  "content_update_diff env spec meta obs = Update
     (JObject (obj_of_list [(''sha256'', JString (ob_sha256 obs)), (''size'', ser_unsigned (ob_size obs)),
        (''mode'', JString (show_oct (unat (mode_bits (fa_mode meta))))), (''uid'', ser_unsigned (fa_uid meta)), (''gid'', ser_unsigned (fa_gid meta))]))
     (JObject (obj_of_list [(''sha256'', JString (fc_sha256 spec)), (''size'', ser_unsigned (fc_size spec)),
        (''mode'', JString (show_oct (unat (fc_mode spec)))), (''owner'', ser_opt JString (fc_owner spec)), (''group'', ser_opt JString (fc_group spec))]))
     (''update '' @ fc_path spec @ '' (sha '' @ ob_sha256 obs @ '' -> '' @ fc_sha256 spec @ '')'')"

definition content_plan :: "'w content_env \<Rightarrow> Resource \<Rightarrow> ('w file_host, PrimitiveError, Diff) prog" where
  "content_plan env r =
     bindE (content_spec env r) (\<lambda>spec.
     bindE (observe_target env spec []) (\<lambda>observed.
     case observed of
       None \<Rightarrow> ret (Add (''create '' @ fc_path spec @ '' ('' @ show_nat (unat (fc_size spec)) @ '' bytes)'') (res_payload r))
     | Some meta \<Rightarrow>
         bindE (observe_existing env (fc_path spec) meta) (\<lambda>obs.
         bindE (of_result (matches_spec env spec obs)) (\<lambda>settled.
         ret (if settled then NoChange else content_update_diff env spec meta obs)))))"

definition content_arg :: "CallArgsError + 'a \<Rightarrow> PrimitiveError + 'a" where
  "content_arg r = (case r of Inl e \<Rightarrow> Inl (InvalidPayload (''file.content: '' @ show_call_args_error e)) | Inr x \<Rightarrow> Inr x)"

definition content_build_payload :: "CallArgs \<Rightarrow> PrimitiveError + json" where
  "content_build_payload args =
     bindR (content_arg (required_str args ''path'')) (\<lambda>path.
     bindR (content_arg (required_str args ''content_sha256'')) (\<lambda>sha.
     bindR (content_arg (optional_u64 args ''content_size'')) (\<lambda>size.
     case size of None \<Rightarrow> Inl (InvalidPayload ''file.content: missing content_size'') | Some n \<Rightarrow>
     bindR (content_arg (optional_u32 args ''mode'')) (\<lambda>mode.
     bindR (content_arg (optional_str args ''owner'')) (\<lambda>owner.
     bindR (content_arg (optional_str args ''group'')) (\<lambda>group.
     bindR (content_arg (optional_str_list args ''validate_with'')) (\<lambda>validate_with.
     Inr (JObject (obj_of_list
       [(''path'', JString path), (''mode'', ser_unsigned (case mode of None \<Rightarrow> default_mode | Some m \<Rightarrow> m)),
        (''owner'', ser_opt JString owner), (''group'', ser_opt JString group), (''content_sha256'', JString sha),
        (''content_size'', ser_unsigned n), (''validate_with'', ser_opt ser_strings validate_with)])))))))))"

definition FilePrimitive :: "'w content_env \<Rightarrow> 'w file_host primitive" where
  "FilePrimitive env = host_primitive_of (content_plan env) (content_apply env)"

section \<open>The temporary file\<close>

text \<open>The attributes a file ends up with: the mode, then the wanted owner.\<close>

definition written_attr :: "'w content_env \<Rightarrow> FileContentSpec \<Rightarrow> (u32 \<times> u32) option \<Rightarrow> file_attr \<Rightarrow> file_attr" where
  "written_attr env spec existing a =
     owned_by
       (case wanted_id (resolve_owner (ce_host env)) (fc_owner spec) (map_option fst existing) of Inr (Some u) \<Rightarrow> u | _ \<Rightarrow> fa_uid a)
       (case wanted_id (resolve_group (ce_host env)) (fc_group spec) (map_option snd existing) of Inr (Some g) \<Rightarrow> g | _ \<Rightarrow> fa_gid a)
       (a\<lparr>fa_mode := mode_bits (fc_mode spec)\<rparr>)"

lemma of_result_app [simp]: "of_result r s = (r, s)"
  by (simp add: of_result_def)

lemma bindE_run:
  "bindE m f s = (r, t) \<longleftrightarrow> (\<exists>e. m s = (Inl e, t) \<and> r = Inl e) \<or> (\<exists>x s1. m s = (Inr x, s1) \<and> f x s1 = (r, t))"
  by (auto simp: bindE_def split: prod.splits sum.splits)

text \<open>Reading the owner of the temporary file, when only one side is wanted.\<close>

lemma own_id_at:
  assumes "dirs (fh_tree h) ps"
    and "(case want of Some u \<Rightarrow> ret u
          | None \<Rightarrow> bindE (io_context c (host_stat env (abs_path (ps @ [n])))) (\<lambda>m. ret (f m))) (set_file (ps @ [n]) b a h) = (r, h')"
  shows "h' = set_file (ps @ [n]) b a h \<and> (\<forall>i. r = Inr i \<longrightarrow> i = (case want of Some u \<Rightarrow> u | None \<Rightarrow> f a))"
  using assms(2) host_stat_at [OF assms(1), of env n b a]
  by (cases want) (auto simp: bindE_run io_context_run)

lemma fill_temp_at:
  assumes "plain_dirs (fh_tree h) ps" "dirs (fh_tree h) ps"
    and "fill_temp env spec body existing parent (abs_path (ps @ [n])) (set_file (ps @ [n]) b a h) = (r, h')"
  shows "\<exists>b' a'. h' = set_file (ps @ [n]) b' a' h \<and> (r = Inr () \<longrightarrow> b' = body \<and> a' = written_attr env spec existing a)"
proof -
  let ?p = "abs_path (ps @ [n])" and ?q = "ps @ [n]" and ?e = "ce_host env"
  let ?m = "mode_bits (fc_mode spec)"
  obtain x1 h1 where w: "host_write ?e ?p body (set_file ?q b a h) = (x1, h1)" by fastforce
  obtain b1 where h1: "h1 = set_file ?q b1 a h" "x1 = Inr () \<longrightarrow> b1 = body" using host_write_at [OF assms(1,2) w] by blast
  obtain x2 h2 where sy: "host_sync ?e ?p (set_file ?q b1 a h) = (x2, h2)" by fastforce
  have h2: "h2 = set_file ?q b1 a h" using sy by (rule host_sync_at)
  obtain x3 h3 where cm: "host_chmod ?e ?p ?m (set_file ?q b1 a h) = (x3, h3)" by fastforce
  obtain a3 where h3: "h3 = set_file ?q b1 a3 h" "x3 = Inr () \<longrightarrow> a3 = a\<lparr>fa_mode := ?m\<rparr>" using host_chmod_at [OF assms(2) cm] by blast
  let ?wu = "wanted_id (resolve_owner ?e) (fc_owner spec) (map_option fst existing)"
  let ?wg = "wanted_id (resolve_group ?e) (fc_group spec) (map_option snd existing)"
  show ?thesis
  proof (cases "x1 = Inr () \<and> x2 = Inr () \<and> x3 = Inr () \<and> (\<exists>wu wg. ?wu = Inr wu \<and> ?wg = Inr wg)")
    case False
    then show ?thesis
      using assms(3) w h1 sy h2 cm h3
      by (cases x1; cases x2; cases x3) (auto simp: fill_temp_def bindE_run io_context_run)
  next
    case True
    then obtain wu wg where wanted: "?wu = Inr wu" "?wg = Inr wg" by blast
    let ?a = "a\<lparr>fa_mode := ?m\<rparr>"
    have h3': "h3 = set_file ?q body ?a h" using True h1 h3 by simp
    show ?thesis
    proof (cases "wu = None \<and> wg = None")
      case both: True
      then have "h' = h3" "r = Inr ()"
        using assms(3) w h1 sy h2 cm h3 True wanted by (auto simp: fill_temp_def bindE_run io_context_run)
      then show ?thesis using h3' both wanted by (auto simp: written_attr_def owned_by_def)
    next
      case False
      let ?U = "case wu of Some u \<Rightarrow> ret u
        | None \<Rightarrow> bindE (io_context (''stat '' @ show_path ?p @ '' for uid'') (host_stat ?e ?p)) (\<lambda>m. ret (fa_uid m))"
      let ?G = "case wg of Some g \<Rightarrow> ret g
        | None \<Rightarrow> bindE (io_context (''stat '' @ show_path ?p @ '' for gid'') (host_stat ?e ?p)) (\<lambda>m. ret (fa_gid m))"
      have run: "bindE ?U (\<lambda>uid. bindE ?G (\<lambda>gid. chown_if_needed ?e ?p uid gid (he_euid ?e = 0))) (set_file ?q body ?a h) = (r, h')"
        using assms(3) w h1 sy h2 cm h3 h3' True wanted False
        by (simp add: fill_temp_def bindE_def io_context_def map_err_def)
      obtain y1 k1 where u: "?U (set_file ?q body ?a h) = (y1, k1)" by fastforce
      note u' = own_id_at [OF assms(2) u]
      obtain y2 k2 where g: "?G (set_file ?q body ?a h) = (y2, k2)" by fastforce
      note g' = own_id_at [OF assms(2) g]
      show ?thesis
      proof (cases "(\<exists>uid gid. y1 = Inr uid \<and> y2 = Inr gid)")
        case False
        then show ?thesis using run u u' g g' by (cases y1; cases y2) (auto simp: bindE_run)
      next
        case ids: True
        then obtain uid gid where ids: "y1 = Inr uid" "y2 = Inr gid" by blast
        have "chown_if_needed ?e ?p uid gid (he_euid ?e = 0) (set_file ?q body ?a h) = (r, h')"
          using run u u' g g' ids by (auto simp: bindE_run)
        from chown_if_needed_at [OF assms(1,2) this] obtain a' where
          "h' = set_file ?q body a' h" "r = Inr () \<longrightarrow> a' = owned_by uid gid ?a" by blast
        moreover have "owned_by uid gid ?a = written_attr env spec existing a"
          using u' g' ids wanted by (simp add: written_attr_def split: option.splits)
        ultimately show ?thesis by auto
      qed
    qed
  qed
qed

section \<open>What each step leaves alone\<close>

definition kept :: "string list \<Rightarrow> 'w file_host \<Rightarrow> 'w file_host \<Rightarrow> bool" where
  "kept y h h' \<longleftrightarrow> fh_tree h' y = fh_tree h y \<and> fh_attr h' y = fh_attr h y"

lemma kept_refl [simp]: "kept y h h"
  by (simp add: kept_def)

lemma kept_trans: "kept y h h1 \<Longrightarrow> kept y h1 h2 \<Longrightarrow> kept y h h2"
  by (simp add: kept_def)

text \<open>Everything that is there before is kept, but for the given entries.\<close>

definition spares :: "string list set \<Rightarrow> 'w file_host \<Rightarrow> 'w file_host \<Rightarrow> bool" where
  "spares touched h h' \<longleftrightarrow> (\<forall>y. y \<notin> touched \<and> fh_tree h y \<noteq> None \<longrightarrow> kept y h h')"

lemma spares_refl [simp]: "spares T h h"
  by (simp add: spares_def)

lemma spares_trans: "spares T h h1 \<Longrightarrow> spares T h1 h2 \<Longrightarrow> spares T h h2"
  unfolding spares_def kept_def by metis

lemma spares_mono: "spares S h h' \<Longrightarrow> S \<subseteq> T \<Longrightarrow> spares T h h'"
  unfolding spares_def by blast

text \<open>A free name that the temporary file may have taken.\<close>

definition temp_entry :: "'w content_env \<Rightarrow> string list \<Rightarrow> 'w file_host \<Rightarrow> string list \<Rightarrow> bool" where
  "temp_entry env ps h y \<longleftrightarrow> (\<exists>t. y = ps @ [he_temp_name (ce_host env) t (abs_path ps)]) \<and> fh_tree h y = None"

lemma drop_temp_at:
  assumes "plain_dirs (fh_tree h) ps" "on_tree (fs_unlink fs (abs_path (ps @ [n]))) (set_file (ps @ [n]) b a h) = (r, h')"
  shows "fh_attr h' = (fh_attr h)(ps @ [n] := a) \<and> (fh_tree h' = (fh_tree h)(ps @ [n] \<mapsto> TFile b) \<or> fh_tree h' = (fh_tree h)(ps @ [n] := None))"
  using assms(2) dir_entry_plain [OF plain_dirs_entry [OF assms(1)], of n "Some (TFile b)" n]
  by (auto simp: on_tree_def fs_unlink_def fs_call_def split: prod.splits option.splits sum.splits if_splits)

lemma host_rename_at:
  assumes "plain_dirs (fh_tree h) ps" "dirs (fh_tree h) ps" "m \<noteq> n"
    and "host_rename env (abs_path (ps @ [n])) (abs_path (ps @ [m])) (set_file (ps @ [n]) b a h) = (r, h')"
  shows "(\<forall>e. r = Inl e \<longrightarrow> h' = set_file (ps @ [n]) b a h) \<and>
    (r = Inr () \<longrightarrow> fh_tree h' = (fh_tree h)(ps @ [n] := None, ps @ [m] \<mapsto> TFile b) \<and>
       fh_attr h' = (fh_attr h)(ps @ [n] := a, ps @ [m] := a))"
  using assms(3,4) dirs_entry [OF assms(2), of n "Some (TFile b)"]
    dir_entry_plain [OF plain_dirs_entry [OF assms(1)], of n "Some (TFile b)"]
  by (auto simp: host_rename_def fs_call_def fun_upd_twist split: option.splits if_splits)

lemma write_via_temp_at:
  assumes "plain_dirs (fh_tree h) ps" "\<And>t. he_temp_name (ce_host env) t (abs_path ps) \<noteq> m"
    and "write_via_temp env c spec body existing (abs_path ps) (abs_path (ps @ [m])) dt h = (r, h')"
  shows "(\<forall>y. kept y h h' \<or> temp_entry env ps h y \<or> y = ps @ [m] \<and> r = Inr ()) \<and>
    (r = Inr () \<longrightarrow> dirs (fh_tree h) ps \<and> fh_tree h' = (fh_tree h)(ps @ [m] \<mapsto> TFile body) \<and>
       fh_attr h' (ps @ [m]) = written_attr env spec existing (new_attr (ce_host env) (ps @ [m])))"
proof -
  obtain x h1 where tmp: "host_temp (ce_host env) (abs_path ps) h = (x, h1)" by fastforce
  show ?thesis
  proof (cases x)
    case (Inl e)
    then have "h' = h" "\<exists>e. r = Inl e"
      using assms(3) tmp host_temp_fail [of "ce_host env" "abs_path ps" h e h1] by (auto simp: write_via_temp_def bindE_run io_context_run)
    then show ?thesis by auto
  next
    case (Inr p)
    then obtain nm where nm: "nm = he_temp_name (ce_host env) (fh_tree h) (abs_path ps)" "p = abs_path (ps @ [nm])"
        "dirs (fh_tree h) ps" "fh_tree h (ps @ [nm]) = None" "h1 = set_file (ps @ [nm]) [] (new_attr (ce_host env) (ps @ [nm])) h"
      using host_temp_plain [OF assms(1)] tmp by metis
    have entry: "temp_entry env ps h (ps @ [nm])" using nm(1,4) by (auto simp: temp_entry_def)
    have ne: "m \<noteq> nm" using assms(2) nm(1) by blast
    obtain y h2 where fill: "fill_temp env spec body existing (abs_path ps) (abs_path (ps @ [nm]))
        (set_file (ps @ [nm]) [] (new_attr (ce_host env) (ps @ [nm])) h) = (y, h2)" by fastforce
    then obtain b a where h2: "h2 = set_file (ps @ [nm]) b a h"
        "y = Inr () \<longrightarrow> b = body \<and> a = written_attr env spec existing (new_attr (ce_host env) (ps @ [nm]))"
      using fill_temp_at [OF assms(1) nm(3)] by blast
    obtain z h3 where ren: "host_rename (ce_host env) (abs_path (ps @ [nm])) (abs_path (ps @ [m])) (set_file (ps @ [nm]) b a h) = (z, h3)"
      by fastforce
    note ren' = host_rename_at [OF assms(1) nm(3) ne ren]
    obtain w h4 where dr: "on_tree (fs_unlink (he_fs (ce_host env)) (abs_path (ps @ [nm]))) (set_file (ps @ [nm]) b a h) = (w, h4)"
      by fastforce
    note dr' = drop_temp_at [OF assms(1) dr]
    show ?thesis
    proof (cases "y = Inr () \<and> z = Inr ()")
      case True
      then have "r = Inr ()" "h' = h3"
        using assms(3) tmp Inr nm(2,5) fill h2(1) ren
        by (auto simp: write_via_temp_def bindE_def io_context_def map_err_def dropping_temp_def)
      moreover have "fh_tree h3 = (fh_tree h)(ps @ [m] \<mapsto> TFile body)" using ren' True h2(2) nm(4) by (simp add: fun_upd_idem)
      moreover have "new_attr (ce_host env) (ps @ [nm]) = new_attr (ce_host env) (ps @ [m])" by (simp add: new_attr_def)
      ultimately show ?thesis using ren' True h2(2) nm(3) ne entry by (auto simp: kept_def)
    next
      case False
      then have "(\<exists>e. r = Inl e) \<and> h' = h4"
        using assms(3) tmp Inr nm(2,5) fill h2(1) ren ren' dr
        by (cases y; cases z) (auto simp: write_via_temp_def bindE_def io_context_def map_err_def dropping_temp_def)
      then show ?thesis using dr' entry by (auto simp: kept_def)
    qed
  qed
qed

lemma make_parent_made:
  assumes "plain_dirs (fh_tree h) ps" "make_parent env (abs_path ps) h = (r, h')"
  shows "made_dirs ps (fh_tree h) (fh_tree h') \<and> fh_attr h' = fh_attr h"
proof (cases "fs_exists (he_fs (ce_host env)) (abs_path ps) (fh_tree h)")
  case True
  then show ?thesis using assms(2) by (auto simp: make_parent_def)
next
  case False
  obtain x t where "fs_create_dir_all (he_fs (ce_host env)) (abs_path ps) (fh_tree h) = (x, t)" by fastforce
  then show ?thesis
    using assms False fs_create_dir_all_made [of "fh_tree h" ps "he_fs (ce_host env)" x t]
    by (auto simp: make_parent_def io_context_def map_err_def on_tree_def split: sum.splits)
qed

section \<open>Backups stay in their directory\<close>

text \<open>The directory for backups of files below \<open>ps\<close>: not the root, and without links.\<close>

definition backup_area :: "string list \<Rightarrow> string list \<Rightarrow> file_tree \<Rightarrow> bool" where
  "backup_area bs ps t \<longleftrightarrow> bs \<noteq> [] \<and> plain_dirs t (bs @ ps) \<and> (\<forall>x text. t ((bs @ ps) @ [x]) \<noteq> Some (TLink text))"

text \<open>Nothing at the depth of the file and above is changed, but a missing directory may be made.\<close>

definition above_kept :: "nat \<Rightarrow> 'w file_host \<Rightarrow> 'w file_host \<Rightarrow> bool" where
  "above_kept k h h' \<longleftrightarrow> (\<forall>y. length y \<le> k \<longrightarrow>
     (fh_tree h' y = fh_tree h y \<or> fh_tree h y = None \<and> fh_tree h' y = Some TDir) \<and> fh_attr h' y = fh_attr h y)"

lemma above_kept_refl [simp]: "above_kept k h h"
  by (simp add: above_kept_def)

lemma above_kept_trans: "above_kept k h h1 \<Longrightarrow> above_kept k h1 h2 \<Longrightarrow> above_kept k h h2"
  unfolding above_kept_def by metis

lemma above_kept_same: "above_kept k h h' \<Longrightarrow> length y \<le> k \<Longrightarrow> fh_tree h y \<noteq> None \<Longrightarrow> kept y h h'"
  unfolding above_kept_def kept_def by metis

lemma remove_backups_kept:
  assumes "plain_dirs (fh_tree h) ds" "remove_backups env (abs_path ds) names h = (r, h')" "k \<le> length ds"
  shows "above_kept k h h' \<and> plain_dirs (fh_tree h') ds \<and> spares ((\<lambda>x. ds @ [x]) ` set names) h h'"
  using assms(1,2)
proof (induction names arbitrary: h)
  case (Cons x xs)
  have p: "abs_path ds @ [Normal x] = abs_path (ds @ [x])" by (simp add: abs_path_def)
  obtain y t where u: "fs_unlink (he_fs (ce_host env)) (abs_path (ds @ [x])) (fh_tree h) = (y, t)" by fastforce
  have t: "t = fh_tree h \<or> t = (fh_tree h)(ds @ [x] := None)"
    using u dir_entry_plain [OF Cons.prems(1), of x]
    by (auto simp: fs_unlink_def fs_call_def split: option.splits sum.splits tree_node.splits if_splits)
  let ?h = "h\<lparr>fh_tree := t\<rparr>"
  have "length q \<le> k \<Longrightarrow> q \<noteq> ds @ [x]" for q using assms(3) by auto
  then have k1: "above_kept k h ?h"
    using t by (auto simp: above_kept_def)
  have pl: "plain_dirs (fh_tree ?h) ds" using plain_dirs_entry [OF Cons.prems(1), of x None] t Cons.prems(1) by auto
  have s1: "spares ((\<lambda>x. ds @ [x]) ` set (x # xs)) h ?h" using t by (auto simp: spares_def kept_def)
  show ?case
  proof (cases y)
    case (Inl e)
    then have "h' = ?h" using Cons.prems(2) u p by (auto simp: bindE_run io_context_run on_tree_def)
    then show ?thesis using k1 pl s1 by simp
  next
    case (Inr z)
    then have "remove_backups env (abs_path ds) xs ?h = (r, h')"
      using Cons.prems(2) u p by (auto simp: bindE_run io_context_run on_tree_def)
    from Cons.IH [OF pl this] have r: "above_kept k ?h h'" "plain_dirs (fh_tree h') ds" "spares ((\<lambda>x. ds @ [x]) ` set xs) ?h h'" by auto
    have "spares ((\<lambda>x. ds @ [x]) ` set (x # xs)) ?h h'" by (rule spares_mono [OF r(3)]) auto
    then show ?thesis using k1 s1 r above_kept_trans spares_trans by blast
  qed
qed simp

lemma fs_read_dir_state: "fs_read_dir fs lister p t = (r, t') \<Longrightarrow> t' = t"
  by (auto simp: fs_read_dir_def fs_call_def split: option.splits sum.splits)

lemma rotate_backups_kept:
  assumes "plain_dirs (fh_tree h) ds" "rotate_backups env (abs_path (ds @ [x])) keep_last h = (r, h')" "k \<le> length ds"
  shows "above_kept k h h' \<and> plain_dirs (fh_tree h') ds \<and> spares {ds @ [y] | y. \<exists>stem. stem_with_dot x = Some stem \<and> prefix stem y} h h'"
proof -
  have b: "butlast (abs_path (ds @ [x])) = abs_path ds" by (simp add: abs_path_def)
  show ?thesis
  proof (cases "Option.bind (file_name (abs_path (ds @ [x]))) stem_with_dot")
    case None
    then show ?thesis using assms by (simp add: rotate_backups_def Let_def)
  next
    case (Some stem)
    obtain y t where rd: "fs_read_dir (he_fs (ce_host env)) (he_lister (ce_host env)) (abs_path ds) (fh_tree h) = (y, t)" by fastforce
    have "t = fh_tree h" using rd by (rule fs_read_dir_state)
    then have on: "on_tree (fs_read_dir (he_fs (ce_host env)) (he_lister (ce_host env)) (abs_path ds)) h = (y, h)"
      using rd by (simp add: on_tree_def)
    show ?thesis
    proof (cases y)
      case (Inl e)
      then show ?thesis using assms on Some b by (auto simp: rotate_backups_def Let_def bindE_run io_context_run)
    next
      case (Inr names)
      let ?sib = "sort (filter (prefix stem) names)"
      have "remove_backups env (abs_path ds) (take (length ?sib - keep_last) ?sib) h = (r, h')"
        using assms(2) on Some b Inr by (auto simp: rotate_backups_def Let_def bindE_run io_context_run)
      note rb = remove_backups_kept [OF assms(1) this assms(3)]
      have "stem_with_dot x = Some stem" using Some by (simp add: file_name_def abs_path_def)
      then have "(\<lambda>x. ds @ [x]) ` set (take (length ?sib - keep_last) ?sib) \<subseteq> {ds @ [y] | y. \<exists>stem. stem_with_dot x = Some stem \<and> prefix stem y}"
        by (auto dest!: in_set_takeD)
      then show ?thesis using rb spares_mono by blast
    qed
  qed
qed

text \<open>Where a copy to an entry that is not a link writes.\<close>

lemma host_copy_kept:
  assumes "plain_dirs (fh_tree h) ds" "\<And>text. fh_tree h (ds @ [x]) \<noteq> Some (TLink text)"
    and "host_copy env p (abs_path (ds @ [x])) h = (r, h')" "k \<le> length ds"
  shows "above_kept k h h' \<and> plain_dirs (fh_tree h') ds \<and> spares {ds @ [x]} h h' \<and>
    (r = Inr () \<longrightarrow> (\<exists>a body. canonicalize (fh_tree h) [] p = Inr a \<and> fh_tree h a = Some (TFile body) \<and>
       fh_tree h' = (fh_tree h)(ds @ [x] \<mapsto> TFile body)))"
proof (cases "\<exists>b attr. h' = set_file (ds @ [x]) b attr h")
  case True
  then obtain b attr where h': "h' = set_file (ds @ [x]) b attr h" by blast
  have "r = Inr () \<longrightarrow> (\<exists>a body. canonicalize (fh_tree h) [] p = Inr a \<and> fh_tree h a = Some (TFile body) \<and>
       fh_tree h' = (fh_tree h)(ds @ [x] \<mapsto> TFile body))"
    using assms(2,3) dir_entry_plain [OF assms(1), of x]
    by (auto simp: host_copy_def Let_def split: sum.splits option.splits tree_node.splits if_splits)
  then show ?thesis
    using h' assms(4) plain_dirs_entry [OF assms(1), of x "Some (TFile b)"] by (auto simp: above_kept_def spares_def kept_def)
next
  case False
  then have "h' = h \<and> (\<exists>e. r = Inl e)"
    using assms(2,3) dir_entry_plain [OF assms(1), of x]
    by (auto simp: host_copy_def Let_def split: sum.splits option.splits tree_node.splits if_splits)
  then show ?thesis using assms(1) by auto
qed

lemma build_backup_path_plain:
  assumes "os_path path = abs_path (ps @ [n])" "path_components backup_root = abs_path bs"
  shows "build_backup_path backup_root path ts = Inr (abs_path ((bs @ ps) @ [n @ ''.'' @ ts]))"
proof -
  have "path_components path = RootDir # map Normal ps @ [Normal n]"
    using os_path_components(1) [OF assms(1)] by (simp add: abs_path_def)
  moreover have "path_components backup_root @ map Normal ps @ [Normal n] = abs_path (bs @ ps) @ [Normal n]"
    using assms(2) by (simp add: abs_path_def)
  ultimately show ?thesis
    unfolding build_backup_path_def Let_def
    by (simp only: component.case list.case file_name_def last_snoc butlast_snoc option.case append_is_Nil_conv) (simp add: abs_path_def)
qed

lemma made_dirs_above:
  assumes "made_dirs ds (fh_tree h) t"
  shows "above_kept k h (h\<lparr>fh_tree := t\<rparr>)"
  using assms by (auto simp: made_dirs_def above_kept_def)

lemma made_dirs_spares: "made_dirs ds (fh_tree h) (fh_tree h') \<Longrightarrow> fh_attr h' = fh_attr h \<Longrightarrow> spares T h h'"
  by (auto simp: made_dirs_def spares_def kept_def)

text \<open>The stem of a backup starts with the name of the file and a dot.\<close>

lemma stem_prefix:
  assumes "stem_with_dot (n @ ''.'' @ ts) = Some stem"
  shows "\<exists>rest. stem = n @ ''.'' @ rest"
proof (cases "CHR ''.'' \<in> set ts")
  case True
  then obtain a where "dropWhile (\<lambda>c. c \<noteq> CHR ''.'') (rev (n @ ''.'' @ ts)) = dropWhile (\<lambda>c. c \<noteq> CHR ''.'') (rev ts) @ rev (n @ ''.'')"
    by (simp add: dropWhile_append1)
  then show ?thesis using assms by (auto simp: stem_with_dot_def)
next
  case False
  then have "dropWhile (\<lambda>c. c \<noteq> CHR ''.'') (rev ts) = []" by auto
  then show ?thesis using assms False by (auto simp: stem_with_dot_def dropWhile_append)
qed

abbreviation backups_of :: "string list \<Rightarrow> string \<Rightarrow> string list set" where
  "backups_of ds n \<equiv> {ds @ [n @ ''.'' @ x] | x. True}"

lemma backup_kept:
  assumes "os_path path = abs_path (ps @ [n])" "path_components (ce_backup_root env) = abs_path bs"
    and "backup_area bs ps (fh_tree h)" "backup_with_rotation env path keep_last h = (r, h')"
  shows "above_kept (Suc (length ps)) h h' \<and> spares (backups_of (bs @ ps) n) h h'"
proof -
  let ?ts = "ce_utc env (fh_outside h)" let ?ds = "bs @ ps" let ?x = "n @ ''.'' @ ?ts"
  let ?fs = "he_fs (ce_host env)"
  note bp = build_backup_path_plain [OF assms(1,2), of ?ts]
  have pl: "plain_dirs (fh_tree h) ?ds" and len: "Suc (length ps) \<le> length ?ds"
    and nolink: "\<And>y tx. fh_tree h (?ds @ [y]) \<noteq> Some (TLink tx)"
    using assms(3) by (auto simp: backup_area_def Suc_le_eq)
  have b: "butlast (abs_path (?ds @ [?x])) = abs_path ?ds" by (simp add: abs_path_def butlast_append)
  obtain x1 t1 where c: "fs_create_dir_all ?fs (abs_path ?ds) (fh_tree h) = (x1, t1)" by fastforce
  let ?h1 = "h\<lparr>fh_tree := t1\<rparr>"
  have m: "made_dirs ?ds (fh_tree h) t1" using fs_create_dir_all_made [OF pl c] .
  have k1: "above_kept (Suc (length ps)) h ?h1" and p1: "plain_dirs (fh_tree ?h1) ?ds"
    using made_dirs_above [OF m] made_dirs_plain [OF m pl] by simp_all
  have nl1: "fh_tree ?h1 (?ds @ [y]) \<noteq> Some (TLink tx)" for y tx
  proof -
    have "t1 (?ds @ [y]) = fh_tree h (?ds @ [y]) \<or> t1 (?ds @ [y]) = Some TDir" using m unfolding made_dirs_def by blast
    then show ?thesis using nolink [of y tx] by auto
  qed
  obtain x2 h2 where cp: "host_copy (ce_host env) (os_path path) (abs_path (?ds @ [?x])) ?h1 = (x2, h2)" by fastforce
  note cp' = host_copy_kept [OF p1 nl1 cp len]
  obtain x3 h3 where ro: "rotate_backups env (abs_path (?ds @ [?x])) keep_last h2 = (x3, h3)" by fastforce
  note ro' = rotate_backups_kept [OF conjunct1 [OF conjunct2 [OF cp']] ro len]
  let ?T = "backups_of ?ds n"
  have s1: "spares ?T h ?h1" using made_dirs_spares [of ?ds h ?h1] m by simp
  have s2: "spares ?T ?h1 h2" by (rule spares_mono [of "{?ds @ [?x]}"]) (use cp' in auto)
  have "{?ds @ [y] | y. \<exists>stem. stem_with_dot ?x = Some stem \<and> prefix stem y} \<subseteq> ?T"
    using stem_prefix [of n ?ts] by (auto simp: prefix_def)
  then have s3: "spares ?T h2 h3" using ro' spares_mono by blast
  have "h' = h \<or> h' = ?h1 \<or> h' = h2 \<or> h' = h3"
    using assms(4) bp b c cp ro
    by (cases x1; cases x2; cases x3) (auto simp: backup_with_rotation_def bindE_def io_context_def map_err_def on_tree_def)
  moreover have "above_kept (Suc (length ps)) h h2 \<and> above_kept (Suc (length ps)) h h3" using k1 cp' ro' above_kept_trans by blast
  moreover have "spares ?T h h2 \<and> spares ?T h h3" using s1 s2 s3 spares_trans by blast
  ultimately show ?thesis using k1 s1 by auto
qed

end
