(* ===== verification/Content_Props.thy ===== *)
theory Content_Props
  imports File_Content
begin

unbundle bit_operations_syntax

text \<open>
  What \<open>file.content\<close> does to its target: a failed or idle apply leaves the file and its attributes as they were, an apply
  that reports a change leaves exactly the contents of the sensitive store, and with a validator only after the validator has
  accepted these contents at the \<open>.new\<close> path.
\<close>

section \<open>Reading the target\<close>

lemma host_lstat_plain:
  assumes "plain_dirs (fh_tree h) ps" "host_lstat env (abs_path (ps @ [n])) h = (r, h')"
  shows "h' = h \<and> (\<forall>node meta. r = Inr (node, meta) \<longrightarrow> dirs (fh_tree h) ps \<and> fh_tree h (ps @ [n]) = Some node \<and> meta = fh_attr h (ps @ [n])) \<and>
    (r = Inl FsNotFound \<longrightarrow> \<not> dirs (fh_tree h) ps \<or> fh_tree h (ps @ [n]) = None)"
  using assms(2) lstat_plain [OF assms(1), of n] dir_entry_plain [OF assms(1), of n]
  by (auto simp: host_lstat_def fs_call_def split: option.splits if_splits)

lemma observe_target_at:
  assumes "os_path (fc_path spec) = abs_path (ps @ [n])" "plain_dirs (fh_tree h) ps" "tree_wf (fh_tree h)"
    and "observe_target env spec c h = (r, h')"
  shows "h' = h \<and> (r = Inr None \<longrightarrow> fh_tree h (ps @ [n]) = None) \<and>
    (\<forall>m. r = Inr (Some m) \<longrightarrow> (\<exists>s. fh_tree h (ps @ [n]) = Some (TFile s)) \<and> m = fh_attr h (ps @ [n]))"
proof -
  obtain x h1 where l: "host_lstat (ce_host env) (abs_path (ps @ [n])) h = (x, h1)" by fastforce
  note l' = host_lstat_plain [OF assms(2) l]
  have "fh_tree h (ps @ [n]) \<noteq> None \<longrightarrow> dirs (fh_tree h) ps" using tree_wf_dirs [OF assms(3)] by blast
  then show ?thesis
    using l l' assms(4) unfolding observe_target_def attempt_def assms(1)
    by (auto simp: existing_file_def bindE_run split: sum.splits fs_error.splits prod.splits tree_node.splits)
qed

lemma content_settled_state: "content_settled env spec observed h = (r, h') \<Longrightarrow> h' = h"
  by (auto simp: content_settled_def observe_existing_def bindE_run io_context_run host_read_def fs_call_def
      split: option.splits sum.splits)

lemma observe_target_state: "observe_target env spec c h = (r, h') \<Longrightarrow> h' = h"
proof -
  obtain x h1 where l: "host_lstat (ce_host env) (os_path (fc_path spec)) h = (x, h1)" by fastforce
  then have "h1 = h" by (auto simp: host_lstat_def fs_call_def split: option.splits)
  then show "observe_target env spec c h = (r, h') \<Longrightarrow> h' = h"
    using l by (cases x) (auto simp: observe_target_def attempt_def bindE_def of_result_def ret_def throw_def split: fs_error.splits sum.splits)
qed

lemma observe_existing_state: "observe_existing env p meta h = (r, h') \<Longrightarrow> h' = h"
  by (auto simp: observe_existing_def bindE_run io_context_run host_read_def fs_call_def split: option.splits)

text \<open>Planning only reads.\<close>

lemma content_plan_reads:
  assumes "content_plan env r h = (x, h')"
  shows "h' = h"
proof -
  obtain y h1 where s: "content_spec env r h = (y, h1)" by fastforce
  then have h1: "h1 = h" by (auto simp: content_spec_def ret_def throw_def split: option.splits sum.splits)
  show ?thesis
  proof (cases y)
    case (Inl e)
    then show ?thesis using assms s h1 by (simp add: content_plan_def bindE_def)
  next
    case (Inr spec)
    obtain z h2 where o: "observe_target env spec [] h = (z, h2)" by fastforce
    note h2 = observe_target_state [OF o]
    show ?thesis
    proof (cases "\<exists>meta. z = Inr (Some meta)")
      case True
      then obtain meta where z: "z = Inr (Some meta)" by blast
      obtain u h3 where e: "observe_existing env (fc_path spec) meta h = (u, h3)" by fastforce
      note h3 = observe_existing_state [OF e]
      show ?thesis using assms s h1 Inr o h2 z e h3 by (cases u) (auto simp: content_plan_def bindE_def of_result_def ret_def split: sum.splits)
    next
      case False
      then show ?thesis using assms s h1 Inr o h2 by (cases z) (auto simp: content_plan_def bindE_def ret_def split: option.splits)
    qed
  qed
qed

section \<open>Writing the target\<close>

lemma write_atomic_at:
  assumes "os_path (fc_path spec) = abs_path (ps @ [n])" "plain_dirs (fh_tree h) ps"
    and "\<And>t. he_temp_name (ce_host env) t (abs_path ps) \<noteq> n"
    and "write_atomic env spec body existing h = (r, h')"
  shows "spares {ps @ [n]} h h' \<and> (r \<noteq> Inr () \<longrightarrow> kept (ps @ [n]) h h') \<and>
    (r = Inr () \<longrightarrow> dirs (fh_tree h') ps \<and> fh_tree h' (ps @ [n]) = Some (TFile body) \<and>
       fh_attr h' (ps @ [n]) = written_attr env spec existing (new_attr (ce_host env) (ps @ [n])))"
proof -
  obtain x h1 where mp: "make_parent env (abs_path ps) h = (x, h1)" by fastforce
  note mp' = make_parent_made [OF assms(2) mp]
  have "\<not> prefix (ps @ [n]) ps" by (auto simp: prefix_def)
  then have k1: "kept (ps @ [n]) h h1" using mp' unfolding kept_def made_dirs_def by metis
  have s1: "spares {ps @ [n]} h h1" using made_dirs_spares mp' by blast
  have par: "path_parent (fc_path spec) = Some (abs_path ps)" using os_path_components(2) [OF assms(1)] .
  show ?thesis
  proof (cases x)
    case (Inl e)
    then show ?thesis using assms(4) mp k1 s1 by (auto simp: write_atomic_def par bindE_run)
  next
    case (Inr u)
    then have w: "write_via_temp env (''tempfile in '' @ show_path (abs_path ps)) spec body existing (abs_path ps)
        (abs_path (ps @ [n])) (fc_path spec) h1 = (r, h')"
      using assms(4) mp by (auto simp: write_atomic_def par bindE_run assms(1))
    have "plain_dirs (fh_tree h1) ps" using made_dirs_plain [OF conjunct1 [OF mp'] assms(2)] .
    note wv = write_via_temp_at [OF this assms(3) w]
    have "\<not> temp_entry env ps h1 (ps @ [n])" using assms(3) by (auto simp: temp_entry_def)
    then have "(r \<noteq> Inr () \<longrightarrow> kept (ps @ [n]) h h') \<and> (r = Inr () \<longrightarrow> dirs (fh_tree h') ps \<and> fh_tree h' (ps @ [n]) = Some (TFile body) \<and>
       fh_attr h' (ps @ [n]) = written_attr env spec existing (new_attr (ce_host env) (ps @ [n])))"
      using wv k1 kept_trans dirs_entry by (metis fun_upd_same)
    moreover have "spares {ps @ [n]} h1 h'" using wv by (auto simp: spares_def temp_entry_def)
    ultimately show ?thesis using s1 spares_trans by blast
  qed
qed

text \<open>The backup keeps the file, its directory and the way to it.\<close>

lemma above_kept_plain:
  assumes "above_kept (Suc (length ps)) h h'" "plain_dirs (fh_tree h) ps"
  shows "plain_dirs (fh_tree h') ps"
  using assms prefix_length_le unfolding above_kept_def plain_dirs_def by (metis le_SucI option.distinct(1))

lemma above_kept_dirs:
  assumes "above_kept (Suc (length ps)) h h'" "dirs (fh_tree h) ps"
  shows "dirs (fh_tree h') ps"
  unfolding dirs_def
proof (intro allI impI)
  fix k assume "k < length ps"
  then have "fh_tree h (take (Suc k) ps) = Some TDir" "length (take (Suc k) ps) \<le> Suc (length ps)"
    using assms(2) by (auto simp: dirs_def)
  then show "fh_tree h' (take (Suc k) ps) = Some TDir" using assms(1) unfolding above_kept_def by (metis option.distinct(1))
qed

lemma keep_file:
  assumes "os_path (fc_path spec) = abs_path (ps @ [n])" "path_components (ce_backup_root env) = abs_path bs"
    and "backup_area bs ps (fh_tree h)"
    and "(if upd then bindE (backup_with_rotation env (fc_path spec) KEEP_BACKUPS) (\<lambda>_. ret ()) else ret ()) h = (r, h')"
  shows "above_kept (Suc (length ps)) h h'" "spares (backups_of (bs @ ps) n) h h'"
  using assms(4) backup_kept [OF assms(1-3), of KEEP_BACKUPS] by (auto simp: bindE_run split: if_splits)

section \<open>Writing through the validator\<close>

abbreviation new_name :: "string \<Rightarrow> string" where
  "new_name n \<equiv> n @ ''.new''"

lemma new_path_plain:
  assumes "os_path path = abs_path (ps @ [n])"
  shows "new_path_for path = abs_path (ps @ [new_name n])"
proof -
  have c: "path_components path = abs_path ps @ [Normal n]"
    using os_path_components(1) [OF assms] by (simp add: abs_path_def)
  show ?thesis
    unfolding new_path_for_def Let_def c file_name_def os_path_components(2) [OF assms]
    by (simp add: abs_path_def)
qed

lemma backup_area_made:
  assumes "backup_area bs ps t" "made_dirs ps t t1"
  shows "backup_area bs ps t1"
proof -
  have node: "t1 y = t y \<or> t1 y = Some TDir" for y using assms(2) unfolding made_dirs_def by blast
  have "t1 y \<noteq> Some (TLink tx)" if "t y \<noteq> Some (TLink tx)" for y tx
    using that node [of y] by auto
  moreover have "plain_dirs t1 (bs @ ps)" using assms made_dirs_plain by (simp add: backup_area_def)
  ultimately show ?thesis using assms(1) unfolding backup_area_def by blast
qed

lemma backup_area_entry:
  assumes "backup_area bs ps t" "\<not> prefix (ps @ [m]) (bs @ ps)"
  shows "backup_area bs ps (t(ps @ [m] \<mapsto> TFile b))"
proof -
  have "(t(ps @ [m] \<mapsto> TFile b)) q = t q" if "prefix q (bs @ ps)" for q
    using that assms(2) by (metis fun_upd_other)
  then have "plain_dirs (t(ps @ [m] \<mapsto> TFile b)) (bs @ ps)"
    using assms(1) plain_dirs_same unfolding backup_area_def by blast
  moreover have "(t(ps @ [m] \<mapsto> TFile b)) q \<noteq> Some (TLink tx)" if "t q \<noteq> Some (TLink tx)" for q tx
    using that by (cases "q = ps @ [m]") simp_all
  ultimately show ?thesis using assms(1) unfolding backup_area_def by blast
qed

text \<open>A directory that a host can rely on: a validator that only reads.\<close>

definition reads_only :: "('w file_host, 'e, 'a) prog \<Rightarrow> bool" where
  "reads_only m \<longleftrightarrow> (\<forall>h. fh_tree (snd (m h)) = fh_tree h \<and> fh_attr (snd (m h)) = fh_attr h)"

lemma reads_only_run: "reads_only m \<Longrightarrow> m h = (r, h') \<Longrightarrow> fh_tree h' = fh_tree h \<and> fh_attr h' = fh_attr h"
  unfolding reads_only_def by (metis snd_conv)

text \<open>The file is accepted as it lies at the \<open>.new\<close> path.\<close>

definition accepted ::
  "'w content_env \<Rightarrow> string list \<Rightarrow> FileContentSpec \<Rightarrow> string list \<Rightarrow> string \<Rightarrow> string \<Rightarrow> file_attr \<Rightarrow> 'w file_host \<Rightarrow> bool" where
  "accepted env argv spec ps n body a s \<longleftrightarrow>
     fst (ce_validator env (substitute_new_path argv (show_path (new_path_for (fc_path spec)))) VALIDATE_TIMEOUT s) = Inr () \<and>
     fh_tree s (ps @ [new_name n]) = Some (TFile body) \<and> fh_attr s (ps @ [new_name n]) = a"

lemma map_err_run: "map_err f m s = (Inr x, t) \<longleftrightarrow> m s = (Inr x, t)" "map_err f m s = (Inl e, t) \<longleftrightarrow> (\<exists>e0. m s = (Inl e0, t) \<and> e = f e0)"
  by (auto simp: map_err_def split: prod.splits sum.splits)

lemma rename_new_at:
  assumes "plain_dirs (fh_tree h) ps" "dirs (fh_tree h) ps" "fh_tree h (ps @ [m]) = Some (TFile b)" "m \<noteq> n"
    and "host_rename env (abs_path (ps @ [m])) (abs_path (ps @ [n])) h = (r, h')"
  shows "spares {ps @ [n], ps @ [m]} h h' \<and> (\<forall>e. r = Inl e \<longrightarrow> h' = h) \<and>
    (r = Inr () \<longrightarrow> dirs (fh_tree h') ps \<and> fh_tree h' (ps @ [n]) = Some (TFile b) \<and> fh_attr h' (ps @ [n]) = fh_attr h (ps @ [m]))"
proof -
  have "set_file (ps @ [m]) b (fh_attr h (ps @ [m])) h = h"
    using assms(3) by (simp add: set_file_def fun_upd_idem)
  then have "host_rename env (abs_path (ps @ [m])) (abs_path (ps @ [n])) (set_file (ps @ [m]) b (fh_attr h (ps @ [m])) h) = (r, h')"
    using assms(5) by simp
  from host_rename_at [OF assms(1,2) assms(4) [symmetric] this]
  show ?thesis using dirs_entry [OF dirs_entry [OF assms(2)]] \<open>set_file _ _ _ h = h\<close> by (cases r) (auto simp: spares_def kept_def)
qed

lemma write_with_validation_at:
  assumes path: "os_path (fc_path spec) = abs_path (ps @ [n])" and plain: "plain_dirs (fh_tree h) ps"
    and temp: "\<And>t. he_temp_name (ce_host env) t (abs_path ps) \<notin> {n, new_name n}"
    and reads: "\<And>argv d. reads_only (ce_validator env argv d)"
    and root: "path_components (ce_backup_root env) = abs_path bs" and area: "backup_area bs ps (fh_tree h)"
    and apart: "\<not> prefix (ps @ [new_name n]) (bs @ ps)"
    and there: "upd \<Longrightarrow> fh_tree h (ps @ [n]) \<noteq> None"
    and run: "write_with_validation env spec body existing argv upd h = (r, h')"
  shows "spares ({ps @ [n], ps @ [new_name n]} \<union> backups_of (bs @ ps) n) h h' \<and> (r \<noteq> Inr () \<longrightarrow> kept (ps @ [n]) h h') \<and>
    (r = Inr () \<longrightarrow> dirs (fh_tree h') ps \<and> fh_tree h' (ps @ [n]) = Some (TFile body) \<and>
       fh_attr h' (ps @ [n]) = written_attr env spec existing (new_attr (ce_host env) (ps @ [n])) \<and>
       (\<exists>s. accepted env argv spec ps n body (fh_attr h' (ps @ [n])) s \<and> kept (ps @ [n]) h s))"
proof -
  let ?q = "ps @ [n]" and ?m = "ps @ [new_name n]" and ?e = "ce_host env"
  let ?T = "{?q, ?m} \<union> backups_of (bs @ ps) n"
  let ?a = "written_attr env spec existing (new_attr (ce_host env) ?q)"
  note new = new_path_plain [OF path] and par = os_path_components(2) [OF path]
  obtain x1 h1 where mp: "make_parent env (abs_path ps) h = (x1, h1)" by fastforce
  note mp' = make_parent_made [OF plain mp]
  note plain1 = made_dirs_plain [OF conjunct1 [OF mp'] plain]
  have "\<not> prefix ?q ps" by (auto simp: prefix_def)
  then have k1: "kept ?q h h1" using mp' unfolding kept_def made_dirs_def by metis
  have s1: "spares ?T h h1" using made_dirs_spares mp' by blast
  obtain x2 h2 where w: "write_to_new_path env spec body existing h1 = (x2, h2)" by fastforce
  have w2: "write_via_temp env (''tempfile in '' @ show_path (abs_path ps) @ '' (validate flow)'') spec body existing (abs_path ps)
      (abs_path ?m) (show_path (abs_path ?m)) h1 = (x2, h2)"
    using w by (simp add: write_to_new_path_def par new)
  have temp': "he_temp_name (ce_host env) t (abs_path ps) \<noteq> new_name n" for t using temp by blast
  note w' = write_via_temp_at [OF plain1 temp' w2]
  have "\<not> temp_entry env ps h1 ?q" using temp by (auto simp: temp_entry_def)
  then have k2: "kept ?q h h2" using w' k1 kept_trans by blast
  have "spares ?T h1 h2" using w' by (auto simp: spares_def temp_entry_def)
  then have s2: "spares ?T h h2" using s1 spares_trans by blast
  have na: "new_attr (ce_host env) ?m = new_attr (ce_host env) ?q" by (simp add: new_attr_def)
  show ?thesis
  proof (cases "x1 = Inr () \<and> x2 = Inr ()")
    case False
    then have "(h' = h1 \<or> h' = h2) \<and> r \<noteq> Inr ()"
      using run mp w by (cases x1; cases x2) (auto simp: write_with_validation_def par new Let_def bindE_def)
    then show ?thesis using k1 k2 s1 s2 by blast
  next
    case True
    then have d: "dirs (fh_tree h1) ps" and t2: "fh_tree h2 = (fh_tree h1)(?m \<mapsto> TFile body)" and a2: "fh_attr h2 ?m = ?a"
      using w' na by auto
    let ?argv = "substitute_new_path argv (show_path (abs_path ?m))"
    obtain x3 h3 where v: "ce_validator env ?argv VALIDATE_TIMEOUT h2 = (x3, h3)" by fastforce
    note v' = reads_only_run [OF reads v]
    have t3: "fh_tree h3 = (fh_tree h1)(?m \<mapsto> TFile body)" "fh_attr h3 ?m = ?a" using v' t2 a2 by simp_all
    have k3: "kept ?q h h3" using k2 v' unfolding kept_def by simp
    have s3: "spares ?T h h3" using s2 v' unfolding spares_def kept_def by simp
    have acc: "x3 = Inr () \<Longrightarrow> accepted env argv spec ps n body ?a h2"
      using v t2 a2 by (simp add: accepted_def new)
    show ?thesis
    proof (cases x3)
      case (Inl e)
      then have "h' = h3 \<and> r \<noteq> Inr ()"
        using run mp w v True by (auto simp: write_with_validation_def par new Let_def bindE_def map_err_def)
      then show ?thesis using k3 s3 by blast
    next
      case (Inr u)
      obtain x4 h4 where b: "(if upd then bindE (backup_with_rotation env (fc_path spec) KEEP_BACKUPS) (\<lambda>_. ret ()) else ret ()) h3 = (x4, h4)"
        by fastforce
      have "backup_area bs ps (fh_tree h3)"
        using backup_area_entry [OF backup_area_made [OF area conjunct1 [OF mp']] apart] t3 by simp
      note ab = keep_file(1) [OF path root this b] and sp = keep_file(2) [OF path root this b]
      have "spares ?T h3 h4" by (rule spares_mono [OF sp]) auto
      then have s4: "spares ?T h h4" using s3 spares_trans by blast
      have k4: "kept ?q h3 h4"
      proof (cases upd)
        case True
        then have "fh_tree h3 ?q \<noteq> None" using there k3 by (auto simp: kept_def)
        then show ?thesis using above_kept_same [OF ab, of ?q] by simp
      next
        case False
        then show ?thesis using b by (simp add: ret_def)
      qed
      have km: "kept ?m h3 h4" using above_kept_same [OF ab, of ?m] t3 by simp
      have p4: "plain_dirs (fh_tree h4) ps" and d4: "dirs (fh_tree h4) ps"
        using above_kept_plain [OF ab] above_kept_dirs [OF ab] plain_dirs_entry [OF plain1] dirs_entry [OF d] t3 by simp_all
      obtain x5 h5 where rn: "host_rename ?e (abs_path ?m) (abs_path ?q) h4 = (x5, h5)" by fastforce
      have "fh_tree h4 ?m = Some (TFile body)" using km t3 by (simp add: kept_def)
      then have rn': "spares {?q, ?m} h4 h5 \<and> (\<forall>e. x5 = Inl e \<longrightarrow> h5 = h4) \<and>
          (x5 = Inr () \<longrightarrow> dirs (fh_tree h5) ps \<and> fh_tree h5 ?q = Some (TFile body) \<and> fh_attr h5 ?q = fh_attr h4 ?m)"
        using rename_new_at [OF p4 d4 _ _ rn] by simp
      then have "spares ?T h4 h5" by (blast intro: spares_mono)
      then have s5: "spares ?T h h5" using s4 spares_trans by blast
      have all: "write_with_validation env spec body existing argv upd h =
          bindE (if upd then bindE (backup_with_rotation env (fc_path spec) KEEP_BACKUPS) (\<lambda>_. ret ()) else ret ()) (\<lambda>_.
          io_context (''rename '' @ show_path (abs_path ?m) @ '' -> '' @ fc_path spec) (host_rename ?e (abs_path ?m) (abs_path ?q))) h3"
        using True mp w v Inr by (simp add: write_with_validation_def par new Let_def bindE_def map_err_def path)
      show ?thesis
      proof (cases "x4 = Inr () \<and> x5 = Inr ()")
        case False
        then have "(h' = h4 \<or> h' = h5 \<and> (\<exists>e. x5 = Inl e)) \<and> r \<noteq> Inr ()"
          using run unfolding all by (cases x4; cases x5) (auto simp: bindE_def io_context_def map_err_def b rn)
        then show ?thesis using kept_trans [OF k3 k4] rn' s4 s5 by auto
      next
        case fin: True
        then have "h' = h5 \<and> r = Inr ()"
          using run unfolding all by (simp add: bindE_def io_context_def map_err_def b rn)
        then show ?thesis using rn' fin acc Inr k2 km t3 s5 by (auto simp: kept_def)
      qed
    qed
  qed
qed

section \<open>One apply\<close>

text \<open>
  Where the statements apply: the directories on the way to the file and to its backups are no links, temporary files get
  names of their own, the validator only reads, and the backups do not lie below the \<open>.new\<close> path.
\<close>

definition content_site :: "'w content_env \<Rightarrow> FileContentSpec \<Rightarrow> string list \<Rightarrow> string \<Rightarrow> 'w file_host \<Rightarrow> bool" where
  "content_site env spec ps n h \<longleftrightarrow>
     os_path (fc_path spec) = abs_path (ps @ [n]) \<and> tree_wf (fh_tree h) \<and> plain_dirs (fh_tree h) ps \<and>
     (\<forall>t. he_temp_name (ce_host env) t (abs_path ps) \<notin> {n, new_name n}) \<and> (\<forall>argv d. reads_only (ce_validator env argv d)) \<and>
     (\<exists>bs. path_components (ce_backup_root env) = abs_path bs \<and> backup_area bs ps (fh_tree h) \<and> \<not> prefix (ps @ [new_name n]) (bs @ ps))"

definition present_owner :: "'w file_host \<Rightarrow> string list \<Rightarrow> (u32 \<times> u32) option" where
  "present_owner h q = (if fh_tree h q = None then None else Some (fa_uid (fh_attr h q), fa_gid (fh_attr h q)))"

definition wrote :: "'w content_env \<Rightarrow> FileContentSpec \<Rightarrow> string list \<Rightarrow> string \<Rightarrow> string \<Rightarrow> 'w file_host \<Rightarrow> 'w file_host \<Rightarrow> bool" where
  "wrote env spec ps n body h h' \<longleftrightarrow>
     dirs (fh_tree h') ps \<and> fh_tree h' (ps @ [n]) = Some (TFile body) \<and>
     fh_attr h' (ps @ [n]) = written_attr env spec (present_owner h (ps @ [n])) (new_attr (ce_host env) (ps @ [n])) \<and>
     (case fc_validate_with spec of None \<Rightarrow> True
      | Some argv \<Rightarrow> \<exists>s. accepted env argv spec ps n body (fh_attr h' (ps @ [n])) s \<and> kept (ps @ [n]) h s)"

text \<open>The entries that an apply may change: the file, its backups, and with a validator the \<open>.new\<close> file.\<close>

definition content_files :: "'w content_env \<Rightarrow> FileContentSpec \<Rightarrow> string list \<Rightarrow> string \<Rightarrow> string list set" where
  "content_files env spec ps n =
     insert (ps @ [n]) (if fc_validate_with spec = None then {} else {ps @ [new_name n]}) \<union>
     {y. \<exists>bs x. path_components (ce_backup_root env) = abs_path bs \<and> y = bs @ ps @ [n @ ''.'' @ x]}"

lemma write_content_at:
  assumes site: "content_site env spec ps n h"
    and obs: "observed = None \<longrightarrow> fh_tree h (ps @ [n]) = None"
      "\<And>m. observed = Some m \<Longrightarrow> (\<exists>s. fh_tree h (ps @ [n]) = Some (TFile s)) \<and> m = fh_attr h (ps @ [n])"
    and run: "write_content env spec body observed h = (r, h')"
  shows "spares (content_files env spec ps n) h h' \<and> (r \<noteq> Inr () \<longrightarrow> kept (ps @ [n]) h h') \<and>
    (r = Inr () \<longrightarrow> wrote env spec ps n body h h')"
proof -
  let ?T = "content_files env spec ps n"
  let ?q = "ps @ [n]"
  have path: "os_path (fc_path spec) = abs_path ?q" and plain: "plain_dirs (fh_tree h) ps"
    and temp: "\<And>t. he_temp_name (ce_host env) t (abs_path ps) \<notin> {n, new_name n}"
    and reads: "\<And>argv d. reads_only (ce_validator env argv d)"
    using site by (auto simp: content_site_def)
  obtain bs where bs: "path_components (ce_backup_root env) = abs_path bs" "backup_area bs ps (fh_tree h)" "\<not> prefix (ps @ [new_name n]) (bs @ ps)"
    using site unfolding content_site_def by blast
  have own: "map_option (\<lambda>m. (fa_uid m, fa_gid m)) observed = present_owner h ?q"
    using obs by (cases observed) (auto simp: present_owner_def)
  show ?thesis
  proof (cases "fc_validate_with spec")
    case None
    obtain x h1 where b: "(if observed \<noteq> None then bindE (backup_with_rotation env (fc_path spec) KEEP_BACKUPS) (\<lambda>_. ret ()) else ret ()) h = (x, h1)"
      by fastforce
    note ab = keep_file(1) [OF path bs(1,2) b] and sp = keep_file(2) [OF path bs(1,2) b]
    have s1: "spares ?T h h1" by (rule spares_mono [OF sp]) (use bs(1) in \<open>auto simp: content_files_def\<close>)
    have k1: "kept ?q h h1"
    proof (cases observed)
      case None
      then show ?thesis using b by (simp add: ret_def)
    next
      case (Some m)
      then show ?thesis using obs(2) above_kept_same [OF ab, of ?q] by auto
    qed
    have p1: "plain_dirs (fh_tree h1) ps" using above_kept_plain [OF ab plain] .
    have all: "bindE (if observed \<noteq> None then bindE (backup_with_rotation env (fc_path spec) KEEP_BACKUPS) (\<lambda>_. ret ()) else ret ())
        (\<lambda>_. write_atomic env spec body (present_owner h ?q)) h = (r, h')"
      using run None own by (simp add: write_content_def)
    show ?thesis
    proof (cases x)
      case (Inl e)
      then show ?thesis using all b k1 s1 by (auto simp: bindE_def)
    next
      case (Inr u)
      then have "write_atomic env spec body (present_owner h ?q) h1 = (r, h')" using all b by (simp add: bindE_def)
      note wa = write_atomic_at [OF path p1 _ this]
      have "spares ?T h1 h'" by (rule spares_mono [of "{?q}"]) (use wa temp in \<open>auto simp: content_files_def\<close>)
      then have "spares ?T h h'" using s1 spares_trans by blast
      then show ?thesis using wa temp k1 None kept_trans unfolding wrote_def by auto
    qed
  next
    case (Some argv)
    show ?thesis
    proof (cases argv)
      case Nil
      then show ?thesis using run Some by (auto simp: write_content_def)
    next
      case (Cons a as)
      then have "write_with_validation env spec body (present_owner h ?q) argv (observed \<noteq> None) h = (r, h')"
        using run Some own by (simp add: write_content_def)
      note wv = write_with_validation_at [OF path plain temp reads bs _ this]
      have "spares ?T h h'"
        by (rule spares_mono [of "{?q, ps @ [new_name n]} \<union> backups_of (bs @ ps) n"])
          (use wv obs(2) bs(1) Some in \<open>auto simp: content_files_def\<close>)
      then show ?thesis using wv obs(2) Some unfolding wrote_def by auto
    qed
  qed
qed

lemma content_apply_run:
  assumes spec: "content_spec_of_json (res_payload r) = Some spec" and site: "content_site env spec ps n h"
    and run: "content_apply env r d h = (res, h')"
  shows "spares (content_files env spec ps n) h h'"
    and "((\<exists>e. res = Inl e) \<or> res = Inr report_no_change \<and> fh_tree h' = fh_tree h \<and> fh_attr h' = fh_attr h \<and>
       content_settled env spec (Some (fh_attr h (ps @ [n]))) h = (Inr True, h) \<and>
       (\<exists>s. fh_tree h (ps @ [n]) = Some (TFile s))) \<and> kept (ps @ [n]) h h' \<or>
    (\<exists>body. res = Inr (report_changed (''wrote '' @ fc_path spec @ '' (sha256='' @ fc_sha256 spec @ '')'')) \<and>
       fh_sensitive h (res_id r) = Some body \<and> sha256_hex (ce_digest env) body = fc_sha256 spec \<and> wrote env spec ps n body h h')"
proof -
  let ?T = "content_files env spec ps n"
  have "spares ?T h h' \<and> (((\<exists>e. res = Inl e) \<or> res = Inr report_no_change \<and> fh_tree h' = fh_tree h \<and> fh_attr h' = fh_attr h \<and>
       content_settled env spec (Some (fh_attr h (ps @ [n]))) h = (Inr True, h) \<and>
       (\<exists>s. fh_tree h (ps @ [n]) = Some (TFile s))) \<and> kept (ps @ [n]) h h' \<or>
    (\<exists>body. res = Inr (report_changed (''wrote '' @ fc_path spec @ '' (sha256='' @ fc_sha256 spec @ '')'')) \<and>
       fh_sensitive h (res_id r) = Some body \<and> sha256_hex (ce_digest env) body = fc_sha256 spec \<and> wrote env spec ps n body h h'))" (is ?goal)
proof (cases "content_validate spec = Inr () \<and> (\<exists>body. fh_sensitive h (res_id r) = Some body \<and> sha256_hex (ce_digest env) body = fc_sha256 spec)")
  case False
  then show ?goal
    using run spec by (auto simp: content_apply_def content_spec_def bindE_def sensitive_take_def kept_def spares_def
        split: sum.splits option.splits if_splits)
next
  case True
  then obtain body where body: "fh_sensitive h (res_id r) = Some body" "sha256_hex (ce_digest env) body = fc_sha256 spec" and ok: "content_validate spec = Inr ()"
    by blast
  let ?q = "ps @ [n]"
  define h0 where "h0 = h\<lparr>fh_sensitive := (fh_sensitive h)(res_id r := None)\<rparr>"
  have same: "fh_tree h0 = fh_tree h" "fh_attr h0 = fh_attr h" by (simp_all add: h0_def)
  have site0: "content_site env spec ps n h0" using site same by (simp add: content_site_def)
  have k0: "kept ?q h0 x \<longleftrightarrow> kept ?q h x" for x by (simp add: kept_def same)
  have s0: "spares T h0 x \<longleftrightarrow> spares T h x" for T x by (simp add: spares_def kept_def same)
  have wr: "wrote env spec ps n body h0 h' \<longleftrightarrow> wrote env spec ps n body h h'"
    using same by (cases "fc_validate_with spec") (simp_all add: wrote_def present_owner_def k0)
  let ?rep = "report_changed (''wrote '' @ fc_path spec @ '' (sha256='' @ fc_sha256 spec @ '')'')"
  have run0: "bindE (observe_target env spec '' in apply'') (\<lambda>observed. bindE (content_settled env spec observed) (\<lambda>settled.
      if settled then ret report_no_change else bindE (write_content env spec body observed) (\<lambda>_. ret ?rep))) h0 = (res, h')"
    using run spec ok body by (simp add: content_apply_def content_spec_def bindE_def sensitive_take_def h0_def)
  obtain x h1 where ot: "observe_target env spec '' in apply'' h0 = (x, h1)" by fastforce
  have path: "os_path (fc_path spec) = abs_path ?q" and plain: "plain_dirs (fh_tree h0) ps" and wf: "tree_wf (fh_tree h0)"
    using site0 by (auto simp: content_site_def)
  note o' = observe_target_at [OF path plain wf ot]
  show ?goal
  proof (cases x)
    case (Inl e)
    then have "res = Inl e" "h' = h0" using run0 ot o' by (auto simp: bindE_def)
    then show ?goal using same by (simp add: kept_def spares_def)
  next
    case (Inr observed)
    obtain y h2 where st: "content_settled env spec observed h0 = (y, h2)" by fastforce
    have h2: "h2 = h0" using content_settled_state [OF st] .
    have obs: "observed = None \<longrightarrow> fh_tree h0 ?q = None"
      "\<And>m. observed = Some m \<Longrightarrow> (\<exists>s. fh_tree h0 ?q = Some (TFile s)) \<and> m = fh_attr h0 ?q" using o' Inr by auto
    show ?goal
    proof (cases "y = Inr False")
      case False
      then have res: "(\<exists>e. res = Inl e) \<or> y = Inr True \<and> res = Inr report_no_change" "h' = h0"
        using run0 ot o' Inr st h2 by (auto simp: bindE_def split: sum.splits if_splits)
      have "content_settled env spec (Some (fh_attr h ?q)) h = (Inr True, h) \<and> (\<exists>s. fh_tree h ?q = Some (TFile s))" if yes: "y = Inr True"
      proof -
        obtain m where m: "observed = Some m" using st yes by (cases observed) (auto simp: content_settled_def)
        have "content_settled env spec observed h = (Inr True, h)"
          using st yes h2 same by (auto simp: content_settled_def m observe_existing_def bindE_run io_context_run host_read_def fs_call_def
              split: option.splits sum.splits)
        then show ?thesis using obs(2) [OF m] same m by simp
      qed
      then show ?goal using res same by (auto simp: kept_def spares_def)
    next
      case True
      obtain z h3 where w: "write_content env spec body observed h0 = (z, h3)" by fastforce
      note w' = write_content_at [OF site0 obs w]
      have "(\<exists>e. res = Inl e) \<and> z \<noteq> Inr () \<and> h' = h3 \<or> res = Inr ?rep \<and> z = Inr () \<and> h' = h3"
        using run0 ot o' Inr st h2 True w by (auto simp: bindE_def split: sum.splits)
      then show ?goal using w' body k0 s0 wr by blast
    qed
  qed
qed
  then show "spares ?T h h'" and "((\<exists>e. res = Inl e) \<or> res = Inr report_no_change \<and> fh_tree h' = fh_tree h \<and> fh_attr h' = fh_attr h \<and>
       content_settled env spec (Some (fh_attr h (ps @ [n]))) h = (Inr True, h) \<and>
       (\<exists>s. fh_tree h (ps @ [n]) = Some (TFile s))) \<and> kept (ps @ [n]) h h' \<or>
    (\<exists>body. res = Inr (report_changed (''wrote '' @ fc_path spec @ '' (sha256='' @ fc_sha256 spec @ '')'')) \<and>
       fh_sensitive h (res_id r) = Some body \<and> sha256_hex (ce_digest env) body = fc_sha256 spec \<and> wrote env spec ps n body h h')"
    by blast+
qed

section \<open>Planning again\<close>

lemma and_not_idle:
  fixes x :: u32
  assumes "x AND y = 0" shows "x AND NOT y = x"
proof -
  have "x = (x AND y) OR (x AND NOT y)" by (simp flip: bit.conj_disj_distrib)
  then show ?thesis using assms by simp
qed

text \<open>A mode without the set-ID bits survives a change of owner.\<close>

lemma chown_mode_plain:
  fixes m :: u32
  assumes "m AND 0xC00 = 0"
  shows "chown_mode m = m"
proof -
  have "m AND 0x800 = (m AND 0xC00) AND 0x800" "m AND 0x400 = (m AND 0xC00) AND 0x400" by (simp_all add: and.assoc)
  then have z: "m AND 0x800 = 0" "m AND 0x400 = 0" using assms by simp_all
  show ?thesis unfolding chown_mode_def Let_def and_not_idle [OF z(1)] and_not_idle [OF z(2)] by simp
qed

lemma mode_bits_idem [simp]: "mode_bits (mode_bits m) = mode_bits m"
  by (simp add: mode_bits_def and.assoc)

lemma written_mode:
  assumes "fc_mode spec AND 0xC00 = 0"
  shows "fa_mode (written_attr env spec existing a) = mode_bits (fc_mode spec)"
proof -
  have "mode_bits (fc_mode spec) AND 0xC00 = (fc_mode spec AND 0xC00) AND 0xFFF"
    unfolding mode_bits_def by (simp only: ac_simps)
  then have "chown_mode (mode_bits (fc_mode spec)) = mode_bits (fc_mode spec)"
    using assms chown_mode_plain by simp
  then show ?thesis by (simp add: written_attr_def owned_by_def)
qed

text \<open>An apply that writes has found the names of the specification in the user database.\<close>

definition owners_known :: "'w content_env \<Rightarrow> FileContentSpec \<Rightarrow> bool" where
  "owners_known env spec \<longleftrightarrow>
     (\<forall>nm. fc_owner spec = Some nm \<longrightarrow> (\<exists>u. resolve_owner (ce_host env) nm = Inr u)) \<and>
     (\<forall>nm. fc_group spec = Some nm \<longrightarrow> (\<exists>g. resolve_group (ce_host env) nm = Inr g))"

lemma written_owner:
  assumes "owners_known env spec"
  shows "owner_matches (resolve_owner (ce_host env)) (fc_owner spec) (fa_uid (written_attr env spec existing a)) = Inr True"
    "owner_matches (resolve_group (ce_host env)) (fc_group spec) (fa_gid (written_attr env spec existing a)) = Inr True"
  using assms
  by (auto simp: owners_known_def written_attr_def owned_by_def owner_matches_def wanted_id_def bindR_def split: option.splits)

text \<open>
  The attributes that the specification asks for.  The set-ID bits are only promised when the new file has the wanted
  owner from the start; what has no name in the specification stays as it was.
\<close>

definition asked_attr :: "'w content_env \<Rightarrow> FileContentSpec \<Rightarrow> (u32 \<times> u32) option \<Rightarrow> string list \<Rightarrow> file_attr \<Rightarrow> bool" where
  "asked_attr env spec before ps a \<longleftrightarrow>
     fa_mode a AND 0x3FF = fc_mode spec AND 0x3FF \<and>
     (fc_mode spec AND 0xC00 = 0 \<or> fa_uid a = he_euid (ce_host env) \<and> fa_gid a = he_new_gid (ce_host env) ps \<longrightarrow>
        fa_mode a = mode_bits (fc_mode spec)) \<and>
     (case fc_owner spec of
        Some nm \<Rightarrow> resolve_owner (ce_host env) nm = Inr (fa_uid a)
      | None \<Rightarrow> fa_uid a = (case before of Some (u, g) \<Rightarrow> u | None \<Rightarrow> he_euid (ce_host env))) \<and>
     (case fc_group spec of
        Some nm \<Rightarrow> resolve_group (ce_host env) nm = Inr (fa_gid a)
      | None \<Rightarrow> fa_gid a = (case before of Some (u, g) \<Rightarrow> g | None \<Rightarrow> he_new_gid (ce_host env) ps))"

lemma written_low_bits: "fa_mode (written_attr env spec existing a) AND 0x3FF = fc_mode spec AND 0x3FF"
proof -
  have "(NOT 0x800 :: u32) AND 0x3FF = 0x3FF" "(NOT 0x400 :: u32) AND 0x3FF = 0x3FF" by simp_all
  then have "chown_mode m AND 0x3FF = m AND 0x3FF" for m :: u32 by (simp add: chown_mode_def Let_def and.assoc)
  moreover have "mode_bits m AND 0x3FF = m AND 0x3FF" for m by (simp add: mode_bits_def and.assoc)
  ultimately show ?thesis by (simp add: written_attr_def owned_by_def)
qed

lemma written_asked:
  assumes "owners_known env spec"
  shows "asked_attr env spec before ps (written_attr env spec before (new_attr (ce_host env) (ps @ [n])))"
proof -
  let ?n = "new_attr (ce_host env) (ps @ [n])" let ?a = "written_attr env spec before ?n"
  have new: "fa_uid ?n = he_euid (ce_host env)" "fa_gid ?n = he_new_gid (ce_host env) ps" by (simp_all add: new_attr_def)
  have "fa_uid ?a = fa_uid ?n \<Longrightarrow> fa_gid ?a = fa_gid ?n \<Longrightarrow> fa_mode ?a = mode_bits (fc_mode spec)"
    by (auto simp: written_attr_def owned_by_def split: if_splits)
  then have mode: "fc_mode spec AND 0xC00 = 0 \<or> fa_uid ?a = he_euid (ce_host env) \<and> fa_gid ?a = he_new_gid (ce_host env) ps \<longrightarrow>
      fa_mode ?a = mode_bits (fc_mode spec)" using written_mode [of spec env before ?n] new by auto
  have ids: "fa_uid ?a = (case wanted_id (resolve_owner (ce_host env)) (fc_owner spec) (map_option fst before) of Inr (Some u) \<Rightarrow> u | _ \<Rightarrow> fa_uid ?n)"
    "fa_gid ?a = (case wanted_id (resolve_group (ce_host env)) (fc_group spec) (map_option snd before) of Inr (Some g) \<Rightarrow> g | _ \<Rightarrow> fa_gid ?n)"
    by (simp_all add: written_attr_def owned_by_def)
  have "case fc_owner spec of Some nm \<Rightarrow> resolve_owner (ce_host env) nm = Inr (fa_uid ?a)
      | None \<Rightarrow> fa_uid ?a = (case before of Some (u, g) \<Rightarrow> u | None \<Rightarrow> he_euid (ce_host env))"
    using assms unfolding ids(1) new
    by (cases "fc_owner spec"; cases before) (auto simp: owners_known_def wanted_id_def bindR_def)
  moreover have "case fc_group spec of Some nm \<Rightarrow> resolve_group (ce_host env) nm = Inr (fa_gid ?a)
      | None \<Rightarrow> fa_gid ?a = (case before of Some (u, g) \<Rightarrow> g | None \<Rightarrow> he_new_gid (ce_host env) ps)"
    using assms unfolding ids(2) new
    by (cases "fc_group spec"; cases before) (auto simp: owners_known_def wanted_id_def bindR_def)
  ultimately show ?thesis unfolding asked_attr_def using mode written_low_bits [of env spec before ?n] by simp
qed

lemma dropping_temp_Inr: "dropping_temp env tmp m h = (Inr x, h') \<longleftrightarrow> m h = (Inr x, h')"
  by (auto simp: dropping_temp_def split: prod.splits sum.splits)

lemma wanted_id_Inr: "wanted_id resolve nm ex = Inr w \<Longrightarrow> \<forall>x. nm = Some x \<longrightarrow> (\<exists>i. resolve x = Inr i)"
  by (auto simp: wanted_id_def bindR_def split: sum.splits)

lemma fill_temp_knows: "fill_temp env spec body ex parent tmp h = (Inr (), h') \<Longrightarrow> owners_known env spec"
  unfolding fill_temp_def bindE_eq_Inr of_result_app owners_known_def by (blast dest: wanted_id_Inr)

lemma write_via_temp_knows: "write_via_temp env c spec body ex parent dest dt h = (Inr (), h') \<Longrightarrow> owners_known env spec"
  by (auto simp: write_via_temp_def bindE_eq_Inr dropping_temp_Inr dest: fill_temp_knows)

lemma write_content_knows:
  assumes "write_content env spec body observed h = (Inr (), h')"
  shows "owners_known env spec"
proof -
  have "(\<exists>c dest dt ex parent h1 h2. write_via_temp env c spec body ex parent dest dt h1 = (Inr (), h2))"
    using assms
    by (fastforce simp: write_content_def write_atomic_def write_with_validation_def write_to_new_path_def bindE_run throw_def Let_def
        split: option.splits list.splits)
  then show ?thesis using write_via_temp_knows by blast
qed

lemma content_apply_knows:
  assumes "content_spec_of_json (res_payload r) = Some spec" "content_apply env r d h = (Inr rep, h')" "rep \<noteq> report_no_change"
  shows "owners_known env spec \<and> content_validate spec = Inr ()"
proof -
  obtain h1 where sp: "content_spec env r h = (Inr spec, h1)" and ok: "content_validate spec = Inr ()"
    using assms(1,2) by (auto simp: content_apply_def bindE_eq_Inr content_spec_def throw_def ret_def split: sum.splits)
  obtain body where body: "sensitive_take (res_id r) h1 = (Some body, snd (sensitive_take (res_id r) h1))"
    using assms(2) sp by (cases "fst (sensitive_take (res_id r) h1)")
      (auto simp: content_apply_def bindE_def split: prod.splits)
  then have "bindE (observe_target env spec '' in apply'') (\<lambda>observed. bindE (content_settled env spec observed) (\<lambda>settled.
      if settled then ret report_no_change else bindE (write_content env spec body observed) (\<lambda>_.
        ret (report_changed (''wrote '' @ fc_path spec @ '' (sha256='' @ fc_sha256 spec @ '')'')))))
      (snd (sensitive_take (res_id r) h1)) = (Inr rep, h')"
    using assms(2) sp by (simp add: content_apply_def bindE_def split: prod.splits if_splits)
  then obtain observed h2 h3 where
    "bindE (write_content env spec body observed) (\<lambda>_. ret (report_changed (''wrote '' @ fc_path spec @ '' (sha256='' @ fc_sha256 spec @ '')''))) h2
      = (Inr rep, h3)"
    using assms(3) unfolding bindE_eq_Inr [of "observe_target env spec '' in apply''"] bindE_eq_Inr [of "content_settled env spec _"]
    by (auto simp: ret_def split: if_splits)
  then have "write_content env spec body observed h2 = (Inr (), h3)" by (auto simp: bindE_eq_Inr ret_def)
  then show ?thesis using write_content_knows ok by blast
qed

text \<open>The file as it was written is what the specification describes, but for a mode that was lost.\<close>

lemma settled_same:
  assumes "fh_tree h' = fh_tree h" "fh_attr h' = fh_attr h" "content_settled env spec observed h = (x, h)"
  shows "content_settled env spec observed h' = (x, h')"
  using assms
  by (auto simp: content_settled_def observe_existing_def bindE_run io_context_run host_read_def fs_call_def
      split: option.splits sum.splits)

lemma settled_mode:
  assumes "content_settled env spec (Some a) h = (Inr True, h)"
  shows "mode_bits (fa_mode a) = mode_bits (fc_mode spec)"
  using assms
  by (auto simp: content_settled_def observe_existing_def bindE_run matches_spec_def split: if_splits)

lemma written_settled:
  assumes "wrote env spec ps n body h h'" "os_path (fc_path spec) = abs_path (ps @ [n])"
    and "sha256_hex (ce_digest env) body = fc_sha256 spec" "fc_size spec = of_nat (length body)"
    and "owners_known env spec" "he_fs (ce_host env) OpRead (abs_path (ps @ [n])) = None"
  shows "content_settled env spec (Some (fh_attr h' (ps @ [n]))) h' =
    (Inr (mode_bits (fa_mode (fh_attr h' (ps @ [n]))) = mode_bits (fc_mode spec)), h')"
proof -
  let ?a = "written_attr env spec (present_owner h (ps @ [n])) (new_attr (ce_host env) (ps @ [n]))"
  have w: "dirs (fh_tree h') ps" "fh_tree h' (ps @ [n]) = Some (TFile body)" "fh_attr h' (ps @ [n]) = ?a"
    using assms(1) by (auto simp: wrote_def)
  have rd: "host_read (ce_host env) (abs_path (ps @ [n])) h' = (Inr body, h')"
    using canonicalize_file [OF w(1,2)] w(2) assms(6) by (simp add: host_read_def fs_call_def)
  show ?thesis
    unfolding content_settled_def option.case w(3)
    by (simp add: observe_existing_def assms(2) bindE_def io_context_def map_err_def rd ret_def matches_spec_def assms(3,4)
        written_owner [OF assms(5)] bindR_def)
qed

lemma plan_settled:
  assumes "content_spec_of_json (res_payload r) = Some spec" "content_validate spec = Inr ()"
    and "os_path (fc_path spec) = abs_path (ps @ [n])" "dirs (fh_tree h) ps" "fh_tree h (ps @ [n]) = Some (TFile body)"
    and "he_fs (ce_host env) OpLstat (abs_path (ps @ [n])) = None"
    and "content_settled env spec (Some (fh_attr h (ps @ [n]))) h = (Inr same, h)"
  shows "\<exists>diff. content_plan env r h = (Inr diff, h) \<and> (diff = NoChange \<longleftrightarrow> same)"
proof -
  note pl = dirs_plain [OF assms(4)]
  have "host_lstat (ce_host env) (abs_path (ps @ [n])) h = (Inr (TFile body, fh_attr h (ps @ [n])), h)"
    using lstat_plain [OF pl, of n] dir_entry_plain [OF pl, of n] assms(4-6) by (simp add: host_lstat_def fs_call_def)
  then have ob: "observe_target env spec [] h = (Inr (Some (fh_attr h (ps @ [n]))), h)"
    by (simp add: observe_target_def attempt_def assms(3) existing_file_def bindE_def ret_def)
  show ?thesis
    using assms(7) ob unfolding content_plan_def content_spec_def assms(1,2) option.case sum.case content_settled_def
    by (auto simp: bindE_def ret_def content_update_diff_def split: prod.splits sum.splits)
qed

section \<open>Properties\<close>

text \<open>
  C28. \<open>file.content\<close> replaces its file atomically.  When an apply fails, or finds nothing to do, the file at the path has the
  contents and the attributes it had before; when it reports a change, the contents came from the sensitive store under
  this resource's id, have the digest of the specification and are now, complete, the contents of the file, which has the owner
  and the permissions that the specification asks for (the set-ID bits only when the owner need not be changed).  In every case
  all that was on the host before keeps its contents and attributes, but for the file, its backups in the backup
  directory, and, with a validator, the \<open>.new\<close> file.
\<close>

theorem file_content_atomic:
  assumes "content_spec_of_json (res_payload r) = Some spec" "content_site env spec ps n h"
    and "content_apply env r d h = (res, h')"
  shows "(((\<exists>e. res = Inl e) \<or> res = Inr report_no_change) \<and> fh_tree h' (ps @ [n]) = fh_tree h (ps @ [n]) \<and>
      fh_attr h' (ps @ [n]) = fh_attr h (ps @ [n]) \<or>
    (\<exists>body. res = Inr (report_changed (''wrote '' @ fc_path spec @ '' (sha256='' @ fc_sha256 spec @ '')'')) \<and>
       fh_sensitive h (res_id r) = Some body \<and> sha256_hex (ce_digest env) body = fc_sha256 spec \<and>
       fh_tree h' (ps @ [n]) = Some (TFile body) \<and>
       asked_attr env spec (present_owner h (ps @ [n])) ps (fh_attr h' (ps @ [n])))) \<and>
    (\<forall>y node. fh_tree h y = Some node \<and> y \<notin> content_files env spec ps n \<longrightarrow>
       fh_tree h' y = Some node \<and> fh_attr h' y = fh_attr h y)"
proof -
  have "asked_attr env spec (present_owner h (ps @ [n])) ps (fh_attr h' (ps @ [n]))"
    if "res = Inr (report_changed m)" "wrote env spec ps n body h h'" for m body
  proof -
    have "report_changed m \<noteq> report_no_change" by (simp add: report_changed_def report_no_change_def)
    then have "owners_known env spec" using content_apply_knows [OF assms(1), of env d h _ h'] assms(3) that(1) by blast
    then show ?thesis using that(2) written_asked by (auto simp: wrote_def)
  qed
  then show ?thesis
    using content_apply_run [OF assms] unfolding wrote_def kept_def spares_def by (elim disjE conjE exE) auto
qed

text \<open>
  C29. With \<open>validate_with\<close> the file is only replaced by contents the validator has accepted: if an apply changes the file
  or its attributes, the validator was run, with \<open>{new_path}\<close> replaced, in a state in which the \<open>.new\<close> file had the contents and
  attributes that the file now has and the file itself was still the old one, and the run succeeded.
\<close>

theorem file_content_validated:
  assumes "content_spec_of_json (res_payload r) = Some spec" "content_site env spec ps n h"
    and "content_apply env r d h = (res, h')" "fc_validate_with spec = Some argv" "\<not> kept (ps @ [n]) h h'"
  shows "\<exists>body s. fh_sensitive h (res_id r) = Some body \<and> fh_tree h' (ps @ [n]) = Some (TFile body) \<and>
    accepted env argv spec ps n body (fh_attr h' (ps @ [n])) s \<and> kept (ps @ [n]) h s"
  using content_apply_run [OF assms(1-3)] assms(4,5) unfolding wrote_def by (simp split: option.splits) blast

text \<open>
  C30. \<open>file.content\<close> converges: after a successful apply, whether it reported a change or not, a plan of the same resource finds
  nothing to do exactly when the file has the mode that was asked for; and it has, unless a set-ID bit was asked for.
  The payload has the size of the contents, and the file can be looked at.
\<close>

theorem file_content_converges:
  assumes "content_spec_of_json (res_payload r) = Some spec" "content_site env spec ps n h"
    and "content_apply env r d h = (Inr rep, h')"
    and "\<And>body. fh_sensitive h (res_id r) = Some body \<Longrightarrow> fc_size spec = of_nat (length body)"
    and "he_fs (ce_host env) OpLstat (abs_path (ps @ [n])) = None" "he_fs (ce_host env) OpRead (abs_path (ps @ [n])) = None"
  shows "(if mode_bits (fa_mode (fh_attr h' (ps @ [n]))) = mode_bits (fc_mode spec) then content_plan env r h' = (Inr NoChange, h')
      else fc_mode spec AND 0xC00 \<noteq> 0 \<and> (\<exists>diff. content_plan env r h' = (Inr diff, h') \<and> \<not> is_no_change diff))"
proof -
  have path: "os_path (fc_path spec) = abs_path (ps @ [n])" using assms(2) by (simp add: content_site_def)
  have valid: "content_validate spec = Inr ()"
    using assms(1,3) by (auto simp: content_apply_def content_spec_def bindE_eq_Inr throw_def ret_def split: sum.splits)
  let ?same = "mode_bits (fa_mode (fh_attr h' (ps @ [n]))) = mode_bits (fc_mode spec)"
  have "\<exists>body. dirs (fh_tree h') ps \<and> fh_tree h' (ps @ [n]) = Some (TFile body) \<and>
      content_settled env spec (Some (fh_attr h' (ps @ [n]))) h' = (Inr ?same, h') \<and> (\<not> ?same \<longrightarrow> fc_mode spec AND 0xC00 \<noteq> 0)"
  proof (cases "rep = report_no_change")
    case True
    then have u: "fh_tree h' = fh_tree h" "fh_attr h' = fh_attr h" "content_settled env spec (Some (fh_attr h (ps @ [n]))) h = (Inr True, h)"
        "\<exists>s. fh_tree h (ps @ [n]) = Some (TFile s)"
      using content_apply_run(2) [OF assms(1-3)] by (auto simp: report_no_change_def report_changed_def)
    moreover have "dirs (fh_tree h) ps" using assms(2) u(4) tree_wf_dirs unfolding content_site_def by blast
    ultimately show ?thesis using settled_same [OF u(1,2)] settled_mode [OF u(3)] by auto
  next
    case False
    note kn = content_apply_knows [OF assms(1,3) False]
    obtain body where body: "fh_sensitive h (res_id r) = Some body" "sha256_hex (ce_digest env) body = fc_sha256 spec" "wrote env spec ps n body h h'"
      using content_apply_run(2) [OF assms(1-3)] False by blast
    have attr: "fh_attr h' (ps @ [n]) = written_attr env spec (present_owner h (ps @ [n])) (new_attr (ce_host env) (ps @ [n]))"
      using body(3) by (simp add: wrote_def)
    have "?same" if "fc_mode spec AND 0xC00 = 0" unfolding attr written_mode [OF that] by simp
    then show ?thesis
      using written_settled [OF body(3) path body(2) assms(4) [OF body(1)] conjunct1 [OF kn] assms(6)] body(3) by (auto simp: wrote_def)
  qed
  then obtain body where "dirs (fh_tree h') ps" "fh_tree h' (ps @ [n]) = Some (TFile body)"
      "content_settled env spec (Some (fh_attr h' (ps @ [n]))) h' = (Inr ?same, h')" and lost: "\<not> ?same \<Longrightarrow> fc_mode spec AND 0xC00 \<noteq> 0"
    by blast
  from plan_settled [OF assms(1) valid path this(1,2) assms(5) this(3)] obtain diff
    where "content_plan env r h' = (Inr diff, h')" "diff = NoChange \<longleftrightarrow> ?same" by blast
  moreover have "is_no_change diff \<longleftrightarrow> diff = NoChange" by (cases diff) (simp_all add: is_no_change_def)
  ultimately show ?thesis using lost by auto
qed

section \<open>Examples\<close>

definition content_tree :: file_tree where
  "content_tree = map_of [([''srv''], TDir)]"

definition sample_env :: host_env where
  "sample_env = \<lparr>he_fs = (\<lambda>op p. None), he_lister = (\<lambda>t dir. []), he_temp_name = (\<lambda>t p. ''.tmpA''), he_written = (\<lambda>p. None),
     he_euid = 0, he_new_gid = (\<lambda>p. 0), he_passwd = (\<lambda>nm. if nm = ''www'' then NssId 33 else NssUnknown), he_group = (\<lambda>nm. NssUnknown)\<rparr>"

text \<open>A digest of one byte, and a validator that accepts everything.\<close>

definition sample_content_env :: "unit content_env" where
  "sample_content_env = \<lparr>ce_host = sample_env, ce_digest = (\<lambda>s. [of_nat (length s)]), ce_validator = (\<lambda>argv d. ret ()),
     ce_utc = (\<lambda>w. ''20240101T000000Z''), ce_backup_root = ''/bak'', ce_serde_error = (\<lambda>v. [])\<rparr>"

definition sample_spec :: FileContentSpec where
  "sample_spec = \<lparr>fc_path = ''/srv/f'', fc_mode = 0x180, fc_owner = Some ''www'', fc_group = None, fc_sha256 = ''03'', fc_size = 3,
     fc_validate_with = Some [''check'', ''{new_path}'']\<rparr>"

definition sample_content :: Resource where
  "sample_content = \<lparr>res_id = ''file.content:f'', res_kind = ''file.content'', res_spec_version = 1,
     res_payload = JObject [(''content_sha256'', JString ''03''), (''content_size'', JNumber (PosInt 3)), (''mode'', JNumber (PosInt 384)),
       (''owner'', JString ''www''), (''path'', JString ''/srv/f''), (''validate_with'', JArray [JString ''check'', JString ''{new_path}''])],
     res_reload_on = [], res_restart_on = [], res_depends_on = []\<rparr>"

definition sample_host :: "unit file_host" where
  "sample_host = \<lparr>fh_tree = content_tree, fh_attr = (\<lambda>p. \<lparr>fa_mode = 0x1ED, fa_uid = 0, fa_gid = 0\<rparr>),
     fh_sensitive = [''file.content:f'' \<mapsto> ''new''], fh_outside = ()\<rparr>"

lemma sample_content_spec: "content_spec_of_json (res_payload sample_content) = Some sample_spec"
  by (simp add: sample_content_def sample_spec_def content_spec_of_json_def de_field_def de_default_field_def de_opt_field_def int_to_word_def)

lemma content_tree_wf: "tree_wf content_tree"
proof -
  have fin: "finite {n. content_tree (dir @ [n]) \<noteq> None}" for dir unfolding content_tree_def by (rule finite_entries)
  have up: "dir = [] \<or> content_tree dir = Some TDir" if "content_tree (dir @ [n]) \<noteq> None" for dir n
    using that by (auto simp: content_tree_def append_eq_Cons_conv split: if_splits)
  show ?thesis unfolding tree_wf_def using fin up by blast
qed

lemma sample_content_site: "content_site sample_content_env sample_spec [''srv''] ''f'' sample_host"
proof -
  have "path_components ''/bak'' = abs_path [''bak'']" "os_path ''/srv/f'' = abs_path [''srv'', ''f'']"
    by (simp_all add: os_path_def path_components_def ends_open_def component_of_def abs_path_def)
  moreover have "plain_dirs content_tree [''srv'']" "backup_area [''bak''] [''srv''] content_tree"
    by (auto simp: plain_dirs_def backup_area_def content_tree_def prefix_Cons)
  ultimately show ?thesis
    unfolding content_site_def
    by (auto simp: sample_content_env_def sample_env_def sample_spec_def sample_host_def content_tree_wf reads_only_def ret_def
        intro!: exI [of _ "[''bak'']"])
qed

lemmas content_eval = content_apply_def content_spec_def sample_content_spec content_validate_def bindE_def
    sensitive_take_def observe_target_def attempt_def is_absolute_def has_parent_dir_segment_def
    path_components_def component_of_def ends_open_def os_path_def sample_content_env_def sample_env_def sample_host_def sample_spec_def
    host_lstat_def fs_call_def lstat_def canonicalize_def MAX_LINKS_def content_tree_def content_settled_def write_content_def
    write_with_validation_def path_parent_def new_path_for_def file_name_def make_parent_def fs_exists_def write_to_new_path_def
    write_via_temp_def io_context_def map_err_def host_temp_def dir_entry_def temp_path_def dropping_temp_def fill_temp_def
    host_write_def host_sync_def host_chmod_def of_result_def wanted_id_def resolve_owner_def bindR_def host_stat_def
    chown_if_needed_def host_chown_def host_rename_def set_file_def new_attr_def ret_def mode_bits_def Let_def

lemma sample_digest: "sha256_hex (ce_digest sample_content_env) ''new'' = ''03''"
  by code_simp

lemma sample_stored: "fh_sensitive sample_host (res_id sample_content) = Some ''new''"
  by (simp add: sample_host_def sample_content_def)

lemma sample_absent: "fh_tree sample_host [''srv'', ''f''] = None"
  by (simp add: sample_host_def content_tree_def)

lemma sample_content_run:
  "\<exists>h'. content_apply sample_content_env sample_content (Add [] JNull) sample_host =
     (Inr (report_changed ''wrote /srv/f (sha256=03)''), h')"
proof -
  have i: "res_id sample_content = ''file.content:f''" by (simp add: sample_content_def)
  have w: "\<exists>h'. write_content sample_content_env sample_spec ''new'' None (sample_host\<lparr>fh_sensitive := f\<rparr>) = (Inr (), h')" for f
    by (simp add: content_eval)
  have ob: "observe_target sample_content_env sample_spec '' in apply'' (sample_host\<lparr>fh_sensitive := f\<rparr>) = (Inr None, sample_host\<lparr>fh_sensitive := f\<rparr>)" for f
    by (simp add: content_eval)
  have sp: "content_spec sample_content_env sample_content sample_host = (Inr sample_spec, sample_host)"
    by (simp add: content_eval)
  have tk: "sensitive_take (res_id sample_content) sample_host = (Some ''new'', sample_host\<lparr>fh_sensitive := Map.empty\<rparr>)"
    by (simp add: i sensitive_take_def sample_host_def)
  have fs: "fc_path sample_spec = ''/srv/f''" "fc_sha256 sample_spec = ''03''" by (simp_all add: sample_spec_def)
  show ?thesis
    using w [of Map.empty] sample_digest
    by (auto simp: content_apply_def bindE_def sp tk ob content_settled_def ret_def fs)
qed

lemma sample_content_wrote:
  assumes "content_apply sample_content_env sample_content (Add [] JNull) sample_host =
     (Inr (report_changed ''wrote /srv/f (sha256=03)''), h')"
  shows "fh_tree h' [''srv'', ''f''] = Some (TFile ''new'')"
  using content_apply_run [OF sample_content_spec sample_content_site assms]
  by (auto simp: wrote_def report_changed_def report_no_change_def sample_stored)

theorem file_content_atomic_witness:
  "\<exists>h'. content_apply sample_content_env sample_content (Add [] JNull) sample_host =
       (Inr (report_changed ''wrote /srv/f (sha256=03)''), h') \<and>
     fh_tree h' [''srv'', ''f''] = Some (TFile ''new'') \<and> fa_mode (fh_attr h' [''srv'', ''f'']) = 0x180 \<and>
     fa_uid (fh_attr h' [''srv'', ''f'']) = 33"
proof -
  obtain h' where run: "content_apply sample_content_env sample_content (Add [] JNull) sample_host =
     (Inr (report_changed ''wrote /srv/f (sha256=03)''), h')" using sample_content_run by blast
  with run show ?thesis
    using file_content_atomic [OF sample_content_spec sample_content_site run]
    by (auto simp: report_changed_def report_no_change_def sample_stored sample_absent present_owner_def asked_attr_def
        sample_content_env_def sample_env_def sample_spec_def resolve_owner_def mode_bits_def)
qed

theorem file_content_validated_witness:
  "\<exists>h' s. fst (content_apply sample_content_env sample_content (Add [] JNull) sample_host) = Inr (report_changed ''wrote /srv/f (sha256=03)'') \<and>
     h' = snd (content_apply sample_content_env sample_content (Add [] JNull) sample_host) \<and>
     accepted sample_content_env [''check'', ''{new_path}''] sample_spec [''srv''] ''f'' ''new'' (fh_attr h' [''srv'', ''f'']) s \<and>
     fh_tree s [''srv'', ''f''] = None"
proof -
  obtain h' where run: "content_apply sample_content_env sample_content (Add [] JNull) sample_host =
     (Inr (report_changed ''wrote /srv/f (sha256=03)''), h')" using sample_content_run by blast
  have vw: "fc_validate_with sample_spec = Some [''check'', ''{new_path}'']" by (simp add: sample_spec_def)
  have nk: "\<not> kept ([''srv''] @ [''f'']) sample_host h'"
    using sample_content_wrote [OF run] sample_absent by (simp add: kept_def)
  show ?thesis
    using file_content_validated [OF sample_content_spec sample_content_site run vw nk] run
    by (auto simp: sample_stored sample_absent kept_def)
qed

theorem file_content_converges_witness:
  "\<exists>h'. snd (content_apply sample_content_env sample_content (Add [] JNull) sample_host) = h' \<and>
     fh_tree h' [''srv'', ''f''] = Some (TFile ''new'') \<and> content_plan sample_content_env sample_content h' = (Inr NoChange, h')"
proof -
  obtain h' where run: "content_apply sample_content_env sample_content (Add [] JNull) sample_host =
     (Inr (report_changed ''wrote /srv/f (sha256=03)''), h')" using sample_content_run by blast
  have "content_plan sample_content_env sample_content h' = (Inr NoChange, h')"
    using file_content_converges [OF sample_content_spec sample_content_site run]
    by (simp add: sample_spec_def sample_content_env_def sample_env_def sample_host_def sample_content_def split: if_splits)
  then show ?thesis using run sample_content_wrote [OF run] by simp
qed

section \<open>A mode that does not settle\<close>

text \<open>
  The mode is set before the owner, and changing the owner takes the set-user-ID bit away: such a file is written with another
  mode than its specification asks for, and the next plan finds a change again.
\<close>

lemma written_mode_setuid:
  assumes "fc_mode spec = 0x9ED" "fc_owner spec = Some u" "resolve_owner (ce_host env) u = Inr i" "i \<noteq> fa_uid a"
  shows "fa_mode (written_attr env spec existing a) = 0x1ED \<and> mode_bits (fc_mode spec) = 0x9ED"
  using assms by (simp add: written_attr_def owned_by_def wanted_id_def bindR_def chown_mode_def mode_bits_def Let_def)

end
