(* ===== verification/Starlark_Calls.thy ===== *)
theory Starlark_Calls
  imports Call_Args Path_Safety Inventory File_Common Digest Std_Fmt
begin

text \<open>
  \<open>bosun-core/src/starlark_glue/globals.rs\<close> and \<open>inv_object.rs\<close>: the functions a manifest can call.  The Starlark
  interpreter is not part of the repository; its values are the datatype \<open>star_value\<close>, with what the glue distinguishes, and
  what the crate does to them (\<open>to_json_value\<close>, \<open>get_type\<close>) are parameters.  A function runs on the state of one evaluation
  (\<open>EvalState\<close>); an error it raises is its message, without the position that the interpreter prints around it.
\<close>

section \<open>Values and state\<close>

text \<open>A float is the number it comes from; \<open>SOther\<close> is any other value, with its type.\<close>

datatype star_value =
    SNone
  | SStr string
  | SBool bool
  | SInt int
  | SFloat number
  | SHandle ResourceId
  | SList "star_value list"
  | SDict "(star_value \<times> star_value) list"
  | SOther string nat

datatype StarlarkGlueError =
    GlueSyntax string string
  | GlueEval string
  | InvalidCall string string
  | UnknownPrimitive string
  | GlueBundle BundleError
  | LoadCycle string

datatype yaml =
    YNull
  | YBool bool
  | YNumber number
  | YString string
  | YSequence "yaml list"
  | YMapping "(yaml \<times> yaml) list"
  | YTagged string yaml

text \<open>\<open>'m\<close> is a module of the interpreter after its evaluation.\<close>

record 'm eval_state =
  ev_registry :: Registry
  ev_sensitive :: "string \<Rightarrow> string option"
  ev_errors :: "StarlarkGlueError list"
  ev_modules :: "string list list"
  ev_inventory :: "string list \<Rightarrow> json option"
  ev_loaded :: "string list \<Rightarrow> 'm option"
  ev_checks :: nat

type_synonym ('m, 'a) native = "('m eval_state, string, 'a) prog"

record glue_primitive =
  gp_identity_keys :: "string list"
  gp_build_payload :: "CallArgs \<Rightarrow> json unwind"

record glue_env =
  ge_to_json :: "star_value \<Rightarrow> string + json"
  ge_type :: "star_value \<Rightarrow> string"
  ge_json_text :: "json \<Rightarrow> string"
  ge_yaml :: "string \<Rightarrow> string + yaml"
  ge_yaml_text :: "yaml \<Rightarrow> string"
  ge_digest :: "string \<Rightarrow> 8 word list"
  ge_tree :: file_tree
  ge_cwd :: "string list"
  ge_bundle :: Bundle
  ge_primitives :: "ResourceKind \<Rightarrow> glue_primitive option"
  ge_facts :: "string \<Rightarrow> FactValue"
  ge_tags :: "string list"
  ge_template :: "string list \<Rightarrow> string \<Rightarrow> json \<Rightarrow> string + string"
  ge_json_debug :: "json option \<Rightarrow> string"

section \<open>The text of errors\<close>

definition debug_names :: "string list \<Rightarrow> string" where
  "debug_names names = debug_str (show_path (abs_path names))"

definition show_path_safety_error :: "PathSafetyError \<Rightarrow> string" where
  "show_path_safety_error e =
     (case e of
        Absolute p \<Rightarrow> ''path must be relative, got absolute: '' @ p
      | HasParentDir p \<Rightarrow> ''path contains parent-dir segment ('' @ [CHR 0x27] @ ''..'' @ [CHR 0x27] @ ''): '' @ p
      | NulByte \<Rightarrow> ''path contains NUL byte''
      | PsNotFound p \<Rightarrow> ''path not found: '' @ show_path p
      | NotInRoot root attempted \<Rightarrow>
          ''path resolves outside root: attempted='' @ debug_names attempted @ '', root='' @ debug_names root
      | IsSymlink p \<Rightarrow> ''path is a symlink (refusing to follow): '' @ show_path p
      | PsIo p e \<Rightarrow> ''io error while resolving path '' @ show_path p @ '': '' @ io_text e)"

definition show_bundle_error :: "BundleError \<Rightarrow> string" where
  "show_bundle_error e =
     (case e of
        BeIo path source \<Rightarrow> ''io error reading bundle at '' @ path
      | InvalidManifest m \<Rightarrow> ''invalid bundle.toml: '' @ m
      | EntryNotFound p \<Rightarrow> ''bundle entry file not found: '' @ show_path p
      | InvalidYaml path source \<Rightarrow> ''invalid yaml in '' @ path @ '': '' @ source
      | VersionIncompatible required current \<Rightarrow> ''bundle requires bosun '' @ required @ '' but current is '' @ current
      | ModuleNotFound load_path fs_path \<Rightarrow>
          ''module not found: load path '' @ [CHR 0x27] @ load_path @ [CHR 0x27] @ '' resolves to '' @ debug_str (show_path fs_path)
      | UnsupportedLoadPath load_path \<Rightarrow>
          ''unsupported load path: '' @ [CHR 0x27] @ load_path @ [CHR 0x27] @
          '' (expected @bosun/builtins, @roles/<name>, or @lib/<name>)''
      | UnsupportedModuleForTemplate module \<Rightarrow>
          ''template() called from unsupported module: '' @ debug_names module @
          '' (only roles/<name>/main.star or _lib/<name>/main.star)''
      | TemplateFromEntry hint \<Rightarrow> ''template() cannot be called from bundle entry (main.star): '' @ hint
      | PrivateSymbol symbol module \<Rightarrow>
          ''private symbol '' @ [CHR 0x27] @ symbol @ [CHR 0x27] @ '' cannot be imported from '' @
          (if module = [] then debug_str [] else debug_names module)
      | BePathSafety e \<Rightarrow> ''path-safety violation: '' @ show_path_safety_error e
      | DefaultMergeStrategyMissing \<Rightarrow>
          ''inventory.merge: missing default merge strategy; set [bundle.inventory].default_merge_strategy in bundle.toml or pass strategy= argument'')"

definition show_glue_error :: "StarlarkGlueError \<Rightarrow> string" where
  "show_glue_error e =
     (case e of
        GlueSyntax file message \<Rightarrow> ''starlark syntax error in '' @ file @ '': '' @ message
      | GlueEval m \<Rightarrow> ''starlark evaluation error: '' @ m
      | InvalidCall kind reason \<Rightarrow> ''invalid call to '' @ kind @ '': '' @ reason
      | UnknownPrimitive kind \<Rightarrow> ''primitive not registered: '' @ kind
      | GlueBundle b \<Rightarrow> ''bundle error: '' @ show_bundle_error b
      | LoadCycle m \<Rightarrow> ''load cycle detected: '' @ m)"

definition show_inventory_error :: "InventoryError \<Rightarrow> string" where
  "show_inventory_error e =
     (case e of
        KeyNotFound key \<Rightarrow> ''inv: key '' @ [CHR 0x27] @ key @ [CHR 0x27] @ '' not found in inventory''
      | TypeMismatch path expected actual \<Rightarrow>
          ''inv: type mismatch at '' @ [CHR 0x27] @ path @ [CHR 0x27] @ '': expected '' @ expected @ '', got '' @ actual
      | KeyedListMissingKey path key \<Rightarrow>
          ''inventory.merge_keyed: list at '' @ [CHR 0x27] @ path @ [CHR 0x27] @ '' contains element without key '' @ [CHR 0x27] @ key @ [CHR 0x27]
      | KeyedListNonMapElement path \<Rightarrow>
          ''inventory.merge_keyed: list at '' @ [CHR 0x27] @ path @ [CHR 0x27] @ '' contains non-map element''
      | UnknownMergeStrategy s \<Rightarrow> ''inventory.merge: unknown strategy '' @ [CHR 0x27] @ s @ [CHR 0x27])"

definition show_registry_error :: "RegistryError \<Rightarrow> string" where
  "show_registry_error e =
     (case e of
        DuplicateId i \<Rightarrow> ''duplicate resource id: '' @ i
      | UnknownHandle i \<Rightarrow> ''unknown handle referenced: '' @ i
      | Cycle nodes \<Rightarrow> ''dependency cycle detected; stuck nodes: '' @ nodes)"

definition show_kind_error :: "ResourceKindError \<Rightarrow> string" where
  "show_kind_error e =
     (case e of
        EmptyKind \<Rightarrow> ''resource kind must be non-empty''
      | InvalidKindChar s \<Rightarrow>
          ''resource kind '' @ [CHR 0x27] @ s @ [CHR 0x27] @ '' contains invalid character; expected kebab-case dotted (e.g. apt.package)'')"

definition push_error :: "StarlarkGlueError \<Rightarrow> 'm eval_state \<Rightarrow> 'm eval_state" where
  "push_error e st = st\<lparr>ev_errors := ev_errors st @ [e]\<rparr>"

text \<open>Note the error in the state and raise its text.\<close>

definition raise_glue :: "StarlarkGlueError \<Rightarrow> ('m, 'a) native" where
  "raise_glue e = (\<lambda>st. (Inl (show_glue_error e), push_error e st))"

definition record_invalid_call_in :: "string \<Rightarrow> string \<Rightarrow> ('m, 'a) native" where
  "record_invalid_call_in kind reason = raise_glue (InvalidCall kind reason)"

definition or_invalid :: "string \<Rightarrow> ('e \<Rightarrow> string) \<Rightarrow> 'e + 'a \<Rightarrow> ('m, 'a) native" where
  "or_invalid kind show_e r = (case r of Inl e \<Rightarrow> record_invalid_call_in kind (show_e e) | Inr x \<Rightarrow> ret x)"

definition lift_error :: "string + 'a \<Rightarrow> ('m, 'a) native" where
  "lift_error r = (case r of Inl e \<Rightarrow> throw e | Inr x \<Rightarrow> ret x)"

section \<open>Arguments\<close>

fun handles_of :: "star_value list \<Rightarrow> ResourceId list option" where
  "handles_of [] = Some []"
| "handles_of (SHandle i # vs) = map_option ((#) i) (handles_of vs)"
| "handles_of _ = None"

definition value_to_arg :: "glue_env \<Rightarrow> star_value \<Rightarrow> string + ArgValue" where
  "value_to_arg env v =
     (let other = (case ge_to_json env v of Inl e \<Rightarrow> Inl e | Inr j \<Rightarrow> Inr (ArgOther j))
      in case v of
           SNone \<Rightarrow> Inr (ArgOther JNull)
         | SStr s \<Rightarrow> Inr (ArgStr s)
         | SBool b \<Rightarrow> Inr (ArgBool b)
         | SInt i \<Rightarrow> (if - (2 ^ 31) \<le> i \<and> i < 2 ^ 31 then Inr (ArgInt (word_of_int i)) else other)
         | SList vs \<Rightarrow> (case handles_of vs of Some hs \<Rightarrow> Inr (ArgHandleList hs) | None \<Rightarrow> other)
         | _ \<Rightarrow> other)"

definition key_text :: "glue_env \<Rightarrow> string \<Rightarrow> star_value \<Rightarrow> string + string" where
  "key_text env context k =
     (case k of SStr s \<Rightarrow> Inr s | _ \<Rightarrow> Inl (context @ ''kwargs key must be a string, got '' @ ge_type env k))"

fun collect_args :: "glue_env \<Rightarrow> (star_value \<times> star_value) list \<Rightarrow> CallArgs \<Rightarrow> string + CallArgs" where
  "collect_args env [] out = Inr out"
| "collect_args env ((k, v) # kvs) out =
     bindR (key_text env [] k) (\<lambda>key. bindR (value_to_arg env v) (\<lambda>a. collect_args env kvs (out(key \<mapsto> a))))"

definition kwargs_to_call_args :: "glue_env \<Rightarrow> star_value \<Rightarrow> string + CallArgs" where
  "kwargs_to_call_args env kwargs =
     (case kwargs of SDict kvs \<Rightarrow> collect_args env kvs Map.empty | _ \<Rightarrow> Inl ''internal: kwargs is not a dict'')"

fun collect_json :: "glue_env \<Rightarrow> (star_value \<times> star_value) list \<Rightarrow> json_map \<Rightarrow> string + json_map" where
  "collect_json env [] out = Inr out"
| "collect_json env ((k, v) # kvs) out =
     bindR (key_text env ''template: '' k) (\<lambda>key. bindR (ge_to_json env v) (\<lambda>j. collect_json env kvs (obj_insert key j out)))"

definition kwargs_to_json :: "glue_env \<Rightarrow> star_value \<Rightarrow> string + json" where
  "kwargs_to_json env kwargs =
     (case kwargs of
        SDict kvs \<Rightarrow> (case collect_json env kvs [] of Inl e \<Rightarrow> Inl e | Inr m \<Rightarrow> Inr (JObject m))
      | _ \<Rightarrow> Inl ''internal: template kwargs not a dict'')"

section \<open>Registering a resource\<close>

text \<open>The kinds that are known to the glue.\<close>

definition BUILTIN_KINDS :: "string list" where
  "BUILTIN_KINDS = [''apt.key'', ''apt.package'', ''apt.update_cache'', ''cert.tls'', ''file.content'', ''file.delete'', ''file.symlink'',
     ''runr.service'', ''runr.timer'', ''runr.cgroup'', ''systemd.service'', ''systemd.timer'', ''pg_sql.exec'', ''pg_sql.query'',
     ''process.signal'', ''sysctl.reload'', ''users.user'', ''users.group'']"

definition resolve_kind :: "string \<Rightarrow> string + ResourceKind" where
  "resolve_kind kind_str =
     (if kind_str \<in> set BUILTIN_KINDS then Inr kind_str
      else case resource_kind_try_new kind_str of
             Inl e \<Rightarrow> Inl (''invalid resource kind '' @ [CHR 0x27] @ kind_str @ [CHR 0x27] @ '': '' @ show_kind_error e)
           | Inr k \<Rightarrow> Inr k)"

text \<open>The contents are taken out of the arguments, and their digest and size put in.\<close>

definition extract_sensitive_contents :: "glue_env \<Rightarrow> CallArgs \<Rightarrow> string + string \<times> CallArgs" where
  "extract_sensitive_contents env args =
     (case take_raw ''contents'' args of
        (Some (ArgStr s), rest) \<Rightarrow>
          (if 2 ^ 63 \<le> length s then Inl ''file.content: contents too large for i64 size''
           else Inr (s, put_raw ''content_size'' (ArgInt (word_of_nat (length s)))
                  (put_raw ''content_sha256'' (ArgStr (sha256_hex (ge_digest env) s)) rest)))
      | (Some other, rest) \<Rightarrow>
          Inl (''file.content: '' @ [CHR 0x27] @ ''contents'' @ [CHR 0x27] @ '' must be str, got '' @ arg_type_name other)
      | (None, rest) \<Rightarrow>
          Inl (''file.content: missing required argument '' @ [CHR 0x27] @ ''contents'' @ [CHR 0x27]))"

definition take_contents :: "glue_env \<Rightarrow> string \<Rightarrow> CallArgs \<Rightarrow> ('m, string option \<times> CallArgs) native" where
  "take_contents env kind_str args =
     (if kind_str = ''file.content''
      then bindE (or_invalid kind_str id (extract_sensitive_contents env args)) (\<lambda>(contents, rest). ret (Some contents, rest))
      else ret (None, args))"

fun identity_parts :: "string list \<Rightarrow> CallArgs \<Rightarrow> CallArgsError + string list" where
  "identity_parts [] args = Inr []"
| "identity_parts (key # keys) args =
     bindR (required_str args key) (\<lambda>part. bindR (identity_parts keys args) (\<lambda>parts. Inr (part # parts)))"

definition build_identity :: "string list \<Rightarrow> CallArgs \<Rightarrow> CallArgsError + string" where
  "build_identity keys args = bindR (identity_parts keys args) (\<lambda>parts. Inr (join_with '':'' parts))"

definition build_resource :: "glue_env \<Rightarrow> string \<Rightarrow> ResourceKind \<Rightarrow> CallArgs \<Rightarrow> ('m, Resource) native" where
  "build_resource env kind_str kind args =
     (case ge_primitives env kind of
        None \<Rightarrow> raise_glue (UnknownPrimitive kind_str)
      | Some primitive \<Rightarrow>
          bindE (or_invalid kind_str show_call_args_error (build_identity (gp_identity_keys primitive) args)) (\<lambda>identity.
          bindE (or_invalid kind_str show_primitive_error
            (result_of (call_primitive (''build_payload '' @ kind_str) (\<lambda>w. (gp_build_payload primitive args, w))) ())) (\<lambda>payload.
          bindE (or_invalid kind_str show_call_args_error (optional_handle_list args ''reload_on'')) (\<lambda>reload_on.
          bindE (or_invalid kind_str show_call_args_error (optional_handle_list args ''restart_on'')) (\<lambda>restart_on.
          bindE (or_invalid kind_str show_call_args_error (optional_handle_list args ''depends_on'')) (\<lambda>depends_on.
          ret \<lparr>res_id = resource_id_new kind identity, res_kind = kind, res_spec_version = 1, res_payload = payload,
               res_reload_on = reload_on, res_restart_on = restart_on, res_depends_on = depends_on\<rparr>))))))"

definition put_contents :: "ResourceId \<Rightarrow> string option \<Rightarrow> ('m, unit) native" where
  "put_contents i contents = (\<lambda>st.
     (Inr (), case contents of None \<Rightarrow> st | Some c \<Rightarrow> st\<lparr>ev_sensitive := (ev_sensitive st)(i \<mapsto> c)\<rparr>))"

definition add_resource :: "string \<Rightarrow> Resource \<Rightarrow> ('m, unit) native" where
  "add_resource kind_str r = (\<lambda>st.
     case registry_add (ev_registry st) r of
       Inl e \<Rightarrow> record_invalid_call_in kind_str (show_registry_error e) st
     | Inr (i, reg) \<Rightarrow> (Inr (), st\<lparr>ev_registry := reg\<rparr>))"

definition register_primitive_call :: "glue_env \<Rightarrow> string \<Rightarrow> star_value \<Rightarrow> ('m, star_value) native" where
  "register_primitive_call env kind_str kwargs =
     bindE (lift_error (kwargs_to_call_args env kwargs)) (\<lambda>args0.
     bindE (lift_error (resolve_kind kind_str)) (\<lambda>kind.
     bindE (take_contents env kind_str args0) (\<lambda>(contents, args).
     bindE (build_resource env kind_str kind args) (\<lambda>r.
     bindE (put_contents (res_id r) contents) (\<lambda>_.
     bindE (add_resource kind_str r) (\<lambda>_.
     ret (SHandle (res_id r))))))))"

section \<open>service.unit\<close>

definition SERVICE_UNIT_ALLOWED_KWARGS :: "string list" where
  "SERVICE_UNIT_ALLOWED_KWARGS = [''name'', ''state'', ''enable'', ''health_check_cmd'', ''health_check_url'',
     ''health_check_expected_status'', ''health_check_retry'', ''health_check_retry_interval_sec'', ''health_check_timeout_sec'',
     ''validate_with'', ''reload_on'', ''restart_on'', ''depends_on'']"

fun check_unit_keys :: "glue_env \<Rightarrow> (star_value \<times> star_value) list \<Rightarrow> string + unit" where
  "check_unit_keys env [] = Inr ()"
| "check_unit_keys env ((k, v) # kvs) =
     bindR (key_text env ''service.unit: '' k) (\<lambda>key.
       if key \<notin> set SERVICE_UNIT_ALLOWED_KWARGS
       then Inl (''service.unit: unexpected keyword argument '' @ debug_str key @
              ''; use runr.service(...) or systemd.service(...) directly for init-specific options'')
       else check_unit_keys env kvs)"

definition reject_unexpected_service_unit_kwargs :: "glue_env \<Rightarrow> star_value \<Rightarrow> string + unit" where
  "reject_unexpected_service_unit_kwargs env kwargs =
     (case kwargs of SDict kvs \<Rightarrow> check_unit_keys env kvs | _ \<Rightarrow> Inl ''internal: service.unit kwargs is not a dict'')"

definition resolve_service_unit_kind :: "glue_env \<Rightarrow> string + string" where
  "resolve_service_unit_kind env =
     (case fact_value (ge_facts env ''init_system'') of
        None \<Rightarrow> Inl ''service.unit: init_system fact unknown; ensure the facts collector populated it''
      | Some (JString init) \<Rightarrow>
          (if init = ''systemd'' \<or> init = ''mixed-systemd-runr'' then Inr ''systemd.service''
           else if init = ''runr'' then Inr ''runr.service''
           else Inl (''service.unit: unsupported init_system '' @ debug_str init @ ''; expected one of systemd, mixed-systemd-runr, runr''))
      | Some v \<Rightarrow> Inl (''service.unit: init_system fact is not a string (got '' @ ge_json_text env v @ ''); facts collector misconfiguration''))"

definition dispatch_service_unit :: "glue_env \<Rightarrow> star_value \<Rightarrow> ('m, star_value) native" where
  "dispatch_service_unit env kwargs =
     bindE (lift_error (reject_unexpected_service_unit_kwargs env kwargs)) (\<lambda>_.
     bindE (lift_error (resolve_service_unit_kind env)) (\<lambda>kind_str.
     register_primitive_call env kind_str kwargs))"

section \<open>Tags\<close>

definition tags_has :: "glue_env \<Rightarrow> string \<Rightarrow> bool" where
  "tags_has env tag \<longleftrightarrow> tag \<in> set (ge_tags env)"

fun expected_tags :: "glue_env \<Rightarrow> star_value list \<Rightarrow> string + string list" where
  "expected_tags env [] = Inr []"
| "expected_tags env (v # vs) =
     (case v of
        SStr s \<Rightarrow> bindR (expected_tags env vs) (\<lambda>ts. Inr (s # ts))
      | _ \<Rightarrow> Inl (''tags.require_one_of: expected string argument, got '' @ ge_type env v))"

definition tags_require_one_of :: "glue_env \<Rightarrow> star_value list \<Rightarrow> string + unit" where
  "tags_require_one_of env args =
     bindR (expected_tags env args) (\<lambda>expected.
       if \<exists>t \<in> set expected. t \<in> set (ge_tags env) then Inr ()
       else Inl (''tags: expected one of ['' @ join_with '', '' expected @ ''] in active set, got ['' @
              join_with '', '' (sort (ge_tags env)) @ '']''))"

definition tags_active :: "glue_env \<Rightarrow> star_value" where
  "tags_active env = SList (map SStr (sort (ge_tags env)))"

section \<open>Inventory\<close>

text \<open>JSON to a value: an integer outside of \<open>i32\<close> becomes a text, and one outside of \<open>i64\<close> a float.\<close>

definition number_value :: "number \<Rightarrow> star_value" where
  "number_value n =
     (let int_value = (\<lambda>i. if - (2 ^ 31) \<le> i \<and> i < 2 ^ 31 then SInt i else SStr (show_int i))
      in case n of
           PosInt w \<Rightarrow> (if uint w < 2 ^ 63 then int_value (uint w) else SFloat n)
         | NegInt w \<Rightarrow> int_value (sint w)
         | Float _ \<Rightarrow> SFloat n)"

fun json_scalar_to_value :: "json \<Rightarrow> star_value" where
  "json_scalar_to_value JNull = SNone"
| "json_scalar_to_value (JBool b) = SBool b"
| "json_scalar_to_value (JNumber n) = number_value n"
| "json_scalar_to_value (JString s) = SStr s"
| "json_scalar_to_value (JArray xs) = SList (map json_scalar_to_value xs)"
| "json_scalar_to_value (JObject m) = SDict (map (\<lambda>(k, v). (SStr k, json_scalar_to_value v)) m)"

text \<open>A number of the YAML crate is one of the three of \<open>serde_json\<close>; a float that is not finite becomes \<open>null\<close>.\<close>

definition finite_float :: "u64 \<Rightarrow> bool" where
  "finite_float w \<longleftrightarrow> and (drop_bit 52 w) 0x7FF \<noteq> 0x7FF"

fun yaml_to_json :: "(yaml \<Rightarrow> string) \<Rightarrow> yaml \<Rightarrow> string + json"
  and yaml_items :: "(yaml \<Rightarrow> string) \<Rightarrow> yaml list \<Rightarrow> string + json list"
  and yaml_entries :: "(yaml \<Rightarrow> string) \<Rightarrow> (yaml \<times> yaml) list \<Rightarrow> json_map \<Rightarrow> string + json_map" where
  "yaml_to_json dbg YNull = Inr JNull"
| "yaml_to_json dbg (YBool b) = Inr (JBool b)"
| "yaml_to_json dbg (YNumber n) =
     Inr (case n of Float w \<Rightarrow> (if finite_float w then JNumber n else JNull) | _ \<Rightarrow> JNumber n)"
| "yaml_to_json dbg (YString s) = Inr (JString s)"
| "yaml_to_json dbg (YSequence ys) = bindR (yaml_items dbg ys) (\<lambda>js. Inr (JArray js))"
| "yaml_to_json dbg (YMapping kvs) = bindR (yaml_entries dbg kvs []) (\<lambda>m. Inr (JObject m))"
| "yaml_to_json dbg (YTagged tag y) = Inl ''YAML tagged values are not supported in bundle inventory''"
| "yaml_items dbg [] = Inr []"
| "yaml_items dbg (y # ys) = bindR (yaml_to_json dbg y) (\<lambda>j. bindR (yaml_items dbg ys) (\<lambda>js. Inr (j # js)))"
| "yaml_entries dbg [] out = Inr out"
| "yaml_entries dbg ((k, v) # kvs) out =
     (case k of
        YString key \<Rightarrow> bindR (yaml_to_json dbg v) (\<lambda>j. yaml_entries dbg kvs (obj_insert key j out))
      | other \<Rightarrow> Inl (''YAML mapping key must be a string; got '' @ dbg other))"

definition load_inventory_yaml :: "glue_env \<Rightarrow> string \<Rightarrow> ('m eval_state, StarlarkGlueError, json) prog" where
  "load_inventory_yaml env path = (\<lambda>st.
     case resolve_within_root (ge_tree env) (ge_cwd env) (abs_path (bundle_root (ge_bundle env))) path of
       Inl (PsNotFound p) \<Rightarrow> (Inl (GlueEval (''inventory: read '' @ [CHR 0x27] @ path @ [CHR 0x27] @ '': file not found'')), st)
     | Inl other \<Rightarrow> (Inl (GlueBundle (BePathSafety other)), st)
     | Inr found \<Rightarrow>
         (case ev_inventory st found of
            Some cached \<Rightarrow> (Inr cached, st)
          | None \<Rightarrow>
              (case read_to_string (ge_tree env) (ge_cwd env) (abs_path found) of
                 Inl e \<Rightarrow> (Inl (GlueBundle (BeIo (show_names found) e)), st)
               | Inr content \<Rightarrow>
                   (case ge_yaml env content of
                      Inl e \<Rightarrow> (Inl (GlueBundle (InvalidYaml (show_names found) e)), st)
                    | Inr y \<Rightarrow>
                        (case yaml_to_json (ge_yaml_text env) y of
                           Inl e \<Rightarrow> (Inl (GlueEval e), st)
                         | Inr j \<Rightarrow> (Inr j, st\<lparr>ev_inventory := (ev_inventory st)(found \<mapsto> j)\<rparr>))))))"

definition inventory_read :: "glue_env \<Rightarrow> string \<Rightarrow> ('m, star_value) native" where
  "inventory_read env path = map_err show_glue_error (bindE (load_inventory_yaml env path) (\<lambda>j. ret (json_scalar_to_value j)))"

fun unpack_inventory_sources :: "glue_env \<Rightarrow> star_value list \<Rightarrow> string + json list" where
  "unpack_inventory_sources env [] = Inr []"
| "unpack_inventory_sources env (v # vs) =
     bindR (ge_to_json env v) (\<lambda>j. bindR (unpack_inventory_sources env vs) (\<lambda>js. Inr (j # js)))"

definition resolve_merge_strategy :: "glue_env \<Rightarrow> string \<Rightarrow> StarlarkGlueError + MergeStrategy" where
  "resolve_merge_strategy env arg =
     (let chosen = (if arg = []
            then (case bm_default_merge_strategy (bundle_metadata (ge_bundle env)) of
                    None \<Rightarrow> Inl (GlueBundle DefaultMergeStrategyMissing) | Some s \<Rightarrow> Inr s)
            else Inr arg)
      in bindR chosen (\<lambda>s. case parse_strategy s of Inl e \<Rightarrow> Inl (GlueEval (show_inventory_error e)) | Inr m \<Rightarrow> Inr m))"

definition show_error_of :: "('e \<Rightarrow> string) \<Rightarrow> 'e + 'a \<Rightarrow> string + 'a" where
  "show_error_of show_e r = (case r of Inl e \<Rightarrow> Inl (show_e e) | Inr x \<Rightarrow> Inr x)"

definition inventory_merge :: "glue_env \<Rightarrow> star_value list \<Rightarrow> string \<Rightarrow> string + star_value" where
  "inventory_merge env args strategy =
     bindR (show_error_of (\<lambda>e. ''inventory.merge: '' @ e) (unpack_inventory_sources env args)) (\<lambda>inputs.
     bindR (show_error_of show_glue_error (resolve_merge_strategy env strategy)) (\<lambda>s.
     Inr (json_scalar_to_value
       (case inputs of [] \<Rightarrow> JNull | j # js \<Rightarrow> foldl (\<lambda>acc x. merge_inventory acc x s) j js))))"

fun fold_keyed :: "glue_env \<Rightarrow> string \<Rightarrow> json \<Rightarrow> json list \<Rightarrow> InventoryError + json" where
  "fold_keyed env key acc [] = Inr acc"
| "fold_keyed env key acc (j # js) = bindR (merge_inventory_keyed (ge_json_debug env) acc j key) (\<lambda>m. fold_keyed env key m js)"

definition inventory_merge_keyed :: "glue_env \<Rightarrow> star_value list \<Rightarrow> string \<Rightarrow> string + star_value" where
  "inventory_merge_keyed env args key =
     bindR (show_error_of (\<lambda>e. ''inventory.merge_keyed: '' @ e) (unpack_inventory_sources env args)) (\<lambda>inputs.
     bindR (case inputs of [] \<Rightarrow> Inr JNull | j # js \<Rightarrow> show_error_of show_inventory_error (fold_keyed env key j js)) (\<lambda>m.
     Inr (json_scalar_to_value m)))"

section \<open>Templates\<close>

text \<open>
  The frames of the call stack, the innermost first, each with the module it lies in, if it is not a native function; else the
  module that is being loaded.
\<close>

definition pick_defining_module :: "string list option list \<Rightarrow> 'm eval_state \<Rightarrow> StarlarkGlueError + string list" where
  "pick_defining_module frames st =
     (case List.find (\<lambda>f. f \<noteq> None) frames of
        Some (Some m) \<Rightarrow> Inr m
      | _ \<Rightarrow> (if ev_modules st = [] then Inl (GlueEval ''template(): cannot determine defining module from call stack'')
              else Inr (last (ev_modules st))))"

definition template_fn :: "glue_env \<Rightarrow> string list option list \<Rightarrow> string \<Rightarrow> star_value \<Rightarrow> ('m, star_value) native" where
  "template_fn env frames path kwargs = (\<lambda>st0.
     bindE (lift_error (show_error_of show_glue_error (pick_defining_module frames st0))) (\<lambda>module.
     bindE (lift_error (kwargs_to_json env kwargs)) (\<lambda>extra.
     case resolve_template (ge_tree env) (ge_cwd env) (ge_bundle env) module path of
       Inl e \<Rightarrow> raise_glue (GlueBundle e)
     | Inr found \<Rightarrow>
         (case ge_template env found path extra of
            Inl e \<Rightarrow> raise_glue (GlueEval (''template('' @ [CHR 0x27] @ path @ [CHR 0x27] @ ''): '' @ e))
          | Inr s \<Rightarrow> ret (SStr s)))) st0)"

end
