(* ===== verification/Starlark_Eval.thy ===== *)
theory Starlark_Eval
  imports Starlark_Calls
begin

text \<open>
  \<open>bosun-core/src/starlark_glue/mod.rs\<close>, \<open>load_resolver.rs\<close> and \<open>evaluator.rs\<close>: the evaluation of a manifest.

  The Starlark interpreter is a library.  What it does with a module is a tree of the type \<open>star_run\<close>, which may be infinite: it
  runs the hook before a statement, calls a native function and goes on with its value, loads a module and goes on with what it
  exports, or ends.  An error of a native function, of a load or of the hook ends the run: Starlark has no way to catch one.
\<close>

section \<open>The interpreter\<close>

datatype native_call =
    NPrimitive string star_value
  | NServiceUnit star_value
  | NTemplate "string list option list" string star_value
  | NInventoryRead string
  | NInventoryMerge "star_value list" string
  | NInventoryMergeKeyed "star_value list" string
  | NTagsHas string
  | NTagsRequireOneOf "star_value list"
  | NTagsActive

codatatype 'm star_run =
    Finish "string + 'm"
  | Statement "'m star_run"
  | Native native_call "star_value \<Rightarrow> 'm star_run"
  | LoadModule string "'m \<Rightarrow> 'm star_run"

text \<open>
  \<open>in_parse\<close>: the program of a module, from its file and its text, or the syntax error; \<open>in_render\<close>: the text of an
  error with its position; \<open>in_now\<close>, \<open>in_cancelled\<close>: the clock and the token at each run of the hook.
\<close>

record 'm interp =
  in_parse :: "string list \<Rightarrow> string \<Rightarrow> string + 'm star_run"
  in_builtins :: "string + 'm"
  in_freeze :: "'m \<Rightarrow> string option"
  in_render :: "string \<Rightarrow> string"
  in_cancelled :: "nat \<Rightarrow> bool"
  in_now :: "nat \<Rightarrow> nat"
  in_deadline :: nat

text \<open>The functions of the namespaces, each with its own kind.\<close>

definition run_native :: "glue_env \<Rightarrow> native_call \<Rightarrow> ('m, star_value) native" where
  "run_native env c =
     (case c of
        NPrimitive kind kwargs \<Rightarrow> register_primitive_call env kind kwargs
      | NServiceUnit kwargs \<Rightarrow> dispatch_service_unit env kwargs
      | NTemplate frames path kwargs \<Rightarrow> template_fn env frames path kwargs
      | NInventoryRead path \<Rightarrow> inventory_read env path
      | NInventoryMerge args strategy \<Rightarrow> lift_error (inventory_merge env args strategy)
      | NInventoryMergeKeyed args key \<Rightarrow> lift_error (inventory_merge_keyed env args key)
      | NTagsHas tag \<Rightarrow> ret (SBool (tags_has env tag))
      | NTagsRequireOneOf args \<Rightarrow> bindE (lift_error (tags_require_one_of env args)) (\<lambda>_. ret SNone)
      | NTagsActive \<Rightarrow> ret (tags_active env))"

text \<open>The hook before every statement.\<close>

definition deadline_check :: "'m interp \<Rightarrow> ('m, unit) native" where
  "deadline_check I = (\<lambda>st.
     let i = ev_checks st; st1 = st\<lparr>ev_checks := Suc i\<rparr>
     in if in_cancelled I i then (Inl ''starlark evaluation cancelled'', st1)
        else if in_deadline I \<le> in_now I i then (Inl ''starlark evaluation exceeded deadline'', st1)
        else (Inr (), st1))"

section \<open>Loading modules\<close>

definition push_module :: "string list \<Rightarrow> 'm eval_state \<Rightarrow> 'm eval_state" where
  "push_module m st = st\<lparr>ev_modules := ev_modules st @ [m]\<rparr>"

definition pop_module :: "'m eval_state \<Rightarrow> 'm eval_state" where
  "pop_module st = st\<lparr>ev_modules := butlast (ev_modules st)\<rparr>"

text \<open>What a \<open>load\<close> finds: an error, a module that is there, or a program that has to run first.\<close>

datatype 'm load_step =
    LoadFailed string "'m eval_state"
  | LoadReady 'm
  | LoadRun "string list" "'m star_run" "'m eval_state"

definition load_failed :: "StarlarkGlueError \<Rightarrow> 'm eval_state \<Rightarrow> 'm load_step" where
  "load_failed e st = LoadFailed (show_glue_error e) (push_error e st)"

definition load_begin :: "'m interp \<Rightarrow> glue_env \<Rightarrow> string \<Rightarrow> 'm eval_state \<Rightarrow> 'm load_step" where
  "load_begin I env path st =
     (if path = ''@bosun/builtins''
      then (case in_builtins I of Inl e \<Rightarrow> LoadFailed e st | Inr m \<Rightarrow> LoadReady m)
      else if \<not> prefix ''@roles/'' path \<and> \<not> prefix ''@lib/'' path
      then load_failed (GlueBundle (UnsupportedLoadPath path)) st
      else case resolve_module (ge_tree env) (ge_cwd env) (ge_bundle env) path of
             Inl e \<Rightarrow> load_failed (GlueBundle e) st
           | Inr file \<Rightarrow>
               (case ev_loaded st file of
                  Some m \<Rightarrow> LoadReady m
                | None \<Rightarrow>
                    (case read_to_string (ge_tree env) (ge_cwd env) (abs_path file) of
                       Inl e \<Rightarrow> load_failed (GlueBundle (BeIo (show_names file) e)) st
                     | Inr source \<Rightarrow>
                         (case in_parse I file source of
                            Inl e \<Rightarrow> load_failed (GlueSyntax (show_names file) e) st
                          | Inr r \<Rightarrow> LoadRun file r (push_module file st)))))"

text \<open>After the run of the module: it is frozen and kept, or the error is noted.\<close>

definition load_end :: "'m interp \<Rightarrow> string list \<Rightarrow> string + 'm \<Rightarrow> ('m, 'm) native" where
  "load_end I file result = (\<lambda>st.
     case result of
       Inl e \<Rightarrow> raise_glue (GlueEval (in_render I e)) (pop_module st)
     | Inr m \<Rightarrow>
         (case in_freeze I m of
            Some e \<Rightarrow> raise_glue (GlueEval (''module freeze: '' @ e)) (pop_module st)
          | None \<Rightarrow> (Inr m, pop_module (st\<lparr>ev_loaded := (ev_loaded st)(file \<mapsto> m)\<rparr>))))"

section \<open>Running\<close>

text \<open>\<open>None\<close>: the run does not end.\<close>

partial_function (option) eval_run ::
  "'m interp \<Rightarrow> glue_env \<Rightarrow> 'm star_run \<Rightarrow> 'm eval_state \<Rightarrow> ((string + 'm) \<times> 'm eval_state) option" where
  "eval_run I env r st =
     (case r of
        Finish x \<Rightarrow> Some (x, st)
      | Statement k \<Rightarrow>
          (case deadline_check I st of
             (Inl e, st1) \<Rightarrow> Some (Inl e, st1)
           | (Inr _, st1) \<Rightarrow> eval_run I env k st1)
      | Native c k \<Rightarrow>
          (case run_native env c st of
             (Inl e, st1) \<Rightarrow> Some (Inl e, st1)
           | (Inr v, st1) \<Rightarrow> eval_run I env (k v) st1)
      | LoadModule path k \<Rightarrow>
          (case load_begin I env path st of
             LoadFailed e st1 \<Rightarrow> Some (Inl e, st1)
           | LoadReady m \<Rightarrow> eval_run I env (k m) st
           | LoadRun file r1 st1 \<Rightarrow>
               Option.bind (eval_run I env r1 st1) (\<lambda>(x, st2).
                 case load_end I file x st2 of
                   (Inl e, st3) \<Rightarrow> Some (Inl e, st3)
                 | (Inr m, st3) \<Rightarrow> eval_run I env (k m) st3)))"

lemmas eval_run_induct = eval_run.raw_induct [rotated, consumes 1, case_names run]

section \<open>The evaluation of a manifest\<close>

fun find_after :: "string \<Rightarrow> string \<Rightarrow> string option" where
  "find_after pat s =
     (if prefix pat s then Some (drop (length pat) s)
      else case s of [] \<Rightarrow> None | c # cs \<Rightarrow> find_after pat cs)"

declare find_after.simps [simp del]

definition is_quote :: "char \<Rightarrow> bool" where
  "is_quote c \<longleftrightarrow> c = CHR 0x60 \<or> c = CHR 0x27"

definition is_ascii_space :: "char \<Rightarrow> bool" where
  "is_ascii_space c \<longleftrightarrow> c \<in> {CHR 0x20, CHR 0x09, CHR 0x0A, CHR 0x0B, CHR 0x0C, CHR 0x0D}"

definition trim_quotes :: "string \<Rightarrow> string" where
  "trim_quotes s = rev (dropWhile is_quote (rev (dropWhile is_quote s)))"

definition classify_eval_error :: "string \<Rightarrow> StarlarkGlueError" where
  "classify_eval_error msg =
     (let name = (case find_after ''is not exported: '' msg of
            None \<Rightarrow> []
          | Some rest \<Rightarrow> trim_quotes (takeWhile (\<lambda>c. \<not> is_ascii_space c \<and> \<not> is_quote c) rest))
      in if name \<noteq> [] then GlueBundle (PrivateSymbol name [])
         else if find_after ''Cyclic load'' msg \<noteq> None \<or> find_after ''cyclic load'' msg \<noteq> None then LoadCycle msg
         else GlueEval msg)"

definition eval_state_new :: "(string \<Rightarrow> string option) \<Rightarrow> 'm eval_state" where
  "eval_state_new secrets = \<lparr>ev_registry = registry_new, ev_sensitive = secrets, ev_errors = [], ev_modules = [],
     ev_inventory = Map.empty, ev_loaded = Map.empty, ev_checks = 0\<rparr>"

text \<open>The first error that was noted is the better diagnosis.\<close>

definition eval_outcome :: "'m interp \<Rightarrow> string + 'm \<Rightarrow> 'm eval_state \<Rightarrow> StarlarkGlueError + unit" where
  "eval_outcome I result st =
     (case ev_errors st of
        first # _ \<Rightarrow> Inl first
      | [] \<Rightarrow> (case result of Inl e \<Rightarrow> Inl (classify_eval_error (in_render I e)) | Inr _ \<Rightarrow> Inr ()))"

definition evaluate_manifest ::
  "'m interp \<Rightarrow> glue_env \<Rightarrow> bool \<Rightarrow> 'm eval_state \<Rightarrow> ((StarlarkGlueError + unit) \<times> 'm eval_state) option" where
  "evaluate_manifest I env installed st =
     (let entry = bundle_entry (ge_bundle env)
      in case read_to_string (ge_tree env) (ge_cwd env) (abs_path entry) of
           Inl e \<Rightarrow> Some (Inl (GlueBundle (BeIo (show_names entry) e)), st)
         | Inr source \<Rightarrow>
             (case in_parse I entry source of
                Inl e \<Rightarrow> Some (Inl (GlueSyntax (show_names entry) e), st)
              | Inr r \<Rightarrow>
                  (case in_builtins I of
                     Inl e \<Rightarrow> Some (Inl (GlueEval (''failed to build @bosun/builtins module: '' @ e)), st)
                   | Inr _ \<Rightarrow>
                       (if installed then Some (Inl (GlueEval ''nested evaluate_manifest is not supported on the same thread''), st)
                        else Option.bind (eval_run I env r (push_module entry st)) (\<lambda>(x, st1).
                          Some (eval_outcome I x st1, pop_module st1))))))"

text \<open>\<open>Evaluator::evaluate\<close>; a registry that is still shared is copied.\<close>

definition copy_registry :: "Registry \<Rightarrow> Registry" where
  "copy_registry reg =
     foldl (\<lambda>out r. case registry_add out r of Inl _ \<Rightarrow> out | Inr (i, out') \<Rightarrow> out') registry_new (reg_resources reg)"

definition evaluator_evaluate ::
  "'m interp \<Rightarrow> glue_env \<Rightarrow> bool \<Rightarrow> bool \<Rightarrow> (string \<Rightarrow> string option) \<Rightarrow>
   ((StarlarkGlueError + Registry) \<times> (string \<Rightarrow> string option)) option" where
  "evaluator_evaluate I env installed shared secrets =
     Option.bind (evaluate_manifest I env installed (eval_state_new secrets)) (\<lambda>(x, st).
       Some (case x of
           Inl e \<Rightarrow> Inl e
         | Inr _ \<Rightarrow> Inr (if shared then copy_registry (ev_registry st) else ev_registry st), ev_sensitive st))"

end
