(* ===== verification/Starlark_Props.thy ===== *)
theory Starlark_Props
  imports Starlark_Eval Content_Props
begin

text \<open>
  What an evaluation leaves behind: a registry whose links all point back to earlier resources, so that it can always be ordered;
  for every \<open>file.content\<close> the contents to write, under its id, with the digest and the size in its payload; and nothing of
  those contents anywhere else.
\<close>

section \<open>Links point back\<close>

definition reg_ids :: "Registry \<Rightarrow> ResourceId set" where
  "reg_ids reg = res_id ` set (reg_resources reg)"

definition links_back :: "Registry \<Rightarrow> bool" where
  "links_back reg \<longleftrightarrow> registry_inv reg \<and>
     (\<forall>i < length (reg_resources reg). set (resource_deps (reg_resources reg ! i)) \<subseteq> res_id ` set (take i (reg_resources reg)))"

lemma links_back_new: "links_back registry_new"
  using registry_inv_new by (simp add: links_back_def registry_new_def)

lemma registry_add_resources:
  "registry_add reg r = Inr (i, reg') \<Longrightarrow> i = res_id r \<and> reg_resources reg' = reg_resources reg @ [r]"
  by (auto simp: registry_add_def split: if_splits)

lemma reg_ids_add: "registry_add reg r = Inr (i, reg') \<Longrightarrow> reg_ids reg' = insert (res_id r) (reg_ids reg)"
  by (drule registry_add_resources) (simp add: reg_ids_def)

lemma links_back_add:
  assumes "links_back reg" "registry_add reg r = Inr (i, reg')" "set (resource_deps r) \<subseteq> reg_ids reg"
  shows "links_back reg'"
  using assms registry_add_resources [OF assms(2)] registry_inv_add
  unfolding links_back_def reg_ids_def by (auto simp: nth_append less_Suc_eq)

lemma links_back_known:
  assumes "links_back reg"
  shows "handles_known reg"
  unfolding handles_known_def
proof (intro ballI)
  fix r d assume "r \<in> set (reg_resources reg)" "d \<in> set (resource_deps r)"
  then obtain i where "i < length (reg_resources reg)" "reg_resources reg ! i = r" by (auto simp: in_set_conv_nth)
  then have "d \<in> res_id ` set (take i (reg_resources reg))"
    using assms \<open>d \<in> set (resource_deps r)\<close> unfolding links_back_def by blast
  then have "d \<in> res_id ` set (reg_resources reg)" using set_take_subset [of i "reg_resources reg"] by blast
  then show "reg_by_id reg d \<noteq> None" using assms registry_inv_dom by (simp add: links_back_def)
qed

text \<open>The position in the registry decreases along every link.\<close>

lemma links_back_acyclic:
  assumes "links_back reg"
  shows "acyclic (dep_rel reg)"
proof -
  let ?rs = "reg_resources reg" and ?pos = "\<lambda>i. the (reg_by_id reg i)"
  have inv: "registry_inv reg" using assms by (simp add: links_back_def)
  have pos: "?pos (res_id (?rs ! n)) = n" if "n < length ?rs" for n
    using inv that unfolding registry_inv_def by (metis option.sel)
  have "dep_rel reg \<subseteq> inv_image less_than ?pos"
  proof
    fix p assume "p \<in> dep_rel reg"
    then obtain d r where p: "p = (d, res_id r)" "r \<in> set ?rs" "d \<in> set (resource_deps r)" by (auto simp: dep_rel_def)
    then obtain i where i: "i < length ?rs" "?rs ! i = r" by (auto simp: in_set_conv_nth)
    then have "d \<in> res_id ` set (take i ?rs)" using assms p(3) unfolding links_back_def by blast
    then obtain j where "j < i" "d = res_id (?rs ! j)" using i(1) by (auto simp: in_set_conv_nth)
    then show "p \<in> inv_image less_than ?pos" using p(1) pos i by auto
  qed
  then show ?thesis using acyclic_subset [OF wf_acyclic [OF wf_inv_image [OF wf_less_than]]] by blast
qed

lemma links_back_order:
  assumes "links_back reg" "map_order ord"
  shows "\<exists>order. topological_order ord reg = Inr order \<and> mset order = mset (map res_id (reg_resources reg))"
proof -
  have inv: "registry_inv reg" using assms(1) by (simp add: links_back_def)
  obtain deg order where
      kahn: "kahn_inv (res_id ` set (reg_resources reg)) (links (reg_resources reg)) deg [] order"
    and run: "topological_order ord reg =
      (if length order \<noteq> length (reg_resources reg)
       then Inl (Err (Cycle (join_with '', '' (sort (map fst (filter (\<lambda>(k, d). d > 0) deg))))))
       else Inr order)"
    using topological_order_known [OF inv assms(2) links_back_known [OF assms(1)]] by blast
  note full = kahn_complete [OF inv links_back_known [OF assms(1)] kahn]
  then show ?thesis using run links_back_acyclic [OF assms(1)] by simp
qed

text \<open>A copy of a well-formed registry has the same resources.\<close>

lemma copy_registry_same:
  assumes "registry_inv reg"
  shows "copy_registry reg = reg"
proof -
  define add where "add = (\<lambda>out r. case registry_add out r of Inl _ \<Rightarrow> out | Inr (i, out') \<Rightarrow> out')"
  have "distinct (map res_id rs) \<Longrightarrow> registry_inv (foldl add registry_new rs) \<and> reg_resources (foldl add registry_new rs) = rs" for rs
  proof (induction rs rule: rev_induct)
    case Nil
    then show ?case using registry_inv_new by (simp add: registry_new_def)
  next
    case (snoc r rs)
    let ?out = "foldl add registry_new rs"
    have ih: "registry_inv ?out" "reg_resources ?out = rs" using snoc by auto
    then have "reg_by_id ?out (res_id r) = None" using registry_inv_dom [OF ih(1)] snoc.prems by auto
    then obtain out' where out: "registry_add ?out r = Inr (res_id r, out')" by (simp add: registry_add_def)
    have "add ?out r = (case registry_add ?out r of Inl _ \<Rightarrow> ?out | Inr (i, out') \<Rightarrow> out')" by (simp only: add_def)
    then have "foldl add registry_new (rs @ [r]) = out'" by (simp add: out)
    then show ?case using registry_inv_add [OF ih(1) out] registry_add_resources [OF out] ih(2) by simp
  qed
  moreover have "copy_registry reg = foldl add registry_new (reg_resources reg)" "distinct (map res_id (reg_resources reg))"
    using assms unfolding copy_registry_def add_def registry_inv_def by blast+
  ultimately have copy: "registry_inv (copy_registry reg)" "reg_resources (copy_registry reg) = reg_resources reg" by metis+
  have index: "reg_by_id g i = Some n \<longleftrightarrow> n < length (reg_resources g) \<and> res_id (reg_resources g ! n) = i" if "registry_inv g" for g i n
    using that unfolding registry_inv_def by blast
  have "reg_by_id (copy_registry reg) i = Some n \<longleftrightarrow> reg_by_id reg i = Some n" for i n
    unfolding index [OF copy(1)] index [OF assms] copy(2) ..
  then have "reg_by_id (copy_registry reg) i = reg_by_id reg i" for i
    by (metis not_None_eq)
  then have "reg_by_id (copy_registry reg) = reg_by_id reg" by (rule ext)
  then show ?thesis using copy(2) by (intro Registry.equality) simp_all
qed

section \<open>Values that a program can have\<close>

text \<open>The handles in a value: a program cannot make one up, it gets them from the calls that register a resource.\<close>

fun value_handles :: "star_value \<Rightarrow> ResourceId set" where
  "value_handles (SHandle i) = {i}"
| "value_handles (SList vs) = (\<Union>v \<in> set vs. value_handles v)"
| "value_handles (SDict kvs) = (\<Union>(k, v) \<in> set kvs. value_handles k \<union> value_handles v)"
| "value_handles _ = {}"

fun call_handles :: "native_call \<Rightarrow> ResourceId set" where
  "call_handles (NPrimitive kind kwargs) = value_handles kwargs"
| "call_handles (NServiceUnit kwargs) = value_handles kwargs"
| "call_handles _ = {}"

coinductive honest :: "('m \<Rightarrow> ResourceId set) \<Rightarrow> ResourceId set \<Rightarrow> 'm star_run \<Rightarrow> bool" for mh where
  honest_Error: "honest mh H (Finish (Inl e))"
| honest_Finish: "mh m \<subseteq> H \<Longrightarrow> honest mh H (Finish (Inr m))"
| honest_Statement: "honest mh H k \<Longrightarrow> honest mh H (Statement k)"
| honest_Native: "call_handles c \<subseteq> H \<Longrightarrow> (\<And>v. honest mh (H \<union> value_handles v) (k v)) \<Longrightarrow> honest mh H (Native c k)"
| honest_Load: "(\<And>m. honest mh (H \<union> mh m) (k m)) \<Longrightarrow> honest mh H (LoadModule path k)"

inductive_cases honest_FinishE [elim!]: "honest mh H (Finish (Inr m))"
inductive_cases honest_StatementE [elim!]: "honest mh H (Statement k)"
inductive_cases honest_NativeE [elim!]: "honest mh H (Native c k)"
inductive_cases honest_LoadE [elim!]: "honest mh H (LoadModule path k)"

text \<open>The interpreter: every module starts with no handles but those of the modules it loads.\<close>

definition honest_interp :: "('m \<Rightarrow> ResourceId set) \<Rightarrow> 'm interp \<Rightarrow> bool" where
  "honest_interp mh I \<longleftrightarrow>
     (\<forall>file source r. in_parse I file source = Inr r \<longrightarrow> honest mh {} r) \<and> (\<forall>m. in_builtins I = Inr m \<longrightarrow> mh m = {})"

section \<open>One call\<close>

definition args_handles :: "CallArgs \<Rightarrow> ResourceId set" where
  "args_handles args = {i. \<exists>key hs. args key = Some (ArgHandleList hs) \<and> i \<in> set hs}"

lemma handles_of_sub: "handles_of vs = Some hs \<Longrightarrow> set hs \<subseteq> (\<Union>v \<in> set vs. value_handles v)"
proof (induction vs arbitrary: hs)
  case (Cons v vs)
  then show ?case by (cases v) force+
qed simp

lemma value_to_arg_sub: "value_to_arg env v = Inr (ArgHandleList hs) \<Longrightarrow> set hs \<subseteq> value_handles v"
  using handles_of_sub by (cases v) (auto simp: value_to_arg_def Let_def split: sum.splits option.splits if_splits)

lemma args_handles_upd:
  "args_handles (args(k \<mapsto> a)) \<subseteq> args_handles args \<union> (case a of ArgHandleList hs \<Rightarrow> set hs | _ \<Rightarrow> {})"
  "args_handles (args(k := None)) \<subseteq> args_handles args"
  by (auto simp: args_handles_def split: if_splits)

lemma collect_args_sub:
  "collect_args env kvs out = Inr args \<Longrightarrow> args_handles args \<subseteq> args_handles out \<union> value_handles (SDict kvs)"
proof (induction env kvs out rule: collect_args.induct)
  case (2 env k v kvs out)
  then obtain key a where ka: "key_text env [] k = Inr key" "value_to_arg env v = Inr a"
      and rest: "collect_args env kvs (out(key \<mapsto> a)) = Inr args" by (auto simp: bindR_def split: sum.splits)
  have "(case a of ArgHandleList hs \<Rightarrow> set hs | _ \<Rightarrow> {}) \<subseteq> value_handles v"
    using value_to_arg_sub ka(2) by (cases a) auto
  moreover have "args_handles args \<subseteq> args_handles (out(key \<mapsto> a)) \<union> value_handles (SDict kvs)"
    using 2(1) [OF rest] .
  ultimately show ?case using args_handles_upd(1) [of out key a] by auto
qed simp

lemma kwargs_sub: "kwargs_to_call_args env kwargs = Inr args \<Longrightarrow> args_handles args \<subseteq> value_handles kwargs"
  using collect_args_sub [where out = Map.empty]
  by (cases kwargs) (fastforce simp: kwargs_to_call_args_def args_handles_def)+

text \<open>What a call leaves alone.\<close>

definition same_core :: "'m eval_state \<Rightarrow> 'm eval_state \<Rightarrow> bool" where
  "same_core st st' \<longleftrightarrow> ev_registry st' = ev_registry st \<and> ev_sensitive st' = ev_sensitive st \<and> ev_loaded st' = ev_loaded st"

lemma same_core_refl [simp]: "same_core st st"
  by (simp add: same_core_def)

lemma same_core_push [simp]: "same_core st (push_error e st)" "same_core st (push_module m st)" "same_core st (pop_module st)"
  by (simp_all add: same_core_def push_error_def push_module_def pop_module_def)

lemma raise_glue_run [simp]: "raise_glue e st = (x, st') \<longleftrightarrow> x = Inl (show_glue_error e) \<and> st' = push_error e st"
  by (auto simp: raise_glue_def)

lemma or_invalid_run:
  "or_invalid kind sh r st = (x, st') \<longleftrightarrow>
     (\<exists>v. r = Inr v \<and> x = Inr v \<and> st' = st) \<or>
     (\<exists>e. r = Inl e \<and> x = Inl (show_glue_error (InvalidCall kind (sh e))) \<and> st' = push_error (InvalidCall kind (sh e)) st)"
  by (cases r) (auto simp: or_invalid_def record_invalid_call_in_def)

lemma lift_error_run: "lift_error r st = (x, st') \<longleftrightarrow> x = r \<and> st' = st"
  by (cases r) (auto simp: lift_error_def)

text \<open>Taking the contents out of the arguments.\<close>

lemma take_contents_run:
  assumes "take_contents env kind args st = (x, st')"
  shows "(\<exists>e. x = Inl e) \<and> same_core st st' \<or>
    st' = st \<and> x = Inr (None, args) \<and> kind \<noteq> ''file.content'' \<or>
    st' = st \<and> kind = ''file.content'' \<and> (\<exists>s. args ''contents'' = Some (ArgStr s) \<and> length s < 2 ^ 63 \<and>
      x = Inr (Some s, put_raw ''content_size'' (ArgInt (word_of_nat (length s)))
        (put_raw ''content_sha256'' (ArgStr (sha256_hex (ge_digest env) s)) (args(''contents'' := None)))))"
  using assms
  by (auto simp: take_contents_def bindE_run or_invalid_run extract_sensitive_contents_def take_raw_def
      split: if_splits option.splits ArgValue.splits)

lemma optional_handle_list_sub: "optional_handle_list args name = Inr hs \<Longrightarrow> set hs \<subseteq> args_handles args"
  by (auto simp: optional_handle_list_def args_handles_def split: option.splits ArgValue.splits)

lemma build_resource_run:
  assumes "build_resource env kind_str kind args st = (x, st')"
  shows "same_core st st' \<and> (\<forall>r. x = Inr r \<longrightarrow> st' = st \<and> res_kind r = kind \<and> set (resource_deps r) \<subseteq> args_handles args \<and>
    (\<exists>p identity. ge_primitives env kind = Some p \<and> build_identity (gp_identity_keys p) args = Inr identity \<and>
       res_id r = resource_id_new kind identity \<and> gp_build_payload p args = Returned (Inr (res_payload r))))"
proof (cases "ge_primitives env kind")
  case None
  then show ?thesis using assms by (auto simp: build_resource_def)
next
  case (Some p)
  then show ?thesis
    using assms
    by (auto simp: build_resource_def bindE_run or_invalid_run resource_deps_def call_primitive_def result_of_def
        dest!: optional_handle_list_sub split: unwind.splits)
qed

text \<open>A call that registers a resource: an error, or one resource more.\<close>

lemma register_run:
  assumes "register_primitive_call env kind_str kwargs st = (x, st')"
  shows "(\<exists>e. x = Inl e) \<and> ev_registry st' = ev_registry st \<and> ev_loaded st' = ev_loaded st \<or>
    (\<exists>r contents args0 args reg. x = Inr (SHandle (res_id r)) \<and> kwargs_to_call_args env kwargs = Inr args0 \<and>
       take_contents env kind_str args0 st = (Inr (contents, args), st) \<and>
       build_resource env kind_str (res_kind r) args st = (Inr r, st) \<and> resolve_kind kind_str = Inr (res_kind r) \<and>
       registry_add (ev_registry st) r = Inr (res_id r, reg) \<and>
       st' = (case contents of None \<Rightarrow> st | Some c \<Rightarrow> st\<lparr>ev_sensitive := (ev_sensitive st)(res_id r \<mapsto> c)\<rparr>)\<lparr>ev_registry := reg\<rparr>)"
proof -
  obtain a0 where a0: "kwargs_to_call_args env kwargs = a0" by blast
  show ?thesis
  proof (cases "\<exists>args0 kind. a0 = Inr args0 \<and> resolve_kind kind_str = Inr kind")
    case False
    then show ?thesis
      using assms a0 by (cases a0; cases "resolve_kind kind_str") (auto simp: register_primitive_call_def bindE_def lift_error_def)
  next
    case True
    then obtain args0 kind where ok: "a0 = Inr args0" "resolve_kind kind_str = Inr kind" by blast
    obtain y st1 where tk: "take_contents env kind_str args0 st = (y, st1)" by fastforce
    note tk' = take_contents_run [OF tk]
    show ?thesis
    proof (cases y)
      case (Inl e)
      then show ?thesis
        using assms a0 ok tk tk' by (auto simp: register_primitive_call_def bindE_def lift_error_def same_core_def)
    next
      case (Inr ca)
      then obtain contents args where y: "y = Inr (contents, args)" by (cases ca) auto
      have st1: "st1 = st" using tk' y by auto
      obtain z st2 where br: "build_resource env kind_str kind args st = (z, st2)" by fastforce
      note br' = build_resource_run [OF br]
      show ?thesis
      proof (cases z)
        case (Inl e)
        then show ?thesis
          using assms a0 ok tk y st1 br br'
          by (auto simp: register_primitive_call_def bindE_def lift_error_def same_core_def)
      next
        case (Inr r)
        let ?st = "case contents of None \<Rightarrow> st | Some c \<Rightarrow> st\<lparr>ev_sensitive := (ev_sensitive st)(res_id r \<mapsto> c)\<rparr>"
        have run: "bindE (add_resource kind_str r) (\<lambda>_. ret (SHandle (res_id r))) ?st = (x, st')"
          using assms a0 ok tk y st1 br br' Inr
          by (simp add: register_primitive_call_def bindE_def lift_error_def put_contents_def)
        have same: "ev_registry ?st = ev_registry st" "ev_loaded ?st = ev_loaded st" by (simp_all split: option.split)
        show ?thesis
        proof (cases "registry_add (ev_registry st) r")
          case (Inl e)
          then show ?thesis
            using run same by (simp add: bindE_def add_resource_def record_invalid_call_in_def raise_glue_def push_error_def)
              (auto split: option.splits)
        next
          case (Inr ireg)
          then obtain reg where reg: "registry_add (ev_registry st) r = Inr (res_id r, reg)"
            using registry_add_resources by (cases ireg) fastforce
          then have "x = Inr (SHandle (res_id r))" "st' = ?st\<lparr>ev_registry := reg\<rparr>"
            using run same by (auto simp: bindE_def add_resource_def)
          then show ?thesis
            using a0 ok tk y st1 br br' \<open>z = Inr r\<close> reg by auto
        qed
      qed
    qed
  qed
qed

lemma take_contents_args_sub:
  assumes "take_contents env kind args0 st = (Inr (contents, args), st')"
  shows "args_handles args \<subseteq> args_handles args0"
proof -
  have "args = args0 \<or> (\<exists>n s. args = put_raw ''content_size'' (ArgInt n) (put_raw ''content_sha256'' (ArgStr s) (args0(''contents'' := None))))"
    using take_contents_run [OF assms] by auto
  then show ?thesis unfolding args_handles_def put_raw_def by (auto split: if_splits) blast+
qed

lemma register_back:
  assumes "register_primitive_call env kind_str kwargs st = (x, st')" "value_handles kwargs \<subseteq> reg_ids (ev_registry st)"
    and "links_back (ev_registry st)"
  shows "links_back (ev_registry st') \<and> reg_ids (ev_registry st) \<subseteq> reg_ids (ev_registry st') \<and> ev_loaded st' = ev_loaded st \<and>
    (\<forall>v. x = Inr v \<longrightarrow> value_handles v \<subseteq> reg_ids (ev_registry st'))"
  using register_run [OF assms(1)]
proof (elim disjE exE conjE)
  fix r contents args0 args reg
  assume x: "x = Inr (SHandle (res_id r))" and a: "kwargs_to_call_args env kwargs = Inr args0"
    and tk: "take_contents env kind_str args0 st = (Inr (contents, args), st)"
    and br: "build_resource env kind_str (res_kind r) args st = (Inr r, st)" and add: "registry_add (ev_registry st) r = Inr (res_id r, reg)"
    and st': "st' = (case contents of None \<Rightarrow> st | Some c \<Rightarrow> st\<lparr>ev_sensitive := (ev_sensitive st)(res_id r \<mapsto> c)\<rparr>)\<lparr>ev_registry := reg\<rparr>"
  have "set (resource_deps r) \<subseteq> reg_ids (ev_registry st)"
    using build_resource_run [OF br] take_contents_args_sub [OF tk] kwargs_sub [OF a] assms(2) by auto
  then have "links_back reg" using links_back_add [OF assms(3) add] by simp
  moreover have "ev_registry st' = reg" "ev_loaded st' = ev_loaded st" using st' by (simp_all split: option.split)
  ultimately show ?thesis using reg_ids_add [OF add] x by auto
qed (use assms(3) in auto)

lemma json_value_handles: "value_handles (json_scalar_to_value j) = {}"
  by (induction j rule: json_scalar_to_value.induct) (auto simp: number_value_def Let_def split: number.splits)

lemma template_core:
  assumes "template_fn env frames path kwargs st = (x, st')"
  shows "same_core st st' \<and> (\<forall>v. x = Inr v \<longrightarrow> value_handles v = {})"
proof (cases "\<exists>m extra. show_error_of show_glue_error (pick_defining_module frames st) = Inr m \<and> kwargs_to_json env kwargs = Inr extra")
  case False
  then show ?thesis
    using assms
    by (cases "show_error_of show_glue_error (pick_defining_module frames st)"; cases "kwargs_to_json env kwargs")
      (auto simp: template_fn_def bindE_def lift_error_def)
next
  case True
  then obtain m extra where "show_error_of show_glue_error (pick_defining_module frames st) = Inr m" "kwargs_to_json env kwargs = Inr extra"
    by blast
  then show ?thesis
    using assms
    by (cases "resolve_template (ge_tree env) (ge_cwd env) (ge_bundle env) m path")
      (auto simp: template_fn_def lift_error_def split: sum.split_asm)
qed

lemma inventory_read_core:
  assumes "inventory_read env path st = (x, st')"
  shows "same_core st st' \<and> (\<forall>v. x = Inr v \<longrightarrow> value_handles v = {})"
proof -
  obtain r st1 where l: "load_inventory_yaml env path st = (r, st1)" by fastforce
  have "same_core st st1"
    using l by (auto simp: load_inventory_yaml_def same_core_def split: sum.splits PathSafetyError.splits option.splits)
  then show ?thesis
    using assms l by (cases r) (auto simp: inventory_read_def map_err_def bindE_def json_value_handles)
qed

text \<open>All but the two functions that register.\<close>

fun registers :: "native_call \<Rightarrow> bool" where
  "registers (NPrimitive kind kwargs) \<longleftrightarrow> True"
| "registers (NServiceUnit kwargs) \<longleftrightarrow> True"
| "registers _ \<longleftrightarrow> False"

lemma native_core:
  assumes "run_native env c st = (x, st')" "\<not> registers c"
  shows "same_core st st' \<and> (\<forall>v. x = Inr v \<longrightarrow> value_handles v = {})"
proof (cases c)
  case (NTemplate frames path kwargs)
  then show ?thesis using assms(1) template_core by (simp add: run_native_def)
next
  case (NInventoryRead path)
  then show ?thesis using assms(1) inventory_read_core by (simp add: run_native_def)
next
  case (NTagsRequireOneOf args)
  then show ?thesis using assms(1) by (auto simp: run_native_def bindE_run lift_error_run)
next
  case (NInventoryMerge args strategy)
  then show ?thesis using assms(1)
    by (auto simp: run_native_def lift_error_run inventory_merge_def bindR_def json_value_handles split: sum.splits)
next
  case (NInventoryMergeKeyed args key)
  then show ?thesis using assms(1)
    by (auto simp: run_native_def lift_error_run inventory_merge_keyed_def bindR_def json_value_handles split: sum.splits)
qed (use assms in \<open>auto simp: run_native_def tags_active_def\<close>)

lemma native_back:
  assumes "run_native env c st = (x, st')" "call_handles c \<subseteq> reg_ids (ev_registry st)" "links_back (ev_registry st)"
  shows "links_back (ev_registry st') \<and> reg_ids (ev_registry st) \<subseteq> reg_ids (ev_registry st') \<and> ev_loaded st' = ev_loaded st \<and>
    (\<forall>v. x = Inr v \<longrightarrow> value_handles v \<subseteq> reg_ids (ev_registry st'))"
proof (cases "registers c")
  case False
  then show ?thesis using native_core [OF assms(1)] assms(3) by (auto simp: same_core_def)
next
  case True
  then obtain kwargs where kw: "call_handles c = value_handles kwargs"
      and run: "(\<exists>e. x = Inl e \<and> st' = st) \<or> (\<exists>kind_str. register_primitive_call env kind_str kwargs st = (x, st'))"
    using assms(1) by (cases c) (auto simp: run_native_def dispatch_service_unit_def bindE_run lift_error_run)
  from run show ?thesis
  proof
    assume "\<exists>kind_str. register_primitive_call env kind_str kwargs st = (x, st')"
    then show ?thesis using register_back assms(2,3) kw by metis
  qed (use assms(3) in auto)
qed

section \<open>A whole run\<close>

definition eval_inv :: "('m \<Rightarrow> ResourceId set) \<Rightarrow> 'm eval_state \<Rightarrow> bool" where
  "eval_inv mh st \<longleftrightarrow> links_back (ev_registry st) \<and>
     (\<forall>file m. ev_loaded st file = Some m \<longrightarrow> mh m \<subseteq> reg_ids (ev_registry st))"

lemma eval_inv_grow:
  assumes "eval_inv mh st" "links_back (ev_registry st')" "reg_ids (ev_registry st) \<subseteq> reg_ids (ev_registry st')" "ev_loaded st' = ev_loaded st"
  shows "eval_inv mh st'"
  using assms unfolding eval_inv_def by (metis order_trans)

lemma eval_inv_core: "same_core st st' \<Longrightarrow> eval_inv mh st \<Longrightarrow> eval_inv mh st'"
  by (simp add: eval_inv_def same_core_def)

lemma load_begin_run:
  assumes "load_begin I env path st = step"
  shows "(\<exists>e st1. step = LoadFailed e st1 \<and> same_core st st1 \<and> ev_checks st1 = ev_checks st) \<or>
    (\<exists>m. step = LoadReady m \<and> (in_builtins I = Inr m \<or> (\<exists>file. ev_loaded st file = Some m))) \<or>
    (\<exists>file source r. step = LoadRun file r (push_module file st) \<and> in_parse I file source = Inr r)"
  using assms
  by (auto simp: load_begin_def load_failed_def push_error_def same_core_def split: if_splits sum.splits option.splits)

lemma load_end_run:
  assumes "load_end I file x st = (y, st')"
  shows "(\<exists>e. y = Inl e) \<and> same_core st st' \<or>
    (\<exists>m. x = Inr m \<and> y = Inr m \<and> ev_registry st' = ev_registry st \<and> ev_sensitive st' = ev_sensitive st \<and>
       ev_loaded st' = (ev_loaded st)(file \<mapsto> m) \<and> ev_checks st' = ev_checks st)"
  using assms
  by (auto simp: load_end_def raise_glue_def push_error_def pop_module_def same_core_def split: sum.splits option.splits)

text \<open>Links point back all through a run, and a run that ends well exports no other handles.\<close>

lemma eval_run_inv:
  assumes "eval_run I env r st = Some (x, st')"
    and "honest_interp mh I" "honest mh H r" "H \<subseteq> reg_ids (ev_registry st)" "eval_inv mh st"
  shows "eval_inv mh st' \<and> reg_ids (ev_registry st) \<subseteq> reg_ids (ev_registry st') \<and>
    (\<forall>m. x = Inr m \<longrightarrow> mh m \<subseteq> reg_ids (ev_registry st'))"
proof -
  have "eval_run I env r st = Some p \<Longrightarrow> honest_interp mh I \<Longrightarrow> honest mh H r \<Longrightarrow> H \<subseteq> reg_ids (ev_registry st) \<Longrightarrow> eval_inv mh st \<Longrightarrow>
      eval_inv mh (snd p) \<and> reg_ids (ev_registry st) \<subseteq> reg_ids (ev_registry (snd p)) \<and>
      (\<forall>m. fst p = Inr m \<longrightarrow> mh m \<subseteq> reg_ids (ev_registry (snd p)))" for p
  proof (induction I env r st p arbitrary: H rule: eval_run_induct)
    case (run go I env r st p)
    note IH = run(1) and body = run(2) and I = run(3) and hon = run(4) and sub = run(5) and inv = run(6)
    show ?case
    proof (cases r)
      case (Finish x)
      have "\<forall>m. x = Inr m \<longrightarrow> mh m \<subseteq> H" using hon Finish by auto
      then have "\<forall>m. x = Inr m \<longrightarrow> mh m \<subseteq> reg_ids (ev_registry st)" using sub by blast
      then show ?thesis using body Finish inv by auto
    next
      case (Statement k)
      obtain y st1 where d: "deadline_check I st = (y, st1)" by fastforce
      have same: "ev_registry st1 = ev_registry st" "ev_loaded st1 = ev_loaded st"
        using d by (auto simp: deadline_check_def Let_def split: if_splits)
      have inv1: "eval_inv mh st1" using inv same by (simp add: eval_inv_def)
      have "honest mh H k" using hon Statement by blast
      then show ?thesis using IH [of I env k st1 p H] body Statement d I sub inv1 same by (cases y) auto
    next
      case (Native c k)
      obtain y st1 where d: "run_native env c st = (y, st1)" by fastforce
      have "call_handles c \<subseteq> reg_ids (ev_registry st)" using hon Native sub by blast
      note nat = native_back [OF d this] and lb = inv [unfolded eval_inv_def, THEN conjunct1]
      have inv1: "eval_inv mh st1" using eval_inv_grow [OF inv] nat [OF lb] by blast
      show ?thesis
      proof (cases y)
        case (Inl e)
        then show ?thesis using body Native d inv1 nat [OF lb] by auto
      next
        case (Inr v)
        then have now: "go I env (k v) st1 = Some p" using body Native d by simp
        have "honest mh (H \<union> value_handles v) (k v)" using hon Native by blast
        moreover have "H \<union> value_handles v \<subseteq> reg_ids (ev_registry st1)" using nat [OF lb] Inr sub by auto
        ultimately show ?thesis using IH [OF now I _ _ inv1] nat [OF lb] by (meson order_trans)
      qed
    next
      case (LoadModule path k)
      obtain step where step: "load_begin I env path st = step" by blast
      have honk: "honest mh (H \<union> mh m) (k m)" for m using hon LoadModule by blast
      from load_begin_run [OF step] consider
          (failed) e st1 where "step = LoadFailed e st1" "same_core st st1"
        | (ready) m where "step = LoadReady m" "in_builtins I = Inr m \<or> (\<exists>file. ev_loaded st file = Some m)"
        | (nested) fl source r1 where "step = LoadRun fl r1 (push_module fl st)" "in_parse I fl source = Inr r1"
        by blast
      then show ?thesis
      proof cases
        case failed
        then have "p = (Inl e, st1)" using body LoadModule step by simp
        then show ?thesis using failed(2) eval_inv_core [OF failed(2) inv] by (simp add: same_core_def)
      next
        case ready
        then have now: "go I env (k m) st = Some p" using body LoadModule step by simp
        have "mh m \<subseteq> reg_ids (ev_registry st)" using ready(2) I inv unfolding honest_interp_def eval_inv_def by (metis empty_subsetI)
        then show ?thesis using IH [OF now I honk _ inv] sub by simp
      next
        case nested
        let ?st1 = "push_module fl st"
        have inv1: "eval_inv mh ?st1" using inv by (simp add: eval_inv_def push_module_def)
        obtain x2 st2 where r1: "go I env r1 ?st1 = Some (x2, st2)"
          using body LoadModule step nested by (cases "go I env r1 ?st1") auto
        have "honest mh {} r1" using I nested(2) by (auto simp: honest_interp_def)
        note h2 = IH [OF r1 I this _ inv1, simplified]
        have grow: "reg_ids (ev_registry st) \<subseteq> reg_ids (ev_registry st2)" using h2 by (simp add: push_module_def)
        obtain y st3 where le: "load_end I fl x2 st2 = (y, st3)" by fastforce
        from load_end_run [OF le] show ?thesis
        proof (elim disjE conjE exE)
          fix e assume e: "y = Inl e" "same_core st2 st3"
          then have "p = (Inl e, st3)" using body LoadModule step nested r1 le by simp
          then show ?thesis using e h2 grow eval_inv_core [OF e(2)] by (simp add: same_core_def)
        next
          fix m assume m: "x2 = Inr m" "y = Inr m" "ev_registry st3 = ev_registry st2" "ev_loaded st3 = (ev_loaded st2)(fl \<mapsto> m)"
          then have now3: "go I env (k m) st3 = Some p" using body LoadModule step nested r1 le by simp
          have inv3: "eval_inv mh st3" using h2 m by (simp add: eval_inv_def)
          have "H \<union> mh m \<subseteq> reg_ids (ev_registry st3)" using h2 m grow sub by auto
          from IH [OF now3 I honk this inv3] show ?thesis using m(3) grow by auto
        qed
      qed
    qed
  qed
  from this [OF assms] show ?thesis by simp
qed

text \<open>What every call that goes well keeps of the registry and the contents, a run that ends well keeps.\<close>

lemma eval_run_keeps:
  fixes I :: "'m interp"
  assumes "eval_run I env r st = Some (Inr m, st')"
    and "\<forall>c st v (st' :: 'm eval_state). run_native env c st = (Inr v, st') \<longrightarrow> P (ev_registry st) (ev_sensitive st) \<longrightarrow> P (ev_registry st') (ev_sensitive st')"
    and "P (ev_registry st) (ev_sensitive st)"
  shows "P (ev_registry st') (ev_sensitive st')"
proof -
  have "eval_run I env r st = Some p \<Longrightarrow> fst p = Inr m \<Longrightarrow>
      (\<forall>c st v (st' :: 'm eval_state). run_native env c st = (Inr v, st') \<longrightarrow> P (ev_registry st) (ev_sensitive st) \<longrightarrow> P (ev_registry st') (ev_sensitive st')) \<Longrightarrow>
      P (ev_registry st) (ev_sensitive st) \<Longrightarrow> P (ev_registry (snd p)) (ev_sensitive (snd p))" for p
  proof (induction I env r st p arbitrary: m rule: eval_run_induct)
    case (run go I env r st p)
    note IH = run(1) and body = run(2) and good = run(3) and nat = run(4) and P = run(5)
    show ?case
    proof (cases r)
      case (Finish x)
      then show ?thesis using body P by auto
    next
      case (Statement k)
      obtain y st1 where d: "deadline_check I st = (y, st1)" by fastforce
      have "P (ev_registry st1) (ev_sensitive st1)"
        using d P by (auto simp: deadline_check_def Let_def split: if_splits)
      then show ?thesis using IH [of I env k st1 p m] body Statement d good nat by (cases y) auto
    next
      case (Native c k)
      obtain y st1 where d: "run_native env c st = (y, st1)" by fastforce
      obtain v where v: "y = Inr v" using body Native d good by (cases y) auto
      have now: "go I env (k v) st1 = Some p" using body Native d v by simp
      show ?thesis using IH [OF now good nat] nat d v P by blast
    next
      case (LoadModule path k)
      obtain step where step: "load_begin I env path st = step" by blast
      show ?thesis
      proof (cases step)
        case (LoadFailed e st1)
        then show ?thesis using body LoadModule step good by auto
      next
        case (LoadReady m1)
        then have now: "go I env (k m1) st = Some p" using body LoadModule step by simp
        show ?thesis using IH [OF now good nat P] by blast
      next
        case (LoadRun fl r1 st1)
        then have st1: "st1 = push_module fl st" using load_begin_run [OF step] by auto
        obtain x2 st2 where r1: "go I env r1 st1 = Some (x2, st2)"
          using body LoadModule step LoadRun by (cases "go I env r1 st1") auto
        obtain y st3 where le: "load_end I fl x2 st2 = (y, st3)" by fastforce
        obtain m1 where y: "y = Inr m1" using body LoadModule step LoadRun r1 le good by (cases y) auto
        have le': "x2 = Inr m1" "ev_registry st3 = ev_registry st2" "ev_sensitive st3 = ev_sensitive st2"
          using load_end_run [OF le] y by auto
        have P2: "P (ev_registry st2) (ev_sensitive st2)"
          using IH [OF r1, of m1] le'(1) nat P st1 by (simp add: push_module_def)
        have now: "go I env (k m1) st3 = Some p" using body LoadModule step LoadRun r1 le y by simp
        show ?thesis using IH [OF now good nat] P2 le'(2,3) by simp
      qed
    qed
  qed
  from this [of "(Inr m, st')"] assms show ?thesis by simp
qed

section \<open>Contents and payloads\<close>

text \<open>The payload of \<open>build_payload\<close> reads back as the specification it was built from.\<close>

lemma content_payload_spec:
  assumes "content_build_payload args = Inr payload"
  shows "\<exists>spec mode. content_spec_of_json payload = Some spec \<and> required_str args ''path'' = Inr (fc_path spec) \<and>
    required_str args ''content_sha256'' = Inr (fc_sha256 spec) \<and> optional_u64 args ''content_size'' = Inr (Some (fc_size spec)) \<and>
    optional_u32 args ''mode'' = Inr mode \<and> fc_mode spec = (case mode of None \<Rightarrow> default_mode | Some m \<Rightarrow> m) \<and>
    optional_str args ''owner'' = Inr (fc_owner spec) \<and> optional_str args ''group'' = Inr (fc_group spec) \<and>
    optional_str_list args ''validate_with'' = Inr (fc_validate_with spec)"
proof -
  obtain path sha n mode owner grp vw where
      parts: "required_str args ''path'' = Inr path" "required_str args ''content_sha256'' = Inr sha"
        "optional_u64 args ''content_size'' = Inr (Some n)" "optional_u32 args ''mode'' = Inr mode"
        "optional_str args ''owner'' = Inr owner" "optional_str args ''group'' = Inr grp" "optional_str_list args ''validate_with'' = Inr vw"
    and payload: "payload = JObject (obj_of_list
       [(''path'', JString path), (''mode'', ser_unsigned (case mode of None \<Rightarrow> default_mode | Some m \<Rightarrow> m)),
        (''owner'', ser_opt JString owner), (''group'', ser_opt JString grp), (''content_sha256'', JString sha),
        (''content_size'', ser_unsigned n), (''validate_with'', ser_opt ser_strings vw)])"
    using assms by (auto simp: content_build_payload_def content_arg_def bindR_def split: sum.splits option.splits)
  let ?m = "case mode of None \<Rightarrow> default_mode | Some m \<Rightarrow> m"
  let ?obj = "obj_of_list [(''path'', JString path), (''mode'', ser_unsigned ?m),
        (''owner'', ser_opt JString owner), (''group'', ser_opt JString grp), (''content_sha256'', JString sha),
        (''content_size'', ser_unsigned n), (''validate_with'', ser_opt ser_strings vw)]"
  have "de_opt_field de_string ?obj ''owner'' = Some owner"
    by (rule de_opt_field_ser_opt [where g = JString]) simp_all
  moreover have "de_opt_field de_string ?obj ''group'' = Some grp"
    by (rule de_opt_field_ser_opt [where g = JString]) simp_all
  moreover have "de_opt_field (de_vec de_string) ?obj ''validate_with'' = Some vw"
    by (rule de_opt_field_ser_opt [where g = ser_strings]) simp_all
  moreover have "de_default_field de_unsigned default_mode ?obj ''mode'' = Some ?m" by (simp add: de_default_field_def)
  ultimately have "content_spec_of_json payload =
      Some \<lparr>fc_path = path, fc_mode = ?m, fc_owner = owner, fc_group = grp, fc_sha256 = sha, fc_size = n, fc_validate_with = vw\<rparr>"
    by (simp add: content_spec_of_json_def payload)
  then show ?thesis using parts by simp
qed

text \<open>Every \<open>file.content\<close> in the registry has its contents, and its payload their digest and size.\<close>

definition contents_match :: "(string \<Rightarrow> 8 word list) \<Rightarrow> Registry \<Rightarrow> (string \<Rightarrow> string option) \<Rightarrow> bool" where
  "contents_match digest reg sensitive \<longleftrightarrow>
     (\<forall>r \<in> set (reg_resources reg). res_kind r = ''file.content'' \<longrightarrow>
       (\<exists>spec c. content_spec_of_json (res_payload r) = Some spec \<and> sensitive (res_id r) = Some c \<and>
          fc_sha256 spec = sha256_hex digest c \<and> uint (fc_size spec) = int (length c)))"

definition content_primitive :: "glue_env \<Rightarrow> bool" where
  "content_primitive env \<longleftrightarrow>
     (\<exists>keys. ge_primitives env ''file.content'' =
        Some \<lparr>gp_identity_keys = keys, gp_build_payload = (\<lambda>args. Returned (content_build_payload args))\<rparr>)"

lemma resolve_kind_same: "resolve_kind k = Inr kind \<Longrightarrow> kind = k"
  by (auto simp: resolve_kind_def resource_kind_try_new_def split: if_splits sum.splits)

lemma size_fits:
  assumes "length c < 2 ^ 63" "sint (word_of_nat (length c) :: 64 word) = uint (n :: u64)"
  shows "uint n = int (length c)"
proof -
  have "sint (word_of_nat (length c) :: 64 word) = int (length c)"
    using assms(1) int_word_sint [where 'a = 64, of "int (length c)"] by simp
  then show ?thesis using assms(2) by simp
qed

lemma register_contents:
  assumes "register_primitive_call env kind_str kwargs st = (Inr v, st')" "content_primitive env"
    and "registry_inv (ev_registry st)" "contents_match (ge_digest env) (ev_registry st) (ev_sensitive st)"
  shows "registry_inv (ev_registry st') \<and> contents_match (ge_digest env) (ev_registry st') (ev_sensitive st')"
  using register_run [OF assms(1)]
proof (elim disjE exE conjE)
  fix r contents args0 args reg
  assume tk: "take_contents env kind_str args0 st = (Inr (contents, args), st)"
    and br: "build_resource env kind_str (res_kind r) args st = (Inr r, st)" and kind: "resolve_kind kind_str = Inr (res_kind r)"
    and add: "registry_add (ev_registry st) r = Inr (res_id r, reg)"
    and st': "st' = (case contents of None \<Rightarrow> st | Some c \<Rightarrow> st\<lparr>ev_sensitive := (ev_sensitive st)(res_id r \<mapsto> c)\<rparr>)\<lparr>ev_registry := reg\<rparr>"
  have k: "kind_str = res_kind r" using resolve_kind_same [OF kind] by simp
  have reg: "reg_resources reg = reg_resources (ev_registry st) @ [r]" "ev_registry st' = reg"
    using registry_add_resources [OF add] st' by (simp_all split: option.split)
  have inv: "registry_inv reg" using registry_inv_add [OF assms(3) add] .
  have new: "res_id r \<notin> res_id ` set (reg_resources (ev_registry st))"
    using registry_inv_dom [OF assms(3)] add by (auto simp: registry_add_def split: if_splits)
  have sens: "ev_sensitive st' = (case contents of None \<Rightarrow> ev_sensitive st | Some c \<Rightarrow> (ev_sensitive st)(res_id r \<mapsto> c))"
    using st' by (simp split: option.split)
  then have keep: "ev_sensitive st' (res_id q) = ev_sensitive st (res_id q)" if "q \<in> set (reg_resources (ev_registry st))" for q
    using sens new that by (auto split: option.split) (metis image_eqI)
  have this_one: "\<exists>spec c. content_spec_of_json (res_payload r) = Some spec \<and> ev_sensitive st' (res_id r) = Some c \<and>
      fc_sha256 spec = sha256_hex (ge_digest env) c \<and> uint (fc_size spec) = int (length c)" if content: "res_kind r = ''file.content''"
  proof -
    obtain c where c: "contents = Some c" "length c < 2 ^ 63"
        and args: "args = put_raw ''content_size'' (ArgInt (word_of_nat (length c)))
          (put_raw ''content_sha256'' (ArgStr (sha256_hex (ge_digest env) c)) (args0(''contents'' := None)))"
      using take_contents_run [OF tk] k content by auto
    obtain pl where "ge_primitives env ''file.content'' = Some pl" "gp_build_payload pl args = Returned (Inr (res_payload r))"
      using build_resource_run [OF br] content by auto
    then have "content_build_payload args = Inr (res_payload r)" using assms(2) by (auto simp: content_primitive_def)
    from content_payload_spec [OF this] obtain spec where spec: "content_spec_of_json (res_payload r) = Some spec"
        "required_str args ''content_sha256'' = Inr (fc_sha256 spec)" "optional_u64 args ''content_size'' = Inr (Some (fc_size spec))"
      by blast
    have "fc_sha256 spec = sha256_hex (ge_digest env) c" using spec(2) by (simp add: args required_str_def put_raw_def)
    moreover have "sint (word_of_nat (length c) :: 64 word) = uint (fc_size spec)"
      using spec(3) by (auto simp: args optional_u64_def put_raw_def int_to_word_sint split: option.splits)
    ultimately show ?thesis using spec(1) c sens size_fits by simp
  qed
  have "contents_match (ge_digest env) reg (ev_sensitive st')"
    unfolding contents_match_def reg(1)
  proof (intro ballI impI)
    fix q assume q: "q \<in> set (reg_resources (ev_registry st) @ [r])" "res_kind q = ''file.content''"
    then show "\<exists>spec c. content_spec_of_json (res_payload q) = Some spec \<and> ev_sensitive st' (res_id q) = Some c \<and>
      fc_sha256 spec = sha256_hex (ge_digest env) c \<and> uint (fc_size spec) = int (length c)"
      using this_one assms(4) keep by (cases "q = r") (auto simp: contents_match_def)
  qed
  then show ?thesis using inv reg(2) by simp
qed simp

lemma native_contents:
  assumes "run_native env c st = (Inr v, st')" "content_primitive env"
    and "registry_inv (ev_registry st) \<and> contents_match (ge_digest env) (ev_registry st) (ev_sensitive st)"
  shows "registry_inv (ev_registry st') \<and> contents_match (ge_digest env) (ev_registry st') (ev_sensitive st')"
proof (cases "registers c")
  case False
  then show ?thesis using native_core [OF assms(1)] assms(3) by (simp add: same_core_def)
next
  case True
  then obtain kind_str kwargs where "register_primitive_call env kind_str kwargs st = (Inr v, st')"
    using assms(1) by (cases c) (auto simp: run_native_def dispatch_service_unit_def bindE_run lift_error_run)
  then show ?thesis using register_contents assms(2,3) by blast
qed

section \<open>What an evaluation returns\<close>

lemma evaluator_run:
  assumes "evaluator_evaluate I env installed shared secrets = Some (Inr reg, sens)"
  shows "\<exists>source r m st. in_parse I (bundle_entry (ge_bundle env)) source = Inr r \<and>
    eval_run I env r (push_module (bundle_entry (ge_bundle env)) (eval_state_new secrets)) = Some (Inr m, st) \<and>
    reg = (if shared then copy_registry (ev_registry st) else ev_registry st) \<and> sens = ev_sensitive st"
proof -
  let ?entry = "bundle_entry (ge_bundle env)"
  obtain st where em: "evaluate_manifest I env installed (eval_state_new secrets) = Some (Inr (), st)"
      and res: "reg = (if shared then copy_registry (ev_registry st) else ev_registry st)" "sens = ev_sensitive st"
  proof -
    obtain x st where em: "evaluate_manifest I env installed (eval_state_new secrets) = Some (x, st)"
      using assms by (cases "evaluate_manifest I env installed (eval_state_new secrets)") (auto simp: evaluator_evaluate_def)
    then show ?thesis using assms that by (cases x) (auto simp: evaluator_evaluate_def)
  qed
  obtain source where src: "read_to_string (ge_tree env) (ge_cwd env) (abs_path ?entry) = Inr source"
    using em by (cases "read_to_string (ge_tree env) (ge_cwd env) (abs_path ?entry)") (auto simp: evaluate_manifest_def Let_def)
  obtain r where r: "in_parse I ?entry source = Inr r"
    using em src by (cases "in_parse I ?entry source") (auto simp: evaluate_manifest_def Let_def)
  obtain b where b: "in_builtins I = Inr b" "\<not> installed"
    using em src r by (cases "in_builtins I") (auto simp: evaluate_manifest_def Let_def split: if_splits)
  obtain x st1 where run: "eval_run I env r (push_module ?entry (eval_state_new secrets)) = Some (x, st1)"
      and out: "eval_outcome I x st1 = Inr ()" and st: "st = pop_module st1"
    using em src r b by (auto simp: evaluate_manifest_def Let_def bind_eq_Some_conv)
  obtain m where "x = Inr m" using out by (cases x) (auto simp: eval_outcome_def split: list.splits)
  then show ?thesis using run r res st by (auto simp: pop_module_def)
qed

lemma evaluated_links_back:
  assumes "evaluator_evaluate I env installed shared secrets = Some (Inr reg, sens)" "honest_interp mh I"
  shows "links_back reg"
proof -
  obtain source r m st where pr: "in_parse I (bundle_entry (ge_bundle env)) source = Inr r"
      and run: "eval_run I env r (push_module (bundle_entry (ge_bundle env)) (eval_state_new secrets)) = Some (Inr m, st)"
      and reg: "reg = (if shared then copy_registry (ev_registry st) else ev_registry st)"
    using evaluator_run [OF assms(1)] by blast
  have "honest mh {} r" using assms(2) pr by (auto simp: honest_interp_def)
  moreover have "eval_inv mh (push_module (bundle_entry (ge_bundle env)) (eval_state_new secrets))"
    by (simp add: eval_inv_def push_module_def eval_state_new_def links_back_new)
  ultimately have lb: "links_back (ev_registry st)"
    using eval_run_inv [OF run assms(2)] by (simp add: eval_inv_def)
  then have "reg = ev_registry st" using reg copy_registry_same by (simp add: links_back_def)
  then show ?thesis using lb by simp
qed

text \<open>
  C26. The registry of a manifest that evaluated well can always be run: since a manifest gets a handle only from the call
  that registered the resource, every link points to a resource that is there, no links form a cycle, and
  \<open>topological_order\<close> returns an order of all the resources.
\<close>

theorem evaluated_registry_orders:
  assumes "evaluator_evaluate I env installed shared secrets = Some (Inr reg, sens)"
    and "honest_interp mh I" "map_order ord"
  shows "\<exists>order. topological_order ord reg = Inr order \<and> mset order = mset (map res_id (reg_resources reg)) \<and>
    (\<forall>r \<in> set (reg_resources reg). \<forall>d \<in> set (resource_deps r). reg_by_id reg d \<noteq> None)"
  using evaluated_links_back [OF assms(1,2)] links_back_order [OF _ assms(3)] links_back_known by (auto simp: handles_known_def)

text \<open>
  C27. What the evaluation hands to \<open>file.content\<close> is consistent: for every resource of this kind the contents are stored
  under its id, and its payload reads back as a specification with their digest and their size.
\<close>

theorem evaluated_contents:
  assumes "evaluator_evaluate I env installed shared secrets = Some (Inr reg, sens)" "content_primitive env"
  shows "contents_match (ge_digest env) reg sens"
proof -
  obtain r m st where
      run: "eval_run I env r (push_module (bundle_entry (ge_bundle env)) (eval_state_new secrets)) = Some (Inr m, st)"
      and reg: "reg = (if shared then copy_registry (ev_registry st) else ev_registry st)" "sens = ev_sensitive st"
    using evaluator_run [OF assms(1)] by blast
  have "registry_inv (ev_registry st) \<and> contents_match (ge_digest env) (ev_registry st) (ev_sensitive st)"
  proof (rule eval_run_keeps [OF run])
    show "\<forall>c st v st'. run_native env c st = (Inr v, st') \<longrightarrow>
        registry_inv (ev_registry st) \<and> contents_match (ge_digest env) (ev_registry st) (ev_sensitive st) \<longrightarrow>
        registry_inv (ev_registry st') \<and> contents_match (ge_digest env) (ev_registry st') (ev_sensitive st')"
      using native_contents assms(2) by blast
  next
    show "registry_inv (ev_registry (push_module (bundle_entry (ge_bundle env)) (eval_state_new secrets))) \<and>
        contents_match (ge_digest env) (ev_registry (push_module (bundle_entry (ge_bundle env)) (eval_state_new secrets)))
          (ev_sensitive (push_module (bundle_entry (ge_bundle env)) (eval_state_new secrets)))"
      using registry_inv_new by (simp add: push_module_def eval_state_new_def contents_match_def registry_new_def)
  qed
  then show ?thesis using reg copy_registry_same by simp
qed

section \<open>An example\<close>

definition sample_glue :: glue_env where
  "sample_glue = \<lparr>ge_to_json = (\<lambda>v. Inl ''not JSON''), ge_type = (\<lambda>v. ''value''), ge_json_text = (\<lambda>j. ''json''),
     ge_yaml = (\<lambda>s. Inl ''not YAML''), ge_yaml_text = (\<lambda>y. ''yaml''), ge_digest = (\<lambda>s. [of_nat (length s)]),
     ge_tree = [[''b''] \<mapsto> TDir, [''b'', ''main.star''] \<mapsto> TFile ''program''], ge_cwd = [],
     ge_bundle = \<lparr>bundle_metadata = \<lparr>bm_name = ''b'', bm_version = ''1'', bm_description = None, bm_requires_bosun = ''*'',
         bm_entry = ''main.star'', bm_default_merge_strategy = None, bm_tags = []\<rparr>,
       bundle_root = [''b''], bundle_entry = [''b'', ''main.star'']\<rparr>,
     ge_primitives = [''file.content'' \<mapsto> \<lparr>gp_identity_keys = [''path''], gp_build_payload = (\<lambda>args. Returned (content_build_payload args))\<rparr>],
     ge_facts = (\<lambda>name. Unknown ''no facts''), ge_tags = [], ge_template = (\<lambda>modul path ctx. Inl ''no templates''), ge_json_debug = (\<lambda>j. [])\<rparr>"

text \<open>A manifest that writes two files, the second after the first.\<close>

definition sample_program :: "unit star_run" where
  "sample_program =
     Statement (Native (NPrimitive ''file.content'' (SDict [(SStr ''path'', SStr ''/a''), (SStr ''contents'', SStr ''one'')])) (\<lambda>h.
     Statement (Native (NPrimitive ''file.content'' (SDict [(SStr ''path'', SStr ''/b''), (SStr ''contents'', SStr ''four''),
       (SStr ''depends_on'', SList [h])])) (\<lambda>_. Finish (Inr ())))))"

definition sample_interp :: "unit interp" where
  "sample_interp = \<lparr>in_parse = (\<lambda>file source. Inr sample_program), in_builtins = Inr (), in_freeze = (\<lambda>m. None), in_render = id,
     in_cancelled = (\<lambda>i. False), in_now = (\<lambda>i. i), in_deadline = 10\<rparr>"

lemmas glue_eval = run_native_def register_primitive_call_def bindE_def lift_error_def kwargs_to_call_args_def key_text_def
    value_to_arg_def bindR_def resolve_kind_def BUILTIN_KINDS_def take_contents_def or_invalid_def extract_sensitive_contents_def
    take_raw_def put_raw_def build_resource_def build_identity_def required_str_def optional_handle_list_def
    call_primitive_def result_of_def content_build_payload_def content_arg_def optional_u64_def optional_u32_def optional_str_def
    optional_str_list_def int_to_word_def put_contents_def add_resource_def registry_add_def resource_id_new_def ret_def

lemma sample_read: "read_to_string (ge_tree sample_glue) (ge_cwd sample_glue) (abs_path (bundle_entry (ge_bundle sample_glue))) = Inr ''program''"
  by (simp add: sample_glue_def read_to_string_def canonicalize_def abs_path_def MAX_LINKS_def)

lemma sample_evaluated:
  "\<exists>reg sens. evaluator_evaluate sample_interp sample_glue False False Map.empty = Some (Inr reg, sens) \<and>
     map res_id (reg_resources reg) = [''file.content:/a'', ''file.content:/b''] \<and>
     map resource_deps (reg_resources reg) = [[], [''file.content:/a'']] \<and> map res_kind (reg_resources reg) = [''file.content'', ''file.content''] \<and>
     sens ''file.content:/b'' = Some ''four''"
proof -
  have run: "\<exists>st. eval_run sample_interp sample_glue sample_program (push_module m (eval_state_new Map.empty)) = Some (Inr (), st) \<and>
     ev_errors st = [] \<and> map res_id (reg_resources (ev_registry st)) = [''file.content:/a'', ''file.content:/b''] \<and>
     map resource_deps (reg_resources (ev_registry st)) = [[], [''file.content:/a'']] \<and> map res_kind (reg_resources (ev_registry st)) = [''file.content'', ''file.content''] \<and>
     ev_sensitive st ''file.content:/b'' = Some ''four''" for m
    by (simp add: sample_program_def eval_run.simps deadline_check_def sample_interp_def glue_eval sample_glue_def eval_state_new_def
        push_module_def registry_new_def resource_deps_def)
  have int: "in_parse sample_interp f s = Inr sample_program" "in_builtins sample_interp = Inr ()" for f s
    by (simp_all add: sample_interp_def)
  show ?thesis
    using run [of "bundle_entry (ge_bundle sample_glue)"]
    by (auto simp: evaluator_evaluate_def evaluate_manifest_def sample_read int eval_outcome_def pop_module_def)
qed

lemma sample_honest: "honest_interp (\<lambda>_. {}) sample_interp"
  unfolding honest_interp_def sample_interp_def sample_program_def
  by (auto intro!: honest.intros)

lemma sample_content_primitive: "content_primitive sample_glue"
  by (simp add: content_primitive_def sample_glue_def)

theorem evaluated_registry_orders_witness:
  "\<exists>reg sens order. evaluator_evaluate sample_interp sample_glue False False Map.empty = Some (Inr reg, sens) \<and>
     map resource_deps (reg_resources reg) = [[], [''file.content:/a'']] \<and> topological_order rev reg = Inr order \<and>
     mset order = mset [''file.content:/a'', ''file.content:/b'']"
  using sample_evaluated evaluated_registry_orders [OF _ sample_honest, of sample_glue False False Map.empty _ _ rev]
  by (force simp: map_order_def)

theorem evaluated_contents_witness:
  "\<exists>reg sens spec. evaluator_evaluate sample_interp sample_glue False False Map.empty = Some (Inr reg, sens) \<and>
     content_spec_of_json (res_payload (reg_resources reg ! 1)) = Some spec \<and> fc_size spec = 4"
proof -
  obtain reg sens where ev: "evaluator_evaluate sample_interp sample_glue False False Map.empty = Some (Inr reg, sens)"
      and ids: "map res_id (reg_resources reg) = [''file.content:/a'', ''file.content:/b'']"
      and kinds: "map res_kind (reg_resources reg) = [''file.content'', ''file.content'']" and c: "sens ''file.content:/b'' = Some ''four''"
    using sample_evaluated by (elim exE conjE) (rule that)
  have r: "reg_resources reg ! 1 \<in> set (reg_resources reg)" "res_id (reg_resources reg ! 1) = ''file.content:/b''"
      "res_kind (reg_resources reg ! 1) = ''file.content''"
    using ids kinds by (auto simp: map_eq_Cons_conv)
  have "contents_match (ge_digest sample_glue) reg sens" by (rule evaluated_contents [OF ev sample_content_primitive])
  then obtain spec c' where "content_spec_of_json (res_payload (reg_resources reg ! 1)) = Some spec" "sens ''file.content:/b'' = Some c'"
      "uint (fc_size spec) = int (length c')"
    using r unfolding contents_match_def by metis
  then show ?thesis using ev c by (auto intro!: exI word_uint_eqI)
qed
section \<open>Contents stay secret\<close>

text \<open>The arguments of two calls that differ only in the contents.\<close>

definition args_hide :: "string \<Rightarrow> string \<Rightarrow> CallArgs \<Rightarrow> CallArgs \<Rightarrow> bool" where
  "args_hide c c' args args' \<longleftrightarrow> (\<forall>key. key \<noteq> ''contents'' \<longrightarrow> args key = args' key) \<and>
     (args ''contents'' = args' ''contents'' \<or> args ''contents'' = Some (ArgStr c) \<and> args' ''contents'' = Some (ArgStr c'))"

lemma args_hide_refl: "args_hide c c' args args"
  by (simp add: args_hide_def)

lemma args_hide_upd: "args_hide c c' args args' \<Longrightarrow> args_hide c c' (args(k \<mapsto> a)) (args'(k \<mapsto> a))"
  by (simp add: args_hide_def)

lemma args_hide_contents: "args_hide c c' (args(''contents'' \<mapsto> ArgStr c)) (args(''contents'' \<mapsto> ArgStr c'))"
  by (simp add: args_hide_def)

lemma collect_args_hide:
  "args_hide c c' out out' \<Longrightarrow> rel_sum (=) (args_hide c c') (collect_args env kvs out) (collect_args env kvs out')"
proof (induction kvs arbitrary: out out')
  case (Cons kv kvs)
  obtain k v where kv: "kv = (k, v)" by (cases kv)
  show ?case
  proof (cases "\<exists>key a. key_text env [] k = Inr key \<and> value_to_arg env v = Inr a")
    case True
    then obtain key a where ok: "key_text env [] k = Inr key" "value_to_arg env v = Inr a" by blast
    show ?thesis using Cons.IH [OF args_hide_upd [OF Cons.prems, of key a]] by (simp add: kv bindR_def ok del: fun_upd_apply)
  next
    case False
    then show ?thesis by (cases "key_text env [] k"; cases "value_to_arg env v") (auto simp: kv bindR_def)
  qed
qed simp

lemma collect_args_append:
  "collect_args env (kvs @ kvs') out = bindR (collect_args env kvs out) (collect_args env kvs')"
proof (induction kvs arbitrary: out)
  case (Cons kv kvs)
  obtain k v where kv: "kv = (k, v)" by (cases kv)
  show ?case
    by (cases "key_text env [] k"; cases "value_to_arg env v") (simp_all add: kv bindR_def Cons.IH [unfolded bindR_def])
qed (simp add: bindR_def)

lemma kwargs_hide:
  "rel_sum (=) (args_hide c c') (kwargs_to_call_args env (SDict (pre @ (SStr ''contents'', SStr c) # post)))
     (kwargs_to_call_args env (SDict (pre @ (SStr ''contents'', SStr c') # post)))"
  using collect_args_hide [OF args_hide_contents, of c c' env post]
  by (simp add: kwargs_to_call_args_def collect_args_append bindR_def key_text_def value_to_arg_def split: sum.split)

text \<open>Two states that differ only in the stored contents.\<close>

definition same_but_contents :: "'m eval_state \<Rightarrow> 'm eval_state \<Rightarrow> bool" where
  "same_but_contents st st' \<longleftrightarrow> st\<lparr>ev_sensitive := Map.empty\<rparr> = st'\<lparr>ev_sensitive := Map.empty\<rparr>"

lemma add_resource_hide:
  assumes "same_but_contents st st'"
  shows "fst (add_resource kind_str r st) = fst (add_resource kind_str r st') \<and>
    same_but_contents (snd (add_resource kind_str r st)) (snd (add_resource kind_str r st'))"
  using assms
  by (cases st; cases st')
    (auto simp: same_but_contents_def add_resource_def record_invalid_call_in_def push_error_def raise_glue_def split: sum.split)

definition register_rest :: "glue_env \<Rightarrow> string \<Rightarrow> ResourceKind \<Rightarrow> string option \<times> CallArgs \<Rightarrow> ('m, star_value) native" where
  "register_rest env kind_str kind = (\<lambda>(contents, args).
     bindE (build_resource env kind_str kind args) (\<lambda>r.
     bindE (put_contents (res_id r) contents) (\<lambda>_.
     bindE (add_resource kind_str r) (\<lambda>_.
     ret (SHandle (res_id r))))))"

lemma register_rest_hide:
  "fst (register_rest env kind_str kind (contents, args) st) = fst (register_rest env kind_str kind (contents', args) st) \<and>
   same_but_contents (snd (register_rest env kind_str kind (contents, args) st)) (snd (register_rest env kind_str kind (contents', args) st))"
proof -
  obtain z st1 where br: "build_resource env kind_str kind args st = (z, st1)" by fastforce
  show ?thesis
  proof (cases z)
    case (Inl e)
    then show ?thesis by (simp add: register_rest_def bindE_def br same_but_contents_def)
  next
    case (Inr r)
    let ?put = "\<lambda>c. case c of None \<Rightarrow> st1 | Some c \<Rightarrow> st1\<lparr>ev_sensitive := (ev_sensitive st1)(res_id r \<mapsto> c)\<rparr>"
    obtain u s u' s' where add: "add_resource kind_str r (?put contents) = (u, s)" "add_resource kind_str r (?put contents') = (u', s')"
      by fastforce
    have "same_but_contents (?put contents) (?put contents')" by (auto simp: same_but_contents_def split: option.split)
    from add_resource_hide [OF this, of kind_str r] have "u = u'" "same_but_contents s s'" by (simp_all add: add)
    then show ?thesis using Inr by (cases u') (simp_all add: register_rest_def bindE_def br put_contents_def ret_def add)
  qed
qed

lemma register_rest_eq:
  "register_primitive_call env kind_str kwargs =
     bindE (lift_error (kwargs_to_call_args env kwargs)) (\<lambda>args0.
     bindE (lift_error (resolve_kind kind_str)) (\<lambda>kind.
     bindE (take_contents env kind_str args0) (register_rest env kind_str kind)))"
  by (simp add: register_primitive_call_def register_rest_def)

lemma take_contents_hide:
  assumes "args_hide c c' args args'" "ge_digest env c = ge_digest env c'" "length c = length c'"
  shows "(\<exists>e st1. take_contents env ''file.content'' args st = (Inl e, st1) \<and> take_contents env ''file.content'' args' st = (Inl e, st1)) \<or>
    (\<exists>x x' rest. take_contents env ''file.content'' args st = (Inr (Some x, rest), st) \<and>
       take_contents env ''file.content'' args' st = (Inr (Some x', rest), st))"
proof (cases "args = args'")
  case True
  then show ?thesis using take_contents_run [of env "''file.content''" args' st]
    by (cases "take_contents env ''file.content'' args' st") (auto simp: same_core_def)
next
  case False
  then have ex: "args ''contents'' = Some (ArgStr c)" "args' ''contents'' = Some (ArgStr c')"
  proof -
    have "args ''contents'' \<noteq> args' ''contents''"
    proof
      assume same: "args ''contents'' = args' ''contents''"
      have "args key = args' key" for key using assms(1) same unfolding args_hide_def by (cases "key = ''contents''") blast+
      then show False using False by blast
    qed
    then show "args ''contents'' = Some (ArgStr c)" "args' ''contents'' = Some (ArgStr c')" using assms(1) unfolding args_hide_def by blast+
  qed
  have rest: "args(''contents'' := None) = args'(''contents'' := None)"
  proof
    fix key show "(args(''contents'' := None)) key = (args'(''contents'' := None)) key"
      using assms(1) unfolding args_hide_def fun_upd_apply by (cases "key = ''contents''") simp_all
  qed
  have "sha256_hex (ge_digest env) c = sha256_hex (ge_digest env) c'" using assms(2) by (simp add: sha256_hex_def)
  then show ?thesis
    by (simp add: take_contents_def extract_sensitive_contents_def take_raw_def ex rest assms(3) or_invalid_def bindE_def ret_def
        record_invalid_call_in_def raise_glue_def)
qed

text \<open>
  C31. The contents of a file stay secret: of the contents that a manifest passes to \<open>file.content\<close> only the digest and the
  length reach the handle, an error message or the state other than the store of contents; two calls that differ in the contents
  alone, with the same digest and length, cannot be told apart there.
\<close>

theorem contents_stay_secret:
  assumes "ge_digest env c = ge_digest env c'" "length c = length c'"
    and "register_primitive_call env ''file.content'' (SDict (pre @ (SStr ''contents'', SStr c) # post)) st = (x, st1)"
    and "register_primitive_call env ''file.content'' (SDict (pre @ (SStr ''contents'', SStr c') # post)) st = (x', st1')"
  shows "x = x' \<and> st1\<lparr>ev_sensitive := Map.empty\<rparr> = st1'\<lparr>ev_sensitive := Map.empty\<rparr>"
proof -
  let ?k = "kwargs_to_call_args env (SDict (pre @ (SStr ''contents'', SStr c) # post))"
    and ?k' = "kwargs_to_call_args env (SDict (pre @ (SStr ''contents'', SStr c') # post))"
  have rel: "rel_sum (=) (args_hide c c') ?k ?k'" by (rule kwargs_hide)
  have kind: "resolve_kind ''file.content'' = Inr ''file.content''" by (simp add: resolve_kind_def BUILTIN_KINDS_def)
  show ?thesis
  proof (cases ?k)
    case (Inl e)
    then have "?k' = Inl e" using rel by (cases ?k') auto
    then show ?thesis using Inl assms(3,4) by (auto simp: register_rest_eq bindE_def lift_error_def)
  next
    case (Inr args)
    then obtain args' where args': "?k' = Inr args'" "args_hide c c' args args'" using rel by (cases ?k') auto
    from take_contents_hide [OF args'(2) assms(1,2), of st] show ?thesis
    proof (elim disjE exE conjE)
      fix y y' rest
      assume tk: "take_contents env ''file.content'' args st = (Inr (Some y, rest), st)"
        "take_contents env ''file.content'' args' st = (Inr (Some y', rest), st)"
      then have "register_rest env ''file.content'' ''file.content'' (Some y, rest) st = (x, st1)"
        "register_rest env ''file.content'' ''file.content'' (Some y', rest) st = (x', st1')"
        using assms(3,4) Inr args'(1) by (auto simp: register_rest_eq bindE_def lift_error_def kind)
      then show ?thesis
        using register_rest_hide [of env "''file.content''" "''file.content''" "Some y" rest st "Some y'"] by (simp add: same_but_contents_def)
    qed (use assms(3,4) Inr args'(1) in \<open>auto simp: register_rest_eq bindE_def lift_error_def kind\<close>)
  qed
qed

theorem contents_stay_secret_witness:
  "fst (register_primitive_call sample_glue ''file.content'' (SDict ([(SStr ''path'', SStr ''/a'')] @ (SStr ''contents'', SStr ''one'') # []))
       (eval_state_new Map.empty :: unit eval_state)) = Inr (SHandle ''file.content:/a'') \<and>
   fst (register_primitive_call sample_glue ''file.content'' (SDict ([(SStr ''path'', SStr ''/a'')] @ (SStr ''contents'', SStr ''two'') # []))
       (eval_state_new Map.empty :: unit eval_state)) = Inr (SHandle ''file.content:/a'')"
proof -
  let ?run = "\<lambda>c. register_primitive_call sample_glue ''file.content'' (SDict ([(SStr ''path'', SStr ''/a'')] @ (SStr ''contents'', SStr c) # []))
       (eval_state_new Map.empty :: unit eval_state)"
  have one: "fst (?run ''one'') = Inr (SHandle ''file.content:/a'')"
    by (simp add: glue_eval sample_glue_def eval_state_new_def registry_new_def)
  have "ge_digest sample_glue ''one'' = ge_digest sample_glue ''two''" by (simp add: sample_glue_def)
  from contents_stay_secret [OF this _ surjective_pairing surjective_pairing, of "[(SStr ''path'', SStr ''/a'')]" "[]"
      "eval_state_new Map.empty :: unit eval_state"] one
  show ?thesis by simp
qed

section \<open>Modules that load each other\<close>

text \<open>A library file that starts with a \<open>load\<close> of another one.\<close>

definition loads_first :: "'m interp \<Rightarrow> glue_env \<Rightarrow> string \<Rightarrow> string list \<Rightarrow> string \<Rightarrow> bool" where
  "loads_first I env path file next_path \<longleftrightarrow>
     prefix ''@lib/'' path \<and> resolve_module (ge_tree env) (ge_cwd env) (ge_bundle env) path = Inr file \<and>
     (\<exists>source k r. read_to_string (ge_tree env) (ge_cwd env) (abs_path file) = Inr source \<and>
        in_parse I file source = Inr r \<and> (r = LoadModule next_path k \<or> r = Statement (LoadModule next_path k)))"

definition clock_early :: "'m interp \<Rightarrow> bool" where
  "clock_early I \<longleftrightarrow> (\<forall>i. \<not> in_cancelled I i \<and> in_now I i < in_deadline I)"

lemma loads_first_begin:
  assumes "loads_first I env path file next_path" "ev_loaded st file = None"
  shows "\<exists>r k. load_begin I env path st = LoadRun file r (push_module file st) \<and>
    (r = LoadModule next_path k \<or> r = Statement (LoadModule next_path k))"
proof -
  have "path \<noteq> ''@bosun/builtins''" using assms(1) by (auto simp: loads_first_def prefix_def)
  then show ?thesis using assms unfolding loads_first_def load_begin_def by (elim conjE exE) (simp, blast)
qed

lemma hook_early: "clock_early I \<Longrightarrow> deadline_check I st = (Inr (), st\<lparr>ev_checks := Suc (ev_checks st)\<rparr>)"
  by (simp add: deadline_check_def clock_early_def Let_def not_le)

lemma load_cycle_none:
  assumes "eval_run I env r st = Some p" "loads_first I env a fa b" "loads_first I env b fb a" "clock_early I"
    and "ev_loaded st fa = None" "ev_loaded st fb = None" "\<exists>path k. path \<in> {a, b} \<and> r \<in> {LoadModule path k, Statement (LoadModule path k)}"
  shows False
  using assms
proof (induction I env r st p rule: eval_run_induct)
  case (run go I env r st p)
  note IH = run(1) and body = run(2) and a = run(3) and b = run(4) and early = run(5) and free = run(6,7)
  from run(8) obtain path k where path: "path \<in> {a, b}" and r: "r = LoadModule path k \<or> r = Statement (LoadModule path k)" by blast
  from r show False
  proof
    assume "r = Statement (LoadModule path k)"
    then have go: "go I env (LoadModule path k) (st\<lparr>ev_checks := Suc (ev_checks st)\<rparr>) = Some p"
      using body hook_early [OF early, of st] by simp
    show False by (rule IH [OF go a b early]) (use free path in auto)
  next
    assume r: "r = LoadModule path k"
    obtain fl next_path where nx: "loads_first I env path fl next_path" "ev_loaded st fl = None" "next_path \<in> {a, b}" using path a b free by blast
    obtain r' k' where step: "load_begin I env path st = LoadRun fl r' (push_module fl st)"
        and r': "r' = LoadModule next_path k' \<or> r' = Statement (LoadModule next_path k')"
      using loads_first_begin [OF nx(1,2)] by blast
    then obtain q where q: "go I env r' (push_module fl st) = Some q"
      using body r by (cases "go I env r' (push_module fl st)") auto
    show False by (rule IH [OF q a b early]) (use free nx(3) r' in \<open>auto simp: push_module_def\<close>)
  qed
qed

text \<open>
  C32. Modules that load each other are not recognised: a module enters the cache only after its run, so the evaluation of two
  library files that start with a \<open>load\<close> of each other goes down without end, until the deadline or a cancellation stops it
  (or the stack is used up); the error for load cycles is never given.
\<close>

theorem load_cycle_undetected:
  assumes "loads_first I env a fa b" "loads_first I env b fb a" "clock_early I" "ev_loaded st fa = None" "ev_loaded st fb = None"
  shows "eval_run I env (LoadModule a k) st = None"
proof (cases "eval_run I env (LoadModule a k) st")
  case (Some p)
  then show ?thesis using load_cycle_none [OF Some assms] by blast
qed

definition cycle_glue :: glue_env where
  "cycle_glue = sample_glue\<lparr>ge_tree := [[''b''] \<mapsto> TDir, [''b'', ''_lib''] \<mapsto> TDir, [''b'', ''_lib'', ''x''] \<mapsto> TDir,
     [''b'', ''_lib'', ''y''] \<mapsto> TDir, [''b'', ''_lib'', ''x'', ''main.star''] \<mapsto> TFile ''load y'',
     [''b'', ''_lib'', ''y'', ''main.star''] \<mapsto> TFile ''load x'']\<rparr>"

definition cycle_interp :: "unit interp" where
  "cycle_interp = sample_interp\<lparr>in_now := (\<lambda>i. 0), in_parse := (\<lambda>file source.
     Inr (Statement (LoadModule (if source = ''load y'' then ''@lib/y'' else ''@lib/x'') (\<lambda>m. Finish (Inr m)))))\<rparr>"

lemma cycle_files:
  "resolve_module (ge_tree cycle_glue) (ge_cwd cycle_glue) (ge_bundle cycle_glue) ''@lib/x'' = Inr [''b'', ''_lib'', ''x'', ''main.star'']"
  "resolve_module (ge_tree cycle_glue) (ge_cwd cycle_glue) (ge_bundle cycle_glue) ''@lib/y'' = Inr [''b'', ''_lib'', ''y'', ''main.star'']"
  "read_to_string (ge_tree cycle_glue) (ge_cwd cycle_glue) (abs_path [''b'', ''_lib'', ''x'', ''main.star'']) = Inr ''load y''"
  "read_to_string (ge_tree cycle_glue) (ge_cwd cycle_glue) (abs_path [''b'', ''_lib'', ''y'', ''main.star'']) = Inr ''load x''"
  by (code_simp+)

theorem load_cycle_undetected_witness:
  "eval_run cycle_interp cycle_glue (LoadModule ''@lib/x'' (\<lambda>m. Finish (Inr m))) (eval_state_new Map.empty) = None"
  by (rule load_cycle_undetected [where fa = "[''b'', ''_lib'', ''x'', ''main.star'']" and b = "''@lib/y''" and fb = "[''b'', ''_lib'', ''y'', ''main.star'']"])
    (simp_all add: loads_first_def cycle_files, simp_all add: cycle_interp_def clock_early_def sample_interp_def eval_state_new_def)

end
