(* ===== verification/Cli_Status.thy ===== *)
theory Cli_Status
  imports Defer_Journal
begin

text \<open>
  \<open>bosun-cli/src/status.rs\<close> and \<open>exit_code.rs\<close>: the command \<open>bosun status\<close>, which shows the journal and clears entries of it.
  The result of \<open>Journal::open\<close> (\<open>Journal_Open\<close>) is an argument; what goes to the standard output is part of the result, messages
  on the standard error are left out.  The text of a time and the pretty printer of \<open>serde_json\<close> are parameters.
\<close>

section \<open>Exit codes\<close>

definition SUCCESS :: nat where "SUCCESS = 0"
definition APPLY_PARTIAL_FAILURE :: nat where "APPLY_PARTIAL_FAILURE = 1"
definition DRY_RUN_DRIFT :: nat where "DRY_RUN_DRIFT = 2"
definition EVAL_ERROR :: nat where "EVAL_ERROR = 3"
definition CLI_ENV_ERROR :: nat where "CLI_ENV_ERROR = 4"
definition STATUS_MANUAL_CLEAR_PRESENT :: nat where "STATUS_MANUAL_CLEAR_PRESENT = 1"
definition APPLY_INTERRUPTED :: nat where "APPLY_INTERRUPTED = 130"

lemmas exit_codes = SUCCESS_def APPLY_PARTIAL_FAILURE_def DRY_RUN_DRIFT_def EVAL_ERROR_def CLI_ENV_ERROR_def
    STATUS_MANUAL_CLEAR_PRESENT_def APPLY_INTERRUPTED_def

datatype StatusFormat = StatusText | StatusJson

record StatusArgs =
  st_format :: StatusFormat
  st_clear :: "string option"
  st_clear_all_manual :: bool

section \<open>Operations on the directory\<close>

definition status_fsync_dir :: "os_env \<Rightarrow> (fs_state, io_error, unit) prog" where
  "status_fsync_dir env = bindE (sys_open_dir env) (\<lambda>_. sys_sync_dir env)"

definition is_manual_name :: "string \<Rightarrow> bool" where
  "is_manual_name name \<longleftrightarrow> path_extension name = Some ''manual_clear''"

fun clear_scan :: "os_env \<Rightarrow> serde_codec \<Rightarrow> string \<Rightarrow> string list \<Rightarrow> (fs_state, io_error, bool) prog" where
  "clear_scan env C i [] = ret False"
| "clear_scan env C i (n # ns) =
     bindE (sys_next_entry env n) (\<lambda>name.
       if \<not> is_deferred_name name \<and> \<not> is_manual_name name then clear_scan env C i ns
       else if name = i then bindE (sys_remove_file env name) (\<lambda>_. bindE (status_fsync_dir env) (\<lambda>_. ret True))
       else attempt (sys_read env name) (\<lambda>r. case r of
              Inl NotFound \<Rightarrow> clear_scan env C i ns
            | Inl e \<Rightarrow> throw e
            | Inr bytes \<Rightarrow>
                (if (case entry_of_bytes C bytes of Some e \<Rightarrow> entry_id e = i | None \<Rightarrow> False)
                 then bindE (sys_remove_file env name) (\<lambda>_. bindE (status_fsync_dir env) (\<lambda>_. ret True))
                 else clear_scan env C i ns)))"

definition clear_one :: "os_env \<Rightarrow> serde_codec \<Rightarrow> string \<Rightarrow> (fs_state, io_error, bool) prog" where
  "clear_one env C i = bindE (sys_read_dir env) (clear_scan env C i)"

fun remove_manual :: "os_env \<Rightarrow> string list \<Rightarrow> nat \<Rightarrow> (fs_state, io_error, nat) prog" where
  "remove_manual env [] removed = ret removed"
| "remove_manual env (n # ns) removed =
     bindE (sys_next_entry env n) (\<lambda>name.
       if \<not> is_manual_name name then remove_manual env ns removed
       else attempt (sys_remove_file env name) (\<lambda>r. case r of
              Inr _ \<Rightarrow> remove_manual env ns (removed + 1)
            | Inl NotFound \<Rightarrow> remove_manual env ns removed
            | Inl e \<Rightarrow> throw e))"

definition clear_all_manual :: "os_env \<Rightarrow> (fs_state, io_error, nat) prog" where
  "clear_all_manual env =
     bindE (sys_read_dir env) (\<lambda>dir.
     bindE (remove_manual env dir 0) (\<lambda>removed.
     bindE (if removed > 0 then status_fsync_dir env else ret ()) (\<lambda>_.
     ret removed)))"

text \<open>The files are read in the order of the directory and the entries then sorted by name; files that are no entry are skipped.\<close>

fun collect_manual :: "os_env \<Rightarrow> serde_codec \<Rightarrow> string list \<Rightarrow> (fs_state, io_error, (string \<times> DeferEntry) list) prog" where
  "collect_manual env C [] = ret []"
| "collect_manual env C (n # ns) =
     bindE (sys_next_entry env n) (\<lambda>name.
       if \<not> is_manual_name name then collect_manual env C ns
       else attempt (sys_read env name) (\<lambda>r. case r of
              Inl NotFound \<Rightarrow> collect_manual env C ns
            | Inl e \<Rightarrow> throw e
            | Inr bytes \<Rightarrow>
                (case entry_of_bytes C bytes of
                   None \<Rightarrow> collect_manual env C ns
                 | Some e \<Rightarrow> bindE (collect_manual env C ns) (\<lambda>out. ret ((name, e) # out)))))"

definition list_manual_clear :: "os_env \<Rightarrow> serde_codec \<Rightarrow> (fs_state, io_error, DeferEntry list) prog" where
  "list_manual_clear env C =
     bindE (sys_read_dir env) (\<lambda>dir.
     bindE (collect_manual env C dir) (\<lambda>out.
     ret (map snd (sort_key fst out))))"

section \<open>The output\<close>

text \<open>Characters of a UTF-8 text: a byte that does not continue a character starts one.\<close>

definition continues_char :: "char \<Rightarrow> bool" where
  "continues_char c \<longleftrightarrow> (128 :: nat) \<le> of_char c \<and> of_char c < (192 :: nat)"

definition char_count :: "string \<Rightarrow> nat" where
  "char_count s = length (filter (\<lambda>c. \<not> continues_char c) s)"

function take_chars :: "nat \<Rightarrow> string \<Rightarrow> string" where
  "take_chars 0 s = []"
| "take_chars (Suc n) [] = []"
| "take_chars (Suc n) (c # cs) = c # takeWhile continues_char cs @ take_chars n (dropWhile continues_char cs)"
  by pat_completeness auto
termination by (relation "measure fst") auto

definition truncate_text :: "string \<Rightarrow> nat \<Rightarrow> string" where
  "truncate_text s n =
     (if char_count s \<le> n then s
      else if n < 4 then take_chars n s
      else take_chars (n - 3) s @ ''...'')"

text \<open>The format \<open>{:<w}\<close>.\<close>

definition pad_right :: "nat \<Rightarrow> string \<Rightarrow> string" where
  "pad_right w s = s @ replicate (w - char_count s) (CHR '' '')"

definition table_row :: "string \<Rightarrow> string \<Rightarrow> string \<Rightarrow> string \<Rightarrow> string \<Rightarrow> string \<Rightarrow> string" where
  "table_row a b c d e f =
     join_with '' '' [pad_right 12 a, pad_right 32 b, pad_right 20 c, pad_right 24 d, pad_right 8 e, pad_right 20 f] @ newline"

definition print_text :: "(timestamp \<Rightarrow> string) \<Rightarrow> (DeferEntry \<times> string) list \<Rightarrow> string" where
  "print_text show_time entries =
     (if entries = [] then ''no pending defers'' @ newline
      else table_row ''STATE'' ''ID'' ''ACTION'' ''TARGET'' ''ATTEMPTS'' ''ENQUEUED_AT'' @
        concat (map (\<lambda>(e, state). table_row state (truncate_text (entry_id e) 32) (truncate_text (filename_slug (entry_action e)) 20)
          (truncate_text (entry_target e) 24)
          (show_nat (unat (entry_attempt_count e)) @ ''/'' @ show_nat (unat (entry_max_attempts e)))
          (show_time (entry_enqueued_at e))) entries))"

definition status_json :: "serde_codec \<Rightarrow> DeferEntry \<times> string \<Rightarrow> json" where
  "status_json C = (\<lambda>(e, state).
     case json_norm (entry_to_json C e) of
       JObject m \<Rightarrow> JObject (obj_insert ''state'' (JString state) m)
     | v \<Rightarrow> v)"

definition print_json :: "serde_codec \<Rightarrow> (json \<Rightarrow> string option) \<Rightarrow> (DeferEntry \<times> string) list \<Rightarrow> string" where
  "print_json C pretty entries =
     (case pretty (JArray (map (status_json C) entries)) of
        Some text \<Rightarrow> text @ newline
      | None \<Rightarrow> ''[]'' @ newline)"

section \<open>The command\<close>

record status_env =
  se_time :: "timestamp \<Rightarrow> string"
  se_pretty :: "json \<Rightarrow> string option"

text \<open>An early return with its exit code is the error of the program.\<close>

definition or_env_error :: "(fs_state, 'e, 'a) prog \<Rightarrow> (fs_state, nat, 'a) prog" where
  "or_env_error m = map_err (\<lambda>_. CLI_ENV_ERROR) m"

definition status_clear :: "os_env \<Rightarrow> serde_codec \<Rightarrow> StatusArgs \<Rightarrow> (fs_state, nat, unit) prog" where
  "status_clear env C args =
     bindE (case st_clear args of
              None \<Rightarrow> ret ()
            | Some i \<Rightarrow> bindE (or_env_error (clear_one env C i)) (\<lambda>found. if found then ret () else throw CLI_ENV_ERROR)) (\<lambda>_.
     if st_clear_all_manual args then bindE (or_env_error (clear_all_manual env)) (\<lambda>_. ret ()) else ret ())"

definition status_list ::
  "os_env \<Rightarrow> serde_codec \<Rightarrow> Journal \<Rightarrow> (fs_state, nat, (DeferEntry \<times> string) list) prog" where
  "status_list env C J =
     bindE (or_env_error (list_sorted env C J)) (\<lambda>pending.
     bindE (or_env_error (list_manual_clear env C)) (\<lambda>manual.
     ret (map (\<lambda>e. (e, ''pending'')) pending @ map (\<lambda>e. (e, ''manual_clear'')) manual)))"

definition status_run ::
  "os_env \<Rightarrow> serde_codec \<Rightarrow> status_env \<Rightarrow> StatusArgs \<Rightarrow> DeferError + Journal \<Rightarrow> fs_state \<Rightarrow> (nat \<times> string) \<times> fs_state" where
  "status_run env C se args opened s =
     (case opened of
        Inl e \<Rightarrow> ((CLI_ENV_ERROR, []), s)
      | Inr J \<Rightarrow>
          (case bindE (status_clear env C args) (\<lambda>_. status_list env C J) s of
             (Inl code, s') \<Rightarrow> ((code, []), s')
           | (Inr entries, s') \<Rightarrow>
               ((if \<exists>e \<in> set entries. snd e = ''manual_clear'' then STATUS_MANUAL_CLEAR_PRESENT else SUCCESS,
                 case st_format args of
                   StatusText \<Rightarrow> print_text (se_time se) entries
                 | StatusJson \<Rightarrow> print_json C (se_pretty se) entries), s')))"

section \<open>What the calls do\<close>

lemma next_entry_run: "sys_next_entry env n s = (r, s') \<Longrightarrow> content s' = content s \<and> (r = Inr n \<or> (\<exists>e. r = Inl e))"
  by (auto simp: sys_next_entry_def syscall_def Let_def split: option.splits)

lemma read_run:
  "sys_read env n s = (r, s') \<Longrightarrow> content s' = content s \<and>
     (\<forall>b. r = Inr b \<longrightarrow> content s n = Some b) \<and> (r = Inl NotFound \<longrightarrow> content s n = None)"
  by (auto simp: sys_read_def syscall_def Let_def content_def split: option.splits)

lemma read_dir_run: "sys_read_dir env s = (r, s') \<Longrightarrow> content s' = content s \<and> fs_files s' = fs_files s \<and> (\<forall>d. r = Inr d \<longrightarrow> d = map fst (fs_files s))"
  by (auto simp: sys_read_dir_def syscall_def Let_def content_def split: option.splits)

lemma remove_run:
  "sys_remove_file env n s = (r, s') \<Longrightarrow>
     r = Inr () \<and> content s n \<noteq> None \<and> content s' = (content s)(n := None) \<or>
     (\<exists>e. r = Inl e \<and> content s' = content s \<and> (e = NotFound \<longrightarrow> content s n = None))"
  by (auto simp: sys_remove_file_def syscall_def Let_def content_def fun_eq_iff split: option.splits)

lemma fsync_run: "status_fsync_dir env s = (r, s') \<Longrightarrow> content s' = content s"
  by (auto simp: status_fsync_dir_def sys_open_dir_def sys_sync_dir_def syscall_def bindE_def Let_def content_def split: option.splits)

section \<open>Clearing one entry\<close>

text \<open>What \<open>--clear\<close> is meant to find: by the name of the file, or by the id of the entry in it.\<close>

definition clears :: "serde_codec \<Rightarrow> string \<Rightarrow> (string \<Rightarrow> string option) \<Rightarrow> string \<Rightarrow> bool" where
  "clears C i files n \<longleftrightarrow> (is_deferred_name n \<or> is_manual_name n) \<and>
     (\<exists>b. files n = Some b \<and> (n = i \<or> (\<exists>e. entry_of_bytes C b = Some e \<and> entry_id e = i)))"

lemma remove_found:
  assumes "bindE (sys_remove_file env n) (\<lambda>_. bindE (status_fsync_dir env) (\<lambda>_. ret True)) s = (r, s')"
  shows "r = Inr True \<and> content s n \<noteq> None \<and> content s' = (content s)(n := None) \<or>
    (\<exists>e. r = Inl e \<and> (content s' = content s \<or> content s n \<noteq> None \<and> content s' = (content s)(n := None)))"
proof -
  obtain r1 s1 where rm: "sys_remove_file env n s = (r1, s1)" by fastforce
  obtain r2 s2 where fs: "status_fsync_dir env s1 = (r2, s2)" by fastforce
  show ?thesis
    using assms rm fs remove_run [OF rm] fsync_run [OF fs] by (cases r1; cases r2) (auto simp: bindE_def)
qed

lemma clear_scan_run:
  "clear_scan env C i ns s = (r, s') \<Longrightarrow>
     r = Inr False \<and> content s' = content s \<and> (\<forall>n \<in> set ns. \<not> clears C i (content s) n) \<or>
     r = Inr True \<and> (\<exists>n \<in> set ns. clears C i (content s) n \<and> content s' = (content s)(n := None)) \<or>
     (\<exists>e. r = Inl e \<and> (content s' = content s \<or> (\<exists>n \<in> set ns. clears C i (content s) n \<and> content s' = (content s)(n := None))))"
proof (induction ns arbitrary: s)
  case (Cons n ns)
  obtain r1 s1 where nx: "sys_next_entry env n s = (r1, s1)" by fastforce
  note nx' = next_entry_run [OF nx]
  have c1: "content s1 = content s" using nx' by simp
  show ?case
  proof (cases r1)
    case (Inl e)
    then show ?thesis using Cons.prems nx c1 by (auto simp: bindE_def)
  next
    case (Inr name)
    have name: "name = n" using nx' Inr by auto
    let ?rm = "bindE (sys_remove_file env n) (\<lambda>_. bindE (status_fsync_dir env) (\<lambda>_. ret True))"
    consider (skip) "\<not> is_deferred_name n \<and> \<not> is_manual_name n" | (named) "is_deferred_name n \<or> is_manual_name n" "n = i"
      | (look) "is_deferred_name n \<or> is_manual_name n" "n \<noteq> i" by blast
    then show ?thesis
    proof cases
      case skip
      then have "clear_scan env C i ns s1 = (r, s')" using Cons.prems nx Inr name by (simp add: bindE_def)
      from Cons.IH [OF this] show ?thesis using c1 skip by (auto simp: clears_def)
    next
      case named
      then have rm: "?rm s1 = (r, s')" using Cons.prems nx Inr name by (auto simp: bindE_def)
      have "content s n \<noteq> None \<Longrightarrow> clears C i (content s) n" using named by (auto simp: clears_def)
      then show ?thesis using remove_found [OF rm] c1 by auto
    next
      case look
      obtain r2 s2 where rd: "sys_read env n s1 = (r2, s2)" by fastforce
      note rd' = read_run [OF rd]
      have c2: "content s2 = content s" using rd' c1 by simp
      let ?hit = "\<lambda>b. case entry_of_bytes C b of Some e \<Rightarrow> entry_id e = i | None \<Rightarrow> False"
      consider (gone) "r2 = Inl NotFound" | (bad) e where "r2 = Inl e" "e \<noteq> NotFound" | (other) b where "r2 = Inr b" "\<not> ?hit b"
        | (hit) b where "r2 = Inr b" "?hit b" by (cases r2) auto
      then show ?thesis
      proof cases
        case gone
        then have "clear_scan env C i ns s2 = (r, s')" using Cons.prems nx Inr name look rd by (auto simp: bindE_def attempt_def)
        from Cons.IH [OF this] show ?thesis using c1 c2 rd' gone by (auto simp: clears_def)
      next
        case bad
        then show ?thesis using Cons.prems nx Inr name look rd c2 by (cases e) (auto simp: bindE_def attempt_def)
      next
        case other
        then have run: "clear_scan env C i ns s2 = (r, s')" using Cons.prems nx Inr name look rd by (auto simp: bindE_def attempt_def)
        have "\<not> clears C i (content s) n" using other rd' c1 look by (auto simp: clears_def)
        then show ?thesis using Cons.IH [OF run] c2 by auto
      next
        case hit
        then have run: "?rm s2 = (r, s')" using Cons.prems nx Inr name look rd by (auto simp: attempt_def bindE_Inr)
        have "clears C i (content s) n" using hit rd' c1 look by (auto simp: clears_def split: option.splits)
        then show ?thesis using remove_found [OF run] c2 by auto
      qed
    qed
  qed
qed auto

lemma clears_listed: "clears C i (content s) n \<Longrightarrow> n \<in> set (map fst (fs_files s))"
  using content_in_files [of s n] by (auto simp: clears_def)

text \<open>
  C36. \<open>bosun status --clear\<close> removes one file and no other: when it reports success, exactly one file of the journal is gone, and it
  had the given name or held an entry with the given id; when it reports that nothing matches, the journal is unchanged and indeed no
  file of it matches; and when a call fails, at most one file that matches is gone.
\<close>

theorem clear_one_exact:
  assumes "clear_one env C i s = (r, s')"
  shows "(r = Inr True \<longrightarrow> (\<exists>n. clears C i (content s) n \<and> content s' = (content s)(n := None))) \<and>
    (r = Inr False \<longrightarrow> content s' = content s \<and> (\<forall>n. \<not> clears C i (content s) n)) \<and>
    (\<forall>e. r = Inl e \<longrightarrow> content s' = content s \<or> (\<exists>n. clears C i (content s) n \<and> content s' = (content s)(n := None)))"
proof -
  obtain r1 s1 where rd: "sys_read_dir env s = (r1, s1)" by fastforce
  note rd' = read_dir_run [OF rd]
  show ?thesis
  proof (cases r1)
    case (Inl e)
    then show ?thesis using assms rd rd' by (auto simp: clear_one_def bindE_def)
  next
    case (Inr d)
    then have run: "clear_scan env C i (map fst (fs_files s)) s1 = (r, s')" and c: "content s1 = content s"
      using assms rd rd' by (auto simp: clear_one_def bindE_def)
    show ?thesis using clear_scan_run [OF run] clears_listed [of C i s] unfolding c by blast
  qed
qed

section \<open>Clearing what was given up\<close>

lemma remove_manual_run:
  "remove_manual env ns k s = (r, s') \<Longrightarrow>
     (\<forall>n. content s' n = content s n \<or> is_manual_name n \<and> content s' n = None) \<and>
     (\<forall>j. r = Inr j \<longrightarrow> (\<forall>n \<in> set ns. is_manual_name n \<longrightarrow> content s' n = None) \<and>
        (distinct ns \<longrightarrow> j = k + card {n \<in> set ns. is_manual_name n \<and> content s n \<noteq> None}))"
proof (induction ns arbitrary: s k)
  case (Cons n ns)
  obtain r1 s1 where nx: "sys_next_entry env n s = (r1, s1)" by fastforce
  note nx' = next_entry_run [OF nx]
  have c1: "content s1 = content s" using nx' by simp
  show ?case
  proof (cases r1)
    case (Inl e)
    then show ?thesis using Cons.prems nx c1 by (auto simp: bindE_def)
  next
    case (Inr name)
    have name: "name = n" using nx' Inr by auto
    show ?thesis
    proof (cases "is_manual_name n")
      case False
      then have run: "remove_manual env ns k s1 = (r, s')" using Cons.prems nx Inr name by (simp add: bindE_def)
      have "{m \<in> set (n # ns). is_manual_name m \<and> content s m \<noteq> None} = {m \<in> set ns. is_manual_name m \<and> content s m \<noteq> None}"
        using False by auto
      then show ?thesis using Cons.IH [OF run] c1 False by auto
    next
      case True
      obtain r2 s2 where rm: "sys_remove_file env n s1 = (r2, s2)" by fastforce
      note rm' = remove_run [OF rm, unfolded c1]
      consider (removed) "r2 = Inr ()" | (gone) "r2 = Inl NotFound" | (bad) e where "r2 = Inl e" "e \<noteq> NotFound" by (cases r2) auto
      then show ?thesis
      proof cases
        case removed
        then have run: "remove_manual env ns (k + 1) s2 = (r, s')" using Cons.prems nx Inr name True rm by (simp add: bindE_def attempt_def)
        have c2: "content s n \<noteq> None" "content s2 = (content s)(n := None)" using rm' removed by auto
        have "{m \<in> set (n # ns). is_manual_name m \<and> content s m \<noteq> None} =
            insert n {m \<in> set ns. is_manual_name m \<and> content s2 m \<noteq> None}"
          using True c2 by auto
        then have card: "distinct (n # ns) \<Longrightarrow>
            card {m \<in> set (n # ns). is_manual_name m \<and> content s m \<noteq> None} = Suc (card {m \<in> set ns. is_manual_name m \<and> content s2 m \<noteq> None})"
          by simp
        have one: "\<forall>m. content s' m = content s m \<or> is_manual_name m \<and> content s' m = None"
          using Cons.IH [OF run] c2 True by (metis fun_upd_apply)
        have two: "content s' n = None" using Cons.IH [OF run] c2 by (metis fun_upd_same)
        show ?thesis using Cons.IH [OF run] one two card by auto
      next
        case gone
        then have run: "remove_manual env ns k s2 = (r, s')" using Cons.prems nx Inr name True rm by (simp add: bindE_def attempt_def)
        have c2: "content s n = None" "content s2 = content s" using rm' gone by auto
        have "{m \<in> set (n # ns). is_manual_name m \<and> content s m \<noteq> None} = {m \<in> set ns. is_manual_name m \<and> content s m \<noteq> None}"
          using c2 by auto
        moreover have "content s' n = None" using Cons.IH [OF run] c2 by metis
        ultimately show ?thesis using Cons.IH [OF run] c2 by auto
      next
        case bad
        then show ?thesis using Cons.prems nx Inr name True rm rm' by (cases e) (auto simp: bindE_def attempt_def)
      qed
    qed
  qed
qed auto

lemma clear_all_manual_run:
  assumes "clear_all_manual env s = (r, s')"
  shows "(\<forall>n. content s' n = content s n \<or> is_manual_name n \<and> content s' n = None) \<and>
    (\<forall>j. r = Inr j \<longrightarrow> (\<forall>n. is_manual_name n \<longrightarrow> content s' n = None) \<and>
       (fs_wf s \<longrightarrow> j = card {n. is_manual_name n \<and> content s n \<noteq> None}))"
proof -
  obtain r1 s1 where rd: "sys_read_dir env s = (r1, s1)" by fastforce
  note rd' = read_dir_run [OF rd]
  show ?thesis
  proof (cases r1)
    case (Inl e)
    then show ?thesis using assms rd rd' by (auto simp: clear_all_manual_def bindE_def)
  next
    case (Inr d)
    obtain r2 s2 where rm: "remove_manual env (map fst (fs_files s)) 0 s1 = (r2, s2)" by fastforce
    have c: "content s1 = content s" using rd' by simp
    note rm' = remove_manual_run [OF rm, unfolded c]
    obtain r3 s3 where fs: "status_fsync_dir env s2 = (r3, s3)" by fastforce
    have s': "content s' = content s2" and r: "\<forall>j. r = Inr j \<longrightarrow> r2 = Inr j"
      using assms rd rd' Inr rm fs fsync_run [OF fs] by (cases r2; cases r3; auto simp: clear_all_manual_def bindE_def split: if_splits)+
    have "{n \<in> set (map fst (fs_files s)). is_manual_name n \<and> content s n \<noteq> None} = {n. is_manual_name n \<and> content s n \<noteq> None}"
      using content_in_files [of s] by auto
    moreover have "content s' n = None" if "is_manual_name n" "r = Inr j" for n j
    proof (cases "n \<in> set (map fst (fs_files s))")
      case True
      then show ?thesis using that rm' r s' by auto
    next
      case False
      then have "content s n = None" using content_in_files [of s n] by blast
      then show ?thesis using rm' s' by metis
    qed
    ultimately show ?thesis using rm' r s' by (auto simp: fs_wf_def)
  qed
qed

section \<open>The whole command\<close>

lemma set_map_filter: "set (List.map_filter f xs) = {y. \<exists>x \<in> set xs. f x = Some y}"
  by (force simp: map_filter_def)

lemma collect_manual_run:
  "collect_manual env C ns s = (r, s') \<Longrightarrow> content s' = content s \<and>
     (\<forall>out. r = Inr out \<longrightarrow> out = List.map_filter (\<lambda>n. if is_manual_name n
        then map_option (Pair n) (Option.bind (content s n) (entry_of_bytes C)) else None) ns)"
proof (induction ns arbitrary: s r s')
  case Nil
  then show ?case by (auto simp: map_filter_def)
next
  case (Cons n ns)
  obtain r1 s1 where nx: "sys_next_entry env n s = (r1, s1)" by fastforce
  note nx' = next_entry_run [OF nx]
  have c1: "content s1 = content s" using nx' by simp
  show ?case
  proof (cases r1)
    case (Inl e)
    then show ?thesis using Cons.prems nx c1 by (auto simp: bindE_def)
  next
    case (Inr name)
    have name: "name = n" using nx' Inr by auto
    show ?thesis
    proof (cases "is_manual_name n")
      case False
      then have "collect_manual env C ns s1 = (r, s')" using Cons.prems nx Inr name by (simp add: bindE_def)
      from Cons.IH [OF this] show ?thesis unfolding c1 using False by (simp add: map_filter_simps)
    next
      case True
      obtain r2 s2 where rd: "sys_read env n s1 = (r2, s2)" by fastforce
      note rd' = read_run [OF rd, unfolded c1]
      obtain r3 s3 where rec: "collect_manual env C ns s2 = (r3, s3)" by fastforce
      note rec' = Cons.IH [OF rec, unfolded rd' [THEN conjunct1]]
      consider (bad) e where "r2 = Inl e" "e \<noteq> NotFound" | (gone) "r2 = Inl NotFound" | (corrupt) b where "r2 = Inr b" "entry_of_bytes C b = None"
        | (good) b e where "r2 = Inr b" "entry_of_bytes C b = Some e" by (cases r2) auto
      then show ?thesis
      proof cases
        case bad
        then show ?thesis using Cons.prems nx Inr name True rd rd' by (cases e) (auto simp: bindE_def attempt_def)
      next
        case gone
        then have "r = r3 \<and> s' = s3" using Cons.prems nx Inr name True rd rec by (auto simp: bindE_def attempt_def)
        then show ?thesis using rec' gone rd' True by (simp add: map_filter_simps)
      next
        case corrupt
        then have "r = r3 \<and> s' = s3" using Cons.prems nx Inr name True rd rec by (auto simp: bindE_def attempt_def)
        then show ?thesis using rec' corrupt rd' True by (simp add: map_filter_simps)
      next
        case good
        then have "r = (case r3 of Inl e \<Rightarrow> Inl e | Inr out \<Rightarrow> Inr ((n, e) # out)) \<and> s' = s3"
          using Cons.prems nx Inr name True rd rec by (cases r3) (auto simp: bindE_def attempt_def)
        then show ?thesis using rec' good rd' True by (cases r3) (simp_all add: map_filter_simps)
      qed
    qed
  qed
qed

lemma list_manual_run:
  assumes "list_manual_clear env C s = (r, s')"
  shows "content s' = content s \<and> (\<forall>es. r = Inr es \<longrightarrow>
    set es = {e. \<exists>n b. is_manual_name n \<and> content s n = Some b \<and> entry_of_bytes C b = Some e})"
proof -
  obtain r1 s1 where rd: "sys_read_dir env s = (r1, s1)" by fastforce
  note rd' = read_dir_run [OF rd]
  show ?thesis
  proof (cases r1)
    case (Inl e)
    then show ?thesis using assms rd rd' by (auto simp: list_manual_clear_def bindE_def)
  next
    case (Inr d)
    obtain r2 s2 where col: "collect_manual env C (map fst (fs_files s)) s1 = (r2, s2)" by fastforce
    have c: "content s1 = content s" using rd' by simp
    note col' = collect_manual_run [OF col, unfolded c]
    have s': "s' = s2" "\<forall>es. r = Inr es \<longrightarrow> (\<exists>out. r2 = Inr out \<and> es = map snd (sort_key fst out))"
      using assms rd rd' Inr col by (cases r2; auto simp: list_manual_clear_def bindE_def)+
    let ?f = "\<lambda>n. if is_manual_name n then map_option (Pair n) (Option.bind (content s n) (entry_of_bytes C)) else None"
    have files: "n \<in> set (map fst (fs_files s))" if "content s n = Some b" for n b
      using that content_in_files [of s n] by auto
    have "set es = {e. \<exists>n b. is_manual_name n \<and> content s n = Some b \<and> entry_of_bytes C b = Some e}" if es: "r = Inr es" for es
    proof -
      obtain out where out: "r2 = Inr out" "es = map snd (sort_key fst out)" using es s'(2) by blast
      then have "out = List.map_filter ?f (map fst (fs_files s))" using col' [THEN conjunct2, THEN spec, THEN mp, OF out(1)] by simp
      then have "set out = {p. \<exists>n \<in> set (map fst (fs_files s)). ?f n = Some p}" by (simp only: set_map_filter)
      then have "set es = snd ` {p. \<exists>n \<in> set (map fst (fs_files s)). ?f n = Some p}" using out(2) by simp
      also have "\<dots> = {e. \<exists>n b. is_manual_name n \<and> content s n = Some b \<and> entry_of_bytes C b = Some e}" (is "?l = ?r")
      proof (intro set_eqI iffI)
        fix e assume "e \<in> ?l"
        then show "e \<in> ?r" by (auto simp: bind_eq_Some_conv split: if_splits)
      next
        fix e assume "e \<in> ?r"
        then obtain n b where n: "is_manual_name n" "content s n = Some b" "entry_of_bytes C b = Some e" by blast
        then have "?f n = Some (n, e)" by simp
        then have "(n, e) \<in> {p. \<exists>n \<in> set (map fst (fs_files s)). ?f n = Some p}" using files [OF n(2)] by blast
        then show "e \<in> ?l" by (rule rev_image_eqI) simp
      qed
      finally show ?thesis .
    qed
    then show ?thesis using s' col' by auto
  qed
qed

text \<open>A file of an entry that was given up.\<close>

definition given_up :: "serde_codec \<Rightarrow> (string \<Rightarrow> string option) \<Rightarrow> bool" where
  "given_up C files \<longleftrightarrow> (\<exists>n b x. is_manual_name n \<and> files n = Some b \<and> entry_of_bytes C b = Some x)"

text \<open>
  C37. The exit code of \<open>bosun status\<close> can be relied on, whatever read fails: without an option to clear, the journal is unchanged;
  1 means that there is an entry that was given up, 0 that there is none, and anything else is reported as 4, also when the journal
  could not be opened.  A given-up file that holds no entry counts for nothing, so the code can be 0 although there is one.
\<close>

theorem status_exit_exact:
  assumes "status_run env C se args opened s = ((code, out), s')" "st_clear args = None" "\<not> st_clear_all_manual args"
  shows "content s' = content s \<and> code \<in> {0, 1, 4} \<and> (opened = Inl e \<longrightarrow> code = 4) \<and>
    (code = 1 \<longrightarrow> given_up C (content s)) \<and>
    (code = 0 \<longrightarrow> \<not> given_up C (content s))"
proof (cases opened)
  case (Inl e)
  then show ?thesis using assms(1) by (simp add: status_run_def exit_codes)
next
  case (Inr J)
  have clear: "status_clear env C args = ret ()" by (rule ext) (simp add: status_clear_def assms(2,3))
  obtain r1 s1 where ls: "list_sorted env C J s = (r1, s1)" by fastforce
  have c1: "content s1 = content s" using list_sorted_sound [OF ls] by (intro same_files_views(1)) blast
  obtain r2 s2 where lm: "list_manual_clear env C s1 = (r2, s2)" by fastforce
  note lm' = list_manual_run [OF lm, unfolded c1]
  have sl: "status_list env C J s = (case r1 of Inl e \<Rightarrow> (Inl CLI_ENV_ERROR, s1) | Inr es \<Rightarrow>
      (case r2 of Inl e \<Rightarrow> (Inl CLI_ENV_ERROR, s2)
       | Inr ms \<Rightarrow> (Inr (map (\<lambda>e. (e, ''pending'')) es @ map (\<lambda>e. (e, ''manual_clear'')) ms), s2)))"
    by (cases r1; cases r2) (simp_all add: status_list_def or_env_error_def map_err_def bindE_def ls lm)
  have run: "status_run env C se args opened s = (case status_list env C J s of
      (Inl code, s') \<Rightarrow> ((code, []), s')
    | (Inr entries, s') \<Rightarrow> ((if \<exists>e \<in> set entries. snd e = ''manual_clear'' then STATUS_MANUAL_CLEAR_PRESENT else SUCCESS,
         case st_format args of StatusText \<Rightarrow> print_text (se_time se) entries | StatusJson \<Rightarrow> print_json C (se_pretty se) entries), s'))"
    by (simp add: status_run_def Inr clear)
  show ?thesis
  proof (cases "\<exists>es ms. r1 = Inr es \<and> r2 = Inr ms")
    case False
    then have "code = 4 \<and> content s' = content s"
      using assms(1) c1 lm' unfolding run sl by (cases r1; cases r2) (auto simp: exit_codes)
    then show ?thesis using Inr by simp
  next
    case True
    then obtain es ms where ok: "r1 = Inr es" "r2 = Inr ms" by blast
    let ?entries = "map (\<lambda>e. (e, ''pending'')) es @ map (\<lambda>e. (e, ''manual_clear'')) ms"
    have manual: "(\<exists>e \<in> set ?entries. snd e = ''manual_clear'') \<longleftrightarrow> ms \<noteq> []"
      by (cases ms) auto
    have "status_list env C J s = (Inr ?entries, s2)" unfolding sl ok by simp
    then have "((code, out), s') = ((if \<exists>e \<in> set ?entries. snd e = ''manual_clear'' then STATUS_MANUAL_CLEAR_PRESENT else SUCCESS,
        case st_format args of StatusText \<Rightarrow> print_text (se_time se) ?entries | StatusJson \<Rightarrow> print_json C (se_pretty se) ?entries), s2)"
      using run assms(1) by (simp only: sum.case prod.case)
    then have code: "code = (if ms \<noteq> [] then 1 else 0) \<and> s' = s2"
      unfolding manual by (simp only: prod.inject exit_codes)
    have "ms \<noteq> [] \<longleftrightarrow> (\<exists>x. x \<in> set ms)" by (cases ms) auto
    also have "\<dots> \<longleftrightarrow> given_up C (content s)"
      unfolding given_up_def lm' [THEN conjunct2, THEN spec, THEN mp, OF ok(2)] by blast
    finally have iff: "ms \<noteq> [] \<longleftrightarrow> given_up C (content s)" .
    have "content s' = content s" using lm' code by simp
    moreover have "opened \<noteq> Inl e" using Inr by simp
    moreover have "code = 1 \<and> ms \<noteq> [] \<or> code = 0 \<and> ms = []" using code by simp
    ultimately show ?thesis using iff by auto
  qed
qed

section \<open>Examples\<close>

text \<open>A journal without faults that holds one file, which is no entry.\<close>

definition calm_env :: os_env where
  "calm_env = \<lparr>os_fault = (\<lambda>_. None), os_read_fault = (\<lambda>_. None), os_flushed = (\<lambda>_. 0), os_nanos = (\<lambda>_. Some 0)\<rparr>"

definition no_codec :: serde_codec where
  "no_codec = \<lparr>json_to_text = (\<lambda>_. ''json''), json_of_text = (\<lambda>_. None), ts_to_text = (\<lambda>_. ''time''), ts_of_text = (\<lambda>_. None)\<rparr>"

definition one_file :: "string \<Rightarrow> fs_state" where
  "one_file name = \<lparr>fs_files = [(name, \<lparr>ino_data = ''?'', ino_synced = True\<rparr>)], fs_disk = [], fs_tick = 0\<rparr>"

lemma manual_example: "is_manual_name ''x.manual_clear''" "\<not> is_deferred_name ''x.manual_clear''"
  by (simp_all add: is_manual_name_def is_deferred_name_def path_extension_def)

lemma no_entry: "entry_of_bytes no_codec b = None"
  by (simp add: entry_of_bytes_def no_codec_def)

lemmas status_eval = sys_defs syscall_def Let_def bindE_def calm_env_def one_file_def manual_example

theorem clear_one_exact_witness:
  "\<exists>s'. clear_one calm_env no_codec ''x.manual_clear'' (one_file ''x.manual_clear'') = (Inr True, s') \<and> content s' ''x.manual_clear'' = None"
proof -
  obtain s' where run: "clear_one calm_env no_codec ''x.manual_clear'' (one_file ''x.manual_clear'') = (Inr True, s')"
    by (simp add: clear_one_def status_fsync_dir_def status_eval)
  from clear_one_exact [OF run] obtain n where
      "clears no_codec ''x.manual_clear'' (content (one_file ''x.manual_clear'')) n" "content s' = (content (one_file ''x.manual_clear''))(n := None)"
    by blast
  then have "content s' ''x.manual_clear'' = None" by (auto simp: clears_def no_entry)
  then show ?thesis using run by blast
qed

theorem status_exit_exact_witness:
  "\<exists>out s'. status_run calm_env no_codec \<lparr>se_time = (\<lambda>_. ''time''), se_pretty = (\<lambda>_. None)\<rparr>
       \<lparr>st_format = StatusText, st_clear = None, st_clear_all_manual = False\<rparr> (Inr \<lparr>journal_root = ''/j''\<rparr>) (one_file ''x.manual_clear'') =
       ((0, out), s') \<and> content s' = content (one_file ''x.manual_clear'') \<and> \<not> given_up no_codec (content (one_file ''x.manual_clear''))"
proof -
  obtain out s' where run: "status_run calm_env no_codec \<lparr>se_time = (\<lambda>_. ''time''), se_pretty = (\<lambda>_. None)\<rparr>
       \<lparr>st_format = StatusText, st_clear = None, st_clear_all_manual = False\<rparr> (Inr \<lparr>journal_root = ''/j''\<rparr>) (one_file ''x.manual_clear'') =
       ((0, out), s')"
    by (simp add: status_run_def status_clear_def status_list_def or_env_error_def map_err_def list_sorted_def list_manual_clear_def
        attempt_def no_entry exit_codes status_eval)
  then show ?thesis using status_exit_exact [OF run] by auto
qed

end
