(* ===== verification/Cli_Metric.thy ===== *)
theory Cli_Metric
  imports Defer_Journal File_Content
begin

text \<open>
  \<open>bosun-cli/src/metric.rs\<close> and \<open>tags_metric.rs\<close>: the text files for the collector of the node exporter.  A run leaves its exit
  code and its counters in one file and its tags in another; both are replaced as a whole, by a rename.  The text of a
  duration in seconds is a parameter.
\<close>

section \<open>Snapshots\<close>

record FactStateEntry =
  fs_name :: string
  fs_state_code :: nat

record DeferReplayStats =
  dr_executed_ok :: u32
  dr_executed_failed :: u32
  dr_client_unavailable :: u32
  dr_promoted_manual_clear :: u32

definition replay_stats_default :: DeferReplayStats where
  "replay_stats_default = \<lparr>dr_executed_ok = 0, dr_executed_failed = 0, dr_client_unavailable = 0, dr_promoted_manual_clear = 0\<rparr>"

record MetricSnapshot =
  ms_version :: string
  ms_exit_code :: nat
  ms_duration :: nat
  ms_started_at_utc :: int
  ms_attempted_at_utc :: int
  ms_changed :: nat
  ms_unchanged :: nat
  ms_failed :: nat
  ms_deferred :: nat
  ms_interrupted :: nat
  ms_fact_states :: "FactStateEntry list"
  ms_defers_pending :: u32
  ms_replay_stats :: DeferReplayStats
  ms_replay_runs :: u32
  ms_runr_reachable :: "bool option"
  ms_systemd_reachable :: "bool option"

section \<open>Text\<close>

definition quote_char :: char where "quote_char = CHR 0x22"
definition backslash :: char where "backslash = CHR 0x5C"
definition newline_char :: char where "newline_char = CHR 0x0A"

fun escape_label :: "string \<Rightarrow> string" where
  "escape_label [] = []"
| "escape_label (c # cs) =
     (if c = backslash then [backslash, backslash]
      else if c = quote_char then [backslash, quote_char]
      else if c = newline_char then [backslash, CHR ''n'']
      else [c]) @ escape_label cs"

definition prom_header :: "string \<Rightarrow> string \<Rightarrow> string \<Rightarrow> string" where
  "prom_header name kind help =
     ''# HELP '' @ name @ '' '' @ help @ newline @ ''# TYPE '' @ name @ '' '' @ kind @ newline"

definition prom_plain :: "string \<Rightarrow> string \<Rightarrow> string" where
  "prom_plain name v = name @ '' '' @ v @ newline"

definition prom_labelled :: "string \<Rightarrow> string \<Rightarrow> string \<Rightarrow> string \<Rightarrow> string" where
  "prom_labelled name label text v = name @ ''{'' @ label @ ''='' @ [quote_char] @ text @ [quote_char] @ ''} '' @ v @ newline"

definition format_run :: "(nat \<Rightarrow> string) \<Rightarrow> MetricSnapshot \<Rightarrow> string" where
  "format_run show_secs s =
     prom_header ''bosun_last_attempt_timestamp_seconds'' ''gauge''
       ''UTC timestamp of last bosun invocation; alert on staleness here, not on bosun_last_run_timestamp_seconds'' @
     prom_labelled ''bosun_last_attempt_timestamp_seconds'' ''version'' (escape_label (ms_version s)) (show_int (ms_attempted_at_utc s)) @
     newline @
     prom_header ''bosun_last_run_timestamp_seconds'' ''gauge'' ''UTC timestamp of last completed run'' @
     prom_labelled ''bosun_last_run_timestamp_seconds'' ''version'' (escape_label (ms_version s)) (show_int (ms_started_at_utc s)) @
     newline @
     prom_header ''bosun_last_run_exit_code'' ''gauge'' ''Exit code of last run'' @
     prom_plain ''bosun_last_run_exit_code'' (show_nat (ms_exit_code s)) @
     newline @
     prom_header ''bosun_last_run_duration_seconds'' ''gauge'' ''Duration of last run'' @
     prom_plain ''bosun_last_run_duration_seconds'' (show_secs (ms_duration s)) @
     newline"

definition format_resources :: "MetricSnapshot \<Rightarrow> string" where
  "format_resources s =
     (let line = (\<lambda>outcome n. prom_labelled ''bosun_resources_total'' ''outcome'' outcome (show_nat n))
      in prom_header ''bosun_resources_total'' ''gauge'' ''Total resources in last run by outcome'' @
         line ''changed'' (ms_changed s) @ line ''unchanged'' (ms_unchanged s) @ line ''failed'' (ms_failed s) @
         line ''deferred'' (ms_deferred s) @ line ''interrupted'' (ms_interrupted s) @ newline @
         prom_header ''bosun_fact_state'' ''gauge'' ''Last collected state of each fact (0=Known, 1=Unknown, 2=Stale)'' @
         concat (map (\<lambda>e. prom_labelled ''bosun_fact_state'' ''fact'' (escape_label (fs_name e)) (show_nat (fs_state_code e)))
           (ms_fact_states s)) @
         newline)"

definition format_defers :: "MetricSnapshot \<Rightarrow> string" where
  "format_defers s =
     (let line = (\<lambda>outcome n. prom_labelled ''bosun_defers_executed_total'' ''result'' outcome (show_nat (unat n)));
          stats = ms_replay_stats s
      in prom_header ''bosun_defers_pending'' ''gauge'' ''Number of deferred-action files in the journal'' @
         prom_plain ''bosun_defers_pending'' (show_nat (unat (ms_defers_pending s))) @ newline @
         prom_header ''bosun_defers_executed_total'' ''counter'' ''Total deferred actions handled during replay'' @
         line ''ok'' (dr_executed_ok stats) @ line ''failed'' (dr_executed_failed stats) @
         line ''client_unavailable'' (dr_client_unavailable stats) @ line ''manual_clear'' (dr_promoted_manual_clear stats) @
         newline @
         prom_header ''bosun_defers_replay_total'' ''counter'' ''Number of replay invocations this run'' @
         prom_plain ''bosun_defers_replay_total'' (show_nat (unat (ms_replay_runs s))) @ newline)"

definition show_flag :: "bool \<Rightarrow> string" where
  "show_flag b = (if b then ''1'' else ''0'')"

definition format_reachable :: "MetricSnapshot \<Rightarrow> string" where
  "format_reachable s =
     (case ms_runr_reachable s of
        None \<Rightarrow> []
      | Some up \<Rightarrow> prom_header ''bosun_runr_reachable'' ''gauge'' ''1 if a runr handle was constructed this run, 0 otherwise'' @
          prom_plain ''bosun_runr_reachable'' (show_flag up) @ newline) @
     (case ms_systemd_reachable s of
        None \<Rightarrow> []
      | Some up \<Rightarrow> prom_header ''bosun_systemd_reachable'' ''gauge'' ''1 if a systemd handle was constructed this run, 0 otherwise'' @
          prom_plain ''bosun_systemd_reachable'' (show_flag up))"

definition metric_format :: "(nat \<Rightarrow> string) \<Rightarrow> MetricSnapshot \<Rightarrow> string" where
  "metric_format show_secs s = format_run show_secs s @ format_resources s @ format_defers s @ format_reachable s"

definition tag_series :: "string \<Rightarrow> string \<Rightarrow> string" where
  "tag_series tag v = prom_labelled ''bosun_active_tags'' ''tag'' tag v"

definition tags_header :: string where
  "tags_header = prom_header ''bosun_active_tags'' ''gauge'' ''1 per active tag passed on the CLI''"

definition tags_format :: "string list \<Rightarrow> string" where
  "tags_format tags =
     tags_header @ (if tags = [] then tag_series [] ''0'' else concat (map (\<lambda>tag. tag_series (escape_label tag) ''1'') tags))"

section \<open>Writing the files\<close>

text \<open>The temporary file is removed on every early return.\<close>

definition with_temp :: "host_env \<Rightarrow> component list \<Rightarrow> ('w file_host, 'e, 'a) prog \<Rightarrow> ('w file_host, 'e, 'a) prog" where
  "with_temp env tmp m = (\<lambda>h.
     case m h of
       (Inr x, h1) \<Rightarrow> (Inr x, h1)
     | (Inl e, h1) \<Rightarrow> (Inl e, snd (on_tree (fs_unlink (he_fs env) tmp) h1)))"

definition replace_file :: "host_env \<Rightarrow> component list \<Rightarrow> string \<Rightarrow> string \<Rightarrow> ('w file_host, fs_error, unit) prog" where
  "replace_file env parent path body =
     bindE (on_tree (fs_create_dir_all (he_fs env) parent)) (\<lambda>_.
     bindE (host_temp env parent) (\<lambda>tmp.
     with_temp env tmp
       (bindE (host_write env tmp body) (\<lambda>_.
        bindE (host_sync env tmp) (\<lambda>_.
        host_rename env tmp (os_path path))))))"

definition metric_write_atomic ::
  "host_env \<Rightarrow> (nat \<Rightarrow> string) \<Rightarrow> string \<Rightarrow> MetricSnapshot \<Rightarrow> ('w file_host, fs_error, unit) prog" where
  "metric_write_atomic env show_secs path snapshot =
     (case path_parent path of
        None \<Rightarrow> throw (FsOther (''metric file path '' @ path @ '' has no parent directory''))
      | Some parent \<Rightarrow>
          bindE (replace_file env parent path (metric_format show_secs snapshot)) (\<lambda>_.
          attempt (host_sync env parent) (\<lambda>_. ret ())))"

definition tags_write_atomic :: "host_env \<Rightarrow> string \<Rightarrow> string list \<Rightarrow> ('w file_host, fs_error, unit) prog" where
  "tags_write_atomic env path tags =
     (case path_parent path of
        None \<Rightarrow> throw (FsOther (''tags metric path '' @ path @ '' has no parent directory''))
      | Some parent \<Rightarrow> replace_file env parent path (tags_format tags))"

section \<open>Counting what is pending\<close>

fun count_deferred_names :: "os_env \<Rightarrow> string list \<Rightarrow> u32 \<Rightarrow> (fs_state, io_error, u32) prog" where
  "count_deferred_names env [] n = ret n"
| "count_deferred_names env (x # xs) n =
     attempt (sys_next_entry env x) (\<lambda>r. case r of
       Inl _ \<Rightarrow> count_deferred_names env xs n
     | Inr name \<Rightarrow> count_deferred_names env xs (if is_deferred_name name then saturating_add n 1 else n))"

definition count_pending_defers :: "os_env \<Rightarrow> fs_state \<Rightarrow> u32 \<times> fs_state" where
  "count_pending_defers env s =
     (case bindE (sys_read_dir env) (\<lambda>dir. count_deferred_names env dir 0) s of
        (Inl _, s') \<Rightarrow> (0, s')
      | (Inr n, s') \<Rightarrow> (n, s'))"

section \<open>Reading the files\<close>

text \<open>A label as the exposition format defines it: the text up to the first quote that is not escaped, and what follows.\<close>

fun read_label :: "string \<Rightarrow> (string \<times> string) option" where
  "read_label [] = None"
| "read_label [c] = (if c = quote_char then Some ([], []) else None)"
| "read_label (c # d # cs) =
     (if c = quote_char then Some ([], d # cs)
      else if c = newline_char then None
      else if c = backslash then
        (case (if d = CHR ''n'' then Some newline_char else if d = backslash \<or> d = quote_char then Some d else None) of
           None \<Rightarrow> None
         | Some x \<Rightarrow> map_option (\<lambda>(t, rest). (x # t, rest)) (read_label cs))
      else map_option (\<lambda>(t, rest). (c # t, rest)) (read_label (d # cs)))"

lemmas label_chars = quote_char_def backslash_def newline_char_def

lemma read_label_step:
  "c \<noteq> quote_char \<Longrightarrow> c \<noteq> newline_char \<Longrightarrow> c \<noteq> backslash \<Longrightarrow> cs \<noteq> [] \<Longrightarrow>
     read_label (c # cs) = map_option (\<lambda>(t, rest). (c # t, rest)) (read_label cs)"
  by (cases cs) auto

lemma read_label_escape: "read_label (escape_label s @ quote_char # rest) = Some (s, rest)"
proof (induction s)
  case Nil
  show ?case by (cases rest) simp_all
next
  case (Cons c cs)
  show ?case
  proof (cases "c = backslash \<or> c = quote_char \<or> c = newline_char")
    case True
    then show ?thesis using Cons by (auto simp: label_chars)
  next
    case False
    then show ?thesis using Cons read_label_step [of c "escape_label cs @ quote_char # rest"] by simp
  qed
qed

text \<open>The tags whose series has the value 1; the bound is the number of series to read.\<close>

fun read_series :: "nat \<Rightarrow> string \<Rightarrow> string list option" where
  "read_series 0 text = (if text = [] then Some [] else None)"
| "read_series (Suc k) text =
     (if text = [] then Some []
      else case strip_prefix_str (''bosun_active_tags{tag='' @ [quote_char]) text of
        None \<Rightarrow> None
      | Some r1 \<Rightarrow>
          (case read_label r1 of
             None \<Rightarrow> None
           | Some (tag, r2) \<Rightarrow>
               (case strip_prefix_str (''} 1'' @ newline) r2 of
                  Some r3 \<Rightarrow> map_option ((#) tag) (read_series k r3)
                | None \<Rightarrow> (case strip_prefix_str (''} 0'' @ newline) r2 of Some r3 \<Rightarrow> read_series k r3 | None \<Rightarrow> None))))"

definition read_tags :: "string \<Rightarrow> string list option" where
  "read_tags text = Option.bind (strip_prefix_str tags_header text) (\<lambda>body. read_series (length body) body)"

lemma strip_prefix_append [simp]: "strip_prefix_str p (p @ s) = Some s"
  by (simp add: strip_prefix_str_def)

lemma tag_series_text:
  "tag_series t v @ rest = (''bosun_active_tags{tag='' @ [quote_char]) @ t @ quote_char # ''} '' @ v @ newline @ rest"
  by (simp add: tag_series_def prom_labelled_def)

lemma read_series_one:
  "read_series (Suc k) (tag_series (escape_label t) ''1'' @ rest) = map_option ((#) t) (read_series k rest)"
proof -
  have "''} '' @ ''1'' @ newline @ rest = (''} 1'' @ newline) @ rest" by simp
  then show ?thesis
    unfolding tag_series_text read_series.simps
    by (simp only: strip_prefix_append option.simps read_label_escape prod.case append_is_Nil_conv list.distinct simp_thms if_False)
qed

lemma read_series_all:
  "length tags \<le> k \<Longrightarrow> read_series k (concat (map (\<lambda>tag. tag_series (escape_label tag) ''1'') tags)) = Some tags"
proof (induction tags arbitrary: k)
  case Nil
  then show ?case by (cases k) simp_all
next
  case (Cons t ts)
  then obtain k' where "k = Suc k'" "length ts \<le> k'" by (cases k) auto
  then show ?case using Cons.IH by (simp add: read_series_one del: read_series.simps)
qed

lemma series_length: "length tags \<le> length (concat (map (\<lambda>tag. tag_series (escape_label tag) ''1'') tags))"
  by (induction tags) (simp_all add: tag_series_def prom_labelled_def)

lemma read_no_tags: "read_series (Suc k) (tag_series [] ''0'') = Some []"
  by (cases k) (simp_all add: tag_series_def prom_labelled_def strip_prefix_str_def quote_char_def)

text \<open>
  Whatever characters the tags of a run have, the file of the tags reads back as exactly these tags in their order, also when
  there are none: a tag with quotes, backslashes or line breaks cannot add or hide a series.
\<close>

theorem tags_file_roundtrip: "read_tags (tags_format tags) = Some tags"
proof (cases "tags = []")
  case True
  have "0 < length (tag_series [] ''0'')" by (simp add: tag_series_def prom_labelled_def)
  then obtain k where "length (tag_series [] ''0'') = Suc k" by (cases "length (tag_series [] ''0'')") auto
  then show ?thesis using True read_no_tags [of k] by (simp add: read_tags_def tags_format_def)
next
  case False
  then show ?thesis using read_series_all [OF series_length] by (simp add: read_tags_def tags_format_def)
qed

section \<open>What a write leaves behind\<close>

lemma with_temp_Inr: "with_temp env tmp m h = (Inr x, h') \<longleftrightarrow> m h = (Inr x, h')"
  by (auto simp: with_temp_def split: prod.splits sum.splits)

lemma on_tree_made:
  assumes "plain_dirs (fh_tree h) ps" "on_tree (fs_create_dir_all fs (abs_path ps)) h = (r, h')"
  shows "\<exists>t. h' = h\<lparr>fh_tree := t\<rparr> \<and> made_dirs ps (fh_tree h) t"
  using fs_create_dir_all_made [OF assms(1)] assms(2) by (auto simp: on_tree_def split: prod.splits)

text \<open>The new contents under the name, and nothing else that was there touched.\<close>

definition file_replaced :: "host_env \<Rightarrow> string list \<Rightarrow> string \<Rightarrow> 'w file_host \<Rightarrow> 'w file_host \<Rightarrow> bool" where
  "file_replaced env names body h h' \<longleftrightarrow>
     fh_tree h' names = Some (TFile body) \<and> fh_attr h' names = new_attr env names \<and>
     (\<forall>y node. y \<noteq> names \<and> fh_tree h y = Some node \<longrightarrow> fh_tree h' y = Some node \<and> fh_attr h' y = fh_attr h y) \<and>
     fh_sensitive h' = fh_sensitive h \<and> fh_outside h' = fh_outside h"

definition file_kept :: "string list \<Rightarrow> 'w file_host \<Rightarrow> 'w file_host \<Rightarrow> bool" where
  "file_kept names h h' \<longleftrightarrow>
     fh_tree h' names = fh_tree h names \<and> (\<forall>y node. fh_tree h y = Some node \<longrightarrow> fh_tree h' y = Some node \<and> fh_attr h' y = fh_attr h y) \<and>
     fh_sensitive h' = fh_sensitive h \<and> fh_outside h' = fh_outside h"

lemma kept_replaced: "file_kept names h h1 \<Longrightarrow> file_replaced env names body h1 h' \<Longrightarrow> file_replaced env names body h h'"
  by (simp add: file_kept_def file_replaced_def)

lemma kept_kept: "file_kept names h h1 \<Longrightarrow> file_kept names h1 h' \<Longrightarrow> file_kept names h h'"
  by (simp add: file_kept_def)

lemma temp_run:
  assumes "plain_dirs (fh_tree h) ps" "he_temp_name env (fh_tree h) (abs_path ps) \<noteq> m"
    and "host_temp env (abs_path ps) h = (Inr tmp, h1)"
    and "with_temp env tmp (bindE (host_write env tmp body) (\<lambda>_. bindE (host_sync env tmp) (\<lambda>_.
           host_rename env tmp (abs_path (ps @ [m]))))) h1 = (r, h')"
  shows "(r = Inr () \<longrightarrow> file_replaced env (ps @ [m]) body h h') \<and> (\<forall>e. r = Inl e \<longrightarrow> file_kept (ps @ [m]) h h')"
proof -
  obtain nm where nm: "nm = he_temp_name env (fh_tree h) (abs_path ps)" "tmp = abs_path (ps @ [nm])" "dirs (fh_tree h) ps"
      "fh_tree h (ps @ [nm]) = None" "h1 = set_file (ps @ [nm]) [] (new_attr env (ps @ [nm])) h"
    using host_temp_plain [OF assms(1,3)] .
  let ?q = "ps @ [nm]" and ?a = "new_attr env (ps @ [nm])"
  have ne: "nm \<noteq> m" using assms(2) nm(1) by simp
  obtain x1 h2 where w: "host_write env tmp body h1 = (x1, h2)" by fastforce
  obtain b where b: "h2 = set_file ?q b ?a h" "x1 = Inr () \<longrightarrow> b = body"
    using host_write_at [OF assms(1) nm(3)] w nm(2,5) by blast
  obtain x2 h3 where sy: "host_sync env tmp h2 = (x2, h3)" by fastforce
  have h3: "h3 = set_file ?q b ?a h" using host_sync_at sy b(1) by blast
  obtain x3 h4 where ren: "host_rename env tmp (abs_path (ps @ [m])) h3 = (x3, h4)" by fastforce
  note ren' = host_rename_at [OF assms(1) nm(3) ne [symmetric] ren [unfolded nm(2) h3]]
  obtain x5 h5 where dr: "on_tree (fs_unlink (he_fs env) tmp) h3 = (x5, h5)" by fastforce
  note dr' = drop_temp_at [OF assms(1) dr [unfolded nm(2) h3]]
  have dr2: "fh_sensitive h5 = fh_sensitive h \<and> fh_outside h5 = fh_outside h"
    using dr h3 by (auto simp: on_tree_def split: prod.splits)
  show ?thesis
  proof (cases "x1 = Inr () \<and> x2 = Inr () \<and> x3 = Inr ()")
    case True
    then have "r = Inr ()" "h' = h4" using assms(4) w sy ren by (simp_all add: with_temp_def bindE_def)
    moreover have "fh_sensitive h4 = fh_sensitive h \<and> fh_outside h4 = fh_outside h"
      using ren h3 by (auto simp: host_rename_def fs_call_def split: option.splits sum.splits if_splits)
    moreover have "new_attr env ?q = new_attr env (ps @ [m])" by (simp add: new_attr_def)
    ultimately show ?thesis using ren' True b(2) nm(4) ne by (auto simp: file_replaced_def)
  next
    case False
    have "x3 \<noteq> Inr () \<Longrightarrow> h4 = h3" using ren' h3 by (cases x3) auto
    then have "(\<exists>e. r = Inl e) \<and> h' = h5"
      using False assms(4) w sy ren dr h3 b(1)
      by (cases x1; cases x2; cases x3) (auto simp: with_temp_def bindE_def)
    then show ?thesis using dr' dr2 nm(4) ne by (auto simp: file_kept_def)
  qed
qed

lemma replace_file_run:
  assumes "plain_dirs (fh_tree h) ps" "\<And>t. he_temp_name env t (abs_path ps) \<noteq> m" "os_path path = abs_path (ps @ [m])"
    and "replace_file env (abs_path ps) path body h = (r, h')"
  shows "(r = Inr () \<longrightarrow> file_replaced env (ps @ [m]) body h h') \<and> (\<forall>e. r = Inl e \<longrightarrow> file_kept (ps @ [m]) h h')"
proof -
  obtain x1 h1 where mk: "on_tree (fs_create_dir_all (he_fs env) (abs_path ps)) h = (x1, h1)" by fastforce
  obtain t where h1: "h1 = h\<lparr>fh_tree := t\<rparr>" and t: "made_dirs ps (fh_tree h) t" using on_tree_made [OF assms(1) mk] by blast
  have kept1: "file_kept (ps @ [m]) h h1"
  proof -
    have "fh_tree h y = Some node \<Longrightarrow> t y = Some node" for y node
      using t unfolding made_dirs_def by (metis option.distinct(1))
    moreover have "t (ps @ [m]) = fh_tree h (ps @ [m])"
    proof -
      have "\<not> prefix (ps @ [m]) ps" by (auto dest: prefix_length_le)
      then show ?thesis using t unfolding made_dirs_def by blast
    qed
    ultimately show ?thesis using h1 by (simp add: file_kept_def)
  qed
  obtain x2 h2 where tmp: "host_temp env (abs_path ps) h1 = (x2, h2)" by fastforce
  show ?thesis
  proof (cases "\<exists>p. x1 = Inr () \<and> x2 = Inr p")
    case False
    then have "(\<exists>e. r = Inl e) \<and> h' = h1"
      using assms(4) mk tmp host_temp_fail [of env "abs_path ps" h1 _ h2] by (cases x1; cases x2) (auto simp: replace_file_def bindE_def)
    then show ?thesis using kept1 by auto
  next
    case True
    then obtain p where p: "x1 = Inr ()" "x2 = Inr p" by blast
    have plain: "plain_dirs (fh_tree h1) ps" using made_dirs_plain [OF t assms(1)] h1 by simp
    have "with_temp env p (bindE (host_write env p body) (\<lambda>_. bindE (host_sync env p) (\<lambda>_.
        host_rename env p (abs_path (ps @ [m]))))) h2 = (r, h')"
      using assms(3,4) mk tmp p by (simp add: replace_file_def bindE_def)
    from temp_run [OF plain assms(2) tmp [unfolded p(2)] this] show ?thesis
      using kept_replaced [OF kept1] kept_kept [OF kept1] by blast
  qed
qed

lemma sync_silent: "attempt (host_sync env p) (\<lambda>_. ret ()) h = (Inr (), h)"
  by (auto simp: attempt_def host_sync_def fs_call_def split: option.splits)

text \<open>
  C38. A write of the metrics either succeeds, and then the file holds exactly the text of the snapshot, belongs to bosun and is
  readable by nobody else, or it fails and leaves the file as it was; no other file's contents or attributes are touched in either case.
\<close>

theorem metric_file_exact:
  assumes "plain_dirs (fh_tree h) ps" "\<And>t. he_temp_name env t (abs_path ps) \<noteq> m" "os_path path = abs_path (ps @ [m])"
    and "metric_write_atomic env show_secs path snapshot h = (r, h')"
  shows "(r = Inr () \<longrightarrow> file_replaced env (ps @ [m]) (metric_format show_secs snapshot) h h' \<and>
             fa_mode (fh_attr h' (ps @ [m])) = 384) \<and>
    (\<forall>e. r = Inl e \<longrightarrow> file_kept (ps @ [m]) h h')"
proof -
  obtain x h1 where w: "replace_file env (abs_path ps) path (metric_format show_secs snapshot) h = (x, h1)" by fastforce
  note run = replace_file_run [OF assms(1-3) w]
  have "r = x \<and> h' = h1"
    using assms(4) w os_path_components(2) [OF assms(3)]
    by (cases x) (auto simp: metric_write_atomic_def bindE_def sync_silent)
  then show ?thesis using run by (auto simp: file_replaced_def new_attr_def)
qed

text \<open>
  A write that nothing stands in the way of: no call is refused, and afterwards the directory is there, the path is no directory and
  no temporary file is left.
\<close>

definition unhindered :: "host_env \<Rightarrow> string list \<Rightarrow> string \<Rightarrow> file_tree \<Rightarrow> bool" where
  "unhindered env ps m t \<longleftrightarrow>
     (\<forall>op p. he_fs env op p = None) \<and> dirs t ps \<and> t (ps @ [m]) \<noteq> Some TDir \<and>
     (\<forall>t'. he_temp_name env t' (abs_path ps) \<noteq> m \<and> t (ps @ [he_temp_name env t' (abs_path ps)]) = None)"

lemma temp_dirs_back:
  assumes "host_temp env parent h = (Inr tmp, h2)"
    and "with_temp env tmp (bindE (host_write env tmp body) (\<lambda>_. bindE (host_sync env tmp) (\<lambda>_. host_rename env tmp dest))) h2 = (r, h')"
    and "fh_tree h' q = Some TDir"
  shows "fh_tree h q = Some TDir"
proof -
  obtain names where n: "dir_entry (fh_tree h) tmp = Inr names" "fh_tree h names = None" "h2 = set_file names [] (new_attr env names) h"
    using assms(1) by (auto simp: host_temp_def fs_call_def split: option.splits sum.splits if_splits)
  have more: "dir_entry ((fh_tree h)(names \<mapsto> TFile b)) tmp = Inr names" for b
    by (rule dir_entry_more [OF n(1)]) (use n(2) in auto)
  obtain x3 h3 where w: "host_write env tmp body h2 = (x3, h3)" by fastforce
  then obtain b where t3: "fh_tree h3 = (fh_tree h)(names \<mapsto> TFile b)"
    using n(3) more by (auto simp: host_write_def split: option.splits)
  obtain x4 h4 where sy: "host_sync env tmp h3 = (x4, h4)" by fastforce
  have h4: "h4 = h3" using sy by (auto simp: host_sync_def fs_call_def ret_def split: option.splits)
  obtain x5 h5 where rn: "host_rename env tmp dest h3 = (x5, h5)" by fastforce
  have t5: "x5 = Inl e \<Longrightarrow> h5 = h3" "fh_tree h5 y = Some TDir \<Longrightarrow> fh_tree h3 y = Some TDir" for e y
    using rn more t3 by (auto simp: host_rename_def fs_call_def split: option.splits sum.splits if_splits)
  have "fh_tree (snd (on_tree (fs_unlink (he_fs env) tmp) h3)) y = Some TDir \<Longrightarrow> fh_tree h3 y = Some TDir" for y
    by (auto simp: on_tree_def fs_unlink_def fs_call_def split: option.splits sum.splits tree_node.splits if_splits)
  then have "fh_tree h3 q = Some TDir"
    using assms(2,3) w sy rn h4 t5
    by (cases x3; cases x4; cases x5) (auto simp: with_temp_def bindE_def)
  then show ?thesis using t3 by (auto split: if_splits)
qed

lemma replace_file_works:
  assumes "unhindered env ps m (fh_tree h')" "os_path path = abs_path (ps @ [m])"
    and "replace_file env (abs_path ps) path body h = (r, h')"
  shows "fh_tree h' (ps @ [m]) = Some (TFile body)"
proof -
  have free: "\<And>op p. he_fs env op p = None" and d': "dirs (fh_tree h') ps" and nd: "fh_tree h' (ps @ [m]) \<noteq> Some TDir"
    and temp: "\<And>t. he_temp_name env t (abs_path ps) \<noteq> m" "\<And>t. fh_tree h' (ps @ [he_temp_name env t (abs_path ps)]) = None"
    using assms(1) by (auto simp: unhindered_def)
  obtain x1 t1 where mk: "fs_create_dir_all (he_fs env) (abs_path ps) (fh_tree h) = (x1, t1)" by fastforce
  define h1 where "h1 = h\<lparr>fh_tree := t1\<rparr>"
  have mk1: "on_tree (fs_create_dir_all (he_fs env) (abs_path ps)) h = (x1, h1)" using mk by (simp add: on_tree_def h1_def)
  obtain x2 h2 where tmp: "host_temp env (abs_path ps) h1 = (x2, h2)" by fastforce
  have rest: "with_temp env p (bindE (host_write env p body) (\<lambda>_. bindE (host_sync env p) (\<lambda>_.
        host_rename env p (abs_path (ps @ [m]))))) h2 = (r, h')" if "x1 = Inr ()" "x2 = Inr p" for p
    using assms(2,3) mk1 tmp that by (simp add: replace_file_def bindE_def)
  have stay: "h' = h1" if "x1 \<noteq> Inr () \<or> (\<exists>e. x2 = Inl e)"
    using assms(3) mk1 tmp that host_temp_fail [of env "abs_path ps" h1 _ h2] by (cases x1; cases x2) (auto simp: replace_file_def bindE_def)
  have d1: "dirs (fh_tree h1) ps"
  proof (cases "\<exists>p. x1 = Inr () \<and> x2 = Inr p")
    case True
    then obtain p where p: "x1 = Inr ()" "x2 = Inr p" by blast
    show ?thesis by (rule dirs_back [OF d' temp_dirs_back [OF tmp [unfolded p(2)] rest [OF p]]])
  next
    case False
    then show ?thesis using stay d' by (cases x1; cases x2) auto
  qed
  note plain1 = dirs_plain [OF d1]
  have plain: "plain_dirs (fh_tree h) ps" using only_adds_plain [OF fs_create_dir_all_only_adds [OF mk]] d1 by (simp add: h1_def)
  have x1: "x1 = Inr ()" using fs_create_dir_all_works [OF free _ mk] d1 by (simp add: h1_def)
  define nm where "nm = he_temp_name env (fh_tree h1) (abs_path ps)"
  let ?q = "ps @ [nm]"
  have path: "temp_path env (abs_path ps) h1 = abs_path ?q" by (simp add: temp_path_def abs_path_def nm_def)
  have "fh_tree h1 ?q = None"
  proof (rule ccontr)
    assume used: "fh_tree h1 ?q \<noteq> None"
    then have "\<exists>e. x2 = Inl e"
      using tmp path dir_entry_plain [OF plain1, of nm] d1 by (auto simp: host_temp_def fs_call_def free)
    then have "h' = h1" using stay by blast
    then show False using temp(2) [of "fh_tree h1"] used by (simp add: nm_def)
  qed
  then have x2: "x2 = Inr (abs_path ?q)" "h2 = set_file ?q [] (new_attr env ?q) h1"
    using tmp path dir_entry_plain [OF plain1, of nm] d1 by (auto simp: host_temp_def fs_call_def free)
  note run = temp_run [OF plain1 temp(1) tmp [unfolded x2(1)] rest [OF x1 x2(1)]]
  have "r = Inr ()"
  proof (rule ccontr)
    assume "r \<noteq> Inr ()"
    then obtain e where e: "r = Inl e" by (cases r) auto
    let ?h3 = "set_file ?q body (new_attr env ?q) h1"
    have w: "host_write env (abs_path ?q) body h2 = (Inr (), ?h3)"
      using dir_entry_plain [OF plain_dirs_entry [OF plain1], of nm "Some (TFile [])" nm] dirs_entry [OF d1, of nm "Some (TFile [])"]
      by (simp add: host_write_def x2(2) free)
    have sy: "host_sync env (abs_path ?q) ?h3 = (Inr (), ?h3)" by (simp add: host_sync_def fs_call_def free ret_def)
    obtain e' where "host_rename env (abs_path ?q) (abs_path (ps @ [m])) ?h3 = (Inl e', ?h3)"
    proof -
      obtain x4 h4 where rn: "host_rename env (abs_path ?q) (abs_path (ps @ [m])) ?h3 = (x4, h4)" by fastforce
      have "x4 \<noteq> Inr ()" using e rest [OF x1 x2(1)] w sy rn by (auto simp: with_temp_def bindE_def)
      then show thesis using that rn host_rename_at [OF plain1 d1 _ rn] temp(1) [of "fh_tree h1"] by (cases x4) (auto simp: nm_def)
    qed
    then have "fh_tree h1 (ps @ [m]) = Some TDir"
      using dir_entry_plain [OF plain_dirs_entry [OF plain1], of nm "Some (TFile body)"] dirs_entry [OF d1, of nm "Some (TFile body)"]
        temp(1) [of "fh_tree h1"]
      by (auto simp: host_rename_def fs_call_def free nm_def split: if_splits)
    then show False using run e nd by (auto simp: file_kept_def)
  qed
  then show ?thesis using run by (simp add: file_replaced_def)
qed

definition prom_env :: host_env where
  "prom_env = \<lparr>he_fs = (\<lambda>op p. None), he_lister = (\<lambda>t dir. []), he_temp_name = (\<lambda>t p. ''.tmp''), he_written = (\<lambda>p. None),
     he_euid = 0, he_new_gid = (\<lambda>names. 0), he_passwd = (\<lambda>n. NssUnknown), he_group = (\<lambda>n. NssUnknown)\<rparr>"

definition prom_host :: "unit file_host" where
  "prom_host = \<lparr>fh_tree = [[''prom''] \<mapsto> TDir], fh_attr = (\<lambda>names. \<lparr>fa_mode = 493, fa_uid = 0, fa_gid = 0\<rparr>),
     fh_sensitive = Map.empty, fh_outside = ()\<rparr>"

definition sample_snapshot :: MetricSnapshot where
  "sample_snapshot =
     \<lparr>ms_version = ''1.0'', ms_exit_code = 0, ms_duration = 0, ms_started_at_utc = 7, ms_attempted_at_utc = 7,
      ms_changed = 0, ms_unchanged = 0, ms_failed = 0, ms_deferred = 0, ms_interrupted = 0, ms_fact_states = [],
      ms_defers_pending = 0, ms_replay_stats = replay_stats_default, ms_replay_runs = 0, ms_runr_reachable = None,
      ms_systemd_reachable = None\<rparr>"

lemmas metric_eval = metric_write_atomic_def replace_file_def with_temp_def on_tree_def prom_env_def prom_host_def
    path_parent_def os_path_def path_components_def ends_open_def component_of_def bindE_def attempt_def fs_create_dir_all.simps
    fs_mkdir_def fs_call_def add_entry_def dir_entry_def fs_is_dir_def canonicalize_def MAX_LINKS_def host_temp_def temp_path_def
    host_write_def host_sync_def host_rename_def set_file_def new_attr_def ret_def abs_path_def

lemma prom_path: "os_path ''/prom/b.prom'' = abs_path ([''prom''] @ [''b.prom''])"
  by (simp add: metric_eval)

lemma prom_write: "fst (metric_write_atomic prom_env (\<lambda>n. ''0.000'') ''/prom/b.prom'' sample_snapshot prom_host) = Inr ()"
  by (simp add: metric_eval)

theorem metric_file_exact_witness:
  "fh_tree (snd (metric_write_atomic prom_env (\<lambda>n. ''0.000'') ''/prom/b.prom'' sample_snapshot prom_host)) [''prom'', ''b.prom''] =
     Some (TFile (metric_format (\<lambda>n. ''0.000'') sample_snapshot))"
proof -
  obtain r h' where run: "metric_write_atomic prom_env (\<lambda>n. ''0.000'') ''/prom/b.prom'' sample_snapshot prom_host = (r, h')"
    by fastforce
  have plain: "plain_dirs (fh_tree prom_host) [''prom'']"
    by (auto simp: plain_dirs_def prom_host_def prefix_Cons)
  have "he_temp_name prom_env t (abs_path [''prom'']) \<noteq> ''b.prom''" for t
    by (simp add: prom_env_def)
  from metric_file_exact [OF plain this prom_path run] show ?thesis
    using run prom_write by (simp add: file_replaced_def)
qed

section \<open>The number of pending entries\<close>

lemma count_deferred_names_run:
  assumes "\<And>k. os_read_fault env k = None"
  shows "count_deferred_names env xs n s =
     (Inr (fold (\<lambda>_ n. saturating_add n 1) (filter is_deferred_name xs) n), s\<lparr>fs_tick := fs_tick s + length xs\<rparr>)"
  using assms
  by (induction xs arbitrary: n s) (simp_all add: attempt_def sys_next_entry_def syscall_def Let_def ret_def)

lemma saturating_count: "unat (fold (\<lambda>_ n. saturating_add n 1) xs (n :: u32)) = min (unat n + length xs) (2 ^ 32 - 1)"
proof (induction xs arbitrary: n)
  case Nil
  then show ?case using unsigned_less [where 'a = nat, of n] by simp
next
  case (Cons x xs)
  show ?case using Cons [of "saturating_add n 1"] by (simp add: unat_saturating_add min_def)
qed

lemma count_pending_run:
  assumes "\<And>k. os_read_fault env k = None"
  shows "unat (fst (count_pending_defers env s)) = min (length (filter is_deferred_name (map fst (fs_files s)))) (2 ^ 32 - 1)"
  using assms
  by (simp add: count_pending_defers_def bindE_def sys_read_dir_def syscall_def Let_def count_deferred_names_run saturating_count)

end
