(* ===== verification/Cli_Run.thy ===== *)
theory Cli_Run
  imports Starlark_Eval Cli_Metric Cli_Status Dispatch Health_Check Orchestrator Journal_Open Facts_Collector
    File_Content File_Symlink File_Delete Runr_Service Systemd_Service
begin

text \<open>
  \<open>bosun-cli/src/run.rs\<close> and \<open>bootstrap.rs\<close>: the command \<open>bosun apply\<close>, which puts the components together.  It takes the lock,
  loads the bundle, collects the facts, opens the journal, connects to the init systems, replays the journal, evaluates the
  manifest, plans or applies, replays again and writes its metrics.

  A node is a host with its files, the directory of the journal, the cache of the facts, the standard output and the world
  outside.  An early return with its exit code is the error of a phase.  The five primitives modelled in the other theories act on
  their parts of the node; a process that they start changes the world outside, not the files of the node.  The other primitives, the
  interpreter, the template engine, the clock and the libraries are fields of \<open>run_env\<close>.
\<close>

section \<open>The node and the arguments\<close>

record 'w outside =
  ou_root :: root_state
  ou_journal :: fs_state
  ou_facts :: fact_cache
  ou_stdout :: string
  ou_world :: 'w

type_synonym 'w node = "'w outside file_host"

datatype ReportFormat = ReportText | ReportJson

record ApplyArgs =
  aa_bundle :: string
  aa_tags :: "string list"
  aa_dry_run :: bool
  aa_continue_on_error :: bool
  aa_format :: ReportFormat
  aa_lock_path :: string
  aa_deadline_sec :: u32
  aa_state_dir :: string
  aa_log_dir :: string
  aa_backup_dir :: string
  aa_metric_file :: string
  aa_runr_url :: string
  aa_runr_timeout_sec :: u32
  aa_defers_dir :: string
  aa_pacer_target_sec :: u32
  aa_pacer_min_interval_ms :: u32
  aa_pacer_max_interval_ms :: u32
  aa_init_system_override :: "string option"

text \<open>
  \<open>rv_try_lock\<close> is the \<open>flock\<close> of the crate \<open>fs4\<close> (an error, or whether the lock was free), \<open>rv_net\<close> the HTTP agent with a timeout in
  seconds, \<open>rv_primitive\<close> the primitive that \<open>build_primitives\<close> makes of one of the other kinds, for the arguments, the deadline and
  the handles of a run, \<open>rv_stamp\<close> and \<open>rv_backup_time\<close> the time in an entry of the journal and in the name of a backup, and
  \<open>rv_evaluated\<close> the time that passes while the manifest is evaluated.
\<close>

record ('w, 'm) run_env =
  rv_version :: string
  rv_host :: host_env
  rv_lock_mode :: u32
  rv_try_lock :: "string \<Rightarrow> 'w \<Rightarrow> (string + bool) \<times> 'w"
  rv_unlock :: "'w \<Rightarrow> 'w"
  rv_log_init :: "'w \<Rightarrow> string option"
  rv_now :: "'w \<Rightarrow> nat"
  rv_utc :: "'w \<Rightarrow> int"
  rv_stamp :: "'w \<Rightarrow> timestamp"
  rv_backup_time :: "'w \<Rightarrow> string"
  rv_cancelled :: "'w \<Rightarrow> bool"
  rv_snooze :: "duration \<Rightarrow> 'w \<Rightarrow> duration \<times> 'w"
  rv_secs :: "nat \<Rightarrow> string"
  rv_cwd :: "string list"
  rv_bundle_deps :: bundle_deps
  rv_collectors :: "'w node fact list"
  rv_root_env :: root_env
  rv_os :: os_env
  rv_codec :: serde_codec
  rv_serde_error :: "json \<Rightarrow> string"
  rv_net :: "u32 \<Rightarrow> 'w runr_net"
  rv_bus :: "'w sd_bus"
  rv_proc :: "'w proc_api"
  rv_probe :: "'w probe_api"
  rv_glue :: glue_env
  rv_interp :: "'w \<Rightarrow> nat \<Rightarrow> 'm interp"
  rv_evaluated :: "'w \<Rightarrow> 'w"
  rv_render :: "string list \<Rightarrow> string \<Rightarrow> json \<Rightarrow> json \<Rightarrow> string + string"
  rv_primitive :: "ApplyArgs \<Rightarrow> nat \<Rightarrow> 'w RealDispatchClient \<Rightarrow> ResourceKind \<Rightarrow> 'w node primitive"
  rv_glue_primitive :: "ResourceKind \<Rightarrow> glue_primitive"
  rv_order :: "degrees \<Rightarrow> degrees"
  rv_plan_json :: "PlanReport \<Rightarrow> string"
  rv_apply_json :: "ApplyReport \<Rightarrow> string"

definition node_world :: "'w node \<Rightarrow> 'w" where
  "node_world h = ou_world (fh_outside h)"

definition on_outside :: "('w outside \<Rightarrow> 'w outside) \<Rightarrow> 'w node \<Rightarrow> 'w node" where
  "on_outside f h = h\<lparr>fh_outside := f (fh_outside h)\<rparr>"

definition set_world :: "'w \<Rightarrow> 'w node \<Rightarrow> 'w node" where
  "set_world w = on_outside (\<lambda>x. x\<lparr>ou_world := w\<rparr>)"

definition print_out :: "string \<Rightarrow> 'w node \<Rightarrow> 'w node" where
  "print_out text = on_outside (\<lambda>x. x\<lparr>ou_stdout := ou_stdout x @ text\<rparr>)"

section \<open>Directories and the lock\<close>

datatype BootstrapError = DirCreate "component list" fs_error | LockOpen string fs_error | LockIo string string

datatype LockOutcome = Acquired | Held

fun ensure_dirs :: "host_env \<Rightarrow> component list list \<Rightarrow> ('w node, BootstrapError, unit) prog" where
  "ensure_dirs env [] = ret ()"
| "ensure_dirs env (p # ps) =
     bindE (map_err (DirCreate p) (on_tree (fs_create_dir_all (he_fs env) p))) (\<lambda>_. ensure_dirs env ps)"

text \<open>\<open>OpenOptions\<close> with \<open>read\<close>, \<open>write\<close> and \<open>create\<close>: the contents of a file that exists stay.\<close>

definition open_or_create :: "host_env \<Rightarrow> u32 \<Rightarrow> component list \<Rightarrow> ('w file_host, fs_error, unit) prog" where
  "open_or_create env mode p = fs_call (he_fs env) OpWrite p (\<lambda>h.
     case open_target (fh_tree h) (Suc MAX_LINKS) p of
       Inl e \<Rightarrow> (Inl e, h)
     | Inr names \<Rightarrow>
         (case fh_tree h names of
            None \<Rightarrow> (Inr (), set_file names [] ((new_attr env names)\<lparr>fa_mode := mode\<rparr>) h)
          | Some (TFile _) \<Rightarrow> (Inr (), h)
          | Some _ \<Rightarrow> (Inl (FsOther ''Is a directory''), h)))"

definition try_flock :: "('w, 'm) run_env \<Rightarrow> string \<Rightarrow> ('w node, BootstrapError, LockOutcome) prog" where
  "try_flock env path =
     bindE (map_err (LockOpen path) (open_or_create (rv_host env) (rv_lock_mode env) (os_path path))) (\<lambda>_ h.
       case rv_try_lock env path (node_world h) of
         (Inr True, w) \<Rightarrow> (Inr Acquired, set_world w h)
       | (Inr False, w) \<Rightarrow> (Inr Held, set_world w h)
       | (Inl source, w) \<Rightarrow> (Inl (LockIo path source), set_world w h))"

section \<open>Metrics of a run\<close>

definition TRACKED_FACTS :: "string list" where
  "TRACKED_FACTS = [''hostname'', ''cpu_count'', ''memory_mb'', ''init_system'', ''is_pod'', ''installed_packages'']"

definition build_fact_states :: "fact_cache \<Rightarrow> FactStateEntry list" where
  "build_fact_states cache = map (\<lambda>name.
     \<lparr>fs_name = name, fs_state_code = (case snapshot_get cache name of Known _ \<Rightarrow> 0 | Unknown _ \<Rightarrow> 1 | Stale _ _ \<Rightarrow> 2)\<rparr>) TRACKED_FACTS"

definition node_fact_states :: "'w node \<Rightarrow> FactStateEntry list" where
  "node_fact_states h = build_fact_states (ou_facts (fh_outside h))"

text \<open>The readings of the two clocks with which a run starts.\<close>

record run_clock =
  rc_started :: nat
  rc_started_utc :: int

definition held_snapshot :: "('w, 'm) run_env \<Rightarrow> run_clock \<Rightarrow> MetricSnapshot" where
  "held_snapshot env clock =
     \<lparr>ms_version = rv_version env, ms_exit_code = SUCCESS, ms_duration = 0, ms_started_at_utc = 0,
      ms_attempted_at_utc = rc_started_utc clock, ms_changed = 0, ms_unchanged = 0, ms_failed = 0, ms_deferred = 0,
      ms_interrupted = 0, ms_fact_states = [], ms_defers_pending = 0, ms_replay_stats = replay_stats_default,
      ms_replay_runs = 0, ms_runr_reachable = None, ms_systemd_reachable = None\<rparr>"

definition failure_snapshot ::
  "('w, 'm) run_env \<Rightarrow> run_clock \<Rightarrow> nat \<Rightarrow> FactStateEntry list \<Rightarrow> 'w \<Rightarrow> MetricSnapshot" where
  "failure_snapshot env clock code fact_states w =
     \<lparr>ms_version = rv_version env, ms_exit_code = code, ms_duration = rv_now env w - rc_started clock,
      ms_started_at_utc = rc_started_utc clock, ms_attempted_at_utc = rv_utc env w, ms_changed = 0, ms_unchanged = 0,
      ms_failed = 0, ms_deferred = 0, ms_interrupted = 0, ms_fact_states = fact_states, ms_defers_pending = 0,
      ms_replay_stats = replay_stats_default, ms_replay_runs = 0, ms_runr_reachable = None, ms_systemd_reachable = None\<rparr>"

text \<open>A write that fails is only logged.\<close>

definition write_metric :: "('w, 'm) run_env \<Rightarrow> ApplyArgs \<Rightarrow> MetricSnapshot \<Rightarrow> 'w node \<Rightarrow> 'w node" where
  "write_metric env args snapshot h = snd (metric_write_atomic (rv_host env) (rv_secs env) (aa_metric_file args) snapshot h)"

definition write_failure_metric ::
  "('w, 'm) run_env \<Rightarrow> ApplyArgs \<Rightarrow> run_clock \<Rightarrow> nat \<Rightarrow> FactStateEntry list \<Rightarrow> 'w node \<Rightarrow> 'w node" where
  "write_failure_metric env args clock code fact_states h =
     write_metric env args (failure_snapshot env clock code fact_states (node_world h)) h"

text \<open>An early return that leaves a metric.\<close>

definition fail_run ::
  "('w, 'm) run_env \<Rightarrow> ApplyArgs \<Rightarrow> run_clock \<Rightarrow> nat \<Rightarrow> ('w node \<Rightarrow> FactStateEntry list) \<Rightarrow> ('w node, nat, 'a) prog" where
  "fail_run env args clock code fact_states = (\<lambda>h. (Inl code, write_failure_metric env args clock code (fact_states h) h))"

definition tags_metric_path :: "string \<Rightarrow> string" where
  "tags_metric_path metric_file =
     (case path_parent metric_file of
        None \<Rightarrow> ''./bosun_tags.prom''
      | Some [] \<Rightarrow> ''bosun_tags.prom''
      | Some [RootDir] \<Rightarrow> ''/bosun_tags.prom''
      | Some parent \<Rightarrow> join_with ''/'' (map (\<lambda>c. case c of RootDir \<Rightarrow> [] | CurDir \<Rightarrow> ''.'' | ParentDir \<Rightarrow> ''..'' | Normal n \<Rightarrow> n) parent) @
          ''/bosun_tags.prom'')"

section \<open>Bundle and facts\<close>

definition load_bundle :: "('w, 'm) run_env \<Rightarrow> ApplyArgs \<Rightarrow> run_clock \<Rightarrow> ('w node, nat, Bundle) prog" where
  "load_bundle env args clock = (\<lambda>h.
     case load_dir (rv_bundle_deps env) (fh_tree h) (rv_cwd env) (aa_bundle args) of
       Inl e \<Rightarrow> fail_run env args clock EVAL_ERROR (\<lambda>_. []) h
     | Inr b \<Rightarrow>
         (case check_compatibility (rv_bundle_deps env) b (rv_version env) of
            Inl e \<Rightarrow> fail_run env args clock EVAL_ERROR (\<lambda>_. []) h
          | Inr _ \<Rightarrow> (Inr b, h)))"

definition collect_facts :: "('w, 'm) run_env \<Rightarrow> 'w node \<Rightarrow> 'w node" where
  "collect_facts env h = on_outside (\<lambda>x. x\<lparr>ou_facts := collect_at_start (rv_collectors env) h (rv_now env (ou_world x)) Map.empty\<rparr>) h"

definition open_journal :: "('w, 'm) run_env \<Rightarrow> ApplyArgs \<Rightarrow> run_clock \<Rightarrow> ('w node, nat, Journal) prog" where
  "open_journal env args clock = (\<lambda>h.
     case journal_open (rv_root_env env) (aa_defers_dir args) (ou_root (fh_outside h)) of
       (r, root) \<Rightarrow>
         (let h1 = on_outside (\<lambda>x. x\<lparr>ou_root := root\<rparr>) h
          in case r of
               Inl e \<Rightarrow> fail_run env args clock CLI_ENV_ERROR node_fact_states h1
             | Inr J \<Rightarrow> (Inr J, h1)))"

definition materialize_facts_json :: "'h fact list \<Rightarrow> fact_cache \<Rightarrow> json" where
  "materialize_facts_json collectors cache =
     JObject (fold (\<lambda>name. obj_insert name
         (case snapshot_get cache name of Known v \<Rightarrow> v | Stale v _ \<Rightarrow> v | Unknown _ \<Rightarrow> JNull))
       (filter (\<lambda>name. cache name \<noteq> None) (map fact_name collectors)) [])"

definition run_template ::
  "('w, 'm) run_env \<Rightarrow> json \<Rightarrow> string list \<Rightarrow> string \<Rightarrow> json \<Rightarrow> string + string" where
  "run_template env facts_json path rel ctx =
     (if path = [] then Inl (''template: resolved path has no parent: '' @ debug_names path)
      else rv_render env (butlast path) (last path)
             (case ctx of JObject m \<Rightarrow> (case obj_get m ''inv'' of Some v \<Rightarrow> v | None \<Rightarrow> ctx) | _ \<Rightarrow> ctx) facts_json)"

section \<open>Clients\<close>

definition init_system_value :: "fact_cache \<Rightarrow> string option" where
  "init_system_value cache =
     (case snapshot_get cache ''init_system'' of
        Known (JString s) \<Rightarrow> Some s
      | Stale (JString s) _ \<Rightarrow> Some s
      | _ \<Rightarrow> None)"

definition init_system_requires_systemd :: "string option \<Rightarrow> bool" where
  "init_system_requires_systemd v \<longleftrightarrow> v = Some ''systemd'' \<or> v = Some ''mixed-systemd-runr''"

definition init_system_requires_runr :: "string option \<Rightarrow> bool" where
  "init_system_requires_runr v \<longleftrightarrow> v = Some ''runr'' \<or> v = Some ''mixed-systemd-runr''"

record 'w clients =
  cl_dispatcher :: "'w RealDispatchClient"
  cl_runr_reachable :: "bool option"
  cl_systemd_reachable :: "bool option"

definition connect_clients :: "('w, 'm) run_env \<Rightarrow> ApplyArgs \<Rightarrow> 'w node \<Rightarrow> 'w clients \<times> 'w node" where
  "connect_clients env args h =
     (let init_system = (case aa_init_system_override args of
            Some s \<Rightarrow> Some s | None \<Rightarrow> init_system_value (ou_facts (fh_outside h)));
          runr = (if init_system_requires_runr init_system
                  then Some (client_handle (rv_net env (aa_runr_timeout_sec args)) (client_new (aa_runr_url args))) else None);
          runr_reachable = (if init_system_requires_runr init_system then Some True else None)
      in if init_system_requires_systemd init_system
         then (case connect_system (rv_bus env) (node_world h) of
                 (Inr _, w) \<Rightarrow>
                   (\<lparr>cl_dispatcher = \<lparr>dc_runr = runr, dc_systemd = Some (manager_handle (rv_bus env))\<rparr>,
                      cl_runr_reachable = runr_reachable, cl_systemd_reachable = Some True\<rparr>, set_world w h)
               | (Inl e, w) \<Rightarrow>
                   (\<lparr>cl_dispatcher = \<lparr>dc_runr = runr, dc_systemd = None\<rparr>,
                      cl_runr_reachable = runr_reachable, cl_systemd_reachable = Some False\<rparr>, set_world w h))
         else (\<lparr>cl_dispatcher = \<lparr>dc_runr = runr, dc_systemd = None\<rparr>,
                 cl_runr_reachable = runr_reachable, cl_systemd_reachable = None\<rparr>, h))"

section \<open>Replay\<close>

definition maybe_run_replay_phase ::
  "('w, 'm) run_env \<Rightarrow> bool \<Rightarrow> Journal \<Rightarrow> 'w dispatch_client \<Rightarrow> 'w node \<Rightarrow> ReplayReport option \<times> 'w node" where
  "maybe_run_replay_phase env dry_run J dispatcher h =
     (if dry_run then (None, h)
      else case replay_with_health_check (rv_os env) (rv_codec env) J dispatcher (RealHealthCheckRunner (rv_probe env))
               (rv_cancelled env) (ou_journal (fh_outside h), node_world h) of
        (r, (journal, w)) \<Rightarrow>
          (case r of Inr report \<Rightarrow> Some report | Inl _ \<Rightarrow> None,
           on_outside (\<lambda>x. x\<lparr>ou_journal := journal, ou_world := w\<rparr>) h))"

definition accumulate_replay_stats :: "DeferReplayStats \<Rightarrow> ReplayReport \<Rightarrow> DeferReplayStats" where
  "accumulate_replay_stats stats report = stats\<lparr>
     dr_executed_ok := saturating_add (dr_executed_ok stats) (executed report),
     dr_executed_failed := saturating_add (saturating_add (dr_executed_failed stats) (failed report)) (health_check_failed report),
     dr_client_unavailable := saturating_add (dr_client_unavailable stats) (skipped_unavailable report),
     dr_promoted_manual_clear := saturating_add (dr_promoted_manual_clear stats) (promoted_to_manual_clear report)\<rparr>"

record replay_totals =
  rt_runs :: u32
  rt_stats :: DeferReplayStats

definition count_replay :: "ReplayReport option \<Rightarrow> replay_totals \<Rightarrow> replay_totals" where
  "count_replay report t =
     (case report of
        None \<Rightarrow> t
      | Some r \<Rightarrow> \<lparr>rt_runs = rt_runs t + 1, rt_stats = accumulate_replay_stats (rt_stats t) r\<rparr>)"

section \<open>Reports\<close>

definition print_plan_entry :: "ResourcePlan \<Rightarrow> string" where
  "print_plan_entry p =
     (let marker = (case rp_diff p of NoChange \<Rightarrow> ''  '' | Add _ _ \<Rightarrow> ''+ '' | Update _ _ _ \<Rightarrow> ''~ '');
          description = (case rp_diff p of NoChange \<Rightarrow> ''(no change)'' | Add d _ \<Rightarrow> d | Update _ _ d \<Rightarrow> d)
      in ''  '' @ marker @ rp_kind p @ '' '' @ rp_id p @ newline @ ''      '' @ description @ newline)"

text \<open>The dash in the line of an error is U+2014.\<close>

definition print_plan :: "('w, 'm) run_env \<Rightarrow> PlanReport \<Rightarrow> ReportFormat \<Rightarrow> string" where
  "print_plan env report fmt =
     (case fmt of
        ReportJson \<Rightarrow> rv_plan_json env report @ newline
      | ReportText \<Rightarrow>
          ''Plan:'' @ newline @ concat (map print_plan_entry (pr_resources report)) @
          concat (map (\<lambda>e. ''  ! '' @ pf_kind e @ '' '' @ pf_id e @ '' '' @ [CHR 0xE2, CHR 0x80, CHR 0x94] @ '' '' @ pf_message e @ newline)
            (pr_errors report)) @
          newline @ ''Summary: '' @ show_nat (ps_add (pr_summary report)) @ '' add, '' @ show_nat (ps_update (pr_summary report)) @
          '' update, '' @ show_nat (ps_no_change (pr_summary report)) @ '' no-change, '' @ show_nat (length (pr_errors report)) @
          '' errors.'' @ newline)"

definition print_apply_entry :: "ResourceApplyOutcome \<Rightarrow> string" where
  "print_apply_entry r =
     (let marker = (case ro_outcome r of
            OutNoChange \<Rightarrow> ''  '' | OutChanged \<Rightarrow> ''+ '' | OutFailed _ \<Rightarrow> ''x '' | OutSkipped \<Rightarrow> ''- ''
          | OutDeferred _ \<Rightarrow> ''~ '' | OutInterrupted _ \<Rightarrow> ''! '');
          label = (case ro_outcome r of
            OutNoChange \<Rightarrow> ''no change'' | OutChanged \<Rightarrow> ro_message r | OutFailed e \<Rightarrow> ''failed: '' @ e | OutSkipped \<Rightarrow> ro_message r
          | OutDeferred reason \<Rightarrow> ''deferred: '' @ reason | OutInterrupted reason \<Rightarrow> ''interrupted: '' @ reason)
      in ''  '' @ marker @ ro_kind r @ '' '' @ ro_id r @ newline @ (if label = [] then [] else ''      '' @ label @ newline))"

definition print_apply :: "('w, 'm) run_env \<Rightarrow> ApplyReport \<Rightarrow> ReportFormat \<Rightarrow> string" where
  "print_apply env report fmt =
     (case fmt of
        ReportJson \<Rightarrow> rv_apply_json env report @ newline
      | ReportText \<Rightarrow>
          (let s = ar_summary report
           in ''Apply:'' @ newline @ concat (map print_apply_entry (ar_resources report)) @
              newline @ ''Summary: '' @ show_nat (as_changed s) @ '' changed, '' @ show_nat (as_no_change s) @ '' no-change, '' @
              show_nat (as_failed s) @ '' failed, '' @ show_nat (as_skipped s) @ '' skipped, '' @ show_nat (as_deferred s) @
              '' deferred, '' @ show_nat (as_interrupted s) @ '' interrupted.'' @ newline))"

section \<open>Evaluating, planning and applying\<close>

definition PRIMITIVE_KINDS :: "ResourceKind list" where
  "PRIMITIVE_KINDS =
     [''apt.key'', ''apt.package'', ''apt.update_cache'', ''cert.tls'', ''file.content'', ''file.delete'', ''file.symlink'',
      ''pg_sql.exec'', ''pg_sql.query'', ''process.signal'', ''sysctl.reload'', ''runr.service'', ''runr.timer'', ''runr.cgroup'',
      ''systemd.service'', ''systemd.timer'', ''users.user'', ''users.group'']"

definition build_primitives :: "(ResourceKind \<Rightarrow> 'p) \<Rightarrow> ResourceKind \<Rightarrow> 'p option" where
  "build_primitives prim kind = (if kind \<in> set PRIMITIVE_KINDS then Some (prim kind) else None)"

text \<open>A primitive of a part of the node; what it leaves in that part is put back.\<close>

definition call_on :: "('h \<Rightarrow> 'p) \<Rightarrow> ('p \<Rightarrow> 'h \<Rightarrow> 'h) \<Rightarrow> ('p world, 'a) prim_call \<Rightarrow> ('h world, 'a) prim_call" where
  "call_on part put m = (\<lambda>v.
     case m \<lparr>w_ctx = w_ctx v, w_host = part (w_host v)\<rparr> of
       (r, u) \<Rightarrow> (r, \<lparr>w_ctx = w_ctx u, w_host = put (w_host u) (w_host v)\<rparr>))"

definition primitive_on :: "('h \<Rightarrow> 'p) \<Rightarrow> ('p \<Rightarrow> 'h \<Rightarrow> 'h) \<Rightarrow> 'p primitive \<Rightarrow> 'h primitive" where
  "primitive_on part put p =
     \<lparr>prim_plan = (\<lambda>r. call_on part put (prim_plan p r)), prim_apply = (\<lambda>r d. call_on part put (prim_apply p r d))\<rparr>"

abbreviation set_tree :: "file_tree \<Rightarrow> 'w file_host \<Rightarrow> 'w file_host" where
  "set_tree t h \<equiv> h\<lparr>fh_tree := t\<rparr>"

definition service_part :: "'w node \<Rightarrow> fs_state \<times> 'w" where
  "service_part h = (ou_journal (fh_outside h), ou_world (fh_outside h))"

definition set_service_part :: "fs_state \<times> 'w \<Rightarrow> 'w node \<Rightarrow> 'w node" where
  "set_service_part part = on_outside (\<lambda>x. x\<lparr>ou_journal := fst part, ou_world := snd part\<rparr>)"

text \<open>The context of an apply, as the primitives see it.\<close>

definition run_validator :: "('w, 'm) run_env \<Rightarrow> string list \<Rightarrow> duration \<Rightarrow> ('w, ValidateError, unit) prog" where
  "run_validator env argv timeout = finished (validate_run (rv_proc env) argv timeout)"

definition run_content_env :: "('w, 'm) run_env \<Rightarrow> ApplyArgs \<Rightarrow> 'w outside content_env" where
  "run_content_env env args =
     \<lparr>ce_host = rv_host env, ce_digest = ge_digest (rv_glue env),
      ce_validator = (\<lambda>argv timeout h. case run_validator env argv timeout (node_world h) of (r, w) \<Rightarrow> (r, set_world w h)),
      ce_utc = (\<lambda>x. rv_backup_time env (ou_world x)), ce_backup_root = aa_backup_dir args, ce_serde_error = rv_serde_error env\<rparr>"

definition run_service_env :: "('w, 'm) run_env \<Rightarrow> Journal \<Rightarrow> 'w RealDispatchClient \<Rightarrow> 'w service_env" where
  "run_service_env env J dc =
     \<lparr>se_runr = dc_runr dc, se_systemd = dc_systemd dc, se_validator = run_validator env,
      se_health = RealHealthCheckRunner (rv_probe env), se_utc_now = rv_stamp env, se_os = rv_os env, se_codec = rv_codec env,
      se_journal = J, se_serde_error = rv_serde_error env\<rparr>"

definition MODELLED_KINDS :: "ResourceKind list" where
  "MODELLED_KINDS = [''file.content'', ''file.symlink'', ''file.delete'', ''runr.service'', ''systemd.service'']"

definition node_primitive ::
  "('w, 'm) run_env \<Rightarrow> ApplyArgs \<Rightarrow> nat \<Rightarrow> Journal \<Rightarrow> 'w RealDispatchClient \<Rightarrow> ResourceKind \<Rightarrow> 'w node primitive" where
  "node_primitive env args deadline J dc kind =
     (if kind = ''file.content'' then FilePrimitive (run_content_env env args)
      else if kind = ''file.symlink''
      then primitive_on fh_tree set_tree (FileSymlinkPrimitive (he_fs (rv_host env)) (rv_serde_error env))
      else if kind = ''file.delete''
      then primitive_on fh_tree set_tree (FileDeletePrimitive (he_fs (rv_host env)) (he_lister (rv_host env)) (rv_serde_error env))
      else if kind = ''runr.service''
      then primitive_on service_part set_service_part (RunrServicePrimitive (run_service_env env J dc))
      else if kind = ''systemd.service''
      then primitive_on service_part set_service_part (SystemdServicePrimitive (run_service_env env J dc))
      else rv_primitive env args deadline dc kind)"

definition run_primitives ::
  "('w, 'm) run_env \<Rightarrow> ApplyArgs \<Rightarrow> nat \<Rightarrow> Journal \<Rightarrow> 'w RealDispatchClient \<Rightarrow> 'w node primitives" where
  "run_primitives env args deadline J dc = build_primitives (node_primitive env args deadline J dc)"

text \<open>What the evaluator asks of a primitive: the arguments that name a resource, and the payload.\<close>

definition node_glue_primitive :: "('w, 'm) run_env \<Rightarrow> ResourceKind \<Rightarrow> glue_primitive" where
  "node_glue_primitive env kind =
     (let glue = (\<lambda>key payload. \<lparr>gp_identity_keys = [key], gp_build_payload = (\<lambda>args. Returned (payload args))\<rparr>)
      in if kind = ''file.content'' then glue ''path'' content_build_payload
         else if kind = ''file.symlink'' then glue ''path'' symlink_build_payload
         else if kind = ''file.delete'' then glue ''path'' delete_build_payload
         else if kind = ''runr.service'' then glue ''name'' (service_build_payload ''runr.service'' False)
         else if kind = ''systemd.service'' then glue ''name'' (service_build_payload ''systemd.service'' True)
         else rv_glue_primitive env kind)"

text \<open>What the evaluator works with: the bundle, the facts and the tags of this run.\<close>

definition evaluator_env :: "('w, 'm) run_env \<Rightarrow> ApplyArgs \<Rightarrow> Bundle \<Rightarrow> 'w node \<Rightarrow> glue_env" where
  "evaluator_env env args b h =
     (rv_glue env)\<lparr>ge_tree := fh_tree h, ge_cwd := rv_cwd env, ge_bundle := b,
        ge_primitives := build_primitives (node_glue_primitive env),
        ge_facts := snapshot_get (ou_facts (fh_outside h)),
        ge_tags := sort (remdups (aa_tags args)),
        ge_template := run_template env (materialize_facts_json (rv_collectors env) (ou_facts (fh_outside h)))\<rparr>"

text \<open>The store of the secrets is a new one; the registry is not shared any more.\<close>

definition evaluate_phase ::
  "('w, 'm) run_env \<Rightarrow> ApplyArgs \<Rightarrow> run_clock \<Rightarrow> nat \<Rightarrow> Bundle \<Rightarrow> 'w node \<Rightarrow> ((nat + Registry) \<times> 'w node) option" where
  "evaluate_phase env args clock deadline b h =
     Option.bind (evaluator_evaluate (rv_interp env (node_world h) deadline) (evaluator_env env args b h) False False Map.empty)
       (\<lambda>(r, secrets).
         let h1 = set_world (rv_evaluated env (node_world h)) (h\<lparr>fh_sensitive := secrets\<rparr>)
         in Some (case r of
              Inl e \<Rightarrow> fail_run env args clock EVAL_ERROR node_fact_states h1
            | Inr registry \<Rightarrow> (Inr registry, h1)))"

record run_result =
  rr_code :: nat
  rr_changed :: nat
  rr_unchanged :: nat
  rr_failed :: nat
  rr_deferred :: nat
  rr_interrupted :: nat

definition in_apply_world :: "('w node world, 'e, 'a) prog \<Rightarrow> ('w node, 'e, 'a) prog" where
  "in_apply_world m = (\<lambda>h. case m \<lparr>w_ctx = apply_ctx_build, w_host = h\<rparr> of (r, w) \<Rightarrow> (r, w_host w))"

definition plan_result :: "PlanReport \<Rightarrow> run_result" where
  "plan_result report =
     \<lparr>rr_code = (if has_drift report then DRY_RUN_DRIFT else SUCCESS),
      rr_changed = ps_add (pr_summary report) + ps_update (pr_summary report),
      rr_unchanged = ps_no_change (pr_summary report), rr_failed = length (pr_errors report),
      rr_deferred = 0, rr_interrupted = 0\<rparr>"

definition apply_result :: "ApplyReport \<Rightarrow> run_result" where
  "apply_result report =
     \<lparr>rr_code = (if has_interruptions report then APPLY_INTERRUPTED else if has_failures report then APPLY_PARTIAL_FAILURE else SUCCESS),
      rr_changed = as_changed (ar_summary report), rr_unchanged = as_no_change (ar_summary report),
      rr_failed = as_failed (ar_summary report), rr_deferred = as_deferred (ar_summary report),
      rr_interrupted = as_interrupted (ar_summary report)\<rparr>"

definition mark_facts_dirty :: "('w, 'm) run_env \<Rightarrow> ResourceKind \<Rightarrow> 'w node world \<Rightarrow> 'w node world" where
  "mark_facts_dirty env kind w = w\<lparr>w_host := on_outside (\<lambda>x.
     x\<lparr>ou_facts := mark_dirty_after_apply (rv_collectors env) (rv_now env (ou_world x)) kind (ou_facts x)\<rparr>) (w_host w)\<rparr>"

definition pacer_pause :: "('w, 'm) run_env \<Rightarrow> duration \<Rightarrow> 'w node world \<Rightarrow> bool \<times> 'w node world" where
  "pacer_pause env d w =
     (case cancellable_sleep (rv_cancelled env) (rv_snooze env) d (node_world (w_host w)) of
        (slept, x) \<Rightarrow> (slept, w\<lparr>w_host := set_world x (w_host w)\<rparr>))"

definition run_opts :: "ApplyArgs \<Rightarrow> ApplyOpts" where
  "run_opts args = \<lparr>continue_on_error = aa_continue_on_error args,
     pacer = pacer_new (aa_pacer_target_sec args) (aa_pacer_min_interval_ms args) (aa_pacer_max_interval_ms args)\<rparr>"

definition apply_phase ::
  "('w, 'm) run_env \<Rightarrow> ApplyArgs \<Rightarrow> run_clock \<Rightarrow> nat \<Rightarrow> Journal \<Rightarrow> 'w RealDispatchClient \<Rightarrow> Registry \<Rightarrow>
   ('w node, nat, run_result) prog" where
  "apply_phase env args clock deadline J dc registry = (\<lambda>h.
     let primitives = run_primitives env args deadline J dc
     in if aa_dry_run args
        then (case in_apply_world (plan_only (rv_order env) primitives registry) h of
                (Inr report, h1) \<Rightarrow> (Inr (plan_result report), print_out (print_plan env report (aa_format args)) h1)
              | (Inl e, h1) \<Rightarrow> fail_run env args clock EVAL_ERROR node_fact_states h1)
        else (case in_apply_world (orchestrator_apply (rv_order env) primitives (mark_facts_dirty env) (pacer_pause env)
                     (run_opts args) registry) h of
                (Inr report, h1) \<Rightarrow> (Inr (apply_result report), print_out (print_apply env report (aa_format args)) h1)
              | (Inl e, h1) \<Rightarrow> fail_run env args clock EVAL_ERROR node_fact_states h1))"

section \<open>The run\<close>

definition final_snapshot ::
  "('w, 'm) run_env \<Rightarrow> run_clock \<Rightarrow> run_result \<Rightarrow> u32 \<Rightarrow> replay_totals \<Rightarrow> 'w clients \<Rightarrow> 'w node \<Rightarrow> MetricSnapshot" where
  "final_snapshot env clock result defers totals clients h =
     \<lparr>ms_version = rv_version env, ms_exit_code = rr_code result, ms_duration = rv_now env (node_world h) - rc_started clock,
      ms_started_at_utc = rc_started_utc clock, ms_attempted_at_utc = rc_started_utc clock,
      ms_changed = rr_changed result, ms_unchanged = rr_unchanged result, ms_failed = rr_failed result,
      ms_deferred = rr_deferred result, ms_interrupted = rr_interrupted result, ms_fact_states = node_fact_states h,
      ms_defers_pending = defers, ms_replay_stats = rt_stats totals, ms_replay_runs = rt_runs totals,
      ms_runr_reachable = cl_runr_reachable clients, ms_systemd_reachable = cl_systemd_reachable clients\<rparr>"

text \<open>After the evaluation: apply, replay once more, write the metrics.\<close>

definition finish_run ::
  "('w, 'm) run_env \<Rightarrow> ApplyArgs \<Rightarrow> run_clock \<Rightarrow> nat \<Rightarrow> Journal \<Rightarrow> 'w clients \<Rightarrow> replay_totals \<Rightarrow> Registry \<Rightarrow> 'w node \<Rightarrow> nat \<times> 'w node" where
  "finish_run env args clock deadline J clients totals registry h =
     (case apply_phase env args clock deadline J (cl_dispatcher clients) registry h of
        (Inl code, h1) \<Rightarrow> (code, h1)
      | (Inr result, h1) \<Rightarrow>
          (case maybe_run_replay_phase env (aa_dry_run args) J (real_dispatch (rv_proc env) (cl_dispatcher clients)) h1 of
             (report, h2) \<Rightarrow>
               (case count_pending_defers (rv_os env) (ou_journal (fh_outside h2)) of
                  (defers, journal) \<Rightarrow>
                    (let h3 = on_outside (\<lambda>x. x\<lparr>ou_journal := journal\<rparr>) h2
                     in (rr_code result,
                         write_metric env args (final_snapshot env clock result defers (count_replay report totals) clients h3) h3)))))"

text \<open>The lock is taken.  The result is \<open>None\<close> when the evaluation never ends.\<close>

definition run_locked :: "('w, 'm) run_env \<Rightarrow> ApplyArgs \<Rightarrow> run_clock \<Rightarrow> 'w node \<Rightarrow> (nat \<times> 'w node) option" where
  "run_locked env args clock h0 =
     (let h = snd (tags_write_atomic (rv_host env) (tags_metric_path (aa_metric_file args)) (sort (remdups (aa_tags args))) h0);
          deadline = rv_now env (node_world h) + from_secs (unat (aa_deadline_sec args))
      in case bindE (load_bundle env args clock) (\<lambda>b h1.
                bindE (open_journal env args clock) (\<lambda>J. ret (b, J)) (collect_facts env h1)) h of
           (Inl code, h1) \<Rightarrow> Some (code, h1)
         | (Inr (b, J), h1) \<Rightarrow>
             (case connect_clients env args h1 of
                (clients, h2) \<Rightarrow>
                  (case maybe_run_replay_phase env (aa_dry_run args) J (real_dispatch (rv_proc env) (cl_dispatcher clients)) h2 of
                     (report, h3) \<Rightarrow>
                       Option.bind (evaluate_phase env args clock deadline b h3) (\<lambda>(r, h4).
                         Some (case r of
                             Inl code \<Rightarrow> (code, h4)
                           | Inr registry \<Rightarrow> finish_run env args clock deadline J clients
                               (count_replay report \<lparr>rt_runs = 0, rt_stats = replay_stats_default\<rparr>) registry h4)))))"

definition run_dirs :: "ApplyArgs \<Rightarrow> component list list" where
  "run_dirs args = map path_components [aa_state_dir args, aa_log_dir args, aa_backup_dir args] @
     [case path_parent (aa_lock_path args) of Some p \<Rightarrow> p | None \<Rightarrow> [RootDir]]"

text \<open>The lock is given back when the function returns, whatever it returns.\<close>

definition apply_run :: "('w, 'm) run_env \<Rightarrow> ApplyArgs \<Rightarrow> 'w node \<Rightarrow> (nat \<times> 'w node) option" where
  "apply_run env args h =
     (let clock = \<lparr>rc_started = rv_now env (node_world h), rc_started_utc = rv_utc env (node_world h)\<rparr>;
          unlocked = (\<lambda>(code :: nat, h). (code, set_world (rv_unlock env (node_world h)) h))
      in case bindE (ensure_dirs (rv_host env) (run_dirs args)) (\<lambda>_. try_flock env (aa_lock_path args)) h of
           (Inl e, h1) \<Rightarrow> Some (CLI_ENV_ERROR, h1)
         | (Inr Held, h1) \<Rightarrow> Some (SUCCESS, write_metric env args (held_snapshot env clock) h1)
         | (Inr Acquired, h1) \<Rightarrow>
             (case rv_log_init env (node_world h1) of
                Some e \<Rightarrow> Some (unlocked (CLI_ENV_ERROR, h1))
              | None \<Rightarrow> map_option unlocked (run_locked env args clock h1)))"

end
