(* ===== verification/Run_Props.thy ===== *)
theory Run_Props
  imports Cli_Run Content_Props Starlark_Props
begin

text \<open>
  What a whole run of \<open>bosun apply\<close> does: which exit code it returns and what that code says about the resources, that every run
  leaves a metric with its exit code, and that a dry run changes nothing but the metrics.
\<close>

section \<open>Why a resource was skipped\<close>

definition went_wrong :: "Outcome \<Rightarrow> bool" where
  "went_wrong out \<longleftrightarrow> (\<exists>e. out = OutFailed e) \<or> (\<exists>e. out = OutInterrupted e)"

lemma stops_went_wrong: "stops opts out \<Longrightarrow> went_wrong out"
  by (cases out) (auto simp: went_wrong_def)

lemma unsuccessful_cases: "unsuccessful out \<longleftrightarrow> went_wrong out \<or> out = OutSkipped"
  by (cases out) (auto simp: went_wrong_def)

text \<open>Only an aborted run or a failed dependency skips a resource.\<close>

lemma skip_cause:
  assumes "apply_step primitives mark_dirty pause opts registry interval first i st w = (st', w')"
    and "ro_outcome (last (rs_resources st')) = OutSkipped"
  shows "rs_aborted st \<or> rs_failed st \<noteq> {}"
proof (rule ccontr)
  assume "\<not> ?thesis"
  then have st: "\<not> rs_aborted st" "rs_failed st = {}" by auto
  then have "find (\<lambda>dep. dep \<in> rs_failed st) ds = None" for ds by (simp add: find_None_iff)
  then have "apply_resource primitives mark_dirty opts registry i st w1 = (st', w') \<Longrightarrow> False" for w1
    using assms(2) by (auto simp: apply_resource_def outcome_simps Let_def dest: run_primitive_ran split: option.splits)
  then show False
    using assms st by (auto simp: apply_step_def pause_interrupted_def outcome_simps Let_def split: prod.splits if_splits)
qed

definition skips_explained :: "run_state \<Rightarrow> bool" where
  "skips_explained st \<longleftrightarrow>
     (rs_aborted st \<or> rs_failed st \<noteq> {} \<or> (\<exists>r \<in> set (rs_resources st). ro_outcome r = OutSkipped) \<longrightarrow>
      (\<exists>r \<in> set (rs_resources st). went_wrong (ro_outcome r)))"

lemma apply_loop_skips:
  assumes "apply_loop primitives mark_dirty pause opts registry interval first ids st w = (st', w')" "skips_explained st"
  shows "skips_explained st'"
  using assms
proof (induction ids arbitrary: st w first)
  case (Cons i ids)
  obtain st1 w1 where step: "apply_step primitives mark_dirty pause opts registry interval first i st w = (st1, w1)" by fastforce
  obtain out message where adv: "st1 = advance opts registry i out message st" using apply_step_advance [OF step] by metis
  have "out = OutSkipped \<Longrightarrow> rs_aborted st \<or> rs_failed st \<noteq> {}" using skip_cause [OF step] adv by (simp add: advance_def)
  then have "skips_explained st1"
    using Cons.prems(2) stops_went_wrong [of opts out] unsuccessful_cases [of out]
    by (auto simp: adv advance_def skips_explained_def)
  then show ?case using Cons step by simp
qed simp

section \<open>Exit codes of reports\<close>

definition exit_of_apply :: "ApplyReport \<Rightarrow> nat" where
  "exit_of_apply rep =
     (if \<exists>r \<in> set (ar_resources rep). \<exists>e. ro_outcome r = OutInterrupted e then APPLY_INTERRUPTED
      else if \<exists>r \<in> set (ar_resources rep). \<exists>e. ro_outcome r = OutFailed e then APPLY_PARTIAL_FAILURE
      else SUCCESS)"

definition exit_of_plan :: "PlanReport \<Rightarrow> nat" where
  "exit_of_plan rep = (if \<exists>p \<in> set (pr_resources rep). \<not> is_no_change (rp_diff p) then DRY_RUN_DRIFT else SUCCESS)"

text \<open>A resource that is in its state, was brought there, or whose request waits in the journal.\<close>

definition settled :: "Outcome \<Rightarrow> bool" where
  "settled out \<longleftrightarrow> out = OutNoChange \<or> out = OutChanged \<or> (\<exists>reason. out = OutDeferred reason)"

lemma apply_exit:
  assumes "orchestrator_apply ord primitives mark_dirty pause opts registry w = (Inr rep, w')"
  shows "topological_order ord registry = Inr (map ro_id (ar_resources rep))"
    and "rr_code (apply_result rep) = exit_of_apply rep"
    and "exit_of_apply rep = SUCCESS \<longleftrightarrow> (\<forall>r \<in> set (ar_resources rep). settled (ro_outcome r))"
proof -
  obtain order st where order: "topological_order ord registry = Inr order"
    and run: "apply_loop primitives mark_dirty pause opts registry (interval_for (pacer opts) (length order)) True order
       run_state_new w = (st, w')"
    and rep: "rep = \<lparr>ar_resources = rs_resources st, ar_summary = rs_summary st\<rparr>"
    using assms by (rule orchestrator_apply_run)
  have inv: "run_inv opts registry st" and ids: "map ro_id (rs_resources st) = order"
    using apply_loop_inv [OF run run_inv_new] by (simp_all add: run_state_new_def)
  show "topological_order ord registry = Inr (map ro_id (ar_resources rep))" using order ids rep by simp
  have sum: "rs_summary st = summary_of (rs_resources st)" using inv by (simp add: run_inv_def)
  show "rr_code (apply_result rep) = exit_of_apply rep"
    using summary_counts [of "rs_resources st"]
    by (simp add: apply_result_def exit_of_apply_def has_interruptions_def has_failures_def rep sum filter_empty_conv)
  have "skips_explained st" using apply_loop_skips [OF run] by (simp add: skips_explained_def run_state_new_def)
  moreover have "settled out \<longleftrightarrow> \<not> went_wrong out \<and> out \<noteq> OutSkipped" for out
    by (cases out) (auto simp: settled_def went_wrong_def)
  ultimately show "exit_of_apply rep = SUCCESS \<longleftrightarrow> (\<forall>r \<in> set (ar_resources rep). settled (ro_outcome r))"
    by (auto simp: exit_of_apply_def rep exit_codes went_wrong_def skips_explained_def)
qed

lemma plan_exit:
  assumes "plan_only ord primitives registry w = (Inr rep, w')"
  shows "\<exists>order. topological_order ord registry = Inr order \<and>
      mset order = mset (map rp_id (pr_resources rep)) + mset (map pf_id (pr_errors rep))"
    and "rr_code (plan_result rep) = exit_of_plan rep"
proof -
  obtain order where order: "topological_order ord registry = Inr order"
    and run: "plan_loop primitives registry order plan_report_new w = (rep, w')"
    using assms by (auto simp: plan_only_def split: sum.splits prod.splits)
  have inv: "plan_inv rep" "planned_ids rep = mset order"
    using plan_loop_inv [OF run] by (simp_all add: plan_inv_def planned_ids_def plan_report_new_def)
  show "\<exists>order. topological_order ord registry = Inr order \<and>
      mset order = mset (map rp_id (pr_resources rep)) + mset (map pf_id (pr_errors rep))"
    using order inv(2) by (auto simp: planned_ids_def)
  have "is_no_change d \<longleftrightarrow> \<not> (\<exists>a v. d = Add a v) \<and> \<not> (\<exists>a b c. d = Update a b c)" for d
    by (cases d) (auto simp: is_no_change_def)
  then have "has_drift rep \<longleftrightarrow> (\<exists>p \<in> set (pr_resources rep). \<not> is_no_change (rp_diff p))"
    using inv(1) by (simp add: has_drift_def plan_inv_def filter_empty_conv) blast
  then show "rr_code (plan_result rep) = exit_of_plan rep" by (simp add: plan_result_def exit_of_plan_def)
qed

section \<open>The phases\<close>

text \<open>A run gets past its first steps: it has its directories, and either the lock is taken by another run or the log is set up.\<close>

definition lock_result :: "('w, 'm) run_env \<Rightarrow> ApplyArgs \<Rightarrow> 'w node \<Rightarrow> (BootstrapError + LockOutcome) \<times> 'w node" where
  "lock_result env args = bindE (ensure_dirs (rv_host env) (run_dirs args)) (\<lambda>_. try_flock env (aa_lock_path args))"

definition boots :: "('w, 'm) run_env \<Rightarrow> ApplyArgs \<Rightarrow> 'w node \<Rightarrow> bool" where
  "boots env args h \<longleftrightarrow>
     (case lock_result env args h of
        (Inl e, h1) \<Rightarrow> False
      | (Inr Held, h1) \<Rightarrow> True
      | (Inr Acquired, h1) \<Rightarrow> rv_log_init env (node_world h1) = None)"

text \<open>The steps of the run that follow, one by one: the tags are written, the bundle is loaded, the facts are collected and the journal is opened.\<close>

definition tagged :: "('w, 'm) run_env \<Rightarrow> ApplyArgs \<Rightarrow> 'w node \<Rightarrow> 'w node" where
  "tagged env args h =
     snd (tags_write_atomic (rv_host env) (tags_metric_path (aa_metric_file args)) (sort (remdups (aa_tags args))) h)"

definition run_deadline :: "('w, 'm) run_env \<Rightarrow> ApplyArgs \<Rightarrow> 'w node \<Rightarrow> nat" where
  "run_deadline env args h = rv_now env (node_world (tagged env args h)) + from_secs (unat (aa_deadline_sec args))"

definition run_bundle :: "('w, 'm) run_env \<Rightarrow> ApplyArgs \<Rightarrow> 'w node \<Rightarrow> Bundle option" where
  "run_bundle env args h =
     (case load_dir (rv_bundle_deps env) (fh_tree (tagged env args h)) (rv_cwd env) (aa_bundle args) of
        Inl e \<Rightarrow> None
      | Inr b \<Rightarrow> (case check_compatibility (rv_bundle_deps env) b (rv_version env) of Inl e \<Rightarrow> None | Inr _ \<Rightarrow> Some b))"

definition run_journal :: "('w, 'm) run_env \<Rightarrow> ApplyArgs \<Rightarrow> 'w node \<Rightarrow> (DeferError + Journal) \<times> root_state" where
  "run_journal env args h = journal_open (rv_root_env env) (aa_defers_dir args) (ou_root (fh_outside (tagged env args h)))"

definition opened :: "('w, 'm) run_env \<Rightarrow> ApplyArgs \<Rightarrow> 'w node \<Rightarrow> 'w node" where
  "opened env args h = on_outside (\<lambda>x. x\<lparr>ou_root := snd (run_journal env args h)\<rparr>) (collect_facts env (tagged env args h))"

text \<open>Then the clients are connected, the journal is replayed and the bundle that was loaded is evaluated.\<close>

definition run_clients :: "('w, 'm) run_env \<Rightarrow> ApplyArgs \<Rightarrow> 'w node \<Rightarrow> 'w clients" where
  "run_clients env args h = fst (connect_clients env args (opened env args h))"

definition run_replay :: "('w, 'm) run_env \<Rightarrow> ApplyArgs \<Rightarrow> Journal \<Rightarrow> 'w node \<Rightarrow> ReplayReport option \<times> 'w node" where
  "run_replay env args J h =
     maybe_run_replay_phase env (aa_dry_run args) J (real_dispatch (rv_proc env) (cl_dispatcher (run_clients env args h)))
       (snd (connect_clients env args (opened env args h)))"

definition run_evaluation ::
  "('w, 'm) run_env \<Rightarrow> ApplyArgs \<Rightarrow> Bundle \<Rightarrow> Journal \<Rightarrow> 'w node \<Rightarrow> ((StarlarkGlueError + Registry) \<times> (string \<Rightarrow> string option)) option" where
  "run_evaluation env args b J h =
     (let n = snd (run_replay env args J h)
      in evaluator_evaluate (rv_interp env (node_world n) (run_deadline env args h)) (evaluator_env env args b n) False False Map.empty)"

definition evaluated :: "('w, 'm) run_env \<Rightarrow> ApplyArgs \<Rightarrow> Journal \<Rightarrow> (string \<Rightarrow> string option) \<Rightarrow> 'w node \<Rightarrow> 'w node" where
  "evaluated env args J secrets h =
     (let n = snd (run_replay env args J h) in set_world (rv_evaluated env (node_world n)) (n\<lparr>fh_sensitive := secrets\<rparr>))"

definition failed_run :: "('w, 'm) run_env \<Rightarrow> ApplyArgs \<Rightarrow> run_clock \<Rightarrow> nat \<Rightarrow> ('w node \<Rightarrow> FactStateEntry list) \<Rightarrow> 'w node \<Rightarrow> nat \<times> 'w node" where
  "failed_run env args clock code fs h = (code, write_failure_metric env args clock code (fs h) h)"

lemmas stage_defs = tagged_def run_deadline_def run_bundle_def run_journal_def opened_def run_clients_def run_replay_def
    run_evaluation_def evaluated_def failed_run_def

lemma evaluate_phase_eq:
  "evaluate_phase env args clock deadline b h =
     Option.bind (evaluator_evaluate (rv_interp env (node_world h) deadline) (evaluator_env env args b h) False False Map.empty)
       (\<lambda>(r, secrets). let h1 = set_world (rv_evaluated env (node_world h)) (h\<lparr>fh_sensitive := secrets\<rparr>)
          in Some (case r of
               Inl e \<Rightarrow> (Inl EVAL_ERROR, snd (failed_run env args clock EVAL_ERROR node_fact_states h1))
             | Inr registry \<Rightarrow> (Inr registry, h1)))"
  by (cases "evaluator_evaluate (rv_interp env (node_world h) deadline) (evaluator_env env args b h) False False Map.empty")
    (auto simp: evaluate_phase_def fail_run_def failed_run_def Let_def split: sum.splits)

lemma prepare_eq:
  "bindE (load_bundle env args clock) (\<lambda>b h1. bindE (open_journal env args clock) (\<lambda>J. ret (b, J)) (collect_facts env h1))
     (tagged env args h) =
   (case run_bundle env args h of
      None \<Rightarrow> (Inl EVAL_ERROR, snd (failed_run env args clock EVAL_ERROR (\<lambda>_. []) (tagged env args h)))
    | Some b \<Rightarrow>
        (case fst (run_journal env args h) of
           Inl e \<Rightarrow> (Inl CLI_ENV_ERROR, snd (failed_run env args clock CLI_ENV_ERROR node_fact_states (opened env args h)))
         | Inr J \<Rightarrow> (Inr (b, J), opened env args h)))"
proof -
  have root: "ou_root (fh_outside (collect_facts env n)) = ou_root (fh_outside n)" for n
    by (simp add: collect_facts_def on_outside_def)
  show ?thesis
    by (simp add: bindE_def load_bundle_def open_journal_def run_bundle_def run_journal_def opened_def failed_run_def fail_run_def root
        ret_def Let_def split: sum.splits prod.splits option.splits)
qed

text \<open>A run with the lock is these steps, and then the planning or the apply.\<close>

lemma run_locked_eq:
  "run_locked env args clock h =
     (case run_bundle env args h of
        None \<Rightarrow> Some (failed_run env args clock EVAL_ERROR (\<lambda>_. []) (tagged env args h))
      | Some b \<Rightarrow>
          (case fst (run_journal env args h) of
             Inl e \<Rightarrow> Some (failed_run env args clock CLI_ENV_ERROR node_fact_states (opened env args h))
           | Inr J \<Rightarrow>
               Option.bind (run_evaluation env args b J h) (\<lambda>(r, secrets). Some (case r of
                   Inl e \<Rightarrow> failed_run env args clock EVAL_ERROR node_fact_states (evaluated env args J secrets h)
                 | Inr registry \<Rightarrow> finish_run env args clock (run_deadline env args h) J (run_clients env args h)
                     (count_replay (fst (run_replay env args J h)) \<lparr>rt_runs = 0, rt_stats = replay_stats_default\<rparr>) registry
                     (evaluated env args J secrets h)))))"
proof -
  have code: "(c, snd (failed_run env args clock c fs n)) = failed_run env args clock c fs n" for c fs n
    by (simp add: failed_run_def)
  show ?thesis
  proof (cases "run_bundle env args h")
    case None
    then show ?thesis unfolding run_locked_def Let_def tagged_def [symmetric] prepare_eq by (simp add: code)
  next
    case (Some b)
    note b = this
    show ?thesis
    proof (cases "fst (run_journal env args h)")
      case (Inl e)
      then show ?thesis using b unfolding run_locked_def Let_def tagged_def [symmetric] prepare_eq by (simp add: code)
    next
      case (Inr J)
      obtain clients n where c: "connect_clients env args (opened env args h) = (clients, n)" by fastforce
      obtain report n' where r: "maybe_run_replay_phase env (aa_dry_run args) J (real_dispatch (rv_proc env) (cl_dispatcher clients)) n = (report, n')"
        by fastforce
      have stage: "run_clients env args h = clients" "run_replay env args J h = (report, n')"
        using c r by (simp_all add: run_clients_def run_replay_def)
      show ?thesis
      proof (cases "run_evaluation env args b J h")
        case None
        then show ?thesis
          using b Inr c r stage unfolding run_locked_def Let_def tagged_def [symmetric] prepare_eq
          by (simp add: run_evaluation_def evaluate_phase_eq run_deadline_def)
      next
        case (Some x)
        then show ?thesis
          using b Inr c r stage unfolding run_locked_def Let_def tagged_def [symmetric] prepare_eq
          by (cases "fst x") (auto simp: run_evaluation_def evaluate_phase_eq run_deadline_def evaluated_def code Let_def split: prod.splits)
      qed
    qed
  qed
qed

section \<open>Exit codes\<close>

text \<open>What a run leaves behind that got to its plan or its apply, on the node after the evaluation.\<close>

definition finishes_with ::
  "('w, 'm) run_env \<Rightarrow> ApplyArgs \<Rightarrow> nat \<Rightarrow> Journal \<Rightarrow> 'w RealDispatchClient \<Rightarrow> Registry \<Rightarrow> 'w node \<Rightarrow> nat \<Rightarrow> bool" where
  "finishes_with env args deadline J dc registry h code \<longleftrightarrow>
     (let primitives = run_primitives env args deadline J dc; w = \<lparr>w_ctx = apply_ctx_build, w_host = h\<rparr>
      in if aa_dry_run args
         then \<exists>rep w'. plan_only (rv_order env) primitives registry w = (Inr rep, w') \<and> code = exit_of_plan rep \<and>
                mset (map rp_id (pr_resources rep)) + mset (map pf_id (pr_errors rep)) = mset (map res_id (reg_resources registry))
         else \<exists>rep w'. orchestrator_apply (rv_order env) primitives (mark_facts_dirty env) (pacer_pause env) (run_opts args) registry w =
                  (Inr rep, w') \<and> code = exit_of_apply rep \<and>
                mset (map ro_id (ar_resources rep)) = mset (map res_id (reg_resources registry)) \<and>
                (code = SUCCESS \<longleftrightarrow> (\<forall>r \<in> set (ar_resources rep). settled (ro_outcome r))))"

definition reported :: "('w, 'm) run_env \<Rightarrow> ApplyArgs \<Rightarrow> nat \<Rightarrow> 'w node \<Rightarrow> bool" where
  "reported env args code h' \<longleftrightarrow> (\<exists>snapshot h. ms_exit_code snapshot = code \<and> h' = write_metric env args snapshot h)"

lemma reportedI: "ms_exit_code snapshot = code \<Longrightarrow> reported env args code (write_metric env args snapshot h)"
  by (auto simp: reported_def)

lemma failed_run_reported: "failed_run env args clock c fs h = (code, h') \<Longrightarrow> code = c \<and> reported env args code h'"
  by (auto simp: failed_run_def write_failure_metric_def failure_snapshot_def intro!: reportedI)

lemma fail_run_reported: "fail_run env args clock code fs h = (r, h') \<Longrightarrow> r = Inl code \<and> reported env args code h'"
  by (auto simp: fail_run_def write_failure_metric_def failure_snapshot_def intro!: reportedI)

lemma finish_run_reported:
  assumes "finish_run env args clock deadline J clients totals registry h = (code, h')"
  shows "reported env args code h'"
proof -
  obtain r h1 where ap: "apply_phase env args clock deadline J (cl_dispatcher clients) registry h = (r, h1)" by fastforce
  show ?thesis
  proof (cases r)
    case (Inl c)
    then have c: "c = EVAL_ERROR" "reported env args c h1"
      using ap by (auto simp: apply_phase_def Let_def dest!: fail_run_reported split: if_splits prod.splits sum.splits)
    show ?thesis using assms ap Inl c(2) by (simp add: finish_run_def)
  next
    case (Inr result)
    then show ?thesis
      using assms ap by (auto simp: finish_run_def final_snapshot_def Let_def intro!: reportedI split: prod.splits)
  qed
qed

lemma finish_run_result:
  assumes "apply_phase env args clock deadline J (cl_dispatcher clients) registry h = (Inr result, h1)"
    and "finish_run env args clock deadline J clients totals registry h = (code, h')"
  shows "code = rr_code result"
  using assms by (simp add: finish_run_def Let_def split: prod.splits)

lemma ordered_plan: "topological_order ord registry = Inr order \<Longrightarrow> \<exists>rep w'. plan_only ord primitives registry w = (Inr rep, w')"
  by (simp add: plan_only_def split: prod.splits)

lemma ordered_apply:
  "topological_order ord registry = Inr order \<Longrightarrow>
     \<exists>rep w'. orchestrator_apply ord primitives mark_dirty pause opts registry w = (Inr rep, w')"
  by (simp add: orchestrator_apply_def Let_def split: prod.splits)

lemma finish_run_code:
  assumes "finish_run env args clock deadline J clients totals registry h = (code, h')"
    and order: "topological_order (rv_order env) registry = Inr order" "mset order = mset (map res_id (reg_resources registry))"
  shows "finishes_with env args deadline J (cl_dispatcher clients) registry h code"
proof -
  let ?prims = "run_primitives env args deadline J (cl_dispatcher clients)" and ?w = "\<lparr>w_ctx = apply_ctx_build, w_host = h\<rparr>"
  show ?thesis
  proof (cases "aa_dry_run args")
    case True
    obtain rep w' where pl: "plan_only (rv_order env) ?prims registry ?w = (Inr rep, w')"
      using ordered_plan [OF order(1)] by blast
    have "apply_phase env args clock deadline J (cl_dispatcher clients) registry h =
        (Inr (plan_result rep), print_out (print_plan env rep (aa_format args)) (w_host w'))"
      using pl True by (simp add: apply_phase_def in_apply_world_def)
    from finish_run_result [OF this assms(1)] have "code = exit_of_plan rep" using plan_exit(2) [OF pl] by simp
    then show ?thesis using True pl plan_exit(1) [OF pl] order by (simp add: finishes_with_def)
  next
    case False
    obtain rep w' where ap: "orchestrator_apply (rv_order env) ?prims (mark_facts_dirty env) (pacer_pause env) (run_opts args) registry ?w = (Inr rep, w')"
      using ordered_apply [OF order(1)] by blast
    have "apply_phase env args clock deadline J (cl_dispatcher clients) registry h =
        (Inr (apply_result rep), print_out (print_apply env rep (aa_format args)) (w_host w'))"
      using ap False by (simp add: apply_phase_def in_apply_world_def)
    from finish_run_result [OF this assms(1)] have "code = exit_of_apply rep" using apply_exit(2) [OF ap] by simp
    then show ?thesis using False ap apply_exit(1,3) [OF ap] order by (simp add: finishes_with_def)
  qed
qed

text \<open>
  C16. The exit code of \<open>bosun apply\<close> says what happened in this run.  It is the code for the environment when the directories, the
  lock, the log or the journal fail, 0 when another run holds the lock, and the code for an evaluation that failed when the bundle cannot
  be loaded, does not fit or its manifest has an error.  Otherwise it is decided by the registry that the bundle of
  this run evaluates to, planned or applied on the node of this run: a dry run returns 2 exactly when some
  resource would change, and a run returns 130 when a resource was interrupted, else 1 when one failed, else 0; it
  returns 0 exactly when every resource of the manifest is in its state, was brought there or is waiting in the journal.
\<close>

theorem run_exit_exact:
  assumes "apply_run env args h = Some (code, h')" "map_order (rv_order env)"
    and "\<forall>w deadline. honest_interp mh (rv_interp env w deadline)"
  shows "case lock_result env args h of
      (Inl e, n) \<Rightarrow> code = CLI_ENV_ERROR
    | (Inr Held, n) \<Rightarrow> code = SUCCESS
    | (Inr Acquired, n) \<Rightarrow>
        if rv_log_init env (node_world n) \<noteq> None then code = CLI_ENV_ERROR
        else (case run_bundle env args n of
            None \<Rightarrow> code = EVAL_ERROR
          | Some b \<Rightarrow>
              (case fst (run_journal env args n) of
                 Inl e \<Rightarrow> code = CLI_ENV_ERROR
               | Inr J \<Rightarrow>
                   (case run_evaluation env args b J n of
                      None \<Rightarrow> False
                    | Some (Inl e, secrets) \<Rightarrow> code = EVAL_ERROR
                    | Some (Inr registry, secrets) \<Rightarrow>
                        finishes_with env args (run_deadline env args n) J (cl_dispatcher (run_clients env args n)) registry
                          (evaluated env args J secrets n) code)))"
proof -
  obtain r n where l: "lock_result env args h = (r, n)" by fastforce
  note run = assms(1) [unfolded apply_run_def Let_def, folded lock_result_def]
  consider e where "r = Inl e" | "r = Inr Held" | e where "r = Inr Acquired" "rv_log_init env (node_world n) = Some e"
    | "r = Inr Acquired" "rv_log_init env (node_world n) = None" by (metis LockOutcome.exhaust option.exhaust sum.exhaust)
  then show ?thesis
  proof cases
    case 4
    then obtain clock n2 where locked: "run_locked env args clock n = Some (code, n2)"
      using run l by (auto split: option.splits)
    show ?thesis
    proof (cases "run_bundle env args n")
      case None
      then show ?thesis using locked l 4 by (auto simp: run_locked_eq dest!: failed_run_reported)
    next
      case (Some b)
      note b = this
      show ?thesis
      proof (cases "fst (run_journal env args n)")
        case (Inl e)
        then show ?thesis using locked l 4 b by (auto simp: run_locked_eq dest!: failed_run_reported)
      next
        case (Inr J)
        then obtain x secrets where ev: "run_evaluation env args b J n = Some (x, secrets)"
          using locked b by (auto simp: run_locked_eq bind_eq_Some_conv)
        show ?thesis
        proof (cases x)
          case (Inl e)
          then show ?thesis using locked l 4 b Inr ev by (auto simp: run_locked_eq dest!: failed_run_reported)
        next
          case reg: (Inr registry)
          have "links_back registry"
            using ev reg assms(3) evaluated_links_back unfolding run_evaluation_def Let_def by blast
          from links_back_order [OF this assms(2)] obtain order where
            order: "topological_order (rv_order env) registry = Inr order" "mset order = mset (map res_id (reg_resources registry))" by blast
          have "finish_run env args clock (run_deadline env args n) J (run_clients env args n)
              (count_replay (fst (run_replay env args J n)) \<lparr>rt_runs = 0, rt_stats = replay_stats_default\<rparr>) registry
              (evaluated env args J secrets n) = (code, n2)"
            using locked b Inr ev reg by (simp add: run_locked_eq)
          from finish_run_code [OF this order] show ?thesis using l 4 b Inr ev reg by simp
        qed
      qed
    qed
  qed (use run l in auto)
qed

section \<open>The metrics of a run\<close>

lemma run_locked_reported:
  assumes "run_locked env args clock h = Some (code, h')"
  shows "reported env args code h'"
  using assms
  by (auto simp: run_locked_eq bind_eq_Some_conv dest!: failed_run_reported finish_run_reported split: option.splits sum.splits prod.splits)
    (metis finish_run_reported sum.exhaust)

lemma apply_run_reported:
  assumes "apply_run env args h = Some (code, h')"
  shows "if boots env args h then \<exists>n. reported env args code n \<and> fh_tree h' = fh_tree n else code = CLI_ENV_ERROR"
proof -
  obtain r n where l: "lock_result env args h = (r, n)" by fastforce
  note run = assms [unfolded apply_run_def Let_def, folded lock_result_def]
  consider e where "r = Inl e" | "r = Inr Held" | e where "r = Inr Acquired" "rv_log_init env (node_world n) = Some e"
    | "r = Inr Acquired" "rv_log_init env (node_world n) = None" by (metis LockOutcome.exhaust option.exhaust sum.exhaust)
  then show ?thesis
  proof cases
    case 2
    then show ?thesis using run l by (auto simp: boots_def held_snapshot_def intro!: exI [of _ h'] reportedI)
  next
    case 4
    then obtain clock n2 where locked: "run_locked env args clock n = Some (code, n2)" and "fh_tree h' = fh_tree n2"
      using run l by (auto simp: set_world_def on_outside_def)
    then show ?thesis using run_locked_reported [OF locked] l 4 by (auto simp: boots_def)
  qed (use run l in \<open>auto simp: boots_def\<close>)
qed

lemma metric_exit_line:
  "metric_format show_secs s =
     (prom_header ''bosun_last_attempt_timestamp_seconds'' ''gauge''
       ''UTC timestamp of last bosun invocation; alert on staleness here, not on bosun_last_run_timestamp_seconds'' @
      prom_labelled ''bosun_last_attempt_timestamp_seconds'' ''version'' (escape_label (ms_version s)) (show_int (ms_attempted_at_utc s)) @
      newline @
      prom_header ''bosun_last_run_timestamp_seconds'' ''gauge'' ''UTC timestamp of last completed run'' @
      prom_labelled ''bosun_last_run_timestamp_seconds'' ''version'' (escape_label (ms_version s)) (show_int (ms_started_at_utc s)) @
      newline @
      prom_header ''bosun_last_run_exit_code'' ''gauge'' ''Exit code of last run'') @
     prom_plain ''bosun_last_run_exit_code'' (show_nat (ms_exit_code s)) @
     (newline @
      prom_header ''bosun_last_run_duration_seconds'' ''gauge'' ''Duration of last run'' @
      prom_plain ''bosun_last_run_duration_seconds'' (show_secs (ms_duration s)) @
      newline @ format_resources s @ format_defers s @ format_reachable s)"
  by (simp only: metric_format_def format_run_def append_assoc)

text \<open>
  C17. Every run that gets past its first steps leaves the metrics with the exit code that it returns, on each of its early returns too:
  unless something stands in the way of writing a file, the file of the metrics is in the end the text of a snapshot with this
  code, and its line says the code.  A run that does not get past its first steps returns the code for the environment.
\<close>

theorem run_reports_exit:
  assumes "apply_run env args h = Some (code, h')"
    and "os_path (aa_metric_file args) = abs_path (ps @ [m])" "unhindered (rv_host env) ps m (fh_tree h')"
  shows "if boots env args h
    then \<exists>snapshot before after. ms_exit_code snapshot = code \<and>
           fh_tree h' (ps @ [m]) = Some (TFile (metric_format (rv_secs env) snapshot)) \<and>
           metric_format (rv_secs env) snapshot = before @ prom_plain ''bosun_last_run_exit_code'' (show_nat code) @ after
    else code = CLI_ENV_ERROR"
proof (cases "boots env args h")
  case True
  then obtain snapshot h0 n where s: "ms_exit_code snapshot = code" and n: "n = write_metric env args snapshot h0" "fh_tree h' = fh_tree n"
    using apply_run_reported [OF assms(1)] by (auto simp: reported_def)
  obtain x h1 where f: "replace_file (rv_host env) (abs_path ps) (aa_metric_file args) (metric_format (rv_secs env) snapshot) h0 = (x, h1)"
    by fastforce
  have "n = h1"
    using n(1) f os_path_components(2) [OF assms(2)]
    by (cases x) (simp_all add: write_metric_def metric_write_atomic_def bindE_def sync_silent)
  then have "fh_tree h' (ps @ [m]) = Some (TFile (metric_format (rv_secs env) snapshot))"
    using replace_file_works [OF _ assms(2) f] assms(3) n(2) by simp
  moreover obtain before after where
    "metric_format (rv_secs env) snapshot = before @ prom_plain ''bosun_last_run_exit_code'' (show_nat code) @ after"
    using metric_exit_line [of "rv_secs env" snapshot] s by blast
  ultimately show ?thesis using s unfolding if_P [OF True] by blast
next
  case False
  then show ?thesis using apply_run_reported [OF assms(1)] by simp
qed

section \<open>A dry run only reads\<close>

text \<open>Every file but the given ones keeps its contents, mode and owner, and the journal has the same contents.\<close>

definition calm :: "string list set \<Rightarrow> 'w node \<Rightarrow> 'w node \<Rightarrow> bool" where
  "calm names h h' \<longleftrightarrow>
     (\<forall>y node. y \<notin> names \<and> fh_tree h y = Some node \<longrightarrow> fh_tree h' y = Some node \<and> fh_attr h' y = fh_attr h y) \<and>
     content (ou_journal (fh_outside h')) = content (ou_journal (fh_outside h))"

lemma calm_refl [simp]: "calm names h h"
  by (simp add: calm_def)

lemma calm_trans: "calm names h h1 \<Longrightarrow> calm names h1 h' \<Longrightarrow> calm names h h'"
  by (simp add: calm_def)

lemma calm_outside:
  "content (ou_journal (f (fh_outside h))) = content (ou_journal (fh_outside h)) \<Longrightarrow> calm names h (on_outside f h)"
  by (simp add: calm_def on_outside_def)

lemma calm_steps [simp]:
  "calm names h (set_world w h)" "calm names h (print_out text h)" "calm names h (collect_facts env h)"
  "calm names h (h\<lparr>fh_sensitive := s\<rparr>)" "calm names h (on_outside (\<lambda>x. x\<lparr>ou_root := root\<rparr>) h)"
  by (simp_all add: set_world_def print_out_def collect_facts_def calm_outside) (simp add: calm_def)

lemma calm_only_adds: "only_adds (fh_tree h) t \<Longrightarrow> calm names h (h\<lparr>fh_tree := t\<rparr>)"
  by (simp add: calm_def only_adds_def)

text \<open>The place of the metrics: an existing directory without links, in which only the two files of the metrics are replaced.\<close>

definition metric_site :: "('w, 'm) run_env \<Rightarrow> ApplyArgs \<Rightarrow> string list \<Rightarrow> string \<Rightarrow> bool" where
  "metric_site env args ps m \<longleftrightarrow>
     os_path (aa_metric_file args) = abs_path (ps @ [m]) \<and>
     os_path (tags_metric_path (aa_metric_file args)) = abs_path (ps @ [''bosun_tags.prom'']) \<and>
     (\<forall>t. he_temp_name (rv_host env) t (abs_path ps) \<notin> {m, ''bosun_tags.prom''})"

abbreviation (input) metric_files :: "string list \<Rightarrow> string \<Rightarrow> string list set" where
  "metric_files ps m \<equiv> {ps @ [m], ps @ [''bosun_tags.prom'']}"

lemma calm_dirs:
  assumes "calm (metric_files ps m) h h'" "dirs (fh_tree h) ps"
  shows "dirs (fh_tree h') ps"
proof -
  have "take k ps \<notin> metric_files ps m" for k by (auto dest: arg_cong [where f = length])
  then show ?thesis using assms unfolding calm_def dirs_def by blast
qed

lemma calm_write:
  assumes "metric_site env args ps m" "dirs (fh_tree h) ps"
  shows "calm (metric_files ps m) h (write_metric env args snapshot h)"
proof -
  obtain r h' where w: "metric_write_atomic (rv_host env) (rv_secs env) (aa_metric_file args) snapshot h = (r, h')" by fastforce
  obtain x h1 where f: "replace_file (rv_host env) (abs_path ps) (aa_metric_file args) (metric_format (rv_secs env) snapshot) h = (x, h1)"
    by fastforce
  have site: "os_path (aa_metric_file args) = abs_path (ps @ [m])" "\<And>t. he_temp_name (rv_host env) t (abs_path ps) \<noteq> m"
    using assms(1) by (auto simp: metric_site_def)
  have "h' = h1"
    using w f os_path_components(2) [OF site(1)] by (cases x) (auto simp: metric_write_atomic_def bindE_def sync_silent)
  moreover have "calm (metric_files ps m) h h1"
    using replace_file_run [OF dirs_plain [OF assms(2)] site(2,1) f] by (cases x) (auto simp: file_replaced_def file_kept_def calm_def)
  ultimately show ?thesis using w by (simp add: write_metric_def)
qed

lemma calm_tags:
  assumes "metric_site env args ps m" "dirs (fh_tree h) ps"
  shows "calm (metric_files ps m) h (snd (tags_write_atomic (rv_host env) (tags_metric_path (aa_metric_file args)) tags h))"
proof -
  let ?p = "tags_metric_path (aa_metric_file args)"
  obtain x h1 where f: "replace_file (rv_host env) (abs_path ps) ?p (tags_format tags) h = (x, h1)" by fastforce
  have site: "os_path ?p = abs_path (ps @ [''bosun_tags.prom''])" "\<And>t. he_temp_name (rv_host env) t (abs_path ps) \<noteq> ''bosun_tags.prom''"
    using assms(1) by (auto simp: metric_site_def)
  have "calm (metric_files ps m) h h1"
    using replace_file_run [OF dirs_plain [OF assms(2)] site(2,1) f] by (cases x) (auto simp: file_replaced_def file_kept_def calm_def)
  then show ?thesis using f os_path_components(2) [OF site(1)] by (simp add: tags_write_atomic_def)
qed

text \<open>The steps of a run that change nothing else.\<close>

lemma calm_ensure_dirs: "ensure_dirs env ps h = (r, h') \<Longrightarrow> calm names h h'"
proof (induction ps arbitrary: h)
  case (Cons p ps)
  obtain x t where mk: "fs_create_dir_all (he_fs env) p (fh_tree h) = (x, t)" by fastforce
  have "calm names h (h\<lparr>fh_tree := t\<rparr>)" using fs_create_dir_all_only_adds [OF mk] by (rule calm_only_adds)
  then show ?case
    using Cons mk by (cases x) (auto simp: bindE_run map_err_def on_tree_def intro: calm_trans)
qed (simp add: ret_def)

lemma calm_lock: "try_flock env path h = (r, h') \<Longrightarrow> calm names h h'"
proof -
  assume run: "try_flock env path h = (r, h')"
  obtain x h1 where op: "open_or_create (rv_host env) (rv_lock_mode env) (os_path path) h = (x, h1)" by fastforce
  have "calm names h h1"
    using op by (auto simp: open_or_create_def fs_call_def set_file_def calm_def split: option.splits sum.splits tree_node.splits)
  then show ?thesis
    using run op by (cases x) (auto simp: try_flock_def bindE_def map_err_def intro: calm_trans split: prod.splits sum.splits bool.splits)
qed

lemma calm_failed:
  assumes "metric_site env args ps m" "dirs (fh_tree h) ps" "failed_run env args clock c fs h = (code, h')"
  shows "calm (metric_files ps m) h h'"
  using calm_write [OF assms(1,2)] assms(3) by (auto simp: failed_run_def write_failure_metric_def)

text \<open>The stages of a dry run.\<close>

lemma calm_connect: "connect_clients env args h = (clients, h') \<Longrightarrow> calm names h h'"
  by (auto simp: connect_clients_def Let_def split: if_splits prod.splits sum.splits)

lemma calm_opened:
  assumes "metric_site env args ps m" "dirs (fh_tree h) ps"
  shows "calm (metric_files ps m) h (opened env args h)"
  unfolding opened_def tagged_def
  by (rule calm_trans [OF calm_trans [OF calm_tags [OF assms] calm_steps(3)] calm_steps(5)])

lemma calm_replayed:
  assumes "metric_site env args ps m" "dirs (fh_tree h) ps" "aa_dry_run args"
  shows "calm (metric_files ps m) h (snd (run_replay env args J h))"
proof -
  obtain clients n where c: "connect_clients env args (opened env args h) = (clients, n)" by fastforce
  have "snd (run_replay env args J h) = n" using assms(3) c by (simp add: run_replay_def maybe_run_replay_phase_def)
  then show ?thesis using calm_trans [OF calm_opened [OF assms(1,2)] calm_connect [OF c]] by simp
qed

lemma calm_evaluated:
  assumes "metric_site env args ps m" "dirs (fh_tree h) ps" "aa_dry_run args"
  shows "calm (metric_files ps m) h (evaluated env args J secrets h)"
  unfolding evaluated_def Let_def
  by (rule calm_trans [OF calm_trans [OF calm_replayed [OF assms] calm_steps(4)] calm_steps(1)])

text \<open>Planning with the primitives of the modelled kinds leaves the whole node as it is.\<close>

lemma call_on_reads:
  assumes "\<And>v. w_host (snd (m v)) = w_host v" "\<And>h. put (part h) h = h"
  shows "w_host (snd (call_on part put m w)) = w_host w"
  using assms(1) [of "\<lparr>w_ctx = w_ctx w, w_host = part (w_host w)\<rparr>"] assms(2) by (auto simp: call_on_def split: prod.splits)

lemma tree_call_reads: "(\<And>v. w_host (snd (m v)) = w_host v) \<Longrightarrow> w_host (snd (call_on fh_tree set_tree m w)) = w_host w"
  by (rule call_on_reads) simp_all

lemma service_call_reads:
  "(\<And>v. w_host (snd (m v)) = w_host v) \<Longrightarrow> w_host (snd (call_on service_part set_service_part m w)) = w_host w"
  by (rule call_on_reads) (simp_all add: set_service_part_def service_part_def on_outside_def)

lemma on_host_reads: "(\<And>h r h'. f h = (r, h') \<Longrightarrow> h' = h) \<Longrightarrow> w_host (snd (on_host f w)) = w_host w"
  by (auto simp: on_host_def split: prod.splits)

lemma service_plan_reads: "w_host (snd (returning (service_plan prim backend en se r) w)) = w_host w"
  by (auto simp: returning_def service_plan_def ret_def throw_def split: option.splits)

lemma node_primitive_kinds:
  "node_primitive env args deadline J dc ''file.content'' = FilePrimitive (run_content_env env args)"
  "node_primitive env args deadline J dc ''file.symlink'' =
     primitive_on fh_tree set_tree (FileSymlinkPrimitive (he_fs (rv_host env)) (rv_serde_error env))"
  "node_primitive env args deadline J dc ''file.delete'' =
     primitive_on fh_tree set_tree (FileDeletePrimitive (he_fs (rv_host env)) (he_lister (rv_host env)) (rv_serde_error env))"
  "node_primitive env args deadline J dc ''runr.service'' =
     primitive_on service_part set_service_part (RunrServicePrimitive (run_service_env env J dc))"
  "node_primitive env args deadline J dc ''systemd.service'' =
     primitive_on service_part set_service_part (SystemdServicePrimitive (run_service_env env J dc))"
  by (simp_all add: node_primitive_def)

lemma primitive_on_plan: "prim_plan (primitive_on part put p) r = call_on part put (prim_plan p r)"
  by (simp add: primitive_on_def)

lemma host_primitive_plan: "prim_plan (host_primitive_of plan_of apply_of) r = on_host (plan_of r)"
  by (simp add: host_primitive_of_def)

lemma node_plan_reads:
  assumes "kind \<in> set MODELLED_KINDS"
  shows "w_host (snd (prim_plan (node_primitive env args deadline J dc kind) r w)) = w_host w"
proof -
  have "w_host (snd (prim_plan (node_primitive env args deadline J dc ''file.content'') r w)) = w_host w"
    unfolding node_primitive_kinds FilePrimitive_def host_primitive_plan by (rule on_host_reads, rule content_plan_reads)
  moreover have "w_host (snd (prim_plan (node_primitive env args deadline J dc ''file.symlink'') r w)) = w_host w"
    unfolding node_primitive_kinds FileSymlinkPrimitive_def host_primitive_plan primitive_on_plan
    by (rule tree_call_reads, rule on_host_reads, rule symlink_plan_reads)
  moreover have "w_host (snd (prim_plan (node_primitive env args deadline J dc ''file.delete'') r w)) = w_host w"
    unfolding node_primitive_kinds FileDeletePrimitive_def host_primitive_plan primitive_on_plan
    by (rule tree_call_reads, rule on_host_reads, rule delete_plan_reads)
  moreover have "w_host (snd (prim_plan (node_primitive env args deadline J dc ''runr.service'') r w)) = w_host w"
    unfolding node_primitive_kinds RunrServicePrimitive_def primitive_on_plan primitive.simps
    by (rule service_call_reads, rule service_plan_reads)
  moreover have "w_host (snd (prim_plan (node_primitive env args deadline J dc ''systemd.service'') r w)) = w_host w"
    unfolding node_primitive_kinds SystemdServicePrimitive_def primitive_on_plan primitive.simps
    by (rule service_call_reads, rule service_plan_reads)
  ultimately show ?thesis using assms unfolding MODELLED_KINDS_def by (elim set_ConsD [THEN disjE]) (simp_all only: empty_iff list.set)
qed

definition modelled_only :: "Registry \<Rightarrow> bool" where
  "modelled_only registry \<longleftrightarrow> (\<forall>r \<in> set (reg_resources registry). res_kind r \<in> set MODELLED_KINDS)"

lemma plan_loop_reads:
  assumes "modelled_only registry"
  shows "plan_loop (run_primitives env args deadline J dc) registry order rep w = (rep', w') \<Longrightarrow> w_host w' = w_host w"
proof (induction order arbitrary: rep w)
  case (Cons i ids)
  let ?prims = "run_primitives env args deadline J dc"
  obtain rep1 w1 where step: "plan_step ?prims registry i rep w = (rep1, w1)" by fastforce
  have call: "call_primitive c m v = (x, v') \<Longrightarrow> v' = snd (m v)" for c v x v' and m :: "('a node world, Diff) prim_call"
    by (auto simp: call_primitive_def split: prod.splits unwind.splits)
  have "w1 = w \<or> (\<exists>r \<in> set (reg_resources registry).
      w1 = snd (prim_plan (node_primitive env args deadline J dc (res_kind r)) r w))"
    using step by (auto simp: plan_step_def registry_get_def run_primitives_def build_primitives_def Let_def dest!: call
        split: option.splits if_splits prod.splits sum.splits)
  then have "w_host w1 = w_host w" using assms node_plan_reads unfolding modelled_only_def by metis
  then show ?case using Cons step by simp
qed simp

lemma calm_apply_phase:
  assumes "metric_site env args ps m" "dirs (fh_tree h) ps" "modelled_only registry" "aa_dry_run args"
    and "apply_phase env args clock deadline J dc registry h = (r, h')"
  shows "calm (metric_files ps m) h h'"
proof -
  let ?prims = "run_primitives env args deadline J dc" and ?w = "\<lparr>w_ctx = apply_ctx_build, w_host = h\<rparr>"
  obtain x w1 where pl: "plan_only (rv_order env) ?prims registry ?w = (x, w1)" by fastforce
  have "w1 = ?w \<or> (\<exists>order rep. plan_loop ?prims registry order plan_report_new ?w = (rep, w1))"
    using pl by (auto simp: plan_only_def split: sum.splits prod.splits)
  then have same: "w_host w1 = h" using plan_loop_reads [OF assms(3)] by fastforce
  show ?thesis
    using assms(4,5) pl same calm_write [OF assms(1,2)]
    by (cases x) (auto simp: apply_phase_def in_apply_world_def fail_run_def write_failure_metric_def Let_def)
qed

lemma count_keeps: "count_pending_defers env s = (n, s') \<Longrightarrow> content s' = content s"
proof -
  have step: "count_deferred_names env xs k s = (r, s') \<Longrightarrow> content s' = content s" for xs k s r s'
  proof (induction xs arbitrary: k s)
    case (Cons x xs)
    obtain y s1 where n: "sys_next_entry env x s = (y, s1)" by fastforce
    have "content s1 = content s" using next_entry_run [OF n] by simp
    then show ?case using Cons n by (cases y) (auto simp: attempt_def)
  qed (simp add: ret_def)
  assume run: "count_pending_defers env s = (n, s')"
  obtain d s1 where d: "sys_read_dir env s = (d, s1)" by fastforce
  have "content s1 = content s" using read_dir_run [OF d] by simp
  then show ?thesis
    using run d step by (cases d) (auto simp: count_pending_defers_def bindE_def split: prod.splits sum.splits)
qed

lemma calm_finish:
  assumes "metric_site env args ps m" "dirs (fh_tree h) ps" "modelled_only registry" "aa_dry_run args"
    and "finish_run env args clock deadline J clients totals registry h = (code, h')"
  shows "calm (metric_files ps m) h h'"
proof -
  obtain r h1 where ap: "apply_phase env args clock deadline J (cl_dispatcher clients) registry h = (r, h1)" by fastforce
  note c1 = calm_apply_phase [OF assms(1-4) ap]
  show ?thesis
  proof (cases r)
    case (Inl c)
    then show ?thesis using assms(5) ap c1 by (simp add: finish_run_def)
  next
    case (Inr result)
    obtain defers journal where cnt: "count_pending_defers (rv_os env) (ou_journal (fh_outside h1)) = (defers, journal)" by fastforce
    let ?h = "on_outside (\<lambda>x. x\<lparr>ou_journal := journal\<rparr>) h1"
    have "calm (metric_files ps m) h1 ?h" using count_keeps [OF cnt] by (intro calm_outside) simp
    then have c2: "calm (metric_files ps m) h ?h" by (rule calm_trans [OF c1])
    have "calm (metric_files ps m) ?h h'"
      using assms(4,5) ap Inr cnt calm_write [OF assms(1) calm_dirs [OF c2 assms(2)]]
      by (auto simp: finish_run_def maybe_run_replay_phase_def Let_def)
    then show ?thesis by (rule calm_trans [OF c2])
  qed
qed

text \<open>The registry to which the bundle of a run evaluates, if it gets so far.\<close>

definition registry_of_run :: "('w, 'm) run_env \<Rightarrow> ApplyArgs \<Rightarrow> 'w node \<Rightarrow> Registry option" where
  "registry_of_run env args n =
     (case (run_bundle env args n, fst (run_journal env args n)) of
        (Some b, Inr J) \<Rightarrow> (case run_evaluation env args b J n of Some (Inr registry, secrets) \<Rightarrow> Some registry | _ \<Rightarrow> None)
      | _ \<Rightarrow> None)"

lemma calm_run_locked:
  assumes "metric_site env args ps m" "dirs (fh_tree h) ps" "aa_dry_run args"
    and "\<And>registry. registry_of_run env args h = Some registry \<Longrightarrow> modelled_only registry"
    and "run_locked env args clock h = Some (code, h')"
  shows "calm (metric_files ps m) h h'"
proof -
  have failed: "calm (metric_files ps m) h h'"
    if "calm (metric_files ps m) h h1" "failed_run env args clock c fs h1 = (code, h')" for h1 c fs
    by (rule calm_trans [OF that(1) calm_failed [OF assms(1) calm_dirs [OF that(1) assms(2)] that(2)]])
  have c0: "calm (metric_files ps m) h (tagged env args h)" unfolding tagged_def by (rule calm_tags [OF assms(1,2)])
  show ?thesis
  proof (cases "run_bundle env args h")
    case None
    then show ?thesis using assms(5) failed [OF c0] by (simp add: run_locked_eq)
  next
    case (Some b)
    note b = this
    show ?thesis
    proof (cases "fst (run_journal env args h)")
      case (Inl e)
      then show ?thesis using assms(5) b failed [OF calm_opened [OF assms(1,2)]] by (simp add: run_locked_eq)
    next
      case (Inr J)
      then obtain x secrets where ev: "run_evaluation env args b J h = Some (x, secrets)"
        using assms(5) b by (auto simp: run_locked_eq bind_eq_Some_conv)
      note c1 = calm_evaluated [OF assms(1-3), of J secrets]
      show ?thesis
      proof (cases x)
        case (Inl e)
        then show ?thesis using assms(5) b Inr ev failed [OF c1] by (simp add: run_locked_eq)
      next
        case reg: (Inr registry)
        have "registry_of_run env args h = Some registry" using b Inr ev reg by (simp add: registry_of_run_def)
        then have only: "modelled_only registry" by (rule assms(4))
        have "finish_run env args clock (run_deadline env args h) J (run_clients env args h)
            (count_replay (fst (run_replay env args J h)) \<lparr>rt_runs = 0, rt_stats = replay_stats_default\<rparr>) registry
            (evaluated env args J secrets h) = (code, h')"
          using assms(5) b Inr ev reg by (simp add: run_locked_eq)
        from calm_trans [OF c1 calm_finish [OF assms(1) calm_dirs [OF c1 assms(2)] only assms(3) this]] show ?thesis .
      qed
    qed
  qed
qed


section \<open>An example\<close>

text \<open>
  A node with a bundle in \<open>/srv\<close>, on which no temporary file can be made, and a manifest with one symbolic link; and a node
  on which no call is refused, and whose bundle is missing.
\<close>

definition run_tree :: file_tree where
  "run_tree = map_of [([''srv''], TDir), ([''srv'', ''lock''], TFile []), ([''srv'', ''bundle.toml''], TFile ''manifest''),
     ([''srv'', ''main.star''], TFile ''program'')]"

definition one_program :: "unit star_run" where
  "one_program = Native (NPrimitive ''file.symlink'' (SDict [(SStr ''path'', SStr ''/a''), (SStr ''target'', SStr ''/srv'')])) (\<lambda>_. Finish (Inr ()))"

definition one_interp :: "unit interp" where
  "one_interp = sample_interp\<lparr>in_parse := (\<lambda>entry source. Inr one_program)\<rparr>"

definition change_primitive :: "'h primitive" where
  "change_primitive = host_primitive_of (\<lambda>r. ret (Add ''new'' JNull)) (\<lambda>r d. ret (report_changed ''done''))"

definition run_host_env :: host_env where
  "run_host_env = prom_env\<lparr>he_fs := (\<lambda>op p. if op = OpTemp then Some ''read-only'' else None)\<rparr>"

definition sample_run_env :: "(nat, unit) run_env" where
  "sample_run_env = \<lparr>rv_version = ''0.1.0'', rv_host = run_host_env, rv_lock_mode = 420, rv_try_lock = (\<lambda>p w. (Inr True, w)),
     rv_unlock = id, rv_log_init = (\<lambda>w. None), rv_now = id, rv_utc = int, rv_stamp = (\<lambda>w. 0), rv_backup_time = (\<lambda>w. ''20240101T000000Z''), rv_cancelled = (\<lambda>w. False), rv_snooze = (\<lambda>d w. (0, w + d)),
     rv_secs = (\<lambda>n. ''0.000''), rv_cwd = [], rv_bundle_deps = sample_bundle_deps, rv_collectors = [], rv_root_env = sample_root_env,
     rv_os = quiet_env, rv_codec = sample_codec, rv_serde_error = (\<lambda>v. []), rv_net = (\<lambda>secs. sample_net), rv_bus = sample_bus, rv_proc = stuck_proc,
     rv_probe = stuck_probe, rv_glue = sample_glue, rv_interp = (\<lambda>w deadline. one_interp), rv_evaluated = id,
     rv_render = (\<lambda>dir file inv facts. Inl ''no templates''), rv_primitive = (\<lambda>args deadline dc kind. change_primitive),
     rv_glue_primitive = (\<lambda>kind. \<lparr>gp_identity_keys = [''path''], gp_build_payload = (\<lambda>args. Returned (symlink_build_payload args))\<rparr>),
     rv_order = rev, rv_plan_json = (\<lambda>rep. []), rv_apply_json = (\<lambda>rep. [])\<rparr>"

definition sample_run_args :: "bool \<Rightarrow> ApplyArgs" where
  "sample_run_args dry = \<lparr>aa_bundle = ''/srv'', aa_tags = [], aa_dry_run = dry, aa_continue_on_error = False, aa_format = ReportText,
     aa_lock_path = ''/srv/lock'', aa_deadline_sec = 600, aa_state_dir = ''/srv'', aa_log_dir = ''/srv'', aa_backup_dir = ''/srv'',
     aa_metric_file = ''/srv/m.prom'', aa_runr_url = ''http://127.0.0.1:8010'', aa_runr_timeout_sec = 10, aa_defers_dir = ''/tmp/bosun-defers'',
     aa_pacer_target_sec = 0, aa_pacer_min_interval_ms = 60, aa_pacer_max_interval_ms = 100, aa_init_system_override = None\<rparr>"

definition sample_node :: "nat node" where
  "sample_node = \<lparr>fh_tree = run_tree, fh_attr = (\<lambda>names. \<lparr>fa_mode = 493, fa_uid = 0, fa_gid = 0\<rparr>), fh_sensitive = Map.empty,
     fh_outside = \<lparr>ou_root = sample_root 0 Dir, ou_journal = fs_of sample_codec [], ou_facts = Map.empty, ou_stdout = [], ou_world = 0\<rparr>\<rparr>"

definition srv_bundle :: Bundle where
  "srv_bundle = \<lparr>bundle_metadata = sample_metadata, bundle_root = [''srv''], bundle_entry = [''srv'', ''main.star'']\<rparr>"

definition node_ready :: "nat node \<Rightarrow> bool" where
  "node_ready h \<longleftrightarrow> fh_tree h = run_tree \<and> ou_facts (fh_outside h) = Map.empty \<and> fs_files (ou_journal (fh_outside h)) = []"

lemmas run_env_eval = sample_run_env_def sample_run_args_def run_host_env_def prom_env_def

lemmas run_path_eval = path_components_def component_of_def ends_open_def os_path_def path_parent_def fs_create_dir_all.simps fs_mkdir_def
    fs_call_def add_entry_def dir_entry_def fs_is_dir_def canonicalize_def MAX_LINKS_def run_tree_def abs_path_def

lemma sample_open_lock: "open_target run_tree (Suc MAX_LINKS) (os_path ''/srv/lock'') = Inr [''srv'', ''lock'']"
  unfolding open_target.simps by (simp add: run_path_eval)

lemma lock_free:
  assumes "\<And>op p. op \<noteq> OpTemp \<Longrightarrow> he_fs (rv_host env) op p = None" "rv_try_lock env = (\<lambda>p w. (Inr True, w))"
    and "run_dirs args = replicate 4 (abs_path [''srv''])" "aa_lock_path args = ''/srv/lock''"
  shows "lock_result env args sample_node = (Inr Acquired, sample_node)"
proof -
  have calls: "he_fs (rv_host env) OpMkdir p = None" "he_fs (rv_host env) OpExists p = None" "he_fs (rv_host env) OpWrite p = None" for p
    using assms(1) by simp_all
  have "ensure_dirs (rv_host env) (run_dirs args) sample_node = (Inr (), sample_node)"
    by (simp add: assms(3) numeral_eq_Suc bindE_def map_err_def on_tree_def calls run_path_eval sample_node_def ret_def)
  moreover have "open_or_create (rv_host env) (rv_lock_mode env) (os_path ''/srv/lock'') sample_node = (Inr (), sample_node)"
  proof -
    have "fh_tree sample_node = run_tree" "run_tree [''srv'', ''lock''] = Some (TFile [])"
      by (simp_all add: sample_node_def run_tree_def)
    then show ?thesis using sample_open_lock by (simp add: open_or_create_def fs_call_def calls del: open_target.simps)
  qed
  ultimately show ?thesis
    by (simp add: lock_result_def bindE_def map_err_def try_flock_def assms(2,4)) (simp add: set_world_def on_outside_def node_world_def)
qed

lemma sample_lock: "lock_result sample_run_env (sample_run_args dry) sample_node = (Inr Acquired, sample_node)"
  by (rule lock_free) (simp_all add: run_env_eval run_dirs_def numeral_eq_Suc run_path_eval)

lemma sample_no_temp: "replace_file run_host_env (abs_path [''srv'']) path body sample_node = (Inl (FsOther ''read-only''), sample_node)"
  by (simp add: replace_file_def bindE_def on_tree_def run_env_eval run_path_eval sample_node_def host_temp_def)

lemma sample_tags: "snd (tags_write_atomic run_host_env (tags_metric_path ''/srv/m.prom'') tags sample_node) = sample_node"
proof -
  have "path_parent (tags_metric_path ''/srv/m.prom'') = Some (abs_path [''srv''])"
    by (simp add: tags_metric_path_def run_path_eval)
  then show ?thesis by (simp add: tags_write_atomic_def sample_no_temp)
qed

lemma sample_loaded: "load_bundle sample_run_env (sample_run_args dry) clock sample_node = (Inr srv_bundle, sample_node)"
  by (simp add: load_bundle_def load_dir_def load_manifest_def read_to_string_def resolve_within_root_def sample_bundle_deps_def
      sample_metadata_def srv_bundle_def path_eval run_env_eval sample_node_def run_tree_def check_compatibility_def Let_def)

lemma sample_opened:
  "\<exists>h. open_journal sample_run_env (sample_run_args dry) clock (collect_facts sample_run_env sample_node) = (Inr sample_journal, h) \<and> node_ready h"
proof -
  obtain root where "journal_open sample_root_env ''/tmp/bosun-defers'' (sample_root 0 Dir) = (Inr \<lparr>journal_root = ''/tmp/bosun-defers''\<rparr>, root)"
    using sample_open by blast
  then show ?thesis
    by (simp add: open_journal_def collect_facts_def on_outside_def run_env_eval sample_node_def node_ready_def sample_journal_def
        collect_at_start_def fs_of_def)
qed

lemma sample_connected:
  assumes "node_ready h"
  shows "connect_clients sample_run_env (sample_run_args dry) h =
    (\<lparr>cl_dispatcher = \<lparr>dc_runr = None, dc_systemd = None\<rparr>, cl_runr_reachable = None, cl_systemd_reachable = None\<rparr>, h)"
  using assms
  by (simp add: connect_clients_def node_ready_def run_env_eval init_system_value_def snapshot_get_def init_system_requires_runr_def
      init_system_requires_systemd_def)

lemma sample_replayed:
  assumes "node_ready h"
  shows "\<exists>report h'. maybe_run_replay_phase sample_run_env dry J client h = (report, h') \<and> node_ready h'"
  using assms
  by (cases dry) (simp_all add: maybe_run_replay_phase_def replay_with_health_check_def bindE_def on_store_def list_sorted_def map_err_def
      sys_read_dir_def syscall_def run_env_eval quiet_env_def node_ready_def Let_def ret_def on_outside_def)

definition link_payload :: json where
  "link_payload = JObject [(''force'', JBool False), (''path'', JString ''/a''), (''state'', JString ''present''), (''target'', JString ''/srv'')]"

definition one_registry :: "Registry \<Rightarrow> bool" where
  "one_registry reg \<longleftrightarrow> (\<exists>r. reg_resources reg = [r] \<and> reg_by_id reg = [res_id r \<mapsto> 0] \<and> res_id r = ''file.symlink:/a'' \<and>
     res_kind r = ''file.symlink'' \<and> res_payload r = link_payload \<and> resource_deps r = [] \<and> res_depends_on r = [])"

lemma one_evaluated:
  assumes "node_ready h"
  shows "\<exists>reg secrets. evaluator_evaluate one_interp (evaluator_env sample_run_env (sample_run_args dry) srv_bundle h) False False Map.empty =
     Some (Inr reg, secrets) \<and> one_registry reg"
proof -
  let ?env = "evaluator_env sample_run_env (sample_run_args dry) srv_bundle h"
  have fields: "ge_bundle ?env = srv_bundle" "ge_tree ?env = run_tree" "ge_cwd ?env = []"
      "ge_primitives ?env ''file.symlink'' =
         Some \<lparr>gp_identity_keys = [''path''], gp_build_payload = (\<lambda>args. Returned (symlink_build_payload args))\<rparr>"
    using assms
    by (simp_all add: evaluator_env_def sample_run_env_def node_ready_def build_primitives_def PRIMITIVE_KINDS_def node_glue_primitive_def)
  have run: "\<exists>st. eval_run one_interp ?env one_program (push_module m (eval_state_new Map.empty)) = Some (Inr (), st) \<and>
      ev_errors st = [] \<and> one_registry (ev_registry st)" for m
    by (simp add: one_program_def eval_run.simps one_interp_def sample_interp_def glue_eval symlink_build_payload_def symlink_arg_def
        optional_bool_def fields eval_state_new_def push_module_def registry_new_def resource_deps_def one_registry_def link_payload_def)
  have int: "in_parse one_interp f s = Inr one_program" "in_builtins one_interp = Inr ()" for f s
    by (simp_all add: one_interp_def sample_interp_def)
  have rd: "read_to_string run_tree [] (abs_path (bundle_entry srv_bundle)) = Inr ''program''"
    by (simp add: srv_bundle_def run_tree_def read_to_string_def canonicalize_def abs_path_def MAX_LINKS_def)
  show ?thesis
    using run [of "bundle_entry srv_bundle"]
    by (auto simp: evaluator_evaluate_def evaluate_manifest_def fields rd int eval_outcome_def pop_module_def)
qed

lemma one_order: "one_registry reg \<Longrightarrow> topological_order rev reg = Inr [''file.symlink:/a'']"
  by (auto simp: one_registry_def topological_order_def)

lemmas link_eval = symlink_spec_def symlink_spec_of_json_def link_payload_def de_field_def de_default_field_def de_string.simps de_bool.simps
    de_symlink_state_def symlink_validate_def has_parent_dir_segment_def is_absolute_def Let_def decide_action_symlink_def fs_lstat_def lstat_def attempt_def throw_def

lemma link_plan:
  assumes "res_payload r = link_payload"
  shows "symlink_plan (he_fs run_host_env) e r run_tree = (Inr (Add ''create symlink /a -> /srv'' link_payload), run_tree)"
  using assms
  by (simp add: symlink_plan_def symlink_diff_def link_eval bindE_def ret_def run_env_eval run_path_eval)

lemma link_apply:
  assumes "res_payload r = link_payload"
  shows "\<exists>t. symlink_apply (he_fs run_host_env) e r (Add x y) run_tree = (Inr (report_changed ''created symlink /a -> /srv''), t)"
  using assms
  by (simp add: symlink_apply_def is_no_change_def create_symlink_def ensure_parent_dir_def fs_exists_def io_context_def map_err_def fs_symlink_def link_eval bindE_def ret_def
      run_env_eval run_path_eval)

lemma one_applied:
  assumes "one_registry reg" "fh_tree h = run_tree"
  shows "\<exists>result h'. apply_phase sample_run_env (sample_run_args dry) clock deadline J dc reg h = (Inr result, h') \<and>
     rr_code result = (if dry then DRY_RUN_DRIFT else SUCCESS)"
proof -
  obtain r where r: "reg_resources reg = [r]" "reg_by_id reg = [res_id r \<mapsto> 0]" "res_id r = ''file.symlink:/a''"
      "res_kind r = ''file.symlink''" "res_payload r = link_payload" "res_depends_on r = []"
    using assms(1) by (auto simp: one_registry_def)
  let ?prims = "run_primitives sample_run_env (sample_run_args dry) deadline J dc"
  let ?p = "primitive_on fh_tree set_tree (FileSymlinkPrimitive (he_fs run_host_env) (\<lambda>v. [])) :: nat node primitive"
  let ?w = "\<lparr>w_ctx = apply_ctx_build, w_host = h\<rparr>"
  have prim: "?prims ''file.symlink'' = Some ?p"
    by (simp add: run_primitives_def build_primitives_def PRIMITIVE_KINDS_def node_primitive_kinds sample_run_env_def)
  have get: "registry_get reg ''file.symlink:/a'' = Some r" using r by (simp add: registry_get_def)
  have pcall: "call_primitive c (prim_plan ?p r) ?w = (Inr (Add ''create symlink /a -> /srv'' link_payload), ?w)" for c
    using assms(2) link_plan [OF r(5)]
    by (simp add: primitive_on_def call_on_def FileSymlinkPrimitive_def host_primitive_of_def on_host_def call_primitive_def)
  obtain t where t: "symlink_apply (he_fs run_host_env) (\<lambda>v. []) r (Add ''create symlink /a -> /srv'' link_payload) run_tree =
      (Inr (report_changed ''created symlink /a -> /srv''), t)" using link_apply [OF r(5)] by blast
  have acall: "call_primitive c (prim_apply ?p r (Add ''create symlink /a -> /srv'' link_payload)) w =
      (Inr (report_changed ''created symlink /a -> /srv''), \<lparr>w_ctx = w_ctx w, w_host = set_tree t (w_host w)\<rparr>)"
    if "fh_tree (w_host w) = run_tree" for c w
    using that t
    by (simp add: primitive_on_def call_on_def FileSymlinkPrimitive_def host_primitive_of_def on_host_def call_primitive_def)
  have dirty: "fh_tree (w_host (mark_facts_dirty sample_run_env k ?w)) = run_tree" for k
    using assms(2) by (simp add: mark_facts_dirty_def on_outside_def)
  note order = one_order [OF assms(1)]
  have pl: "\<exists>rep w'. plan_only rev ?prims reg ?w = (Inr rep, w') \<and> rr_code (plan_result rep) = DRY_RUN_DRIFT"
    by (simp add: plan_only_def order plan_step_def get prim r pcall plan_report_new_def plan_result_def has_drift_def Let_def)
  have ap: "\<exists>rep w'. orchestrator_apply rev ?prims (mark_facts_dirty sample_run_env) pause opts reg ?w = (Inr rep, w') \<and>
      rr_code (apply_result rep) = SUCCESS" for pause opts
    by (simp add: acall [OF dirty] orchestrator_apply_def order apply_step_def apply_resource_def get prim r run_primitive_def pcall finish_apply_def report_changed_def branch_defs run_state_new_def
        apply_result_def has_failures_def has_interruptions_def Let_def)
  have env: "rv_order sample_run_env = rev" "aa_dry_run (sample_run_args b) = b" for b by (simp_all add: sample_run_env_def sample_run_args_def)
  show ?thesis
  proof (cases dry)
    case True
    then show ?thesis using pl by (auto simp: apply_phase_def env in_apply_world_def Let_def)
  next
    case False
    then show ?thesis
      using ap [of "pacer_pause sample_run_env" "run_opts (sample_run_args dry)"]
      by (auto simp: apply_phase_def env in_apply_world_def Let_def)
  qed
qed

lemma sample_run: "\<exists>h'. apply_run sample_run_env (sample_run_args dry) sample_node = Some (if dry then DRY_RUN_DRIFT else SUCCESS, h')"
proof -
  let ?env = sample_run_env and ?args = "sample_run_args dry"
  let ?dc = "\<lparr>dc_runr = None, dc_systemd = None\<rparr> :: nat RealDispatchClient"
  let ?clock = "\<lparr>rc_started = rv_now ?env (node_world sample_node), rc_started_utc = rv_utc ?env (node_world sample_node)\<rparr>"
  obtain h1 where op: "open_journal ?env ?args ?clock (collect_facts ?env sample_node) = (Inr sample_journal, h1)" and r1: "node_ready h1"
    using sample_opened by blast
  obtain report h2 where rp: "maybe_run_replay_phase ?env dry sample_journal (real_dispatch (rv_proc ?env) ?dc) h1 = (report, h2)" and r2: "node_ready h2"
    using sample_replayed [OF r1] by blast
  obtain reg secrets where ev: "evaluator_evaluate one_interp (evaluator_env ?env ?args srv_bundle h2) False False Map.empty = Some (Inr reg, secrets)"
      and reg: "one_registry reg"
    using one_evaluated [OF r2] by blast
  let ?h3 = "set_world (rv_evaluated ?env (node_world h2)) (h2\<lparr>fh_sensitive := secrets\<rparr>)"
  have ep: "evaluate_phase ?env ?args ?clock d srv_bundle h2 = Some (Inr reg, ?h3)" for d
    using ev by (simp add: evaluate_phase_def sample_run_env_def Let_def)
  have fin: "\<exists>h'. finish_run ?env ?args ?clock d sample_journal clients totals reg ?h3 = (if dry then DRY_RUN_DRIFT else SUCCESS, h')" for d clients totals
  proof -
    have "fh_tree ?h3 = run_tree" using r2 by (simp add: node_ready_def set_world_def on_outside_def)
    then obtain result h4 where "apply_phase ?env ?args ?clock d sample_journal (cl_dispatcher clients) reg ?h3 = (Inr result, h4)"
        "rr_code result = (if dry then DRY_RUN_DRIFT else SUCCESS)"
      using one_applied [OF reg] by blast
    then show ?thesis by (simp add: finish_run_def Let_def split: prod.splits)
  qed
  have args: "aa_dry_run ?args = dry" "aa_metric_file ?args = ''/srv/m.prom''" by (simp_all add: sample_run_args_def)
  have tags: "snd (tags_write_atomic (rv_host ?env) (tags_metric_path ''/srv/m.prom'') tags sample_node) = sample_node" for tags
    using sample_tags by (simp add: sample_run_env_def)
  have "\<exists>h'. run_locked ?env ?args ?clock sample_node = Some (if dry then DRY_RUN_DRIFT else SUCCESS, h')"
    using fin by (simp add: run_locked_def args tags bindE_def sample_loaded op ret_def sample_connected [OF r1] rp ep Let_def)
  then show ?thesis
    using sample_lock [of dry] by (auto simp: apply_run_def lock_result_def sample_run_env_def Let_def)
qed

lemma one_honest: "honest_interp (\<lambda>_. {}) one_interp"
  unfolding honest_interp_def one_interp_def sample_interp_def one_program_def
  by (auto intro!: honest.intros)

theorem run_exit_exact_witness:
  "\<exists>h' b J registry secrets. apply_run sample_run_env (sample_run_args False) sample_node = Some (0, h') \<and>
     run_bundle sample_run_env (sample_run_args False) sample_node = Some b \<and>
     fst (run_journal sample_run_env (sample_run_args False) sample_node) = Inr J \<and>
     run_evaluation sample_run_env (sample_run_args False) b J sample_node = Some (Inr registry, secrets) \<and>
     finishes_with sample_run_env (sample_run_args False) (run_deadline sample_run_env (sample_run_args False) sample_node) J
       (cl_dispatcher (run_clients sample_run_env (sample_run_args False) sample_node)) registry
       (evaluated sample_run_env (sample_run_args False) J secrets sample_node) 0"
proof -
  obtain h' where run: "apply_run sample_run_env (sample_run_args False) sample_node = Some (SUCCESS, h')"
    using sample_run [of False] by auto
  have mo: "map_order (rv_order sample_run_env)" by (simp add: sample_run_env_def map_order_def)
  have hi: "\<forall>w deadline. honest_interp (\<lambda>_. {}) (rv_interp sample_run_env w deadline)"
    using one_honest by (simp add: sample_run_env_def)
  have log: "rv_log_init sample_run_env w = None" for w by (simp add: sample_run_env_def)
  have codes: "SUCCESS \<noteq> EVAL_ERROR" "SUCCESS \<noteq> CLI_ENV_ERROR" "SUCCESS = 0" by (simp_all add: exit_codes)
  show ?thesis
    using run_exit_exact [OF run mo hi] run sample_lock [of False] log codes by (auto split: option.splits sum.splits prod.splits)
      (metis sum.exhaust)
qed

text \<open>The run that fails to load its bundle, and what it writes.\<close>

definition open_env :: "(nat, unit) run_env" where
  "open_env = sample_run_env\<lparr>rv_host := prom_env\<rparr>"

definition lost_args :: ApplyArgs where
  "lost_args = (sample_run_args False)\<lparr>aa_bundle := ''/none''\<rparr>"

lemma srv_replace:
  assumes "fh_tree h [''srv''] = Some TDir" "fh_tree h [''srv'', ''.tmp''] = None" "fh_tree h [''srv'', m] \<noteq> Some TDir" "m \<noteq> ''.tmp''"
    and "os_path path = abs_path [''srv'', m]"
  shows "\<exists>a. replace_file prom_env (abs_path [''srv'']) path body h =
    (Inr (), h\<lparr>fh_tree := (fh_tree h)([''srv'', m] \<mapsto> TFile body), fh_attr := a\<rparr>)"
proof -
  have "(fh_tree h)([''srv'', ''.tmp''] := None) = fh_tree h" using assms(2) by (simp add: fun_upd_idem)
  then show ?thesis using assms by (simp add: metric_eval fun_upd_twist) (rule exI, rule refl)
qed

lemma lost_paths:
  "path_parent ''/srv/m.prom'' = Some (abs_path [''srv''])" "os_path ''/srv/m.prom'' = abs_path [''srv'', ''m.prom'']"
  "path_parent (tags_metric_path ''/srv/m.prom'') = Some (abs_path [''srv''])"
  "os_path (tags_metric_path ''/srv/m.prom'') = abs_path [''srv'', ''bosun_tags.prom'']"
  by (simp_all add: tags_metric_path_def run_path_eval)

lemma lost_run:
  "\<exists>h'. apply_run open_env lost_args sample_node = Some (EVAL_ERROR, h') \<and> unhindered prom_env [''srv''] ''m.prom'' (fh_tree h')"
proof -
  let ?clock = "\<lparr>rc_started = rv_now open_env (node_world sample_node), rc_started_utc = rv_utc open_env (node_world sample_node)\<rparr>"
  have env: "rv_host open_env = prom_env" "aa_metric_file lost_args = ''/srv/m.prom''" "aa_tags lost_args = []"
      "rv_log_init open_env w = None" "rv_bundle_deps open_env = sample_bundle_deps" "rv_cwd open_env = []" "aa_bundle lost_args = ''/none''" for w
    by (simp_all add: open_env_def lost_args_def sample_run_env_def sample_run_args_def)
  have lock: "lock_result open_env lost_args sample_node = (Inr Acquired, sample_node)"
    by (rule lock_free) (simp_all add: open_env_def lost_args_def run_env_eval run_dirs_def numeral_eq_Suc run_path_eval)
  obtain a where "replace_file prom_env (abs_path [''srv'']) (tags_metric_path ''/srv/m.prom'') (tags_format []) sample_node =
      (Inr (), sample_node\<lparr>fh_tree := (fh_tree sample_node)([''srv'', ''bosun_tags.prom''] \<mapsto> TFile (tags_format [])), fh_attr := a\<rparr>)"
    using srv_replace [of sample_node "''bosun_tags.prom''"] lost_paths by (auto simp: sample_node_def run_tree_def)
  then have tagged: "fh_tree (tagged open_env lost_args sample_node) = run_tree([''srv'', ''bosun_tags.prom''] \<mapsto> TFile (tags_format []))"
    by (simp add: tagged_def env tags_write_atomic_def lost_paths sample_node_def)
  have "run_bundle open_env lost_args sample_node = None"
    by (simp add: run_bundle_def tagged load_dir_def env run_path_eval)
  then have locked: "run_locked open_env lost_args ?clock sample_node =
      Some (failed_run open_env lost_args ?clock EVAL_ERROR (\<lambda>_. []) (tagged open_env lost_args sample_node))"
    by (simp add: run_locked_eq)
  let ?s = "failure_snapshot open_env ?clock EVAL_ERROR [] (node_world (tagged open_env lost_args sample_node))"
  let ?n = "tagged open_env lost_args sample_node"
  obtain a2 where "replace_file prom_env (abs_path [''srv'']) ''/srv/m.prom'' (metric_format (rv_secs open_env) ?s) ?n =
      (Inr (), ?n\<lparr>fh_tree := (fh_tree ?n)([''srv'', ''m.prom''] \<mapsto> TFile (metric_format (rv_secs open_env) ?s)), fh_attr := a2\<rparr>)"
    using srv_replace [of ?n "''m.prom''"] lost_paths(2) by (auto simp: tagged run_tree_def)
  then have written: "fh_tree (write_metric open_env lost_args ?s ?n) =
      run_tree([''srv'', ''bosun_tags.prom''] \<mapsto> TFile (tags_format []),
        [''srv'', ''m.prom''] \<mapsto> TFile (metric_format (rv_secs open_env) ?s))"
    by (simp add: write_metric_def env metric_write_atomic_def lost_paths bindE_def sync_silent tagged)
  have "\<exists>h'. apply_run open_env lost_args sample_node = Some (EVAL_ERROR, h') \<and> fh_tree h' = fh_tree (write_metric open_env lost_args ?s ?n)"
    using lock locked
    by (auto simp: apply_run_def lock_result_def env failed_run_def write_failure_metric_def set_world_def on_outside_def Let_def)
  moreover have "unhindered prom_env [''srv''] ''m.prom'' (fh_tree (write_metric open_env lost_args ?s ?n))"
    by (simp add: unhindered_def written prom_env_def dirs_def run_tree_def)
  ultimately show ?thesis by metis
qed

theorem run_reports_exit_witness:
  "\<exists>h' snapshot. apply_run open_env lost_args sample_node = Some (3, h') \<and> ms_exit_code snapshot = 3 \<and>
     fh_tree h' [''srv'', ''m.prom''] = Some (TFile (metric_format (rv_secs open_env) snapshot))"
proof -
  obtain h' where run: "apply_run open_env lost_args sample_node = Some (EVAL_ERROR, h')"
      and free: "unhindered prom_env [''srv''] ''m.prom'' (fh_tree h')"
    using lost_run by blast
  have path: "os_path (aa_metric_file lost_args) = abs_path ([''srv''] @ [''m.prom''])"
    by (simp add: lost_args_def sample_run_args_def lost_paths)
  have "lock_result open_env lost_args sample_node = (Inr Acquired, sample_node)"
    by (rule lock_free) (simp_all add: open_env_def lost_args_def run_env_eval run_dirs_def numeral_eq_Suc run_path_eval)
  then have "boots open_env lost_args sample_node" by (simp add: boots_def open_env_def sample_run_env_def)
  moreover have "unhindered (rv_host open_env) [''srv''] ''m.prom'' (fh_tree h')" using free by (simp add: open_env_def)
  ultimately show ?thesis using run_reports_exit [OF run path] run by (auto simp: exit_codes)
qed

lemma sample_registry_kinds:
  assumes "registry_of_run sample_run_env (sample_run_args True) sample_node = Some registry"
  shows "\<forall>r \<in> set (reg_resources registry). res_kind r \<in> set MODELLED_KINDS"
proof -
  let ?env = sample_run_env and ?args = "sample_run_args True"
  let ?clock = "\<lparr>rc_started = 0, rc_started_utc = 0\<rparr>"
  have tagged: "tagged ?env ?args sample_node = sample_node"
    using sample_tags by (simp add: tagged_def sample_run_env_def sample_run_args_def)
  have b: "run_bundle ?env ?args sample_node = Some srv_bundle"
    using sample_loaded [of True ?clock] by (auto simp: run_bundle_def tagged load_bundle_def fail_run_def split: sum.splits)
  obtain h1 where op: "open_journal ?env ?args ?clock (collect_facts ?env sample_node) = (Inr sample_journal, h1)" and r1: "node_ready h1"
    using sample_opened by blast
  have root: "ou_root (fh_outside (collect_facts ?env sample_node)) = ou_root (fh_outside sample_node)"
    by (simp add: collect_facts_def on_outside_def)
  have J: "fst (run_journal ?env ?args sample_node) = Inr sample_journal" "opened ?env ?args sample_node = h1"
    using op root by (auto simp: run_journal_def opened_def tagged open_journal_def fail_run_def Let_def split: sum.splits prod.splits)
  have "snd (run_replay ?env ?args sample_journal sample_node) = h1"
    using sample_connected [OF r1, of True] J(2) by (simp add: run_replay_def maybe_run_replay_phase_def sample_run_args_def)
  then obtain reg secrets where "run_evaluation ?env ?args srv_bundle sample_journal sample_node = Some (Inr reg, secrets)" "one_registry reg"
    using one_evaluated [OF r1, of True] by (auto simp: run_evaluation_def Let_def sample_run_env_def)
  then show ?thesis using assms b J(1) by (auto simp: registry_of_run_def one_registry_def MODELLED_KINDS_def)
qed


end
