(* ===== verification/Spec2Isabelle.thy ===== *)
theory Spec2Isabelle
  imports
    Inventory
    Resource_Registry
    Journal_Props
    Journal_Open
    Defer_Replay
    Pacer
    Primitive
    Orchestrator
    Facts_Collector
    Path_Safety
    Unit_Name
    Runr_Client
    Call_Args
    File_Symlink
    Child_Process
    Systemd_Client
    Handles
    Dispatch
    Health_Check
    Service_Unit
    Runr_Service
    Systemd_Service
    File_Delete
    Content_Props
    Starlark_Props
    Cli_Status
    Cli_Metric
    Cli_Run
    Run_Props
begin

text \<open>
  Bosun brings a host into the state that a bundle describes.  A bundle is a directory with a manifest in Starlark; the manifest is
  evaluated to a registry of resources with links between them (\<open>bosun-core/src/evaluator.rs\<close>, \<open>starlark_glue\<close>), the
  orchestrator plans and applies the resources in topological order (\<open>orchestrator.rs\<close>, \<open>registry.rs\<close>), each resource through
  the primitive of its kind (\<open>bosun-primitives/src\<close>).  Work that has to wait, such as the restart of a service, is written to a
  journal of files (\<open>defers/journal.rs\<close>) and done by a replay cycle at the end of the run (\<open>defers/replay.rs\<close>,
  \<open>bosun-primitives/src/dispatch.rs\<close>), which talks to runr over HTTP (\<open>bosun-runr-client\<close>) or to systemd over D-Bus
  (\<open>bosun-systemd-client\<close>).  All paths below are under \<open>src/bosun-client/crates\<close>.

  Conventions.  A fallible function is a sum, \<open>Inl\<close> the error; a function with effects is a \<open>prog\<close>: it takes a state and
  returns a sum and the new state, and \<open>bindE\<close> is the question mark operator.  Machine integers are words.  Whatever the
  environment may do is a parameter: an \<open>os\<close> or a \<open>host_env\<close> decides for every call whether it is refused and with which
  error, so that the theorems hold whatever calls fail; clocks are functions from the number of reads, and the order of a hash
  map is an unknown permutation.  Strings are lists of characters that stand for bytes.  A loop whose end depends on the clock or on
  another process is a \<open>partial_function (option)\<close>, \<open>None\<close> meaning that it does not return; the theorems on it say under
  which behaviour of the clock it does.  The one bound in the models is \<open>MAX_LINKS\<close>, the 40 links after which Linux answers
  ELOOP.  There is no fuel.

  Theories, from the data up.

    \<^item> \<open>Bosun_Prelude\<close>: sums, programs with state, words, the collections of simplification rules.  \<open>Bosun_Json\<close>: \<open>serde_json\<close>
      values and the derived (de)serialisers.  \<open>Std_Path\<close>, \<open>Std_Fmt\<close>: what the sources use of \<open>std::path\<close> and of formatting,
      and the resolution of paths with links.  \<open>Digest\<close>: \<open>sha256_hex\<close> over an unknown digest.

    \<^item> \<open>Inventory\<close> (\<open>inventory.rs\<close>): lookup, the merge strategies and the keyed merge; the overriding source wins at every leaf.

    \<^item> \<open>Resource_Registry\<close> (\<open>resource.rs\<close>, \<open>registry.rs\<close>): kinds, ids, the registry with its index and Kahn's algorithm; its
      order is sound, and exists exactly for known acyclic links.

    \<^item> \<open>Defer_Format\<close>, \<open>Journal_Fs\<close>, \<open>Defer_Journal\<close>, \<open>Journal_Props\<close>, \<open>Journal_Open\<close> (\<open>defers\<close>): entries and their
      file format, a directory with durable and volatile content, all operations of the journal; no accepted request is lost
      under any failure, and without failures the journal refines a map with the deduplication rules.  \<open>Defer_Replay\<close>: one
      replay cycle, over the locales \<open>entry_store\<close> for the journal and a client.

    \<^item> \<open>Primitive\<close>, \<open>Orchestrator\<close>, \<open>Pacer\<close>, \<open>Facts_Collector\<close> (\<open>primitive.rs\<close>, \<open>diff.rs\<close>, \<open>orchestrator.rs\<close>,
      \<open>pacer.rs\<close>, \<open>bosun-facts/src/collector.rs\<close>): the contract of primitives, \<open>plan_only\<close> and \<open>apply\<close> with panics,
      cancellation and skipped dependants, the pauses, the cache of facts.

    \<^item> \<open>Path_Safety\<close> (\<open>path_safety.rs\<close>, \<open>bundle.rs\<close>): which files a bundle can reach.  \<open>Unit_Name\<close>, \<open>Call_Args\<close>: validated
      unit names, typed arguments of a call.

    \<^item> \<open>Starlark_Calls\<close>, \<open>Starlark_Eval\<close>, \<open>Starlark_Props\<close> (\<open>starlark_glue\<close>, \<open>evaluator.rs\<close>): the native functions, the module
      loader and the run of a manifest.  The interpreter is a library: what it does with a module is a value of the codatatype
      \<open>star_run\<close>, and the theorems hold for all of them.

    \<^item> \<open>File_Host\<close>, \<open>File_Common\<close>, \<open>File_Attr\<close>: a file tree with links, attributes and the system calls on it.  \<open>File_Symlink\<close>,
      \<open>File_Delete\<close>, \<open>File_Content\<close>, \<open>Content_Props\<close>: the primitives for files, each with specification, plan and apply.

    \<^item> \<open>Child_Process\<close> (\<open>validate.rs\<close>), \<open>Health_Check\<close>, \<open>Runr_Client\<close>, \<open>Systemd_Client\<close>, \<open>Handles\<close>: child processes with a
      time limit, health checks, the clients of the two init systems and the trait objects around them.  \<open>Dispatch\<close>: the
      execution of journal entries.

    \<^item> \<open>Service_Unit\<close>, \<open>Runr_Service\<close>, \<open>Systemd_Service\<close>: the service primitives, what they share first.

    \<^item> \<open>Cli_Status\<close>, \<open>Cli_Metric\<close>, \<open>Cli_Run\<close>, \<open>Run_Props\<close> (\<open>bosun-cli/src\<close>: \<open>status.rs\<close>, \<open>exit_code.rs\<close>,
      \<open>metric.rs\<close>, \<open>tags_metric.rs\<close>, \<open>bootstrap.rs\<close>, \<open>run.rs\<close>): the commands.  \<open>apply_run\<close> composes the
      evaluation of the manifest, the plan, the apply, the replay and the metrics of the other theories into a whole run, with
      \<open>file.content\<close>, \<open>file.symlink\<close>, \<open>file.delete\<close>, \<open>runr.service\<close> and \<open>systemd.service\<close> acting on the node
      (\<open>node_primitive\<close>); the primitives of the other kinds are a parameter.  A process that a validator or an entry of the journal
      starts changes the world outside, not the files of the node.  The theorems say which exit code this very run has, stage by
      stage, that its metrics hold the code when they can be written, and that a dry run over the five kinds changes nothing.

  This theory holds what spans components: a restart that a changed file asks for reaches the daemon
  (\<open>notified_restart_is_delivered\<close>).

  Lemma groups.  Per operation there is a lemma \<open>..._run\<close> or \<open>..._at\<close> that says what it does on every branch; invariants
  (\<open>registry_inv\<close>, \<open>links_back\<close>, \<open>contents_match\<close>, \<open>tree_wf\<close>) have one preservation lemma per operation; the theorems
  with a claim id follow from these.

  Not modelled: the libraries themselves (the Starlark interpreter, YAML, TOML and semver parsers, minijinja, SHA-256, HTTP, D-Bus,
  PostgreSQL), which are parameters; the parser of the command line and the set-up of logging, which only call libraries; the
  validation of bundles; the collectors of single facts, which are parameters of \<open>Facts_Collector\<close>; and the components that \<open>PROJECT.json\<close> lists as not modelled.
\<close>

section \<open>From a changed file to a restarted service\<close>

lemma make_id_restart: "make_id ''runr'' act n = make_id ''runr'' Restart n \<Longrightarrow> act = Restart"
  by (cases act) (simp_all add: make_id_def)

lemma not_subsumes_restart: "\<not> subsumes act Restart"
  by (cases act) simp_all

text \<open>The daemon got the request to restart a unit in the world \<open>w\<close> and acknowledged it.\<close>

definition restart_acknowledged :: "'w runr_net \<Rightarrow> runr_client \<Rightarrow> string \<Rightarrow> 'w \<Rightarrow> bool" where
  "restart_acknowledged net c name w \<longleftrightarrow>
     (\<exists>body reply ack w'. net_call net (HttpPost (client_base_url c @ unit_path ''services'' name ''restart'')
        [(''Content-Type'', ''application/json'')] body) w = (Inr (Inr reply), w') \<and> net_de_ack net reply = Inr ack)"

lemma restart_drop_cause:
  assumes "drops_at (real_dispatch api dc) runner x u" "dc_runr dc = Some (client_handle net c)"
    and "entry_init_system x = ''runr''" "entry_action x = Restart"
  shows "exhausted x \<or> restart_acknowledged net c (entry_target x) u"
proof (cases "exhausted x")
  case False
  then obtain w1 where d: "real_dispatch api dc x u = (Inr (), w1)" using assms(1) unfolding drops_at_def by blast
  obtain body where rq: "runr_request c x = Some (HttpPost (client_base_url c @ unit_path ''services'' (entry_target x) ''restart'')
      [(''Content-Type'', ''application/json'')] body)"
    using assms(4) by (simp add: runr_request_def Let_def)
  obtain answer w2 where call: "net_call net (HttpPost (client_base_url c @ unit_path ''services'' (entry_target x) ''restart'')
      [(''Content-Type'', ''application/json'')] body) u = (answer, w2)" by fastforce
  have "runr_outcome net answer (Inr ())"
    using dispatch_runr_run [OF assms(2,3) rq call, of api] d by auto
  then obtain reply ack where "answer = Inr (Inr reply)" "net_de_ack net reply = Inr ack"
    by (auto simp: runr_outcome_def split: sum.splits ureq_error.splits)
  then show ?thesis using call unfolding restart_acknowledged_def by blast
qed simp

text \<open>
  C12. A restart that a changed file asks for reaches the daemon.  When \<open>runr.service\<close> has been notified and reports
  the restart as deferred, then after the next replay cycle, whatever failed in it, a restart of
  this unit is still pending in the journal, or in that cycle an entry for it was dispatched and the runr
  daemon acknowledged the request to restart exactly this unit, or the entry was dispatched and had used up its
  attempts.  No fault or cancellation in between loses the request.
\<close>

theorem notified_restart_is_delivered:
  assumes "runr_service_apply env r d v = (Inr rep, v')" "cr_deferred rep" "\<not> is_no_change d"
    and "restart_triggered r (w_ctx v)" "service_spec_of_json False (res_payload r) = Some spec"
    and "store_inv (se_codec env) (fst (w_host v))" "ids_ok (jmap (se_codec env) (fst (w_host v)))"
    and "dc_runr dc = Some (client_handle net c)"
    and "replay_with_health_check (se_os env) (se_codec env) (se_journal env) (real_dispatch api dc) runner cancelled (w_host v') =
      (res, s, w)"
  shows "\<exists>x \<in> ran (jmap (se_codec env) (fst (w_host v'))).
    entry_init_system x = ''runr'' \<and> entry_target x = sv_name spec \<and> entry_action x = Restart \<and>
    (x \<in> ran (jmap (se_codec env) s) \<or> bumped x \<in> ran (jmap (se_codec env) s) \<or>
     (\<exists>u. (x, u) \<in> set (replay_calls (se_os env) (se_codec env) (se_journal env) (real_dispatch api dc) runner cancelled (w_host v')) \<and>
        (restart_acknowledged net c (sv_name spec) u \<or> exhausted x)))"
proof -
  from runr_svc.replayed [OF assms(1-3,6,7,9)] obtain spec' act x where
    sp: "service_spec_of_json False (res_payload r) = Some spec'" and act': "notified_action r (w_ctx v) act" and x': "entry_init_system x = ''runr''" "entry_target x = sv_name spec'"
    and id': "entry_id x = make_id ''runr'' (entry_action x) (sv_name spec')"
      "entry_id x = make_id ''runr'' act (sv_name spec') \<or> subsumes (entry_action x) act"
    and pending: "x \<in> ran (jmap (se_codec env) (fst (w_host v')))"
    and after: "x \<in> ran (jmap (se_codec env) s) \<or> bumped x \<in> ran (jmap (se_codec env) s) \<or>
     (\<exists>u. (x, u) \<in> set (replay_calls (se_os env) (se_codec env) (se_journal env) (real_dispatch api dc) runner cancelled (w_host v')) \<and>
        drops_at (real_dispatch api dc) runner x u)"
    by blast
  have "spec' = spec" using sp assms(5) by simp
  note act = act' and x = x' [unfolded this] and id = id' [unfolded this]
  have "act = Restart" using act assms(4) by (simp add: notified_action_def)
  then have restart: "entry_action x = Restart"
    using id not_subsumes_restart make_id_restart [of "entry_action x" "sv_name spec"] by auto
  have "restart_acknowledged net c (sv_name spec) u \<or> exhausted x" if "drops_at (real_dispatch api dc) runner x u" for u
    using restart_drop_cause [OF that assms(8) x(1) restart] x(2) by auto
  then show ?thesis using pending x restart after by blast
qed

theorem notified_restart_is_delivered_witness:
  "\<exists>rep v' res s w. runr_service_apply (svc_env (Some (client_handle (svc_net 0) (client_new [])))) pg_service some_diff
       (svc_world {''file.content:/etc/pg.conf''}) = (Inr rep, v') \<and>
     replay_with_health_check quiet_env sample_codec sample_journal
       (real_dispatch stuck_proc \<lparr>dc_runr = Some (client_handle (svc_net 0) (client_new [])), dc_systemd = None\<rparr>)
       NoopHealthCheckRunner (\<lambda>_. False) (w_host v') = (res, s, w) \<and>
     (\<exists>x \<in> ran (jmap sample_codec (fst (w_host v'))). entry_target x = ''pg'' \<and> entry_action x = Restart)"
proof -
  obtain rep v' where run: "runr_service_apply (svc_env (Some (client_handle (svc_net 0) (client_new [])))) pg_service some_diff
     (svc_world {''file.content:/etc/pg.conf''}) = (Inr rep, v')" "cr_deferred rep"
    using svc_deferred_run by blast
  obtain res s w where rep: "replay_with_health_check quiet_env sample_codec sample_journal
       (real_dispatch stuck_proc \<lparr>dc_runr = Some (client_handle (svc_net 0) (client_new [])), dc_systemd = None\<rparr>)
       NoopHealthCheckRunner (\<lambda>_. False) (w_host v') = (res, s, w)" by (metis prod.exhaust)
  have hyps: "restart_triggered pg_service (w_ctx (svc_world {''file.content:/etc/pg.conf''}))"
    "store_inv sample_codec (fst (w_host (svc_world {''file.content:/etc/pg.conf''})))"
    "ids_ok (jmap sample_codec (fst (w_host (svc_world {''file.content:/etc/pg.conf''}))))"
    using well_named_fs_of [OF sample_codec_ok, of "[]"]
    by (simp_all add: restart_triggered_def is_changed_def svc_world_def store_inv_def fs_wf_def flat_dir_def ids_ok_def)
      (simp_all add: fs_of_def)
  show ?thesis
    using notified_restart_is_delivered [OF run _ hyps(1) pg_service_spec, where c = "client_new []" and net = "svc_net 0",
        unfolded svc_fields, OF _ hyps(2,3) _ rep] run rep by auto
qed

end
